(* ===== verification/Prelude.thy ===== *)
theory Prelude
  imports Main "HOL-Library.Char_ord" "HOL-Library.List_Lexorder" "HOL-Library.Multiset"
begin

text \<open>
  What the components share: the Go values and the part of the Go standard library they
  use. A Go string is a list of bytes (\<^typ>\<open>string\<close>, ordered lexicographically
  as Go and SQLite's BINARY collation order it), an error is a value of \<^verbatim>\<open>goerr\<close>, a
  fallible call returns \<^verbatim>\<open>goerr + 'a\<close> (\<open>Inl\<close> is the non-nil error). 64-bit
  integers are \<^typ>\<open>int\<close>, with the wrap-around \<^verbatim>\<open>i64\<close> written out where the
  code adds. The lemma collections \<open>go_strings\<close> and \<open>go_results\<close> carry the
  component proofs.
\<close>

named_theorems go_strings \<open>facts about the modelled functions of package strings\<close>
named_theorems go_results \<open>facts about results, errors and state passing\<close>

section \<open>Errors and results\<close>

text \<open>The S3 error codes of \<^verbatim>\<open>internal/object/errors.go\<close>.\<close>

datatype code =
    CodeNoSuchBucket | CodeNoSuchKey | CodeBucketAlreadyExists | CodeBucketNotEmpty
  | CodeInvalidBucketName | CodeInvalidArgument | CodeEntityTooLarge | CodeEntityTooSmall
  | CodeInternalError | CodeNotImplemented | CodeNoSuchUpload | CodeInvalidPart
  | CodeInvalidPartOrder | CodeMalformedXML

text \<open>
  The error values the modelled packages return: the sentinel errors of each package,
  \<^verbatim>\<open>*object.Error\<close> as \<open>ObjErr\<close>, and every other error (driver and operating-system
  errors, \<^verbatim>\<open>fmt.Errorf\<close>) as \<open>Other\<close> with its text.
\<close>

datatype goerr =
    ErrBucketNotFound | ErrBucketExists | ErrBucketNotEmpty | ErrObjectNotFound
  | ErrNoSuchUpload | ErrInvalidArgument
  | ErrNotFound | ErrPathEscape string
  | ErrUploadTooLarge
  | ErrEmptyCluster | ErrReplicationFactorTooLarge
  | ErrNotPrimary | ErrQuorumNotMet
  | ObjErr code string int
  | Other string

type_synonym 'a res = "goerr + 'a"

fun is_ok :: "'a res \<Rightarrow> bool" where
  "is_ok (Inl e) = False"
| "is_ok (Inr a) = True"

lemma is_ok_iff [go_results]: "is_ok r \<longleftrightarrow> (\<exists>a. r = Inr a)"
  by (cases r) auto

section \<open>Keyed stores\<close>

text \<open>
  The contract of everything the program addresses by a key: files by path, rows by their primary
  key. What a lookup returns after a sequence of updates and deletions is what the last
  operation on the key left.
\<close>

locale keyed_store =
  fixes look :: "'s \<Rightarrow> 'k \<Rightarrow> 'v option"
    and upd :: "'k \<Rightarrow> 'v \<Rightarrow> 's \<Rightarrow> 's"
    and del :: "'k \<Rightarrow> 's \<Rightarrow> 's"
  assumes look_upd: "look (upd k v s) k' = (if k' = k then Some v else look s k')"
    and look_del: "look (del k s) k' = (if k' = k then None else look s k')"
begin

lemma look_upd_same [simp]: "look (upd k v s) k = Some v"
  by (simp add: look_upd)

lemma look_upd_other [simp]: "k' \<noteq> k \<Longrightarrow> look (upd k v s) k' = look s k'"
  by (simp add: look_upd)

lemma look_del_same [simp]: "look (del k s) k = None"
  by (simp add: look_del)

lemma look_del_other [simp]: "k' \<noteq> k \<Longrightarrow> look (del k s) k' = look s k'"
  by (simp add: look_del)

lemma look_fold_del: "look (fold del ks s) k = (if k \<in> set ks then None else look s k)"
  by (induction ks arbitrary: s) (auto simp: look_del)

lemma look_del_cond: "look (if b then del k s else s) k' = (if b \<and> k' = k then None else look s k')"
  by (simp add: look_del)

lemma look_move:
  "look s a = Some v \<Longrightarrow> a \<noteq> b \<Longrightarrow>
   look (upd b v (del a s)) k = (if k = b then Some v else if k = a then None else look s k)"
  by (simp add: look_upd look_del)

end

section \<open>Integers\<close>

text \<open>Go's \<^verbatim>\<open>int64\<close> (and \<^verbatim>\<open>int\<close> on 64-bit targets): arithmetic wraps around.\<close>

definition i64 :: "int \<Rightarrow> int" where
  "i64 x = (x + 2 ^ 63) mod 2 ^ 64 - 2 ^ 63"

definition in_i64 :: "int \<Rightarrow> bool" where
  "in_i64 x \<longleftrightarrow> - (2 ^ 63) \<le> x \<and> x < 2 ^ 63"

lemma i64_id [simp]: "in_i64 x \<Longrightarrow> i64 x = x"
  by (simp add: in_i64_def i64_def)

lemma in_i64_i64 [simp]: "in_i64 (i64 x)"
proof -
  have "0 \<le> (x + 2 ^ 63) mod 2 ^ 64" and "(x + 2 ^ 63) mod 2 ^ 64 < (2 ^ 64 :: int)"
    by (rule pos_mod_sign pos_mod_bound; simp)+
  then show ?thesis by (simp add: in_i64_def i64_def)
qed

section \<open>Strings\<close>

definition HasPrefix :: "string \<Rightarrow> string \<Rightarrow> bool" where
  "HasPrefix s p \<longleftrightarrow> take (length p) s = p"

definition HasSuffix :: "string \<Rightarrow> string \<Rightarrow> bool" where
  "HasSuffix s p \<longleftrightarrow> HasPrefix (rev s) (rev p)"

definition TrimPrefix :: "string \<Rightarrow> string \<Rightarrow> string" where
  "TrimPrefix s p = (if HasPrefix s p then drop (length p) s else s)"

text \<open>\<^verbatim>\<open>strings.Index\<close>: the first position of a substring (None for -1).\<close>

fun Index :: "string \<Rightarrow> string \<Rightarrow> nat option" where
  "Index [] p = (if p = [] then Some 0 else None)"
| "Index (c # s) p = (if HasPrefix (c # s) p then Some 0 else map_option Suc (Index s p))"

definition Contains :: "string \<Rightarrow> string \<Rightarrow> bool" where
  "Contains s p \<longleftrightarrow> Index s p \<noteq> None"

text \<open>\<^verbatim>\<open>strings.Split\<close> with a one-byte separator, and \<^verbatim>\<open>strings.Join\<close>.\<close>

fun Split :: "char \<Rightarrow> string \<Rightarrow> string list" where
  "Split c [] = [[]]"
| "Split c (x # xs) =
     (if x = c then [] # Split c xs
      else (case Split c xs of [] \<Rightarrow> [[x]] | y # ys \<Rightarrow> (x # y) # ys))"

fun Join :: "string list \<Rightarrow> string \<Rightarrow> string" where
  "Join [] sep = []"
| "Join [s] sep = s"
| "Join (s # t # ss) sep = s @ sep @ Join (t # ss) sep"

text \<open>\<^verbatim>\<open>strings.ReplaceAll\<close> for a non-empty pattern: left to right, without overlap.\<close>

function ReplaceAll :: "string \<Rightarrow> string \<Rightarrow> string \<Rightarrow> string" where
  "ReplaceAll s old new =
     (case s of [] \<Rightarrow> []
      | c # cs \<Rightarrow> if old \<noteq> [] \<and> HasPrefix s old then new @ ReplaceAll (drop (length old) s) old new
                  else c # ReplaceAll cs old new)"
  by pat_completeness auto
termination
  by (relation "measure (\<lambda>(s, old, new). length s)") auto

declare ReplaceAll.simps [simp del]

text \<open>\<^verbatim>\<open>strings.Trim\<close> and \<^verbatim>\<open>strings.TrimRight\<close> with a one-byte cutset.\<close>

definition TrimRight :: "string \<Rightarrow> char \<Rightarrow> string" where
  "TrimRight s c = rev (dropWhile (\<lambda>x. x = c) (rev s))"

definition Trim :: "string \<Rightarrow> char \<Rightarrow> string" where
  "Trim s c = TrimRight (dropWhile (\<lambda>x. x = c) s) c"

text \<open>
  \<^verbatim>\<open>strings.TrimSpace\<close>: the UTF-8 encodings of the runes \<^verbatim>\<open>unicode.IsSpace\<close> accepts,
  stripped from both ends.
\<close>

definition go_spaces :: "string list" where
  "go_spaces =
     [[CHR 0x09], [CHR 0x0A], [CHR 0x0B], [CHR 0x0C], [CHR 0x0D], [CHR 0x20],
      [CHR 0xC2, CHR 0x85], [CHR 0xC2, CHR 0xA0], [CHR 0xE1, CHR 0x9A, CHR 0x80]]
     @ map (\<lambda>b. [CHR 0xE2, CHR 0x80, b])
         [CHR 0x80, CHR 0x81, CHR 0x82, CHR 0x83, CHR 0x84, CHR 0x85, CHR 0x86, CHR 0x87,
          CHR 0x88, CHR 0x89, CHR 0x8A, CHR 0xA8, CHR 0xA9, CHR 0xAF]
     @ [[CHR 0xE2, CHR 0x81, CHR 0x9F], [CHR 0xE3, CHR 0x80, CHR 0x80]]"

function strip_any :: "string list \<Rightarrow> string \<Rightarrow> string" where
  "strip_any ps s =
     (case find (\<lambda>p. p \<noteq> [] \<and> s \<noteq> [] \<and> HasPrefix s p) ps of
        None \<Rightarrow> s
      | Some p \<Rightarrow> strip_any ps (drop (length p) s))"
  by pat_completeness auto
termination
  by (relation "measure (\<lambda>(ps, s). length s)") (auto simp: find_Some_iff)

declare strip_any.simps [simp del]

definition TrimSpace :: "string \<Rightarrow> string" where
  "TrimSpace s = rev (strip_any (map rev go_spaces) (rev (strip_any go_spaces s)))"

text \<open>
  \<^verbatim>\<open>strings.ToLower\<close> and \<^verbatim>\<open>strings.ToUpper\<close> on ASCII text: the code applies them to header names, methods,
  signatures and fixed words. Bytes of other letters, which Go maps by Unicode, are left as they are.
\<close>

definition lower_char :: "char \<Rightarrow> char" where
  "lower_char c = (if CHR ''A'' \<le> c \<and> c \<le> CHR ''Z'' then char_of (of_char c + 32 :: nat) else c)"

definition upper_char :: "char \<Rightarrow> char" where
  "upper_char c = (if CHR ''a'' \<le> c \<and> c \<le> CHR ''z'' then char_of (of_char c - 32 :: nat) else c)"

definition ToLower :: "string \<Rightarrow> string" where
  "ToLower s = map lower_char s"

definition ToUpper :: "string \<Rightarrow> string" where
  "ToUpper s = map upper_char s"

text \<open>Decimal text of a natural number, and \<^verbatim>\<open>strconv.FormatInt(_, 10)\<close>.\<close>

definition digit_char :: "nat \<Rightarrow> char" where
  "digit_char d = char_of (48 + d)"

fun dec_digits :: "nat \<Rightarrow> string" where
  "dec_digits n = (if n < 10 then [digit_char n] else dec_digits (n div 10) @ [digit_char (n mod 10)])"

declare dec_digits.simps [simp del]

definition FormatInt :: "int \<Rightarrow> string" where
  "FormatInt i = (if i < 0 then CHR ''-'' # dec_digits (nat (- i)) else dec_digits (nat i))"

text \<open>
  \<^verbatim>\<open>strconv.ParseInt(s, 10, 64)\<close> (and \<^verbatim>\<open>strconv.Atoi\<close> on 64-bit targets): an optional
  sign, at least one decimal digit, no other byte, and a value in range; None is the error.
\<close>

definition is_digit :: "char \<Rightarrow> bool" where
  "is_digit c \<longleftrightarrow> CHR ''0'' \<le> c \<and> c \<le> CHR ''9''"

definition digits_val :: "string \<Rightarrow> int" where
  "digits_val s = foldl (\<lambda>n c. 10 * n + (of_char c - 48)) 0 s"

definition ParseInt :: "string \<Rightarrow> int option" where
  "ParseInt s =
     (let neg = HasPrefix s ''-'';
          body = (if neg \<or> HasPrefix s ''+'' then tl s else s);
          v = (if neg then - digits_val body else digits_val body)
      in if body \<noteq> [] \<and> list_all is_digit body \<and> in_i64 v then Some v else None)"

subsection \<open>Facts about strings\<close>

lemma HasPrefix_iff: "HasPrefix s p \<longleftrightarrow> (\<exists>t. s = p @ t)"
  by (metis HasPrefix_def append_eq_conv_conj append_take_drop_id)

lemma HasPrefix_simps [simp]:
  "HasPrefix s []" "\<not> HasPrefix [] (c # p)"
  "HasPrefix (d # s) (c # p) \<longleftrightarrow> d = c \<and> HasPrefix s p"
  "HasPrefix (p @ t) p"
  by (auto simp: HasPrefix_def)

lemma TrimPrefix_append [simp]: "TrimPrefix (p @ t) p = t"
  by (simp add: TrimPrefix_def)

lemma Index_Some: "Index s p = Some i \<Longrightarrow> \<exists>t. s = take i s @ p @ t \<and> i + length p \<le> length s"
proof (induction s p arbitrary: i rule: Index.induct)
  case (1 p)
  then show ?case by (auto split: if_splits)
next
  case (2 c s p)
  show ?case
  proof (cases "HasPrefix (c # s) p")
    case True
    with "2.prems" have "i = 0" by simp
    moreover from True have "length p \<le> length (c # s)"
      by (metis HasPrefix_iff length_append le_add1)
    ultimately show ?thesis using True by (auto simp: HasPrefix_iff)
  next
    case False
    with "2.prems" obtain j where j: "Index s p = Some j" "i = Suc j" by auto
    from "2.IH" [OF False j(1)] j(2) show ?thesis by auto
  qed
qed

lemma Index_append: "Index (a @ p @ t) p \<noteq> None"
proof (induction a)
  case Nil
  show ?case using HasPrefix_simps(4) [of p t]
    by (cases "p @ t") (auto simp del: HasPrefix_simps(4))
qed auto

lemma Contains_iff: "Contains s p \<longleftrightarrow> (\<exists>a t. s = a @ p @ t)"
proof
  assume "Contains s p"
  then obtain i where "Index s p = Some i" by (auto simp: Contains_def)
  then show "\<exists>a t. s = a @ p @ t" using Index_Some by blast
next
  assume "\<exists>a t. s = a @ p @ t"
  then show "Contains s p" using Index_append by (auto simp: Contains_def)
qed

lemma Split_not_Nil [simp]: "Split c s \<noteq> []"
  by (induction s) (auto split: list.splits)

lemma Join_Split: "Join (Split c s) [c] = s"
proof (induction s)
  case Nil
  then show ?case by simp
next
  case (Cons x s)
  then show ?case
    by (cases "Split c s"; cases "tl (Split c s)") auto
qed

lemma Split_no_sep: "t \<in> set (Split c s) \<Longrightarrow> c \<notin> set t"
  by (induction s arbitrary: t) (auto split: list.splits if_splits)

lemma Split_id: "c \<notin> set s \<Longrightarrow> Split c s = [s]"
  by (induction s) auto

lemma Split_append: "c \<notin> set s \<Longrightarrow> Split c (s @ c # t) = s # Split c t"
  by (induction s) auto

lemma Split_Join:
  "ss \<noteq> [] \<Longrightarrow> \<forall>s \<in> set ss. c \<notin> set s \<Longrightarrow> Split c (Join ss [c]) = ss"
  by (induction ss "[c]" rule: Join.induct) (auto simp: Split_append Split_id)

subsection \<open>Decimal text\<close>

lemma digit_char_facts:
  assumes "d < 10"
  shows "is_digit (digit_char d)" "(of_char (digit_char d) :: int) = 48 + int d"
proof -
  have "d \<in> {0,1,2,3,4,5,6,7,8,9}" using assms by auto
  then show "is_digit (digit_char d)"
    by (auto simp: is_digit_def digit_char_def less_eq_char_def)
  have "(of_char (digit_char d) :: nat) = 48 + d" using assms by (simp add: digit_char_def)
  then have "int (of_char (digit_char d)) = 48 + int d" by simp
  then show "(of_char (digit_char d) :: int) = 48 + int d" by (simp only: of_nat_of_char)
qed

lemma dec_digits_facts: "list_all is_digit (dec_digits n) \<and> dec_digits n \<noteq> [] \<and> digits_val (dec_digits n) = int n"
proof (induction n rule: dec_digits.induct)
  case (1 n)
  show ?case
  proof (cases "n < 10")
    case True
    then show ?thesis by (simp add: dec_digits.simps [of n] digits_val_def digit_char_facts)
  next
    case False
    have "int n = 10 * int (n div 10) + int (n mod 10)" by presburger
    with 1 False show ?thesis by (simp add: dec_digits.simps [of n] digits_val_def digit_char_facts)
  qed
qed

lemma dec_digits_sign: "\<not> HasPrefix (dec_digits n) ''-''" "\<not> HasPrefix (dec_digits n) ''+''"
  using dec_digits_facts [of n] by (cases "dec_digits n"; force simp: is_digit_def less_eq_char_def)+

lemma ParseInt_FormatInt [simp]: "in_i64 i \<Longrightarrow> ParseInt (FormatInt i) = Some i"
proof (cases "i < 0")
  case True
  assume "in_i64 i"
  with True dec_digits_facts [of "nat (- i)"] show ?thesis by (simp add: ParseInt_def FormatInt_def Let_def)
next
  case False
  assume "in_i64 i"
  with False dec_digits_facts [of "nat i"] dec_digits_sign [of "nat i"] show ?thesis
    by (simp add: ParseInt_def FormatInt_def Let_def)
qed

lemma dec_digits_inject: "dec_digits m = dec_digits n \<longleftrightarrow> m = n"
  by (metis dec_digits_facts of_nat_eq_iff)

lemma FormatInt_inject: "FormatInt i = FormatInt j \<longleftrightarrow> i = j"
proof
  assume eq: "FormatInt i = FormatInt j"
  have "i < 0 \<longleftrightarrow> HasPrefix (FormatInt i) ''-''" for i using dec_digits_sign by (simp add: FormatInt_def)
  with eq have "i < 0 \<longleftrightarrow> j < 0" by metis
  with eq show "i = j" by (cases "i < 0") (simp_all add: FormatInt_def dec_digits_inject eq_nat_nat_iff)
qed simp

lemma FormatInt_chars: "c \<in> set (FormatInt i) \<Longrightarrow> is_digit c \<or> c = CHR ''-''"
  using dec_digits_facts by (auto simp: FormatInt_def list_all_iff split: if_splits)

lemma FormatInt_nonempty [simp]: "FormatInt i \<noteq> ''''"
  using dec_digits_facts by (simp add: FormatInt_def)

end
