(* ===== verification/Quorum.thy ===== *)
theory Quorum
  imports Prelude
begin

text \<open>
  \<^verbatim>\<open>internal/quorum/quorum.go\<close>: the N/R/W thresholds, their validation at start-up, and
  the two tests the coordinator makes. The locale \<open>overlapping_quorums\<close> is the
  contract the replication layer relies on; it is interpreted on the model's own
  \<open>Validate\<close>, \<open>WriteSatisfied\<close> and \<open>ReadSatisfied\<close>.
\<close>

section \<open>Model\<close>

record Config =
  N :: int
  W :: int
  R :: int

datatype quorum_error = BadN | BadW int int | BadR int int | NoOverlap int int int

definition DefaultsForN :: "int \<Rightarrow> int \<times> int" where
  "DefaultsForN n = (if n \<ge> 3 then (2, 2) else (n, n))"

definition Validate :: "Config \<Rightarrow> quorum_error option" where
  "Validate c =
     (if N c < 1 then Some BadN
      else if W c < 1 \<or> W c > N c then Some (BadW (W c) (N c))
      else if R c < 1 \<or> R c > N c then Some (BadR (R c) (N c))
      else if i64 (W c + R c) \<le> N c then Some (NoOverlap (W c) (R c) (N c))
      else None)"

definition WriteSatisfied :: "Config \<Rightarrow> int \<Rightarrow> bool" where
  "WriteSatisfied c acks \<longleftrightarrow> acks \<ge> W c"

definition ReadSatisfied :: "Config \<Rightarrow> int \<Rightarrow> bool" where
  "ReadSatisfied c responses \<longleftrightarrow> responses \<ge> R c"

definition Enabled :: "Config \<Rightarrow> bool" where
  "Enabled c \<longleftrightarrow> N c > 1"

section \<open>The contract and its interpretation\<close>

locale overlapping_quorums =
  fixes valid :: "'c \<Rightarrow> bool"
    and size_of :: "'c \<Rightarrow> int"
    and write_ok :: "'c \<Rightarrow> int \<Rightarrow> bool"
    and read_ok :: "'c \<Rightarrow> int \<Rightarrow> bool"
  assumes counts_overlap: "valid c \<Longrightarrow> write_ok c a \<Longrightarrow> read_ok c b \<Longrightarrow> size_of c < a + b"
begin

text \<open>Two sets of replicas that meet the two thresholds share a replica.\<close>

lemma sets_intersect:
  assumes "valid c" and "finite S" and "int (card S) \<le> size_of c"
    and "A \<subseteq> S" and "write_ok c (int (card A))"
    and "B \<subseteq> S" and "read_ok c (int (card B))"
  shows "A \<inter> B \<noteq> {}"
proof
  assume "A \<inter> B = {}"
  have fin: "finite A" "finite B" using assms finite_subset by auto
  have "card A + card B = card (A \<union> B)"
    using \<open>A \<inter> B = {}\<close> fin by (simp add: card_Un_disjoint)
  also have "\<dots> \<le> card S"
    using assms by (intro card_mono) auto
  finally show False
    using counts_overlap [OF assms(1,5,7)] assms(3) by simp
qed

end

lemma in_i64_sum_small: "0 \<le> x \<Longrightarrow> x \<le> n \<Longrightarrow> 0 \<le> y \<Longrightarrow> y \<le> n \<Longrightarrow> i64 (x + y) > n \<Longrightarrow> n < x + y"
  for n :: int
  by (cases "in_i64 (x + y)") (auto simp: in_i64_def i64_def)

lemma Validate_None_iff:
  "Validate c = None \<longleftrightarrow>
     1 \<le> N c \<and> 1 \<le> W c \<and> W c \<le> N c \<and> 1 \<le> R c \<and> R c \<le> N c \<and> N c < i64 (W c + R c)"
  by (auto simp: Validate_def)

interpretation quorums: overlapping_quorums "\<lambda>c. Validate c = None" N WriteSatisfied ReadSatisfied
proof
  fix c a b
  assume "Validate c = None" "WriteSatisfied c a" "ReadSatisfied c b"
  then show "N c < a + b"
    using in_i64_sum_small [of "W c" "N c" "R c"]
    by (auto simp: Validate_None_iff WriteSatisfied_def ReadSatisfied_def)
qed

section \<open>Properties\<close>

text \<open>
  C1: with a configuration the server accepts at start-up, every set of replicas that
  acknowledged a write and every set that answered a read, both drawn from the N replicas
  of an object, have a replica in common.
\<close>

theorem quorum_overlap:
  assumes "Validate c = None" and "finite S" and "int (card S) \<le> N c"
    and "A \<subseteq> S" and "WriteSatisfied c (int (card A))"
    and "B \<subseteq> S" and "ReadSatisfied c (int (card B))"
  shows "A \<inter> B \<noteq> {}"
  using assms by (rule quorums.sets_intersect)

theorem quorum_overlap_witness:
  "{1, 2 :: nat} \<inter> {2, 3} \<noteq> {}"
proof -
  let ?c = "\<lparr>N = 3, W = 2, R = 2\<rparr>"
  have "Validate ?c = None" by (simp add: Validate_def i64_def)
  then show ?thesis
    by (rule quorum_overlap [where S = "{1, 2, 3}"])
       (simp_all add: WriteSatisfied_def ReadSatisfied_def)
qed

text \<open>
  The defaults the server picks for N replicas are accepted by its own validation
  exactly for N between 1 and 3: from N = 4 on, the default W = R = 2 no longer overlap.
\<close>

lemma defaults_valid_iff:
  "Validate \<lparr>N = n, W = fst (DefaultsForN n), R = snd (DefaultsForN n)\<rparr> = None \<longleftrightarrow> 1 \<le> n \<and> n \<le> 3"
proof -
  have "i64 4 = 4" and "i64 2 = 2" by (simp_all add: i64_def)
  moreover have "n = 1 \<or> n = 2" if "1 \<le> n" "n < 3" for n :: int using that by arith
  ultimately show ?thesis by (fastforce simp: Validate_None_iff DefaultsForN_def)
qed

end
