(* ===== verification/Go_Hash.thy ===== *)
theory Go_Hash
  imports Prelude "HOL-Library.Word"
begin

unbundle bit_operations_syntax

text \<open>
  The standard library's digests as the program uses them: \<^verbatim>\<open>crypto/md5\<close> (ETags),
  \<^verbatim>\<open>crypto/sha256\<close> (blob paths, placement scores, SigV4 payload and request hashes),
  \<^verbatim>\<open>crypto/hmac\<close> over SHA-256 (SigV4 signatures) and \<^verbatim>\<open>encoding/hex\<close>. The digests are
  computed as RFC 1321, FIPS 180-4 and RFC 2104 define them, on 32-bit words; a digest is
  a string of bytes. The proofs elsewhere use only their lengths and the hexadecimal
  round trip.
\<close>

section \<open>Bytes and blocks\<close>

type_synonym u32 = "32 word"

definition byte :: "int \<Rightarrow> char" where
  "byte n = char_of n"

fun chunks :: "nat \<Rightarrow> 'a list \<Rightarrow> 'a list list" where
  "chunks 0 xs = []"
| "chunks (Suc k) xs = take 64 xs # chunks k (drop 64 xs)"

text \<open>Both digests pad with 0x80, zeros, and the bit length in eight bytes.\<close>

definition pad :: "string \<Rightarrow> string \<Rightarrow> string" where
  "pad len8 m = m @ [CHR 0x80] @ replicate ((119 - length m mod 64) mod 64) (CHR 0x00) @ len8"

definition be_bytes :: "nat \<Rightarrow> int \<Rightarrow> string" where
  "be_bytes k n = map (\<lambda>i. byte (n div 256 ^ i mod 256)) (rev [0..<k])"

definition le_bytes :: "nat \<Rightarrow> int \<Rightarrow> string" where
  "le_bytes k n = map (\<lambda>i. byte (n div 256 ^ i mod 256)) [0..<k]"

definition be_word :: "string \<Rightarrow> u32" where
  "be_word bs = word_of_int (foldl (\<lambda>n c. 256 * n + of_char c) 0 bs)"

definition le_word :: "string \<Rightarrow> u32" where
  "le_word bs = be_word (rev bs)"

fun words_of :: "(string \<Rightarrow> u32) \<Rightarrow> string \<Rightarrow> u32 list" where
  "words_of f (a # b # c # d # bs) = f [a, b, c, d] # words_of f bs"
| "words_of f bs = []"

section \<open>SHA-256\<close>

definition sha256_K :: "u32 list" where
  "sha256_K = [
    1116352408, 1899447441, 3049323471, 3921009573, 961987163, 1508970993, 2453635748, 2870763221,
    3624381080, 310598401, 607225278, 1426881987, 1925078388, 2162078206, 2614888103, 3248222580,
    3835390401, 4022224774, 264347078, 604807628, 770255983, 1249150122, 1555081692, 1996064986,
    2554220882, 2821834349, 2952996808, 3210313671, 3336571891, 3584528711, 113926993, 338241895,
    666307205, 773529912, 1294757372, 1396182291, 1695183700, 1986661051, 2177026350, 2456956037,
    2730485921, 2820302411, 3259730800, 3345764771, 3516065817, 3600352804, 4094571909, 275423344,
    430227734, 506948616, 659060556, 883997877, 958139571, 1322822218, 1537002063, 1747873779,
    1955562222, 2024104815, 2227730452, 2361852424, 2428436474, 2756734187, 3204031479,
    3329325298]"

definition sha256_H :: "u32 list" where
  "sha256_H = [
    1779033703, 3144134277, 1013904242, 2773480762, 1359893119, 2600822924, 528734635,
    1541459225]"

text \<open>The message schedule, from a window of the last sixteen words.\<close>

fun sha256_sched :: "nat \<Rightarrow> u32 list \<Rightarrow> u32 list" where
  "sha256_sched 0 win = []"
| "sha256_sched (Suc k) win =
     (let w1 = win ! 1; w14 = win ! 14;
          s0 = word_rotr 7 w1 XOR word_rotr 18 w1 XOR drop_bit 3 w1;
          s1 = word_rotr 17 w14 XOR word_rotr 19 w14 XOR drop_bit 10 w14
      in hd win # sha256_sched k (tl win @ [hd win + s0 + win ! 9 + s1]))"

fun sha256_round :: "u32 list \<Rightarrow> u32 \<times> u32 \<Rightarrow> u32 list" where
  "sha256_round [a, b, c, d, e, f, g, h] (k, w) =
     (let s1 = word_rotr 6 e XOR word_rotr 11 e XOR word_rotr 25 e;
          ch = (e AND f) XOR (NOT e AND g);
          t1 = h + s1 + ch + k + w;
          s0 = word_rotr 2 a XOR word_rotr 13 a XOR word_rotr 22 a;
          maj = (a AND b) XOR (a AND c) XOR (b AND c)
      in [t1 + (s0 + maj), a, b, c, d + t1, e, f, g])"
| "sha256_round st kw = st"

definition sha256_block :: "u32 list \<Rightarrow> string \<Rightarrow> u32 list" where
  "sha256_block st blk =
     map2 (+) st (foldl sha256_round st (zip sha256_K (sha256_sched 64 (words_of be_word blk))))"

definition sha256 :: "string \<Rightarrow> string" where
  "sha256 m =
     (let p = pad (be_bytes 8 (8 * int (length m) mod 2 ^ 64)) m
      in concat (map (\<lambda>w. be_bytes 4 (uint w))
           (foldl sha256_block sha256_H (chunks (length p div 64) p))))"

section \<open>MD5\<close>

definition md5_T :: "u32 list" where
  "md5_T = [
    3614090360, 3905402710, 606105819, 3250441966, 4118548399, 1200080426, 2821735955, 4249261313,
    1770035416, 2336552879, 4294925233, 2304563134, 1804603682, 4254626195, 2792965006,
    1236535329, 4129170786, 3225465664, 643717713, 3921069994, 3593408605, 38016083, 3634488961,
    3889429448, 568446438, 3275163606, 4107603335, 1163531501, 2850285829, 4243563512, 1735328473,
    2368359562, 4294588738, 2272392833, 1839030562, 4259657740, 2763975236, 1272893353,
    4139469664, 3200236656, 681279174, 3936430074, 3572445317, 76029189, 3654602809, 3873151461,
    530742520, 3299628645, 4096336452, 1126891415, 2878612391, 4237533241, 1700485571, 2399980690,
    4293915773, 2240044497, 1873313359, 4264355552, 2734768916, 1309151649, 4149444226,
    3174756917, 718787259, 3951481745]"

definition md5_S :: "nat list" where
  "md5_S = [
    7, 12, 17, 22, 7, 12, 17, 22, 7, 12, 17, 22, 7, 12, 17, 22, 5, 9, 14, 20, 5, 9, 14, 20, 5, 9,
    14, 20, 5, 9, 14, 20, 4, 11, 16, 23, 4, 11, 16, 23, 4, 11, 16, 23, 4, 11, 16, 23, 6, 10, 15,
    21, 6, 10, 15, 21, 6, 10, 15, 21, 6, 10, 15, 21]"

definition md5_init :: "u32 list" where
  "md5_init = [
    1732584193, 4023233417, 2562383102, 271733878]"

fun md5_round :: "u32 list \<Rightarrow> u32 list \<Rightarrow> nat \<times> nat \<times> u32 \<Rightarrow> u32 list" where
  "md5_round blk [a, b, c, d] (i, s, t) =
     (let f = (if i < 16 then (b AND c) OR (NOT b AND d)
               else if i < 32 then (d AND b) OR (NOT d AND c)
               else if i < 48 then b XOR c XOR d
               else c XOR (b OR NOT d));
          g = (if i < 16 then i else if i < 32 then (5 * i + 1) mod 16
               else if i < 48 then (3 * i + 5) mod 16 else (7 * i) mod 16)
      in [d, b + word_rotl s (a + f + t + blk ! g), b, c])"
| "md5_round blk st x = st"

definition md5_block :: "u32 list \<Rightarrow> string \<Rightarrow> u32 list" where
  "md5_block st blk =
     map2 (+) st (foldl (md5_round (words_of le_word blk)) st (zip [0..<64] (zip md5_S md5_T)))"

definition md5 :: "string \<Rightarrow> string" where
  "md5 m =
     (let p = pad (le_bytes 8 (8 * int (length m) mod 2 ^ 64)) m
      in concat (map (\<lambda>w. le_bytes 4 (uint w))
           (foldl md5_block md5_init (chunks (length p div 64) p))))"

section \<open>HMAC-SHA256\<close>

definition hmac_key :: "string \<Rightarrow> string" where
  "hmac_key k = (let k' = (if length k > 64 then sha256 k else k)
                 in k' @ replicate (64 - length k') (CHR 0x00))"

definition xor_byte :: "int \<Rightarrow> char \<Rightarrow> char" where
  "xor_byte x c = char_of (of_char c XOR x)"

definition hmac_sha256 :: "string \<Rightarrow> string \<Rightarrow> string" where
  "hmac_sha256 k m =
     sha256 (map (xor_byte 0x5c) (hmac_key k) @ sha256 (map (xor_byte 0x36) (hmac_key k) @ m))"

section \<open>Hexadecimal\<close>

definition hex_digit :: "nat \<Rightarrow> char" where
  "hex_digit d = ''0123456789abcdef'' ! d"

definition hex_char :: "char \<Rightarrow> string" where
  "hex_char c = [hex_digit (of_char c div 16), hex_digit (of_char c mod 16)]"

text \<open>\<^verbatim>\<open>hex.EncodeToString\<close>.\<close>

definition hex_encode :: "string \<Rightarrow> string" where
  "hex_encode bs = concat (map hex_char bs)"

definition unhex_digit :: "char \<Rightarrow> int option" where
  "unhex_digit c =
     (if CHR ''0'' \<le> c \<and> c \<le> CHR ''9'' then Some (of_char c - 48)
      else if CHR ''a'' \<le> c \<and> c \<le> CHR ''f'' then Some (of_char c - 87)
      else if CHR ''A'' \<le> c \<and> c \<le> CHR ''F'' then Some (of_char c - 55)
      else None)"

text \<open>\<^verbatim>\<open>hex.DecodeString\<close>: None for an odd length or a byte that is no hexadecimal digit.\<close>

fun hex_decode :: "string \<Rightarrow> string option" where
  "hex_decode [] = Some []"
| "hex_decode [c] = None"
| "hex_decode (c # d # s) =
     (case (unhex_digit c, unhex_digit d, hex_decode s) of
        (Some x, Some y, Some bs) \<Rightarrow> Some (byte (16 * x + y) # bs)
      | _ \<Rightarrow> None)"

section \<open>Facts\<close>

subsection \<open>Published test vectors\<close>

lemma md5_abc: "hex_encode (md5 ''abc'') = ''900150983cd24fb0d6963f7d28e17f72''"
  by code_simp

lemma sha256_abc:
  "hex_encode (sha256 ''abc'') = ''ba7816bf8f01cfea414140de5dae2223b00361a396177a9cb410ff61f20015ad''"
  by code_simp

subsection \<open>Lengths\<close>

lemma length_be_bytes [simp]: "length (be_bytes k n) = k"
  by (simp add: be_bytes_def)

lemma length_le_bytes [simp]: "length (le_bytes k n) = k"
  by (simp add: le_bytes_def)

lemma length_concat_const:
  "(\<And>x. x \<in> set xs \<Longrightarrow> length (f x) = k) \<Longrightarrow> length (concat (map f xs)) = k * length xs"
  by (induction xs) auto

lemma length_foldl_inv:
  "length st = n \<Longrightarrow> (\<And>st x. length st = n \<Longrightarrow> length (f st x) = n) \<Longrightarrow> length (foldl f st xs) = n"
  by (induction xs arbitrary: st) auto

lemma length_sha256_round: "length (sha256_round st kw) = length st"
  by (cases "(st, kw)" rule: sha256_round.cases) (auto simp: Let_def)

lemma length_md5_round: "length (md5_round blk st x) = length st"
  by (cases "(blk, st, x)" rule: md5_round.cases) (auto simp: Let_def)

lemma length_sha256 [simp]: "length (sha256 m) = 32"
proof -
  have "length (sha256_block st b) = 8" if "length st = 8" for st b
    using that length_foldl_inv [of st 8 sha256_round]
    by (simp add: sha256_block_def length_sha256_round)
  then have "length (foldl sha256_block sha256_H bs) = 8" for bs
    by (intro length_foldl_inv) (simp_all add: sha256_H_def)
  then show ?thesis
    by (simp add: sha256_def Let_def length_concat_const [where k = 4])
qed

lemma length_md5 [simp]: "length (md5 m) = 16"
proof -
  have "length (md5_block st b) = 4" if "length st = 4" for st b
    using that length_foldl_inv [of st 4 "md5_round (words_of le_word b)"]
    by (simp add: md5_block_def length_md5_round)
  then have "length (foldl md5_block md5_init bs) = 4" for bs
    by (intro length_foldl_inv) (simp_all add: md5_init_def)
  then show ?thesis
    by (simp add: md5_def Let_def length_concat_const [where k = 4])
qed

lemma length_hex_encode [simp]: "length (hex_encode bs) = 2 * length bs"
  unfolding hex_encode_def by (rule length_concat_const) (simp add: hex_char_def)

subsection \<open>Hexadecimal round trip\<close>

lemma of_char_nibbles: "of_char c div 16 < (16 :: nat)" "of_char c mod 16 < (16 :: nat)"
  using nat_of_char_less_256 [of c] by linarith+

lemma hex_digit_range: "d < 16 \<Longrightarrow> hex_digit d \<in> set ''0123456789abcdef''"
  unfolding hex_digit_def by (rule nth_mem) simp

lemma unhex_hex_digit: "d < 16 \<Longrightarrow> unhex_digit (hex_digit d) = Some (int d)"
proof -
  have "\<forall>d \<in> set [0..<16]. unhex_digit (hex_digit d) = Some (int d)"
    by code_simp
  then show "d < 16 \<Longrightarrow> ?thesis" by simp
qed

lemma byte_hex: "byte (16 * int (of_char c div 16) + int (of_char c mod 16)) = c"
proof -
  have "int (of_char c) = int (16 * (of_char c div 16) + of_char c mod 16)"
    by (simp only: mult_div_mod_eq)
  then have "16 * int (of_char c div 16) + int (of_char c mod 16) = of_char c"
    by (simp only: of_nat_of_char of_nat_add of_nat_mult of_nat_numeral)
  then show ?thesis by (simp add: byte_def)
qed

lemma hex_decode_encode [simp]: "hex_decode (hex_encode bs) = Some bs"
proof (induction bs)
  case Nil
  then show ?case by (simp add: hex_encode_def)
next
  case (Cons c bs)
  have "unhex_digit (hex_digit (of_char c div 16)) = Some (int (of_char c div 16))"
    and "unhex_digit (hex_digit (of_char c mod 16)) = Some (int (of_char c mod 16))"
    by (intro unhex_hex_digit of_char_nibbles)+
  with Cons show ?case
    by (simp add: hex_encode_def hex_char_def byte_hex)
qed

lemma hex_encode_inject [simp]: "hex_encode a = hex_encode b \<longleftrightarrow> a = b"
  by (metis hex_decode_encode option.inject)

lemma set_hex_encode: "set (hex_encode bs) \<subseteq> set ''0123456789abcdef''"
proof -
  have "x \<in> set ''0123456789abcdef''" if "x \<in> set (hex_char c)" for c x
  proof -
    from that have "x = hex_digit (of_char c div 16) \<or> x = hex_digit (of_char c mod 16)"
      by (simp add: hex_char_def)
    then show ?thesis by (elim disjE ssubst) (intro hex_digit_range of_char_nibbles)+
  qed
  then show ?thesis by (auto simp add: hex_encode_def simp del: set_simps)
qed

lemma hex_encode_eq_Nil [simp]: "hex_encode bs = [] \<longleftrightarrow> bs = []"
  by (simp flip: length_0_conv)

end
