(* ===== verification/Metadata.thy ===== *)
theory Metadata
  imports Go_Hash
begin

text \<open>
  The data of \<^verbatim>\<open>internal/metadata\<close> and the tables of \<^verbatim>\<open>internal/metadata/sqlite\<close>.

  A table is the list of its rows in insertion order. Custom metadata, which the database holds as
  JSON text, is the map it encodes (an association list). A time is the number of nanoseconds
  since 1970; the database holds it as text, so a comparison or an ordering made by SQL is made on
  \<open>formatTime\<close>. Random identifiers and the clock come from the environment of a call, and a
  driver error of a statement happens when the statement's label is among the environment's
  faults.
\<close>

section \<open>Data\<close>

type_synonym time = int
type_synonym custom_md = "(string \<times> string) list"

record Bucket =
  bID :: string
  bName :: string
  bObjectCount :: int
  bTotalSize :: int
  bCreatedAt :: time
  bUpdatedAt :: time

record Object =
  oID :: string
  oBucketName :: string
  oKey :: string
  oSize :: int
  oContentType :: string
  oETag :: string
  oStoragePath :: string
  oCustomMetadata :: custom_md
  oVersion :: int
  oReplicationStatus :: string
  oDeleted :: bool
  oCreatedAt :: time
  oUpdatedAt :: time

record ListOptions =
  lPrefix :: string
  lDelimiter :: string
  lMaxKeys :: int
  lContinuationToken :: string
  lStartAfter :: string

record ListResult =
  rObjects :: "Object list"
  rCommonPrefixes :: "string list"
  rNextContinuationToken :: string
  rIsTruncated :: bool

record MultipartUpload =
  uID :: string
  uBucketName :: string
  uKey :: string
  uContentType :: string
  uCreatedAt :: time
  uUpdatedAt :: time

record MultipartPart =
  mUploadID :: string
  mPartNumber :: int
  mSize :: int
  mETag :: string
  mStoragePath :: string
  mCreatedAt :: time
  mUpdatedAt :: time

record CompletePart =
  cPartNumber :: int
  cETag :: string

datatype HintKind = HintKindPut | HintKindTombstone | HintKindRepair

record ReplicationHint =
  hID :: string
  hTargetNode :: string
  hBucketName :: string
  hKey :: string
  hVersion :: int
  hETag :: string
  hKind :: HintKind
  hContentType :: string
  hCustomMetadata :: custom_md
  hSourceNode :: string
  hSourcePath :: string
  hAttempts :: int
  hNextAttemptAt :: time
  hStatus :: string
  hLastError :: string
  hCreatedAt :: time

record Credential =
  crID :: string
  crName :: string
  AccessKeyID :: string
  SecretAccessKey :: string
  crCreatedAt :: time
  crUpdatedAt :: time

section \<open>Times\<close>

text \<open>The zero \<^verbatim>\<open>time.Time\<close> (year 1), and \<^verbatim>\<open>IsZero\<close>.\<close>

definition zero_time :: time where
  "zero_time = - 62135596800 * 10 ^ 9"

text \<open>The civil date of a day number (days since 1970-01-01, proleptic Gregorian calendar).\<close>

definition civil :: "int \<Rightarrow> int \<times> int \<times> int" where
  "civil day =
     (let z = day + 719468;
          era = z div 146097;
          doe = z - era * 146097;
          yoe = (doe - doe div 1460 + doe div 36524 - doe div 146096) div 365;
          doy = doe - (365 * yoe + yoe div 4 - yoe div 100);
          mp = (5 * doy + 2) div 153;
          d = doy - (153 * mp + 2) div 5 + 1;
          m = (if mp < 10 then mp + 3 else mp - 9);
          y = yoe + era * 400 + (if m \<le> 2 then 1 else 0)
      in (y, m, d))"

fun pad_digits :: "nat \<Rightarrow> int \<Rightarrow> string" where
  "pad_digits 0 n = []"
| "pad_digits (Suc k) n = pad_digits k (n div 10) @ [digit_char (nat (n mod 10))]"

text \<open>
  \<^verbatim>\<open>time.RFC3339Nano\<close> in UTC: seconds, then the fraction without its trailing zeros (nothing,
  not even the point, for a whole second).
\<close>

definition formatTime :: "time \<Rightarrow> string" where
  "formatTime t =
     (let secs = t div 10 ^ 9; ns = t mod 10 ^ 9;
          day = secs div 86400; sod = secs mod 86400
      in case civil day of (y, m, d) \<Rightarrow>
           pad_digits 4 y @ ''-'' @ pad_digits 2 m @ ''-'' @ pad_digits 2 d @ ''T'' @
           pad_digits 2 (sod div 3600) @ '':'' @ pad_digits 2 (sod div 60 mod 60) @ '':'' @
           pad_digits 2 (sod mod 60) @
           (if ns = 0 then '''' else ''.'' @ TrimRight (pad_digits 9 ns) (CHR ''0'')) @ ''Z'')"

lemma formatTime_examples:
  "formatTime 0 = ''1970-01-01T00:00:00Z''"
  "formatTime 951782400500000000 = ''2000-02-29T00:00:00.5Z''"
  "formatTime 1735689599000000001 = ''2024-12-31T23:59:59.000000001Z''"
  by code_simp+

section \<open>The database\<close>

record db =
  db_buckets :: "Bucket list"
  db_objects :: "Object list"
  db_uploads :: "MultipartUpload list"
  db_parts :: "MultipartPart list"
  db_hints :: "ReplicationHint list"
  db_credentials :: "Credential list"

definition empty_db :: db where
  "empty_db = \<lparr>db_buckets = [], db_objects = [], db_uploads = [], db_parts = [], db_hints = [],
     db_credentials = []\<rparr>"

record db_env =
  db_now :: time
  db_rand :: string
  db_faults :: "string list"

definition db_fails :: "db_env \<Rightarrow> string \<Rightarrow> bool" where
  "db_fails env l \<longleftrightarrow> l \<in> set (db_faults env)"

definition sql_err :: "string \<Rightarrow> goerr" where
  "sql_err l = Other l"

definition db_quiet :: "db_env \<Rightarrow> bool" where
  "db_quiet env \<longleftrightarrow> db_faults env = []"

lemma db_quiet_fails [simp]: "db_quiet env \<Longrightarrow> \<not> db_fails env l"
  by (simp add: db_quiet_def db_fails_def)

text \<open>\<^verbatim>\<open>newID\<close>: 16 random bytes in hexadecimal.\<close>

definition newID :: "db_env \<Rightarrow> string" where
  "newID env = hex_encode (db_rand env)"

definition unique_err :: goerr where
  "unique_err = Other ''UNIQUE constraint failed''"

definition foreign_err :: goerr where
  "foreign_err = Other ''FOREIGN KEY constraint failed''"

definition isUniqueViolation :: "goerr \<Rightarrow> bool" where
  "isUniqueViolation e = (case e of Other s \<Rightarrow> Contains s ''UNIQUE constraint failed'' | _ \<Rightarrow> False)"

lemma isUniqueViolation_simps [simp]:
  "isUniqueViolation unique_err" "\<not> isUniqueViolation foreign_err"
  unfolding isUniqueViolation_def unique_err_def foreign_err_def by code_simp+

section \<open>Rows by key\<close>

text \<open>
  Looking a row up, and the generic facts about updating, inserting and deleting rows by key that
  every table shares.
\<close>

definition row_at :: "('r \<Rightarrow> 'k) \<Rightarrow> 'r list \<Rightarrow> 'k \<Rightarrow> 'r option" where
  "row_at key rows k = find (\<lambda>r. key r = k) rows"

definition update_rows :: "('r \<Rightarrow> bool) \<Rightarrow> ('r \<Rightarrow> 'r) \<Rightarrow> 'r list \<Rightarrow> 'r list" where
  "update_rows P f rows = map (\<lambda>r. if P r then f r else r) rows"

lemma row_at_Some: "row_at key rows k = Some r \<Longrightarrow> r \<in> set rows \<and> key r = k"
  by (auto simp: row_at_def find_Some_iff)

lemma row_at_None: "row_at key rows k = None \<longleftrightarrow> k \<notin> key ` set rows"
  by (auto simp: row_at_def find_None_iff)

lemma row_at_append:
  "row_at key (rows @ [r]) k =
     (case row_at key rows k of Some x \<Rightarrow> Some x | None \<Rightarrow> if key r = k then Some r else None)"
  by (induction rows) (auto simp: row_at_def)

lemma row_at_update:
  assumes "\<And>r. key (f r) = key r"
  shows "row_at key (update_rows (\<lambda>r. key r = k) f rows) k' =
    (if k' = k then map_option f (row_at key rows k') else row_at key rows k')"
  using assms by (induction rows) (auto simp: row_at_def update_rows_def)

lemma row_at_filter:
  "row_at key (filter (\<lambda>r. key r \<noteq> k) rows) k' = (if k' = k then None else row_at key rows k')"
  by (induction rows) (auto simp: row_at_def)

lemma row_at_distinct:
  "distinct (map key rows) \<Longrightarrow> r \<in> set rows \<Longrightarrow> row_at key rows (key r) = Some r"
  by (induction rows) (auto simp: row_at_def image_iff)

lemma map_update_rows: "(\<And>r. g (f r) = g r) \<Longrightarrow> map g (update_rows P f rows) = map g rows"
  by (simp add: update_rows_def comp_def if_distrib cong: if_cong)

lemma image_update_rows:
  "(\<And>r. g (f r) = g r) \<Longrightarrow> g ` set (update_rows P f rows) = g ` set rows"
  using map_update_rows [of g f P rows] by (metis set_map)

lemma set_update_rows: "set (update_rows P f rows) \<subseteq> set rows \<union> f ` {r \<in> set rows. P r}"
  by (auto simp: update_rows_def)

lemma sum_list_update_row:
  fixes g :: "'r \<Rightarrow> int"
  assumes "distinct (map key rows)" "row_at key rows k = Some r" "\<And>r. key (f r) = key r"
  shows "sum_list (map g (filter Q (update_rows (\<lambda>r. key r = k) f rows))) =
     sum_list (map g (filter Q rows)) - (if Q r then g r else 0) + (if Q (f r) then g (f r) else 0)"
  using assms(1,2)
proof (induction rows)
  case (Cons a rows)
  show ?case
  proof (cases "key a = k")
    case True
    with Cons have "a = r" "k \<notin> key ` set rows" by (auto simp: row_at_def)
    then have "update_rows (\<lambda>r. key r = k) f rows = rows"
      by (auto simp: update_rows_def intro!: map_idI)
    then show ?thesis using True \<open>a = r\<close> by (simp add: update_rows_def)
  next
    case False
    with Cons show ?thesis by (auto simp: row_at_def update_rows_def)
  qed
qed (simp add: row_at_def)

lemma sum_list_delete_row:
  fixes g :: "'r \<Rightarrow> int"
  assumes "distinct (map key rows)" "row_at key rows k = Some r"
  shows "sum_list (map g (filter Q (filter (\<lambda>r. key r \<noteq> k) rows))) =
     sum_list (map g (filter Q rows)) - (if Q r then g r else 0)"
  using assms
proof (induction rows)
  case (Cons a rows)
  show ?case
  proof (cases "key a = k")
    case True
    with Cons have "a = r" "k \<notin> key ` set rows" by (auto simp: row_at_def)
    then have "filter (\<lambda>r. key r \<noteq> k) rows = rows" by (auto simp: filter_id_conv)
    then show ?thesis using True \<open>a = r\<close> by simp
  next
    case False
    with Cons show ?thesis by (auto simp: row_at_def)
  qed
qed (simp add: row_at_def)

lemma distinct_filter_key: "distinct (map key rows) \<Longrightarrow> distinct (map key (filter P rows))"
  by (induction rows) auto

lemma pad_digits_digits: "list_all is_digit (pad_digits k n)"
proof (induction k arbitrary: n)
  case (Suc k)
  have "nat (n mod 10) < 10" by (simp add: nat_less_iff)
  with Suc show ?case by (simp add: digit_char_facts)
qed simp

end
