(* ===== verification/MetaStore.thy ===== *)
theory MetaStore
  imports Metadata
begin

text \<open>
  \<^verbatim>\<open>internal/metadata/sqlite/store.go\<close> and \<^verbatim>\<open>stats.go\<close>: buckets and objects. Every method of
  the store is a function of the environment, its arguments and the database; a method that runs
  a transaction returns the old database when a statement or the commit fails (the deferred
  rollback). UNIQUE and foreign-key constraints of the schema are checked where a statement
  can violate them.
\<close>

section \<open>Buckets\<close>

definition bucket_at :: "db \<Rightarrow> string \<Rightarrow> Bucket option" where
  "bucket_at db name = row_at bName (db_buckets db) name"

definition okey :: "Object \<Rightarrow> string \<times> string" where
  "okey o' = (oBucketName o', oKey o')"

definition obj_at :: "db \<Rightarrow> string \<Rightarrow> string \<Rightarrow> Object option" where
  "obj_at db b k = row_at okey (db_objects db) (b, k)"

definition CreateBucket :: "db_env \<Rightarrow> string \<Rightarrow> db \<Rightarrow> db \<times> unit res" where
  "CreateBucket env name db =
     (let now = db_now env; id' = newID env in
      if db_fails env ''bucket.insert'' then (db, Inl (sql_err ''bucket.insert''))
      else if name \<in> bName ` set (db_buckets db) \<or> id' \<in> bID ` set (db_buckets db)
      then (db, Inl ErrBucketExists)
      else (db\<lparr>db_buckets := db_buckets db @
              [\<lparr>bID = id', bName = name, bObjectCount = 0, bTotalSize = 0, bCreatedAt = now, bUpdatedAt = now\<rparr>]\<rparr>,
            Inr ()))"

definition objectCount :: "db_env \<Rightarrow> string \<Rightarrow> db \<Rightarrow> int res" where
  "objectCount env name db =
     (if db_fails env ''count'' then Inl (sql_err ''count'')
      else Inr (int (length (filter (\<lambda>o'. oBucketName o' = name) (db_objects db)))))"

definition DeleteBucket :: "db_env \<Rightarrow> string \<Rightarrow> db \<Rightarrow> db \<times> unit res" where
  "DeleteBucket env name db =
     (case objectCount env name db of
        Inl e \<Rightarrow> (db, Inl e)
      | Inr cnt \<Rightarrow>
          if cnt > 0 then (db, Inl ErrBucketNotEmpty)
          else if db_fails env ''bucket.delete'' then (db, Inl (sql_err ''bucket.delete''))
          else if bucket_at db name = None then (db, Inl ErrBucketNotFound)
          else if name \<in> oBucketName ` set (db_objects db) \<or> name \<in> uBucketName ` set (db_uploads db)
          then (db, Inl foreign_err)
          else (db\<lparr>db_buckets := filter (\<lambda>b. bName b \<noteq> name) (db_buckets db)\<rparr>, Inr ()))"

definition BucketExists :: "db_env \<Rightarrow> string \<Rightarrow> db \<Rightarrow> bool res" where
  "BucketExists env name db =
     (if db_fails env ''bucket.exists'' then Inl (sql_err ''bucket.exists'')
      else Inr (bucket_at db name \<noteq> None))"

definition GetBucket :: "db_env \<Rightarrow> string \<Rightarrow> db \<Rightarrow> Bucket res" where
  "GetBucket env name db =
     (if db_fails env ''bucket.get'' then Inl (sql_err ''bucket.get'')
      else case bucket_at db name of None \<Rightarrow> Inl ErrBucketNotFound | Some b \<Rightarrow> Inr b)"

definition ListBuckets :: "db_env \<Rightarrow> db \<Rightarrow> Bucket list res" where
  "ListBuckets env db =
     (if db_fails env ''bucket.list'' then Inl (sql_err ''bucket.list'')
      else Inr (sort_key bName (db_buckets db)))"

definition AggregateStats :: "db_env \<Rightarrow> db \<Rightarrow> (int \<times> int) res" where
  "AggregateStats env db =
     (if db_fails env ''stats'' then Inl (sql_err ''stats'')
      else Inr (sum_list (map bObjectCount (db_buckets db)), sum_list (map bTotalSize (db_buckets db))))"

section \<open>Objects\<close>

definition octet_stream :: string where
  "octet_stream = ''application/octet-stream''"

text \<open>The UPDATE and INSERT statements of \<^verbatim>\<open>PutObject\<close>.\<close>

definition put_row :: "time \<Rightarrow> Object \<Rightarrow> Object \<Rightarrow> Object" where
  "put_row now obj r =
     r\<lparr>oSize := oSize obj, oContentType := oContentType obj, oETag := oETag obj,
       oStoragePath := oStoragePath obj, oCustomMetadata := oCustomMetadata obj,
       oVersion := oVersion obj, oReplicationStatus := oReplicationStatus obj,
       oDeleted := oDeleted obj, oUpdatedAt := now\<rparr>"

definition update_object :: "time \<Rightarrow> Object \<Rightarrow> db \<Rightarrow> db" where
  "update_object now obj db =
     db\<lparr>db_objects := update_rows (\<lambda>r. okey r = (oBucketName obj, oKey obj)) (put_row now obj) (db_objects db)\<rparr>"

definition insert_object :: "Object \<Rightarrow> db \<Rightarrow> db res" where
  "insert_object obj db =
     (if oID obj \<in> oID ` set (db_objects db) \<or> okey obj \<in> okey ` set (db_objects db) then Inl unique_err
      else if bucket_at db (oBucketName obj) = None then Inl foreign_err
      else Inr (db\<lparr>db_objects := db_objects db @ [obj]\<rparr>))"

definition update_bucket :: "time \<Rightarrow> string \<Rightarrow> int \<Rightarrow> int \<Rightarrow> db \<Rightarrow> db" where
  "update_bucket now name dcount dsize db =
     db\<lparr>db_buckets := update_rows (\<lambda>b. bName b = name)
       (\<lambda>b. b\<lparr>bObjectCount := bObjectCount b + dcount, bTotalSize := bTotalSize b + dsize,
              bUpdatedAt := now\<rparr>) (db_buckets db)\<rparr>"

text \<open>The fields \<^verbatim>\<open>PutObject\<close> fills in before the transaction, and before an INSERT.\<close>

definition fill_object :: "db_env \<Rightarrow> Object \<Rightarrow> Object" where
  "fill_object env obj =
     obj\<lparr>oID := (if oID obj = '''' then newID env else oID obj),
         oContentType := (if oContentType obj = '''' then octet_stream else oContentType obj),
         oCreatedAt := (if oCreatedAt obj = zero_time then db_now env else oCreatedAt obj),
         oUpdatedAt := db_now env\<rparr>"

definition insert_defaults :: "Object \<Rightarrow> Object" where
  "insert_defaults obj =
     obj\<lparr>oVersion := (if oVersion obj = 0 then 1 else oVersion obj),
         oReplicationStatus := (if oReplicationStatus obj = '''' then ''replicated'' else oReplicationStatus obj)\<rparr>"

text \<open>
  The object statement of the transaction: the new database, whether it was an update, and the
  size it replaced. A unique violation of the INSERT is retried once as an update of the row
  found under the key.
\<close>

definition write_object :: "db_env \<Rightarrow> Object \<Rightarrow> db \<Rightarrow> (db \<times> bool \<times> int) res" where
  "write_object env obj db =
     (case obj_at db (oBucketName obj) (oKey obj) of
        Some old \<Rightarrow>
          if db_fails env ''put.update'' then Inl (sql_err ''put.update'')
          else Inr (update_object (db_now env) obj db, True, oSize old)
      | None \<Rightarrow>
          let obj = insert_defaults obj
          in if db_fails env ''put.insert'' then Inl (sql_err ''put.insert'')
             else (case insert_object obj db of
               Inr db' \<Rightarrow> Inr (db', False, 0)
             | Inl e \<Rightarrow>
                 if isUniqueViolation e then
                   (case obj_at db (oBucketName obj) (oKey obj) of
                      Some old \<Rightarrow>
                        if db_fails env ''put.reselect'' then Inl (sql_err ''put.reselect'')
                        else if db_fails env ''put.update'' then Inl (sql_err ''put.update'')
                        else Inr (update_object (db_now env) obj db, True, oSize old)
                    | None \<Rightarrow> Inl e)
                 else Inl e))"

definition PutObject :: "db_env \<Rightarrow> Object \<Rightarrow> db \<Rightarrow> db \<times> unit res" where
  "PutObject env obj db =
     (if oBucketName obj = '''' \<or> oKey obj = '''' then (db, Inl ErrInvalidArgument)
      else case BucketExists env (oBucketName obj) db of
        Inl e \<Rightarrow> (db, Inl e)
      | Inr ex \<Rightarrow>
          if \<not> ex then (db, Inl ErrBucketNotFound)
          else if db_fails env ''put.encode'' then (db, Inl (sql_err ''put.encode''))
          else let now = db_now env; obj = fill_object env obj
          in if db_fails env ''put.begin'' then (db, Inl (sql_err ''put.begin''))
             else if db_fails env ''put.select'' then (db, Inl (sql_err ''put.select''))
             else (case write_object env obj db of
               Inl e \<Rightarrow> (db, Inl e)
             | Inr (db', isUpdate, oldSize) \<Rightarrow>
                 let sizeDelta = oSize obj - oldSize;
                     countDelta = (if \<not> isUpdate \<and> \<not> oDeleted obj then 1 else 0)
                 in if db_fails env ''put.count'' then (db, Inl (sql_err ''put.count''))
                    else if db_fails env ''put.commit'' then (db, Inl (sql_err ''put.commit''))
                    else (update_bucket now (oBucketName obj) countDelta sizeDelta db', Inr ())))"

definition GetObject :: "db_env \<Rightarrow> string \<Rightarrow> string \<Rightarrow> db \<Rightarrow> Object res" where
  "GetObject env bucket key db =
     (if db_fails env ''object.get'' then Inl (sql_err ''object.get'')
      else case obj_at db bucket key of None \<Rightarrow> Inl ErrObjectNotFound | Some o' \<Rightarrow> Inr o')"

definition tombstone_row :: "time \<Rightarrow> int \<Rightarrow> Object \<Rightarrow> Object" where
  "tombstone_row now version r =
     r\<lparr>oSize := 0, oContentType := octet_stream, oETag := '''', oStoragePath := '''',
       oCustomMetadata := [], oVersion := version, oReplicationStatus := ''replicated'',
       oDeleted := True, oUpdatedAt := now\<rparr>"

definition PutTombstone :: "db_env \<Rightarrow> string \<Rightarrow> string \<Rightarrow> int \<Rightarrow> db \<Rightarrow> db \<times> unit res" where
  "PutTombstone env bucket key version db =
     (case BucketExists env bucket db of
        Inl e \<Rightarrow> (db, Inl e)
      | Inr ex \<Rightarrow>
          if \<not> ex then (db, Inl ErrBucketNotFound)
          else let now = db_now env in
            if db_fails env ''tomb.begin'' then (db, Inl (sql_err ''tomb.begin''))
            else if db_fails env ''tomb.select'' then (db, Inl (sql_err ''tomb.select''))
            else (case obj_at db bucket key of
              Some old \<Rightarrow>
                if db_fails env ''tomb.update'' then (db, Inl (sql_err ''tomb.update''))
                else let db1 = db\<lparr>db_objects := update_rows (\<lambda>r. okey r = (bucket, key))
                                   (tombstone_row now version) (db_objects db)\<rparr>
                in if \<not> oDeleted old \<and> db_fails env ''tomb.count'' then (db, Inl (sql_err ''tomb.count''))
                   else if db_fails env ''tomb.commit'' then (db, Inl (sql_err ''tomb.commit''))
                   else (if \<not> oDeleted old then update_bucket now bucket (-1) (- oSize old) db1 else db1, Inr ())
            | None \<Rightarrow>
                if db_fails env ''tomb.insert'' then (db, Inl (sql_err ''tomb.insert''))
                else (case insert_object
                        (tombstone_row now version
                          \<lparr>oID = newID env, oBucketName = bucket, oKey = key, oSize = 0, oContentType = octet_stream,
                           oETag = '''', oStoragePath = '''', oCustomMetadata = [], oVersion = version,
                           oReplicationStatus = ''replicated'', oDeleted = True, oCreatedAt = now, oUpdatedAt = now\<rparr>) db of
                        Inl e \<Rightarrow> (db, Inl e)
                      | Inr db1 \<Rightarrow>
                          if db_fails env ''tomb.commit'' then (db, Inl (sql_err ''tomb.commit''))
                          else (db1, Inr ()))))"

definition UpdateReplicationStatus :: "db_env \<Rightarrow> string \<Rightarrow> string \<Rightarrow> string \<Rightarrow> db \<Rightarrow> db \<times> unit res" where
  "UpdateReplicationStatus env bucket key status db =
     (if db_fails env ''status.update'' then (db, Inl (sql_err ''status.update''))
      else if obj_at db bucket key = None then (db, Inl ErrObjectNotFound)
      else (db\<lparr>db_objects := update_rows (\<lambda>r. okey r = (bucket, key))
              (\<lambda>r. r\<lparr>oReplicationStatus := status, oUpdatedAt := db_now env\<rparr>) (db_objects db)\<rparr>, Inr ()))"

text \<open>\<^verbatim>\<open>ORDER BY updated_at DESC LIMIT ?\<close>, the order being that of the stored text.\<close>

definition ListObjectsByReplicationStatus :: "db_env \<Rightarrow> string \<Rightarrow> int \<Rightarrow> db \<Rightarrow> Object list res" where
  "ListObjectsByReplicationStatus env status limit db =
     (let limit = (if limit \<le> 0 then 100 else limit) in
      if db_fails env ''status.list'' then Inl (sql_err ''status.list'')
      else Inr (take (nat limit)
        (rev (sort_key (\<lambda>r. formatTime (oUpdatedAt r))
          (rev (filter (\<lambda>r. oReplicationStatus r = status \<and> \<not> oDeleted r) (db_objects db)))))))"

definition DeleteObject :: "db_env \<Rightarrow> string \<Rightarrow> string \<Rightarrow> db \<Rightarrow> db \<times> unit res" where
  "DeleteObject env bucket key db =
     (if db_fails env ''del.begin'' then (db, Inl (sql_err ''del.begin''))
      else if db_fails env ''del.select'' then (db, Inl (sql_err ''del.select''))
      else case obj_at db bucket key of
        None \<Rightarrow> (db, Inr ())
      | Some old \<Rightarrow>
          if db_fails env ''del.delete'' then (db, Inl (sql_err ''del.delete''))
          else if db_fails env ''del.count'' then (db, Inl (sql_err ''del.count''))
          else if db_fails env ''del.commit'' then (db, Inl (sql_err ''del.commit''))
          else (update_bucket (db_now env) bucket (-1) (- oSize old)
                  (db\<lparr>db_objects := filter (\<lambda>r. okey r \<noteq> (bucket, key)) (db_objects db)\<rparr>), Inr ()))"

section \<open>Listing\<close>

definition effectiveStart :: "ListOptions \<Rightarrow> string" where
  "effectiveStart opts =
     (if lStartAfter opts \<noteq> '''' then lStartAfter opts
      else if lPrefix opts \<noteq> '''' then lPrefix opts else '''')"

text \<open>The start of a page: the first object after the token, or the end when there is none.\<close>

fun page_start :: "string \<Rightarrow> Object list \<Rightarrow> nat" where
  "page_start token [] = 0"
| "page_start token (o' # os) = (if oKey o' > token then 0 else Suc (page_start token os))"

text \<open>
  The sum of the start and the page size wraps around, and slicing with a bound before the start panics; the panic is the error value
  \<open>slice_panic\<close>, which no other operation produces.
\<close>

definition slice_panic :: goerr where
  "slice_panic = Other ''panic: slice bounds out of range''"

definition paginateFlat :: "Object list \<Rightarrow> ListOptions \<Rightarrow> ListResult res" where
  "paginateFlat all opts =
     (let start = (if lContinuationToken opts \<noteq> '''' then page_start (lContinuationToken opts) all else 0);
          end' = i64 (int start + lMaxKeys opts);
          truncated = end' < int (length all);
          end' = (if end' > int (length all) then int (length all) else end');
          page = take (nat end' - start) (drop start all);
          next' = (if truncated \<and> page \<noteq> [] then oKey (last page) else '''')
      in if end' < int start then Inl slice_panic
         else Inr \<lparr>rObjects = page, rCommonPrefixes = [], rNextContinuationToken = next', rIsTruncated = truncated\<rparr>)"

text \<open>
  The loop of \<^verbatim>\<open>listWithDelimiter\<close>: the common prefix of a key with the delimiter after the
  prefix, or None for a key listed itself.
\<close>

definition common_prefix :: "ListOptions \<Rightarrow> string \<Rightarrow> string option" where
  "common_prefix opts k =
     (let rest = TrimPrefix k (lPrefix opts)
      in case Index rest (lDelimiter opts) of
           None \<Rightarrow> None
         | Some idx \<Rightarrow> Some (lPrefix opts @ take (idx + length (lDelimiter opts)) rest))"

definition listWithDelimiter :: "Object list \<Rightarrow> ListOptions \<Rightarrow> ListResult res" where
  "listWithDelimiter all opts =
     (let prefixSet = List.map_filter (\<lambda>o'. common_prefix opts (oKey o')) all;
          objects = filter (\<lambda>o'. common_prefix opts (oKey o') = None) all;
          prefixes = sort (remdups prefixSet)
      in case paginateFlat objects opts of
           Inl e \<Rightarrow> Inl e
         | Inr result \<Rightarrow> Inr (result\<lparr>rCommonPrefixes := prefixes\<rparr>))"

definition ListObjects :: "db_env \<Rightarrow> string \<Rightarrow> ListOptions \<Rightarrow> db \<Rightarrow> ListResult res" where
  "ListObjects env bucket opts0 db =
     (let opts = opts0\<lparr>lMaxKeys := (if lMaxKeys opts0 \<le> 0 then 1000 else lMaxKeys opts0)\<rparr> in
      if db_fails env ''object.list'' then Inl (sql_err ''object.list'')
      else let rows = sort_key oKey (filter (\<lambda>r. oBucketName r = bucket \<and> oKey r \<ge> effectiveStart opts) (db_objects db));
               all = filter (\<lambda>r. \<not> (lPrefix opts \<noteq> '''' \<and> \<not> HasPrefix (oKey r) (lPrefix opts)) \<and> \<not> oDeleted r) rows
      in if lDelimiter opts = '''' then paginateFlat all opts
         else listWithDelimiter all opts)"

section \<open>What the operations do\<close>

lemmas object_fill_defs = fill_object_def insert_defaults_def

lemma fill_object_simps [simp]:
  "okey (fill_object env obj) = okey obj" "okey (insert_defaults obj) = okey obj"
  "oSize (fill_object env obj) = oSize obj" "oSize (insert_defaults obj) = oSize obj"
  "oDeleted (fill_object env obj) = oDeleted obj" "oDeleted (insert_defaults obj) = oDeleted obj"
  "oBucketName (fill_object env obj) = oBucketName obj" "oKey (fill_object env obj) = oKey obj"
  "oBucketName (insert_defaults obj) = oBucketName obj" "oKey (insert_defaults obj) = oKey obj"
  by (simp_all add: object_fill_defs okey_def)

lemma put_row_simps [simp]:
  "okey (put_row now obj r) = okey r" "oID (put_row now obj r) = oID r"
  "oSize (put_row now obj r) = oSize obj" "oDeleted (put_row now obj r) = oDeleted obj"
  "oBucketName (put_row now obj r) = oBucketName r" "oKey (put_row now obj r) = oKey r"
  by (simp_all add: put_row_def okey_def)

lemma obj_at_update_object:
  "obj_at (update_object now obj db) b k =
     (if (b, k) = (oBucketName obj, oKey obj) then map_option (put_row now obj) (obj_at db b k)
      else obj_at db b k)"
  by (simp add: obj_at_def update_object_def row_at_update)

lemma objects_update_bucket [simp]:
  "db_objects (update_bucket now n dc ds db) = db_objects db"
  "db_uploads (update_bucket now n dc ds db) = db_uploads db"
  "db_parts (update_bucket now n dc ds db) = db_parts db"
  "db_hints (update_bucket now n dc ds db) = db_hints db"
  "map bName (db_buckets (update_bucket now n dc ds db)) = map bName (db_buckets db)"
  "bName ` set (db_buckets (update_bucket now n dc ds db)) = bName ` set (db_buckets db)"
proof -
  show m: "map bName (db_buckets (update_bucket now n dc ds db)) = map bName (db_buckets db)"
    by (simp add: update_bucket_def map_update_rows)
  then show "bName ` set (db_buckets (update_bucket now n dc ds db)) = bName ` set (db_buckets db)"
    by (metis set_map)
qed (simp_all add: update_bucket_def)

lemma obj_at_update_bucket [simp]: "obj_at (update_bucket now n dc ds db) b k = obj_at db b k"
  by (simp add: obj_at_def)

lemma bucket_at_iff: "bucket_at db n \<noteq> None \<longleftrightarrow> n \<in> bName ` set (db_buckets db)"
  using row_at_None [of bName "db_buckets db" n] by (simp add: bucket_at_def)

lemma PutObject_Inl: "PutObject env obj db = (db', Inl e) \<Longrightarrow> db' = db"
  by (auto simp: PutObject_def Let_def split: if_splits sum.splits)

text \<open>A successful PutObject updated the row found under the key, or inserted a new one.\<close>

lemma PutObject_Inr:
  assumes "PutObject env obj db = (db', Inr ())"
  obtains (upd) old where "obj_at db (oBucketName obj) (oKey obj) = Some old"
      "db' = update_bucket (db_now env) (oBucketName obj) 0 (oSize obj - oSize old)
               (update_object (db_now env) (fill_object env obj) db)"
      "oBucketName obj \<noteq> ''''" "oKey obj \<noteq> ''''" "bucket_at db (oBucketName obj) \<noteq> None"
    | (ins) row where "obj_at db (oBucketName obj) (oKey obj) = None"
      "row = insert_defaults (fill_object env obj)" "oID row \<notin> oID ` set (db_objects db)"
      "okey row \<notin> okey ` set (db_objects db)"
      "db' = update_bucket (db_now env) (oBucketName obj) (if oDeleted obj then 0 else 1) (oSize obj)
               (db\<lparr>db_objects := db_objects db @ [row]\<rparr>)"
      "oBucketName obj \<noteq> ''''" "oKey obj \<noteq> ''''" "bucket_at db (oBucketName obj) \<noteq> None"
proof (cases "obj_at db (oBucketName obj) (oKey obj)")
  case None
  have "insert_object (insert_defaults (fill_object env obj)) db \<noteq> Inl foreign_err \<or> True" by simp
  from assms None show thesis
    by (auto simp: PutObject_def write_object_def BucketExists_def Let_def insert_object_def
        split: if_splits intro!: ins)
next
  case (Some old)
  with assms show thesis
    by (auto simp: PutObject_def write_object_def BucketExists_def Let_def split: if_splits intro!: upd)
qed

lemma PutObject_other:
  assumes "PutObject env obj db = (db', r)" "(b, k) \<noteq> okey obj"
  shows "obj_at db' b k = obj_at db b k"
proof (cases r)
  case (Inl e)
  with assms PutObject_Inl show ?thesis by metis
next
  case (Inr u)
  with assms(1) have "PutObject env obj db = (db', Inr ())" by simp
  then show ?thesis
  proof (cases rule: PutObject_Inr)
    case (upd old)
    then show ?thesis using assms(2) by (auto simp: obj_at_update_object okey_def)
  next
    case (ins row)
    then show ?thesis using assms(2) by (auto simp: obj_at_def row_at_append okey_def split: option.splits)
  qed
qed

lemma PutObject_at:
  assumes "PutObject env obj db = (db', Inr ())"
  obtains row where "obj_at db' (oBucketName obj) (oKey obj) = Some row"
    "oSize row = oSize obj" "oETag row = oETag obj" "oStoragePath row = oStoragePath obj"
    "oDeleted row = oDeleted obj" "oCustomMetadata row = oCustomMetadata obj"
    "oUpdatedAt row = db_now env"
    "oContentType row = (if oContentType obj = '''' then octet_stream else oContentType obj)"
    "oVersion obj \<noteq> 0 \<Longrightarrow> oVersion row = oVersion obj"
    "oReplicationStatus obj \<noteq> '''' \<Longrightarrow> oReplicationStatus row = oReplicationStatus obj"
    "obj_at db (oBucketName obj) (oKey obj) \<noteq> None \<Longrightarrow> oVersion row = oVersion obj \<and>
       oReplicationStatus row = oReplicationStatus obj"
  using assms
proof (cases rule: PutObject_Inr)
  case (upd old)
  from upd have "obj_at db' (oBucketName obj) (oKey obj) = Some (put_row (db_now env) (fill_object env obj) old)"
    by (simp add: obj_at_update_object)
  then show thesis by (rule that) (simp_all add: put_row_def fill_object_def)
next
  case (ins row)
  from ins have "obj_at db' (oBucketName obj) (oKey obj) = Some row"
    by (simp add: obj_at_def row_at_append okey_def split: option.splits)
  then show thesis by (rule that) (use ins in \<open>simp_all add: object_fill_defs\<close>)
qed

lemma PutTombstone_Inl: "PutTombstone env b k v db = (db', Inl e) \<Longrightarrow> db' = db"
  by (auto simp: PutTombstone_def Let_def split: if_splits sum.splits option.splits)

lemma PutTombstone_Inr:
  assumes "PutTombstone env b k v db = (db', Inr ())"
  obtains (upd) old where "obj_at db b k = Some old"
      "db' = (let db1 = db\<lparr>db_objects := update_rows (\<lambda>r. okey r = (b, k)) (tombstone_row (db_now env) v) (db_objects db)\<rparr>
              in if oDeleted old then db1 else update_bucket (db_now env) b (-1) (- oSize old) db1)"
      "bucket_at db b \<noteq> None"
    | (ins) row where "obj_at db b k = None" "oID row \<notin> oID ` set (db_objects db)"
      "db' = db\<lparr>db_objects := db_objects db @ [row]\<rparr>" "okey row = (b, k)"
      "oSize row = 0" "oVersion row = v" "oDeleted row" "oStoragePath row = ''''" "bucket_at db b \<noteq> None"
proof (cases "obj_at db b k")
  case None
  with assms show thesis
    by (auto simp: PutTombstone_def BucketExists_def insert_object_def Let_def tombstone_row_def okey_def
        split: if_splits intro!: ins)
next
  case (Some old)
  with assms show thesis
    by (auto simp: PutTombstone_def BucketExists_def Let_def split: if_splits intro!: upd)
qed

lemma tombstone_row_simps [simp]:
  "okey (tombstone_row now v r) = okey r" "oID (tombstone_row now v r) = oID r"
  "oDeleted (tombstone_row now v r)" "oSize (tombstone_row now v r) = 0"
  "oVersion (tombstone_row now v r) = v" "oBucketName (tombstone_row now v r) = oBucketName r"
  "oKey (tombstone_row now v r) = oKey r"
  by (simp_all add: tombstone_row_def okey_def)

lemma PutTombstone_at:
  assumes "PutTombstone env b k v db = (db', Inr ())"
  shows "\<exists>row. obj_at db' b k = Some row \<and> oDeleted row \<and> oVersion row = v \<and> oSize row = 0"
  using assms
proof (cases rule: PutTombstone_Inr)
  case (upd old)
  have "obj_at db' b k = Some (tombstone_row (db_now env) v old)"
    using upd(1) unfolding upd(2) by (auto simp: obj_at_def Let_def row_at_update)
  then show ?thesis by simp
next
  case (ins row)
  then show ?thesis by (auto simp: obj_at_def row_at_append split: option.splits)
qed

lemma PutTombstone_other:
  assumes "PutTombstone env b k v db = (db', r)" "(b', k') \<noteq> (b, k)"
  shows "obj_at db' b' k' = obj_at db b' k'"
proof (cases r)
  case (Inl e)
  with assms PutTombstone_Inl show ?thesis by metis
next
  case (Inr u)
  with assms(1) have "PutTombstone env b k v db = (db', Inr ())" by simp
  then show ?thesis
  proof (cases rule: PutTombstone_Inr)
    case (upd old)
    then show ?thesis using assms(2) by (auto simp: obj_at_def Let_def row_at_update)
  next
    case (ins row)
    then show ?thesis using assms(2) by (auto simp: obj_at_def row_at_append split: option.splits)
  qed
qed

section \<open>Invariant of buckets and objects\<close>

definition bsize :: "Object list \<Rightarrow> string \<Rightarrow> int" where
  "bsize objs n = sum_list (map oSize (filter (\<lambda>r. oBucketName r = n) objs))"

text \<open>
  Names and keys are unique, an object's bucket exists, a tombstone has no size, a live object has a
  key, and the stored total size of a bucket is the sum of the sizes of its objects.
\<close>

definition objects_ok :: "db \<Rightarrow> bool" where
  "objects_ok db \<longleftrightarrow>
     distinct (map bName (db_buckets db)) \<and> distinct (map okey (db_objects db)) \<and>
     distinct (map oID (db_objects db)) \<and>
     (\<forall>r \<in> set (db_objects db). oBucketName r \<in> bName ` set (db_buckets db) \<and>
        (if oDeleted r then oSize r = 0 else oKey r \<noteq> '''')) \<and>
     (\<forall>b \<in> set (db_buckets db). bTotalSize b = bsize (db_objects db) (bName b))"

lemma objects_okD:
  assumes "objects_ok db"
  shows "distinct (map bName (db_buckets db))" "distinct (map okey (db_objects db))"
    "\<And>r. r \<in> set (db_objects db) \<Longrightarrow> oBucketName r \<in> bName ` set (db_buckets db)"
    "\<And>r. r \<in> set (db_objects db) \<Longrightarrow> oDeleted r \<Longrightarrow> oSize r = 0"
    "\<And>r. r \<in> set (db_objects db) \<Longrightarrow> \<not> oDeleted r \<Longrightarrow> oKey r \<noteq> ''''"
    "\<And>b. b \<in> set (db_buckets db) \<Longrightarrow> bTotalSize b = bsize (db_objects db) (bName b)"
  using assms by (auto simp: objects_ok_def)

lemma sizes_change:
  assumes "\<forall>b \<in> set (db_buckets db). bTotalSize b = bsize (db_objects db) (bName b)"
    "\<And>m. bsize objs m = bsize (db_objects db) m + (if m = n then ds else 0)"
  shows "\<forall>b \<in> set (db_buckets (update_bucket now n dc ds (db\<lparr>db_objects := objs\<rparr>))).
     bTotalSize b = bsize objs (bName b)"
  using assms by (auto simp: update_bucket_def update_rows_def)

lemma bsize_update:
  assumes "distinct (map okey objs)" "row_at okey objs (n, k) = Some old"
    "\<And>r. okey (f r) = okey r" "oSize (f old) = s"
  shows "bsize (update_rows (\<lambda>r. okey r = (n, k)) f objs) m =
     bsize objs m + (if m = n then s - oSize old else 0)"
proof -
  have b: "oBucketName (f r) = oBucketName r" for r using assms(3) [of r] by (simp add: okey_def)
  have "oBucketName old = n" using row_at_Some [OF assms(2)] by (simp add: okey_def)
  then show ?thesis
    unfolding bsize_def sum_list_update_row [OF assms(1,2), of f, OF assms(3)] using b assms(4) by simp
qed

lemma bsize_delete:
  assumes "distinct (map okey objs)" "row_at okey objs (n, k) = Some old"
  shows "bsize (filter (\<lambda>r. okey r \<noteq> (n, k)) objs) m = bsize objs m + (if m = n then - oSize old else 0)"
proof -
  have "oBucketName old = n" using row_at_Some [OF assms(2)] by (simp add: okey_def)
  then show ?thesis unfolding bsize_def sum_list_delete_row [OF assms] by simp
qed

lemma bsize_append: "bsize (objs @ [r]) m = bsize objs m + (if m = oBucketName r then oSize r else 0)"
  by (simp add: bsize_def)

lemma objects_ok_update:
  assumes ok: "objects_ok db" and at: "obj_at db n k = Some old"
    and f: "\<And>r. okey (f r) = okey r" "\<And>r. oID (f r) = oID r"
      "\<And>r. oKey r = k \<Longrightarrow> if oDeleted (f r) then oSize (f r) = 0 else k \<noteq> ''''"
  shows "objects_ok (update_bucket now n dc (oSize (f old) - oSize old)
    (db\<lparr>db_objects := update_rows (\<lambda>r. okey r = (n, k)) f (db_objects db)\<rparr>))"
proof -
  let ?objs = "update_rows (\<lambda>r. okey r = (n, k)) f (db_objects db)"
  have b: "oBucketName (f r) = oBucketName r" "oKey (f r) = oKey r" for r
    using f(1) [of r] by (simp_all add: okey_def)
  have "bsize ?objs m = bsize (db_objects db) m + (if m = n then oSize (f old) - oSize old else 0)" for m
    using bsize_update [OF objects_okD(2) [OF ok] at [unfolded obj_at_def] f(1) refl] .
  from sizes_change [OF _ this] ok
  have "\<forall>b \<in> set (db_buckets (update_bucket now n dc (oSize (f old) - oSize old) (db\<lparr>db_objects := ?objs\<rparr>))).
      bTotalSize b = bsize ?objs (bName b)" by (simp add: objects_ok_def)
  moreover have "\<forall>r \<in> set ?objs. oBucketName r \<in> bName ` set (db_buckets db) \<and>
      (if oDeleted r then oSize r = 0 else oKey r \<noteq> '''')"
    using ok f(3) b unfolding objects_ok_def update_rows_def by (auto simp: okey_def)
  ultimately show ?thesis using ok f by (simp add: objects_ok_def map_update_rows)
qed

lemma objects_ok_insert:
  assumes ok: "objects_ok db" and "oID row \<notin> oID ` set (db_objects db)" "obj_at db (oBucketName row) (oKey row) = None"
    "bucket_at db (oBucketName row) \<noteq> None" "if oDeleted row then oSize row = 0 else oKey row \<noteq> ''''"
  shows "objects_ok (update_bucket now (oBucketName row) dc (oSize row) (db\<lparr>db_objects := db_objects db @ [row]\<rparr>))"
proof -
  have "okey row \<notin> okey ` set (db_objects db)"
    using assms(3) by (simp add: obj_at_def row_at_None okey_def)
  moreover have "oBucketName row \<in> bName ` set (db_buckets db)" using assms(4) bucket_at_iff by blast
  ultimately show ?thesis
    using ok assms(2,5) sizes_change [OF _ bsize_append [of "db_objects db" row], of now dc]
    by (simp add: objects_ok_def)
qed

lemma PutObject_ok:
  assumes "objects_ok db" "PutObject env obj db = (db', r)" "oDeleted obj \<longrightarrow> oSize obj = 0"
  shows "objects_ok db'"
proof (cases r)
  case (Inl e)
  with assms PutObject_Inl show ?thesis by metis
next
  case (Inr u)
  with assms(2) have "PutObject env obj db = (db', Inr ())" by simp
  then show ?thesis
  proof (cases rule: PutObject_Inr)
    case (upd old)
    then show ?thesis
      using objects_ok_update [OF assms(1) upd(1), of "put_row (db_now env) (fill_object env obj)" "db_now env" 0] assms(3)
      by (simp add: update_object_def)
  next
    case (ins row)
    then have "obj_at db (oBucketName row) (oKey row) = None" "oBucketName row = oBucketName obj"
      "oSize row = oSize obj" "if oDeleted row then oSize row = 0 else oKey row \<noteq> ''''"
      using assms(3) by simp_all
    with objects_ok_insert [OF assms(1) ins(3), of "db_now env"] ins show ?thesis by simp
  qed
qed

lemma objects_ok_cong:
  assumes "db_objects d = db_objects e"
    "map (\<lambda>b. (bName b, bTotalSize b)) (db_buckets d) = map (\<lambda>b. (bName b, bTotalSize b)) (db_buckets e)"
  shows "objects_ok d \<longleftrightarrow> objects_ok e"
proof -
  have n: "map bName (db_buckets d) = map bName (db_buckets e)"
    using arg_cong [OF assms(2), of "map fst"] by (simp add: comp_def)
  then have s: "bName ` set (db_buckets d) = bName ` set (db_buckets e)" by (metis set_map)
  have "(\<forall>b \<in> set (db_buckets x). bTotalSize b = f (bName b)) \<longleftrightarrow>
      (\<forall>(m, t) \<in> set (map (\<lambda>b. (bName b, bTotalSize b)) (db_buckets x)). t = f m)" for x f by auto
  from this [of d "bsize (db_objects e)"] this [of e "bsize (db_objects e)"]
  show ?thesis unfolding objects_ok_def n s assms(1) assms(2) by argo
qed

lemma update_bucket_none: "objects_ok (update_bucket now n dc 0 db) \<longleftrightarrow> objects_ok db"
  by (rule objects_ok_cong) (simp_all add: update_bucket_def map_update_rows)

lemma PutTombstone_ok:
  assumes "objects_ok db" "PutTombstone env b k v db = (db', r)"
  shows "objects_ok db'"
proof (cases r)
  case (Inl e)
  with assms PutTombstone_Inl show ?thesis by metis
next
  case (Inr u)
  with assms(2) have "PutTombstone env b k v db = (db', Inr ())" by simp
  then show ?thesis
  proof (cases rule: PutTombstone_Inr)
    case (upd old)
    let ?db1 = "db\<lparr>db_objects := update_rows (\<lambda>r. okey r = (b, k)) (tombstone_row (db_now env) v) (db_objects db)\<rparr>"
    have old: "oDeleted old \<Longrightarrow> oSize old = 0"
      using row_at_Some [OF upd(1) [unfolded obj_at_def]] objects_okD(4) [OF assms(1)] by blast
    have u: "objects_ok (update_bucket (db_now env) b dc (- oSize old) ?db1)" for dc
      using objects_ok_update [OF assms(1) upd(1), of "tombstone_row (db_now env) v"] by simp
    show ?thesis
    proof (cases "oDeleted old")
      case True
      have "objects_ok ?db1" using u [of 0] old [OF True] by (simp add: update_bucket_none)
      then show ?thesis using True upd(2) by simp
    next
      case False
      then show ?thesis using u upd(2) by simp
    qed
  next
    case (ins row)
    from ins have "objects_ok (update_bucket 0 b 0 0 (db\<lparr>db_objects := db_objects db @ [row]\<rparr>))"
      using objects_ok_insert [OF assms(1) ins(2), of 0 0] by (simp add: okey_def)
    then show ?thesis using ins(3) by (simp add: update_bucket_none)
  qed
qed

lemma DeleteObject_ok:
  assumes "objects_ok db" "DeleteObject env b k db = (db', r)"
  shows "objects_ok db'"
proof (cases "db' = db")
  case False
  let ?objs = "filter (\<lambda>r. okey r \<noteq> (b, k)) (db_objects db)"
  from False assms(2) obtain old where old: "obj_at db b k = Some old"
    and db': "db' = update_bucket (db_now env) b (-1) (- oSize old) (db\<lparr>db_objects := ?objs\<rparr>)"
    by (auto simp: DeleteObject_def split: if_splits option.splits)
  have "\<forall>x \<in> set (db_buckets db'). bTotalSize x = bsize ?objs (bName x)"
    unfolding db' using assms(1) bsize_delete [OF objects_okD(2) [OF assms(1)] old [unfolded obj_at_def]]
    by (intro sizes_change) (simp_all add: objects_ok_def)
  then show ?thesis
    using assms(1) distinct_filter_key [of okey "db_objects db"] distinct_filter_key [of oID "db_objects db"]
    unfolding db' by (auto simp: objects_ok_def)
qed (use assms in simp)

lemma UpdateReplicationStatus_ok:
  assumes "objects_ok db" "UpdateReplicationStatus env b k st db = (db', r)"
  shows "objects_ok db'"
proof (cases "db' = db")
  case False
  let ?f = "\<lambda>r. r\<lparr>oReplicationStatus := st, oUpdatedAt := db_now env\<rparr>"
  from False assms(2) obtain old where old: "obj_at db b k = Some old"
    and db': "db' = db\<lparr>db_objects := update_rows (\<lambda>r. okey r = (b, k)) ?f (db_objects db)\<rparr>"
    by (auto simp: UpdateReplicationStatus_def split: if_splits)
  have d: "\<forall>r \<in> set (db_objects db'). \<exists>r0 \<in> set (db_objects db). oBucketName r = oBucketName r0 \<and> oDeleted r = oDeleted r0 \<and> oSize r = oSize r0 \<and> oKey r = oKey r0"
    unfolding db' by (auto simp: update_rows_def)
  have "bsize (db_objects db') m = bsize (db_objects db) m" for m
    using bsize_update [OF objects_okD(2) [OF assms(1)] old [unfolded obj_at_def], of ?f "oSize old"]
    unfolding db' by (simp add: okey_def)
  moreover have "map okey (db_objects db') = map okey (db_objects db)" "map oID (db_objects db') = map oID (db_objects db)"
    "db_buckets db' = db_buckets db"
    unfolding db' by (simp_all add: map_update_rows okey_def)
  ultimately show ?thesis using assms(1) d unfolding objects_ok_def by metis
qed (use assms in simp)

lemma CreateBucket_ok:
  assumes "objects_ok db" "CreateBucket env n db = (db', r)"
  shows "objects_ok db'"
proof (cases "db' = db")
  case False
  with assms(2) have n: "n \<notin> bName ` set (db_buckets db)"
    and db': "db' = db\<lparr>db_buckets := db_buckets db @ [\<lparr>bID = newID env, bName = n, bObjectCount = 0,
        bTotalSize = 0, bCreatedAt = db_now env, bUpdatedAt = db_now env\<rparr>]\<rparr>"
    by (auto simp: CreateBucket_def Let_def split: if_splits)
  have "filter (\<lambda>r. oBucketName r = n) (db_objects db) = []"
    using assms(1) n by (auto simp: objects_ok_def filter_empty_conv)
  then have "bsize (db_objects db) n = 0" by (simp add: bsize_def)
  then show ?thesis using assms(1) n unfolding db' by (auto simp: objects_ok_def)
qed (use assms in simp)

lemma DeleteBucket_ok:
  assumes "objects_ok db" "DeleteBucket env n db = (db', r)"
  shows "objects_ok db'"
proof (cases "db' = db")
  case False
  with assms(2) have "n \<notin> oBucketName ` set (db_objects db)"
    and "db' = db\<lparr>db_buckets := filter (\<lambda>b. bName b \<noteq> n) (db_buckets db)\<rparr>"
    by (auto simp: DeleteBucket_def split: if_splits sum.splits)
  moreover have "bName ` {x \<in> set (db_buckets db). bName x \<noteq> n} = bName ` set (db_buckets db) - {n}"
    by auto
  ultimately show ?thesis using assms(1) distinct_filter_key [of bName "db_buckets db"]
    by (auto simp: objects_ok_def)
qed (use assms in simp)


end
