(* ===== verification/Listing.thy ===== *)
theory Listing
  imports MetaStore
begin

text \<open>
  What object listing (\<^verbatim>\<open>ListObjects\<close>, \<^verbatim>\<open>paginateFlat\<close>, \<^verbatim>\<open>listWithDelimiter\<close> of
  \<^verbatim>\<open>internal/metadata/sqlite/store.go\<close>) returns: a client that follows continuation tokens sees
  every live object under the prefix exactly once, and a delimiter splits the keys into those
  listed and those under a common prefix.
\<close>

section \<open>Pages of a sorted list\<close>

definition strict_keys :: "Object list \<Rightarrow> bool" where
  "strict_keys all \<longleftrightarrow> sorted_wrt (<) (map oKey all)"

lemma page_start_nth:
  "strict_keys all \<Longrightarrow> j < length all \<Longrightarrow> page_start (oKey (all ! j)) all = Suc j"
proof (induction all arbitrary: j)
  case (Cons a all)
  show ?case
  proof (cases j)
    case 0
    have "page_start (oKey a) all = 0" using Cons.prems(1)
      by (cases all) (auto simp: strict_keys_def)
    with 0 show ?thesis by simp
  next
    case (Suc i)
    with Cons.prems have "oKey a < oKey (all ! i)" by (auto simp: strict_keys_def)
    then have "\<not> oKey (all ! i) < oKey a" by simp
    with Suc Cons show ?thesis by (auto simp: strict_keys_def)
  qed
qed simp

text \<open>The page that starts at position \<open>i\<close>, whose token is empty or the key before it.\<close>

definition token_at :: "Object list \<Rightarrow> nat \<Rightarrow> string \<Rightarrow> bool" where
  "token_at all i t \<longleftrightarrow> (if t = '''' then i = 0 else page_start t all = i)"

lemma paginateFlat_page:
  assumes "token_at all i (lContinuationToken opts)" "0 < lMaxKeys opts" "i \<le> length all" "in_i64 (int i + lMaxKeys opts)"
  defines "n \<equiv> nat (lMaxKeys opts)"
  obtains r where "paginateFlat all opts = Inr r" "rObjects r = take n (drop i all)"
    "rIsTruncated r \<longleftrightarrow> i + n < length all"
    "i + n < length all \<Longrightarrow> rNextContinuationToken r = oKey (all ! (i + n - 1))"
proof -
  define st where "st = (if lContinuationToken opts \<noteq> '''' then page_start (lContinuationToken opts) all else 0)"
  have st: "st = i" using assms(1) by (simp add: st_def token_at_def split: if_splits)
  have m: "lMaxKeys opts = int n" "0 < n" using assms(2) by (simp_all add: n_def)
  have w: "i64 (int i + int n) = int i + int n" using assms(4) m(1) by simp
  let ?stop = "if int i + int n > int (length all) then int (length all) else int i + int n"
  have nn: "nat (int i + int n) - i = n" "nat (int i + int n) = i + n" by simp_all
  then have pg: "take (nat ?stop - i) (drop i all) = take n (drop i all)" using assms(3) by auto
  have ok: "\<not> ?stop < int i" using assms(3) by simp
  let ?r = "\<lparr>rObjects = take n (drop i all), rCommonPrefixes = [],
    rNextContinuationToken = (if int i + int n < int (length all) \<and> take n (drop i all) \<noteq> [] then oKey (last (take n (drop i all))) else ''''),
    rIsTruncated = (int i + int n < int (length all))\<rparr>"
  have r: "paginateFlat all opts = Inr ?r"
    using ok by (simp only: paginateFlat_def st_def [symmetric] st m(1) w Let_def pg if_False)
  have "last (take n (drop i all)) = all ! (i + n - 1)" "take n (drop i all) \<noteq> []" if "i + n < length all"
    using that m(2) by (auto simp: last_conv_nth)
  then show thesis by (intro that [OF r]) auto
qed

lemma HasPrefix_le: "HasPrefix k p \<Longrightarrow> p \<le> k"
  for k p :: string
proof (induction p arbitrary: k)
  case (Cons c p)
  then show ?case by (cases k) auto
qed simp

section \<open>The rows a listing ranges over\<close>

definition selected :: "string \<Rightarrow> ListOptions \<Rightarrow> Object \<Rightarrow> bool" where
  "selected bucket opts r \<longleftrightarrow>
     oBucketName r = bucket \<and> \<not> oDeleted r \<and> HasPrefix (oKey r) (lPrefix opts) \<and> oKey r \<ge> effectiveStart opts"

definition matching :: "string \<Rightarrow> ListOptions \<Rightarrow> db \<Rightarrow> Object list" where
  "matching bucket opts db = sort_key oKey (filter (selected bucket opts) (db_objects db))"

definition max_keys :: "ListOptions \<Rightarrow> int" where
  "max_keys opts = (if lMaxKeys opts \<le> 0 then 1000 else lMaxKeys opts)"

lemma max_keys_pos [simp]: "0 < max_keys opts"
  by (simp add: max_keys_def)

lemma set_matching: "set (matching bucket opts db) = {r \<in> set (db_objects db). selected bucket opts r}"
  by (simp add: matching_def)

lemma strict_matching:
  assumes "objects_ok db"
  shows "strict_keys (matching bucket opts db)"
proof -
  let ?f = "filter (selected bucket opts) (db_objects db)"
  have "distinct (map okey ?f)" using objects_okD(2) [OF assms] by (rule distinct_filter_key)
  moreover have "map okey ?f = map (\<lambda>k. (bucket, k)) (map oKey ?f)"
    by (simp add: okey_def selected_def)
  ultimately have "distinct (map oKey ?f)" by (metis distinct_map)
  then have "distinct (map oKey (matching bucket opts db))"
    unfolding matching_def by (metis distinct_map distinct_sort inj_on_def set_sort)
  then show ?thesis unfolding strict_keys_def matching_def by (simp add: strict_sorted_iff)
qed

lemma matching_key_nonempty:
  "objects_ok db \<Longrightarrow> r \<in> set (matching bucket opts db) \<Longrightarrow> oKey r \<noteq> ''''"
  using objects_okD(5) by (auto simp: set_matching selected_def)

lemma ListObjects_matching:
  assumes "db_quiet env"
  shows "ListObjects env bucket opts db =
    (if lDelimiter opts = '''' then paginateFlat (matching bucket opts db) (opts\<lparr>lMaxKeys := max_keys opts\<rparr>)
     else listWithDelimiter (matching bucket opts db) (opts\<lparr>lMaxKeys := max_keys opts\<rparr>))"
proof -
  let ?o = "opts\<lparr>lMaxKeys := max_keys opts\<rparr>"
  have "filter (\<lambda>r. \<not> (lPrefix opts \<noteq> '''' \<and> \<not> HasPrefix (oKey r) (lPrefix opts)) \<and> \<not> oDeleted r)
      (sort_key oKey (filter (\<lambda>r. oBucketName r = bucket \<and> oKey r \<ge> effectiveStart opts) (db_objects db)))
    = matching bucket opts db"
    unfolding matching_def filter_sort [symmetric] filter_filter
    by (intro arg_cong [of _ _ "sort_key oKey"] filter_cong) (auto simp: selected_def)
  moreover have "effectiveStart ?o = effectiveStart opts" by (simp add: effectiveStart_def)
  ultimately show ?thesis using assms by (simp add: ListObjects_def Let_def max_keys_def)
qed

section \<open>Following the continuation tokens\<close>

text \<open>The requests of a client that asks for the next page until a page is not truncated.\<close>

fun list_pages :: "nat \<Rightarrow> db_env \<Rightarrow> string \<Rightarrow> ListOptions \<Rightarrow> db \<Rightarrow> Object list option" where
  "list_pages 0 env bucket opts db = None"
| "list_pages (Suc n) env bucket opts db =
     (case ListObjects env bucket opts db of
        Inl e \<Rightarrow> None
      | Inr r \<Rightarrow>
          if rIsTruncated r
          then map_option (\<lambda>rest. rObjects r @ rest)
                 (list_pages n env bucket (opts\<lparr>lContinuationToken := rNextContinuationToken r\<rparr>) db)
          else Some (rObjects r))"

lemma matching_token [simp]: "matching bucket (opts\<lparr>lContinuationToken := t\<rparr>) db = matching bucket opts db"
  by (simp add: matching_def selected_def [abs_def] effectiveStart_def)

lemma list_pages_from:
  assumes "db_quiet env" "objects_ok db" "lDelimiter opts = ''''"
    "token_at (matching bucket opts db) i (lContinuationToken opts)"
    "i \<le> length (matching bucket opts db)" "length (matching bucket opts db) < i + n"
    "in_i64 (int i + max_keys opts)" "int (length (matching bucket opts db)) < 2 ^ 62"
  shows "list_pages n env bucket opts db = Some (drop i (matching bucket opts db))"
  using assms(3-8)
proof (induction n arbitrary: i opts)
  case (Suc n)
  define all where "all = matching bucket opts db"
  define M where "M = nat (max_keys opts)"
  have M: "0 < M" by (simp add: M_def max_keys_def)
  let ?o = "opts\<lparr>lMaxKeys := max_keys opts\<rparr>"
  have tok: "token_at all i (lContinuationToken ?o)" and mk: "0 < lMaxKeys ?o" and le: "i \<le> length all"
    and mx: "lMaxKeys ?o = max_keys opts" and room: "in_i64 (int i + lMaxKeys ?o)"
    using Suc.prems by (simp_all add: all_def max_keys_def)
  obtain r where r: "paginateFlat all ?o = Inr r" and page: "rObjects r = take M (drop i all)" "rIsTruncated r \<longleftrightarrow> i + M < length all"
    "i + M < length all \<Longrightarrow> rNextContinuationToken r = oKey (all ! (i + M - 1))"
    using paginateFlat_page [OF tok mk le room, unfolded mx, folded M_def] by blast
  have L: "ListObjects env bucket opts db = Inr r"
    using ListObjects_matching [OF assms(1)] Suc.prems(1) r by (simp add: all_def)
  show ?case
  proof (cases "i + M < length all")
    case True
    define o' where "o' = opts\<lparr>lContinuationToken := rNextContinuationToken r\<rparr>"
    have key: "rNextContinuationToken r = oKey (all ! (i + M - 1))" using page(3) True by simp
    have "all ! (i + M - 1) \<in> set all" using True by simp
    then have "rNextContinuationToken r \<noteq> ''''"
      using key matching_key_nonempty [OF assms(2)] by (simp add: all_def)
    moreover have "page_start (rNextContinuationToken r) all = i + M"
      using page_start_nth [OF strict_matching [OF assms(2)], of "i + M - 1" bucket opts] True M key
      by (simp add: all_def)
    moreover have "in_i64 (int (i + M) + max_keys o')" "max_keys o' = max_keys opts"
    proof -
      show m: "max_keys o' = max_keys opts" by (simp add: o'_def max_keys_def)
      have "int (i + M) < int (length all)" "int (length all) < 2 ^ 62" using True Suc.prems(6) by (simp_all add: all_def)
      moreover have "int M = max_keys opts" unfolding M_def using max_keys_pos [of opts] by linarith
      ultimately show "in_i64 (int (i + M) + max_keys o')" unfolding m in_i64_def by simp
    qed
    ultimately have "list_pages n env bucket o' db = Some (drop (i + M) all)"
      using Suc.IH [of o' "i + M"] Suc.prems True M by (simp add: o'_def all_def token_at_def)
    moreover have "take M (drop i all) @ drop (i + M) all = drop i all"
      by (metis add.commute append_take_drop_id drop_drop)
    ultimately show ?thesis using L page(1,2) True by (simp add: o'_def all_def [symmetric])
  next
    case False
    then show ?thesis using L page(1,2) by (simp add: all_def [symmetric])
  qed
qed simp

text \<open>
  C26: pagination. On a consistent database, a client that lists a bucket without a delimiter,
  with any page size (a Go \<^verbatim>\<open>int\<close>; the rows fit into a slice), and follows the continuation tokens, ends after at most one request per
  object (plus one) and has received every live object of the bucket under the prefix and not
  before the start key exactly once, in ascending key order. (The start key is
  inclusive: an object whose key is \<^verbatim>\<open>StartAfter\<close> itself is listed.)
\<close>

theorem pagination_complete:
  assumes "db_quiet env" "objects_ok db" "lDelimiter opts = ''''" "lContinuationToken opts = ''''"
    "in_i64 (lMaxKeys opts)" "int (length (db_objects db)) < 2 ^ 62"
  shows "\<exists>L. list_pages (Suc (length (db_objects db))) env bucket opts db = Some L \<and>
     sorted_wrt (<) (map oKey L) \<and>
     set L = {r \<in> set (db_objects db). oBucketName r = bucket \<and> \<not> oDeleted r \<and>
        HasPrefix (oKey r) (lPrefix opts) \<and>
        (if lStartAfter opts \<noteq> '''' then oKey r \<ge> lStartAfter opts else True)}"
proof -
  let ?all = "matching bucket opts db"
  have len: "length ?all \<le> length (db_objects db)" by (simp add: matching_def)
  have "in_i64 (int 0 + max_keys opts)" "int (length ?all) < 2 ^ 62" using assms(5,6) len by (simp_all add: max_keys_def in_i64_def)
  with len have "list_pages (Suc (length (db_objects db))) env bucket opts db = Some ?all"
    using list_pages_from [OF assms(1-3), of bucket 0 "Suc (length (db_objects db))"] assms(4)
    by (simp add: token_at_def del: list_pages.simps)
  moreover have "set ?all = {r \<in> set (db_objects db). oBucketName r = bucket \<and> \<not> oDeleted r \<and>
        HasPrefix (oKey r) (lPrefix opts) \<and>
        (if lStartAfter opts \<noteq> '''' then oKey r \<ge> lStartAfter opts else True)}"
    by (auto simp: set_matching selected_def effectiveStart_def HasPrefix_le)
  ultimately show ?thesis using strict_matching [OF assms(2)] by (simp add: strict_keys_def del: list_pages.simps)
qed

definition example_objects :: db where
  "example_objects = empty_db\<lparr>db_buckets :=
     [\<lparr>bID = ''1'', bName = ''abc'', bObjectCount = 3, bTotalSize = 0, bCreatedAt = 0, bUpdatedAt = 0\<rparr>],
     db_objects := map (\<lambda>k. \<lparr>oID = k, oBucketName = ''abc'', oKey = k, oSize = 0, oContentType = '''', oETag = '''',
       oStoragePath = '''', oCustomMetadata = [], oVersion = 1, oReplicationStatus = '''', oDeleted = False,
       oCreatedAt = 0, oUpdatedAt = 0\<rparr>) [''b/2'', ''a'', ''b/1'']\<rparr>"

definition quiet_db :: db_env where
  "quiet_db = \<lparr>db_now = 0, db_rand = '''', db_faults = []\<rparr>"

lemma example_objects_ok: "objects_ok example_objects" "db_quiet quiet_db"
  by code_simp+

theorem pagination_complete_witness:
  "\<exists>L. list_pages 4 quiet_db ''abc''
        \<lparr>lPrefix = '''', lDelimiter = '''', lMaxKeys = 1, lContinuationToken = '''', lStartAfter = ''''\<rparr> example_objects = Some L \<and>
      oKey ` set L = {''a'', ''b/1'', ''b/2''}"
proof -
  let ?o = "\<lparr>lPrefix = '''', lDelimiter = '''', lMaxKeys = 1, lContinuationToken = '''', lStartAfter = ''''\<rparr> :: ListOptions"
  have n: "Suc (length (db_objects example_objects)) = 4" by code_simp
  have e: "lDelimiter ?o = ''''" "lContinuationToken ?o = ''''" "in_i64 (lMaxKeys ?o)" "int (length (db_objects example_objects)) < 2 ^ 62"
    using n by (simp_all add: in_i64_def)
  obtain L where L: "list_pages 4 quiet_db ''abc'' ?o example_objects = Some L"
    "set L = {r \<in> set (db_objects example_objects). oBucketName r = ''abc'' \<and> \<not> oDeleted r \<and>
       HasPrefix (oKey r) (lPrefix ?o) \<and> (if lStartAfter ?o \<noteq> '''' then oKey r \<ge> lStartAfter ?o else True)}"
    using pagination_complete [OF example_objects_ok(2,1) e, of "''abc''", unfolded n] by blast
  have "oKey ` {r \<in> set (db_objects example_objects). oBucketName r = ''abc'' \<and> \<not> oDeleted r} = {''a'', ''b/1'', ''b/2''}"
    by code_simp
  then have "oKey ` set L = {''a'', ''b/1'', ''b/2''}" unfolding L(2) by simp
  with L(1) show ?thesis by blast
qed

section \<open>Delimiters\<close>

text \<open>The first occurrence of a pattern: no occurrence ends before its last byte.\<close>

lemma Index_first:
  assumes "p \<noteq> []" "Index s p = Some i"
  shows "\<exists>t. s = take i s @ p @ t \<and> i \<le> length s \<and> \<not> Contains (take i s @ butlast p) p"
  using assms(2)
proof (induction s arbitrary: i)
  case Nil
  with assms(1) show ?case by simp
next
  case (Cons c s)
  show ?case
  proof (cases "HasPrefix (c # s) p")
    case True
    have "\<not> Contains (butlast p) p" using assms(1)
      by (cases p rule: rev_cases) (auto simp: Contains_iff dest!: arg_cong [of _ _ length])
    with True Cons.prems show ?thesis by (auto simp: HasPrefix_iff)
  next
    case False
    with Cons.prems obtain j where j: "Index s p = Some j" "i = Suc j" by auto
    from Cons.IH [OF j(1)] obtain t where t: "s = take j s @ p @ t" "j \<le> length s"
      "\<not> Contains (take j s @ butlast p) p" by blast
    have "\<not> HasPrefix (c # take j s @ butlast p) p"
    proof
      assume "HasPrefix (c # take j s @ butlast p) p"
      then obtain u where "c # take j s @ butlast p = p @ u" by (auto simp: HasPrefix_iff)
      then have "c # s = p @ u @ [last p] @ t"
        using t(1) append_butlast_last_id [OF assms(1)] by (metis append.assoc append_Cons)
      with False show False by (auto simp: HasPrefix_iff)
    qed
    with t j show ?thesis by (auto simp: Contains_def)
  qed
qed

lemma Index_unique:
  assumes "p \<noteq> []" "s = a @ p @ t" "\<not> Contains (a @ butlast p) p"
  shows "Index s p = Some (length a)"
proof -
  obtain i where i: "Index s p = Some i" using assms(2) Index_append by blast
  from Index_first [OF assms(1) i] obtain u where u: "s = take i s @ p @ u" "i \<le> length s"
    "\<not> Contains (take i s @ butlast p) p" by blast
  have shift: "Contains (y @ butlast p) p" if "x @ p @ v = y @ p @ w" "length x < length y" for x y v w
  proof -
    have "take (length y + length p - 1) (x @ p @ v) = y @ butlast p"
      unfolding that(1) using assms(1) by (cases p rule: rev_cases) simp_all
    moreover have "length x + length p \<le> length y + length p - 1" using that(2) by simp
    then have "\<exists>z. take (length y + length p - 1) (x @ p @ v) = x @ p @ z"
      by (intro exI [of _ "take (length y + length p - 1 - length x - length p) v"]) simp
    ultimately show ?thesis unfolding Contains_iff by metis
  qed
  define b where "b = take i s"
  have b: "a @ p @ t = b @ p @ u" using u(1) unfolding b_def assms(2) [symmetric] .
  have b': "length b = i" "\<not> Contains (b @ butlast p) p" using u(2,3) unfolding b_def by auto
  have "\<not> length a < i" using shift [OF b] b' by blast
  moreover have "\<not> i < length a" using shift [OF b [symmetric]] b'(1) assms(3) by blast
  ultimately show ?thesis using i by simp
qed

lemma common_prefix_iff:
  assumes "lDelimiter opts \<noteq> ''''" "HasPrefix k (lPrefix opts)"
  shows "common_prefix opts k = Some p \<longleftrightarrow>
    (\<exists>a t. k = lPrefix opts @ a @ lDelimiter opts @ t \<and> p = lPrefix opts @ a @ lDelimiter opts \<and>
       \<not> Contains (a @ butlast (lDelimiter opts)) (lDelimiter opts))" (is "?L \<longleftrightarrow> ?R")
proof -
  obtain rest where k: "k = lPrefix opts @ rest" using assms(2) by (auto simp: HasPrefix_iff)
  show ?thesis
  proof
    assume ?L
    then obtain i where i: "Index rest (lDelimiter opts) = Some i"
      "p = lPrefix opts @ take (i + length (lDelimiter opts)) rest"
      by (auto simp: common_prefix_def k split: option.splits)
    from Index_first [OF assms(1) i(1)] obtain t where t: "rest = take i rest @ lDelimiter opts @ t" "i \<le> length rest"
      "\<not> Contains (take i rest @ butlast (lDelimiter opts)) (lDelimiter opts)" by blast
    have "take (i + length (lDelimiter opts)) rest = take i rest @ lDelimiter opts"
      using t(1,2) by (metis append.assoc append_eq_conv_conj length_append length_take min.absorb2)
    with i t k show ?R by (intro exI [of _ "take i rest"] exI [of _ t]) simp
  next
    assume ?R
    then obtain a t where a: "rest = a @ lDelimiter opts @ t" "p = lPrefix opts @ a @ lDelimiter opts"
      "\<not> Contains (a @ butlast (lDelimiter opts)) (lDelimiter opts)" using k by auto
    from Index_unique [OF assms(1) a(1,3)] a k show ?L by (simp add: common_prefix_def)
  qed
qed

lemma common_prefix_None:
  "HasPrefix k (lPrefix opts) \<Longrightarrow>
   common_prefix opts k = None \<longleftrightarrow> \<not> Contains (drop (length (lPrefix opts)) k) (lDelimiter opts)"
  by (simp add: common_prefix_def Contains_def TrimPrefix_def Let_def split: option.splits)

lemma set_map_filter: "set (List.map_filter f xs) = {y. \<exists>x \<in> set xs. f x = Some y}"
  by (force simp: List.map_filter_def)

text \<open>
  C31: listing with a delimiter partitions the matching live keys. The common prefixes are, sorted and
  without repetition, exactly the parts of matching keys up to and including the first
  delimiter after the prefix; the objects of the first page are the first ones, in key order, of
  those with no delimiter after the prefix. (The page size is a Go \<^verbatim>\<open>int\<close>.)
\<close>

theorem delimiter_partition:
  assumes "db_quiet env" "objects_ok db" "lDelimiter opts \<noteq> ''''" "lContinuationToken opts = ''''" "in_i64 (lMaxKeys opts)"
  shows "\<exists>r. ListObjects env bucket opts db = Inr r \<and>
     sorted_wrt (<) (rCommonPrefixes r) \<and>
     (\<forall>p. p \<in> set (rCommonPrefixes r) \<longleftrightarrow>
        (\<exists>x a t. x \<in> set (db_objects db) \<and> selected bucket opts x \<and>
           oKey x = lPrefix opts @ a @ lDelimiter opts @ t \<and> p = lPrefix opts @ a @ lDelimiter opts \<and>
           \<not> Contains (a @ butlast (lDelimiter opts)) (lDelimiter opts))) \<and>
     rObjects r = take (nat (max_keys opts))
       (filter (\<lambda>x. \<not> Contains (drop (length (lPrefix opts)) (oKey x)) (lDelimiter opts)) (matching bucket opts db))"
proof -
  let ?o = "opts\<lparr>lMaxKeys := max_keys opts\<rparr>"
  let ?all = "matching bucket opts db"
  let ?objects = "filter (\<lambda>x. common_prefix opts (oKey x) = None) ?all"
  have o: "common_prefix ?o = common_prefix opts" by (simp add: common_prefix_def fun_eq_iff Let_def split: option.splits)
  have "token_at ?objects 0 (lContinuationToken ?o)" "0 < lMaxKeys ?o" "0 \<le> length ?objects" "in_i64 (int 0 + lMaxKeys ?o)"
    using assms(4,5) by (simp_all add: token_at_def max_keys_def in_i64_def)
  then obtain page where page: "paginateFlat ?objects ?o = Inr page" "rObjects page = take (nat (lMaxKeys ?o)) (drop 0 ?objects)"
    by (rule paginateFlat_page)
  define r where "r = page\<lparr>rCommonPrefixes := sort (remdups (List.map_filter (\<lambda>x. common_prefix opts (oKey x)) ?all))\<rparr>"
  have L: "ListObjects env bucket opts db = Inr r"
    using ListObjects_matching [OF assms(1)] assms(3) page(1) by (simp add: listWithDelimiter_def o Let_def r_def)
  have pre: "HasPrefix (oKey x) (lPrefix opts)" if "x \<in> set ?all" for x
    using that by (simp add: set_matching selected_def)
  have "sorted_wrt (<) (rCommonPrefixes r)" by (simp add: r_def strict_sorted_iff)
  moreover have "p \<in> set (rCommonPrefixes r) \<longleftrightarrow>
        (\<exists>x a t. x \<in> set (db_objects db) \<and> selected bucket opts x \<and>
           oKey x = lPrefix opts @ a @ lDelimiter opts @ t \<and> p = lPrefix opts @ a @ lDelimiter opts \<and>
           \<not> Contains (a @ butlast (lDelimiter opts)) (lDelimiter opts))" for p
  proof -
    have "p \<in> set (rCommonPrefixes r) \<longleftrightarrow> (\<exists>x \<in> set ?all. common_prefix opts (oKey x) = Some p)"
      by (simp add: r_def set_map_filter)
    then show ?thesis using common_prefix_iff [OF assms(3) pre] by (auto simp: set_matching)
  qed
  moreover have "rObjects r = take (nat (max_keys opts))
       (filter (\<lambda>x. \<not> Contains (drop (length (lPrefix opts)) (oKey x)) (lDelimiter opts)) ?all)"
  proof -
    have "filter (\<lambda>x. common_prefix opts (oKey x) = None) ?all =
        filter (\<lambda>x. \<not> Contains (drop (length (lPrefix opts)) (oKey x)) (lDelimiter opts)) ?all"
      using pre common_prefix_None by (intro filter_cong) auto
    then show ?thesis using page(2) by (simp add: r_def)
  qed
  ultimately show ?thesis using L by blast
qed

theorem delimiter_partition_witness:
  "\<exists>r. ListObjects quiet_db ''abc''
        \<lparr>lPrefix = '''', lDelimiter = ''/'', lMaxKeys = 0, lContinuationToken = '''', lStartAfter = ''''\<rparr> example_objects = Inr r \<and>
      sorted_wrt (<) (rCommonPrefixes r)"
  using delimiter_partition [OF example_objects_ok(2,1), of
    "\<lparr>lPrefix = '''', lDelimiter = ''/'', lMaxKeys = 0, lContinuationToken = '''', lStartAfter = ''''\<rparr>" "''abc''"]
  by (auto simp: in_i64_def)

end
