(* ===== verification/Validation.thy ===== *)
theory Validation
  imports Prelude
begin

text \<open>
  \<^verbatim>\<open>internal/validation/validation.go\<close>: the bucket-name and object-key rules, and the key
  normalisation that physical paths are hashed from. A validator returns the empty string
  for an acceptable name and a message otherwise, as in the code. The bucket-name
  regular expression is read off as its character classes and repetition bounds.
\<close>

section \<open>Operations\<close>

definition maxKeyLength :: nat where
  "maxKeyLength = 1024"

text \<open>
  \<^verbatim>\<open>unicode.IsLower(rune(b)) || unicode.IsDigit(rune(b))\<close> on a byte: a byte above 0x7F is
  read as the Latin-1 rune, of which U+00B5, U+00DF-U+00F6 and U+00F8-U+00FF are lower case.
\<close>

definition isLowerOrDigit :: "char \<Rightarrow> bool" where
  "isLowerOrDigit b \<longleftrightarrow>
     CHR ''a'' \<le> b \<and> b \<le> CHR ''z'' \<or> b = CHR 0xB5 \<or>
     CHR 0xDF \<le> b \<and> b \<le> CHR 0xF6 \<or> CHR 0xF8 \<le> b \<or> is_digit b"

definition re_alnum :: "char \<Rightarrow> bool" where
  "re_alnum c \<longleftrightarrow> CHR ''a'' \<le> c \<and> c \<le> CHR ''z'' \<or> CHR ''0'' \<le> c \<and> c \<le> CHR ''9''"

text \<open>\<^verbatim>\<open>^[a-z0-9][a-z0-9-]{1,61}[a-z0-9]$\<close>\<close>

definition bucketNameRegex :: "string \<Rightarrow> bool" where
  "bucketNameRegex s \<longleftrightarrow>
     s \<noteq> [] \<and> re_alnum (hd s) \<and> tl s \<noteq> [] \<and> re_alnum (last (tl s)) \<and>
     (let mid = butlast (tl s)
      in 1 \<le> length mid \<and> length mid \<le> 61 \<and> list_all (\<lambda>c. re_alnum c \<or> c = CHR ''-'') mid)"

definition BucketNameError :: "string \<Rightarrow> string" where
  "BucketNameError name =
     (if TrimSpace name = '''' then ''Bucket name cannot be empty''
      else if length name < 3 then ''Bucket name must be at least 3 characters''
      else if length name > 63 then ''Bucket name must not exceed 63 characters''
      else if \<not> isLowerOrDigit (name ! 0) then ''Bucket name must start with a lowercase letter or number''
      else if \<not> isLowerOrDigit (name ! (length name - 1)) then ''Bucket name must end with a lowercase letter or number''
      else if Contains name ''..'' then ''Bucket name cannot contain consecutive periods''
      else if \<not> bucketNameRegex name then ''Bucket name can only contain lowercase letters, numbers, and hyphens''
      else '''')"

text \<open>\<open>strings.ReplaceAll(key, "..", "")\<close>, then backslashes to slashes, then both ends trimmed.\<close>

definition SanitizeKey :: "string \<Rightarrow> string" where
  "SanitizeKey key =
     (let s = ReplaceAll key ''..'' '''';
          s = ReplaceAll s [CHR 0x5C] ''/''
      in Trim s (CHR ''/''))"

text \<open>
  The loop over runes is a test of bytes: a UTF-8 decoder yields a rune below 0x80 exactly for
  a byte below 0x80.
\<close>

definition KeyError :: "string \<Rightarrow> string" where
  "KeyError key =
     (if key = '''' then ''Object key must not be empty''
      else if length key > maxKeyLength then ''Object key must not exceed 1024 characters''
      else if HasPrefix key ''/'' then ''Object key must not start with '' @ [CHR 0x27] @ ''/'' @ [CHR 0x27]
      else if list_ex (\<lambda>r. r < CHR 0x20 \<or> r = CHR 0x7F) key
        then ''Object key must not contain control characters''
      else if SanitizeKey key = '''' then ''Object key must not resolve to empty after normalization''
      else '''')"

section \<open>The language of bucket names\<close>

lemma re_alnum_isLowerOrDigit: "re_alnum c \<Longrightarrow> isLowerOrDigit c"
  by (auto simp: re_alnum_def isLowerOrDigit_def is_digit_def)

lemma re_alnum_hyphen_facts:
  assumes "re_alnum c \<or> c = CHR ''-''"
  shows "c \<noteq> CHR ''.''" "c \<noteq> CHR ''/''" "c \<noteq> CHR ''_''"
  using assms by (auto simp: re_alnum_def)

lemma re_alnum_not_hyphen: "\<not> re_alnum (CHR ''-'')"
  by (simp add: re_alnum_def)

lemma strip_any_stop: "\<forall>p \<in> set ps. p = [] \<or> hd p \<noteq> c \<Longrightarrow> strip_any ps (c # s) = c # s"
proof -
  assume "\<forall>p \<in> set ps. p = [] \<or> hd p \<noteq> c"
  then have "find (\<lambda>p. p \<noteq> [] \<and> c # s \<noteq> [] \<and> HasPrefix (c # s) p) ps = None"
    by (force simp: find_None_iff HasPrefix_iff Cons_eq_append_conv)
  then show ?thesis by (subst strip_any.simps) simp
qed

lemma TrimSpace_alnum_start:
  assumes "re_alnum c"
  shows "TrimSpace (c # s) \<noteq> []"
proof -
  have "strip_any go_spaces (c # s) = c # s"
    using assms by (intro strip_any_stop) (auto simp: go_spaces_def re_alnum_def)
  moreover have "strip_any (map rev go_spaces) xs \<noteq> []" if "c \<in> set xs" for xs
    using that
  proof (induction "map rev go_spaces" xs rule: strip_any.induct)
    case (1 s)
    show ?case
    proof (cases "find (\<lambda>p. p \<noteq> [] \<and> s \<noteq> [] \<and> HasPrefix s p) (map rev go_spaces)")
      case None
      with 1 show ?thesis by (subst strip_any.simps) auto
    next
      case (Some p)
      then have p: "p \<in> set (map rev go_spaces)" "HasPrefix s p"
        by (auto simp: find_Some_iff)
      then obtain t where t: "s = p @ t" by (auto simp: HasPrefix_iff)
      have "c \<notin> set p" using p(1) assms by (auto simp: go_spaces_def re_alnum_def)
      with 1(2) t have "c \<in> set (drop (length p) s)" by auto
      with 1(1) [OF Some] Some show ?thesis by (subst strip_any.simps) simp
    qed
  qed
  ultimately show ?thesis by (simp add: TrimSpace_def)
qed

lemma bucketNameRegex_iff:
  "bucketNameRegex s \<longleftrightarrow>
     3 \<le> length s \<and> length s \<le> 63 \<and> re_alnum (hd s) \<and> re_alnum (last s) \<and>
     (\<forall>c \<in> set s. re_alnum c \<or> c = CHR ''-'')" (is "_ \<longleftrightarrow> ?R")
proof (cases "3 \<le> length s")
  case True
  then obtain a m b where s: "s = a # m @ [b]" "m \<noteq> []"
    by (metis Suc_le_length_iff append_butlast_last_id butlast.simps(2) last.simps list.distinct(1) numeral_3_eq_3)
  then show ?thesis by (auto simp: bucketNameRegex_def list_all_iff Suc_le_eq)
next
  case False
  then have "\<not> bucketNameRegex s"
    by (cases s; cases "tl s"; auto simp: bucketNameRegex_def Let_def Suc_le_eq)
  with False show ?thesis by simp
qed

lemma BucketNameError_regex: "BucketNameError s = '''' \<longleftrightarrow> bucketNameRegex s"
proof
  assume "bucketNameRegex s"
  then have r: "3 \<le> length s" "length s \<le> 63" "re_alnum (hd s)" "re_alnum (last s)"
      "\<forall>c \<in> set s. re_alnum c \<or> c = CHR ''-''"
    by (simp_all add: bucketNameRegex_iff)
  then have ne: "s \<noteq> []" by auto
  have "TrimSpace s \<noteq> []" using TrimSpace_alnum_start [of "hd s" "tl s"] r(3) ne by simp
  moreover have "\<not> Contains s ''..''"
    using r(5) re_alnum_hyphen_facts(1) [of "CHR ''.''"] by (auto simp: Contains_iff)
  moreover have "isLowerOrDigit (s ! 0)" "isLowerOrDigit (s ! (length s - 1))"
    using r(3,4) [THEN re_alnum_isLowerOrDigit] by (simp_all only: hd_conv_nth [OF ne] last_conv_nth [OF ne])
  ultimately show "BucketNameError s = ''''" using r \<open>bucketNameRegex s\<close> by (simp add: BucketNameError_def)
qed (auto simp: BucketNameError_def split: if_splits)

lemmas valid_bucket_iff = BucketNameError_regex bucketNameRegex_iff

text \<open>
  The accepted bucket names are exactly the strings of 3 to 63 bytes over
  \<^verbatim>\<open>a-z\<close>, \<^verbatim>\<open>0-9\<close> and \<^verbatim>\<open>-\<close> that neither start nor end with a hyphen; in particular the
  earlier checks of the validator (white space, Latin-1 lower-case letters, periods)
  neither accept nor reject anything beyond the regular expression.
\<close>

lemma bucket_name_language:
  "BucketNameError name = '''' \<longleftrightarrow>
     length name \<in> {3..63} \<and> set name \<subseteq> set ''abcdefghijklmnopqrstuvwxyz0123456789-'' \<and>
     hd name \<noteq> CHR ''-'' \<and> last name \<noteq> CHR ''-''"
proof -
  have cls: "re_alnum c \<longleftrightarrow> c \<in> set ''abcdefghijklmnopqrstuvwxyz0123456789''" for c
  proof
    assume "re_alnum c"
    then have "of_char c \<in> {97..122::nat} \<union> {48..57}"
      by (auto simp: re_alnum_def less_eq_char_def)
    moreover have "{97..122::nat} \<union> {48..57} = of_char ` set ''abcdefghijklmnopqrstuvwxyz0123456789''"
      by code_simp
    ultimately have "of_char c \<in> (of_char :: char \<Rightarrow> nat) ` set ''abcdefghijklmnopqrstuvwxyz0123456789''" by metis
    then show "c \<in> set ''abcdefghijklmnopqrstuvwxyz0123456789''"
      by (subst (asm) inj_image_mem_iff) (rule inj_of_char)
  qed (auto simp: re_alnum_def)
  have sub: "set s \<subseteq> set (A @ [h]) \<longleftrightarrow> (\<forall>c \<in> set s. c \<in> set A \<or> c = h)" for s A :: string and h
    by auto
  show ?thesis
  proof (cases "name = []")
    case False
    have *: "set name \<subseteq> set ''abcdefghijklmnopqrstuvwxyz0123456789-'' \<longleftrightarrow>
          (\<forall>c \<in> set name. re_alnum c \<or> c = CHR ''-'')"
      using sub [of name "''abcdefghijklmnopqrstuvwxyz0123456789''" "CHR ''-''"]
      unfolding cls append_Cons append_Nil .
    have "re_alnum c \<longleftrightarrow> c \<noteq> CHR ''-''" if "re_alnum c \<or> c = CHR ''-''" for c
      using that re_alnum_not_hyphen by blast
    then show ?thesis
      unfolding valid_bucket_iff * using hd_in_set [OF False] last_in_set [OF False] by auto
  qed (simp add: valid_bucket_iff)
qed

section \<open>The normal form of keys\<close>

lemma Contains_Nil [simp]: "Contains [] p \<longleftrightarrow> p = []"
  by (simp add: Contains_def)

lemma Contains_Cons: "Contains (c # s) p \<longleftrightarrow> HasPrefix (c # s) p \<or> Contains s p"
  by (auto simp: Contains_def)

lemma ReplaceAll_Nil [simp]: "ReplaceAll [] old new = []"
  by (simp add: ReplaceAll.simps)

lemma ReplaceAll_miss: "\<not> HasPrefix (c # s) old \<Longrightarrow> ReplaceAll (c # s) old new = c # ReplaceAll s old new"
  by (subst ReplaceAll.simps) simp

lemma ReplaceAll_char: "ReplaceAll s [a] [b] = map (\<lambda>c. if c = a then b else c) s"
  by (induction s) (simp, subst ReplaceAll.simps, auto)

lemma ReplaceAll_id: "\<not> Contains s old \<Longrightarrow> ReplaceAll s old new = s"
  by (induction s) (auto simp: Contains_Cons ReplaceAll_miss)

lemma ReplaceAll_dots: "\<not> Contains (ReplaceAll s ''..'' '''') ''..''"
proof (induction s rule: length_induct)
  case (1 s)
  show ?case
  proof (cases s)
    case (Cons c cs)
    show ?thesis
    proof (cases "HasPrefix s ''..''")
      case True
      with 1 Cons show ?thesis by (subst ReplaceAll.simps) simp
    next
      case False
      then have miss: "ReplaceAll s ''..'' '''' = c # ReplaceAll cs ''..'' ''''"
        using Cons by (simp add: ReplaceAll_miss)
      have "\<not> HasPrefix (c # ReplaceAll cs ''..'' '''') ''..''"
      proof (cases cs)
        case (Cons d ds)
        then show ?thesis using False \<open>s = c # cs\<close> by (cases "d = CHR ''.''") (auto simp: ReplaceAll_miss)
      qed simp
      with 1 Cons miss show ?thesis by (simp add: Contains_Cons)
    qed
  qed simp
qed

lemma Contains_map_slash:
  "Contains (map (\<lambda>c. if c = CHR 0x5C then CHR ''/'' else c) s) ''..'' \<longleftrightarrow> Contains s ''..''"
proof (induction s)
  case (Cons c s)
  then show ?case by (cases s) (auto simp: Contains_Cons)
qed simp

lemma TrimRight_part: "\<exists>b. s = TrimRight s c @ b"
proof -
  have "rev s = takeWhile (\<lambda>x. x = c) (rev s) @ dropWhile (\<lambda>x. x = c) (rev s)" by simp
  then have "s = TrimRight s c @ rev (takeWhile (\<lambda>x. x = c) (rev s))"
    unfolding TrimRight_def by (simp only: rev_append [symmetric] takeWhile_dropWhile_id rev_rev_ident)
  then show ?thesis by blast
qed

lemma Trim_part: "\<exists>a b. s = a @ Trim s c @ b"
proof -
  have "s = takeWhile (\<lambda>x. x = c) s @ dropWhile (\<lambda>x. x = c) s" by simp
  moreover obtain b where "dropWhile (\<lambda>x. x = c) s = Trim s c @ b"
    using TrimRight_part [of "dropWhile (\<lambda>x. x = c) s" c] by (auto simp: Trim_def)
  ultimately show ?thesis by metis
qed

lemma Trim_ends: "Trim s c \<noteq> [] \<Longrightarrow> hd (Trim s c) \<noteq> c \<and> last (Trim s c) \<noteq> c"
proof -
  let ?d = "dropWhile (\<lambda>x. x = c) s" and ?t = "Trim s c"
  assume ne: "?t \<noteq> []"
  have "?t = rev (dropWhile (\<lambda>x. x = c) (rev ?d))" by (simp add: Trim_def TrimRight_def)
  with ne have "last ?t \<noteq> c" using hd_dropWhile [of "\<lambda>x. x = c" "rev ?d"] by (simp only: last_rev) simp
  moreover obtain e where "?d = ?t @ e"
    using TrimRight_part [of ?d c] by (auto simp: Trim_def)
  then have "hd ?t = hd ?d" "?d \<noteq> []" using ne by auto
  then have "hd ?t \<noteq> c" using hd_dropWhile [of "\<lambda>x. x = c" s] by simp
  ultimately show ?thesis by simp
qed

lemma Trim_id: "s = [] \<or> hd s \<noteq> c \<and> last s \<noteq> c \<Longrightarrow> Trim s c = s"
proof (cases "s = []")
  case False
  assume "s = [] \<or> hd s \<noteq> c \<and> last s \<noteq> c"
  with False have "dropWhile (\<lambda>x. x = c) s = s" "dropWhile (\<lambda>x. x = c) (rev s) = rev s"
    by (metis dropWhile_eq_self_iff, metis dropWhile_eq_self_iff hd_rev)
  then show ?thesis by (simp add: Trim_def TrimRight_def)
qed (simp add: Trim_def TrimRight_def)

text \<open>What a normalised key looks like: the range of \<^const>\<open>SanitizeKey\<close>.\<close>

definition normal_key :: "string \<Rightarrow> bool" where
  "normal_key s \<longleftrightarrow> \<not> Contains s ''..'' \<and> CHR 0x5C \<notin> set s \<and>
     (s = '''' \<or> hd s \<noteq> CHR ''/'' \<and> last s \<noteq> CHR ''/'')"

lemma SanitizeKey_normal: "normal_key (SanitizeKey k)"
proof -
  define u where "u = map (\<lambda>c. if c = CHR 0x5C then CHR ''/'' else c) (ReplaceAll k ''..'' '''')"
  have S: "SanitizeKey k = Trim u (CHR ''/'')"
    by (simp add: SanitizeKey_def u_def ReplaceAll_char)
  obtain a b where ab: "u = a @ SanitizeKey k @ b" using Trim_part [of u] S by metis
  have "\<not> Contains u ''..''" by (simp add: u_def Contains_map_slash ReplaceAll_dots)
  with ab have "\<not> Contains (SanitizeKey k) ''..''" unfolding Contains_iff by (metis append.assoc)
  moreover have "CHR 0x5C \<notin> set u" by (auto simp: u_def)
  with ab have "CHR 0x5C \<notin> set (SanitizeKey k)" by (metis UnI1 UnI2 set_append)
  ultimately show ?thesis using Trim_ends [of u "CHR ''/''"] S by (auto simp: normal_key_def)
qed

lemma SanitizeKey_id: "normal_key s \<Longrightarrow> SanitizeKey s = s"
proof -
  assume n: "normal_key s"
  then have "map (\<lambda>c. if c = CHR 0x5C then CHR ''/'' else c) s = s"
    by (intro map_idI) (auto simp: normal_key_def)
  moreover have "Trim s (CHR ''/'') = s" using n by (intro Trim_id) (auto simp: normal_key_def)
  ultimately show ?thesis using n by (simp add: normal_key_def SanitizeKey_def ReplaceAll_id ReplaceAll_char)
qed

text \<open>
  \<^const>\<open>SanitizeKey\<close> is a normalisation: its result never contains \<^verbatim>\<open>..\<close> or a backslash
  and never starts or ends with a slash, and the keys it leaves alone are exactly those (so it is
  idempotent).
\<close>

lemma sanitize_key_normal_form:
  "\<not> Contains (SanitizeKey k) ''..'' \<and> CHR 0x5C \<notin> set (SanitizeKey k) \<and>
   \<not> HasPrefix (SanitizeKey k) ''/'' \<and> \<not> HasSuffix (SanitizeKey k) ''/'' \<and>
   SanitizeKey (SanitizeKey k) = SanitizeKey k \<and> (SanitizeKey k = k \<longleftrightarrow> normal_key k)"
proof -
  have n: "normal_key (SanitizeKey k)" by (rule SanitizeKey_normal)
  have "\<not> HasPrefix (SanitizeKey k) ''/''" "\<not> HasSuffix (SanitizeKey k) ''/''"
    using n by (cases "SanitizeKey k"; cases "rev (SanitizeKey k)";
      auto simp: normal_key_def HasSuffix_def simp flip: hd_rev)+
  moreover have "SanitizeKey k = k \<longleftrightarrow> normal_key k"
    by (metis SanitizeKey_id SanitizeKey_normal)
  ultimately show ?thesis using n SanitizeKey_id [OF n] by (auto simp: normal_key_def)
qed

end
