(* ===== verification/BlobPath.thy ===== *)
theory BlobPath
  imports Validation Go_Hash
begin

text \<open>
  \<^verbatim>\<open>internal/storage/path.go\<close>: the physical path of a blob, with the functions of
  \<^verbatim>\<open>path/filepath\<close> it calls (on Unix). \<^verbatim>\<open>filepath.Abs\<close> reads the working directory, which is
  an argument here (\<open>Inl\<close> when \<^verbatim>\<open>os.Getwd\<close> fails).
\<close>

section \<open>path/filepath\<close>

text \<open>
  \<^verbatim>\<open>filepath.Clean\<close>: the path's elements are pushed on a stack (top first); an empty element
  and \<^verbatim>\<open>.\<close> are skipped, \<^verbatim>\<open>..\<close> pops, or stays when nothing is left to pop in a relative path.
\<close>

fun clean_step :: "bool \<Rightarrow> string list \<Rightarrow> string \<Rightarrow> string list" where
  "clean_step rooted st e =
     (if e = '''' \<or> e = ''.'' then st
      else if e = ''..'' then
        (case st of
           [] \<Rightarrow> if rooted then [] else [''..'']
         | t # ts \<Rightarrow> if t = ''..'' then ''..'' # st else ts)
      else e # st)"

definition clean_elems :: "string \<Rightarrow> string list" where
  "clean_elems p = rev (foldl (clean_step (HasPrefix p ''/'')) [] (Split (CHR ''/'') p))"

definition Clean :: "string \<Rightarrow> string" where
  "Clean p =
     (if HasPrefix p ''/'' then CHR ''/'' # Join (clean_elems p) ''/''
      else if clean_elems p = [] then ''.''
      else Join (clean_elems p) ''/'')"

text \<open>\<^verbatim>\<open>filepath.Join\<close>: leading empty elements are dropped, the rest joined and cleaned.\<close>

definition JoinPath :: "string list \<Rightarrow> string" where
  "JoinPath es =
     (case dropWhile (\<lambda>e. e = '''') es of [] \<Rightarrow> '''' | e # es' \<Rightarrow> Clean (Join (e # es') ''/''))"

definition Abs :: "string res \<Rightarrow> string \<Rightarrow> string res" where
  "Abs wd p =
     (if HasPrefix p ''/'' then Inr (Clean p)
      else (case wd of Inl e \<Rightarrow> Inl e | Inr d \<Rightarrow> Inr (JoinPath [d, p])))"

text \<open>\<^verbatim>\<open>filepath.Dir\<close> and \<^verbatim>\<open>filepath.Base\<close> (the part before and after the last slash).\<close>

definition Dir :: "string \<Rightarrow> string" where
  "Dir p = Clean (rev (dropWhile (\<lambda>c. c \<noteq> CHR ''/'') (rev p)))"

definition base_name :: "string \<Rightarrow> string" where
  "base_name p = rev (takeWhile (\<lambda>c. c \<noteq> CHR ''/'') (rev p))"

section \<open>Operations\<close>

definition ObjectAddressHash :: "string \<Rightarrow> string \<Rightarrow> string" where
  "ObjectAddressHash bucket key =
     (let input = bucket @ ''/'' @ SanitizeKey key; sum = sha256 input in hex_encode sum)"

definition BlobRelativePath :: "string \<Rightarrow> string \<Rightarrow> string" where
  "BlobRelativePath bucket key =
     (let hash = ObjectAddressHash bucket key;
          l1 = take 2 hash;
          l2 = take 2 (drop 2 hash)
      in JoinPath [bucket, l1, l2, hash @ ''.blob''])"

definition AssertWithinBase :: "string res \<Rightarrow> string \<Rightarrow> string \<Rightarrow> string res" where
  "AssertWithinBase wd fullPath basePath =
     (case Abs wd fullPath of
        Inl e \<Rightarrow> Inl e
      | Inr resolved \<Rightarrow>
          (case Abs wd basePath of
             Inl e \<Rightarrow> Inl e
           | Inr baseResolved \<Rightarrow>
               let basePrefix = baseResolved @ ''/''
               in if resolved \<noteq> baseResolved \<and> \<not> HasPrefix resolved basePrefix
                  then Inl (ErrPathEscape resolved) else Inr resolved))"

definition ResolveBlobPath :: "string res \<Rightarrow> string \<Rightarrow> string \<Rightarrow> string \<Rightarrow> string res" where
  "ResolveBlobPath wd basePath bucket key =
     (let rel = BlobRelativePath bucket key; full = JoinPath [basePath, rel]
      in AssertWithinBase wd full basePath)"

section \<open>Clean paths\<close>

text \<open>An element that \<^const>\<open>Clean\<close> keeps, and the absolute clean paths.\<close>

definition plain :: "string \<Rightarrow> bool" where
  "plain e \<longleftrightarrow> e \<noteq> '''' \<and> e \<noteq> ''.'' \<and> e \<noteq> ''..'' \<and> CHR ''/'' \<notin> set e"

definition abs_path :: "string list \<Rightarrow> string" where
  "abs_path es = CHR ''/'' # Join es ''/''"

text \<open>A storage root: absolute, clean, and not the root directory itself.\<close>

definition base_ok :: "string \<Rightarrow> bool" where
  "base_ok b \<longleftrightarrow> HasPrefix b ''/'' \<and> Clean b = b \<and> b \<noteq> ''/''"

lemma Join_append:
  "xs \<noteq> [] \<Longrightarrow> ys \<noteq> [] \<Longrightarrow> Join (xs @ ys) sep = Join xs sep @ sep @ Join ys sep"
proof (induction xs sep rule: Join.induct)
  case (2 s sep)
  then show ?case by (cases ys) auto
qed auto

lemma Join_eq_Nil: "list_all plain es \<Longrightarrow> Join es sep = [] \<longleftrightarrow> es = []"
  by (induction es sep rule: Join.induct) (auto simp: plain_def)

lemma Split_append_any: "Split c (xs @ c # ys) = Split c xs @ Split c ys"
  by (induction xs) (auto split: list.splits)

lemma Split_abs_path:
  assumes "list_all plain es"
  shows "Split (CHR ''/'') (abs_path es) = (if es = [] then ['''', ''''] else '''' # es)"
proof -
  have "\<forall>s \<in> set es. CHR ''/'' \<notin> set s" using assms by (auto simp: list_all_iff plain_def)
  then show ?thesis using Split_Join [of es "CHR ''/''"] by (auto simp: abs_path_def)
qed

lemma foldl_plain: "list_all plain es \<Longrightarrow> foldl (clean_step r) st es = rev es @ st"
  by (induction es arbitrary: st) (auto simp: plain_def)

lemma clean_step_plain:
  "list_all plain st \<Longrightarrow> CHR ''/'' \<notin> set e \<Longrightarrow> list_all plain (clean_step True st e)"
  by (auto simp: plain_def split: list.splits)

lemma foldl_clean_plain:
  "list_all plain st \<Longrightarrow> \<forall>e \<in> set es. CHR ''/'' \<notin> set e \<Longrightarrow>
   list_all plain (foldl (clean_step True) st es)"
  by (induction es arbitrary: st) (auto simp del: clean_step.simps intro!: clean_step_plain)

lemma clean_elems_rooted: "HasPrefix p ''/'' \<Longrightarrow> list_all plain (clean_elems p)"
  unfolding clean_elems_def using Split_no_sep foldl_clean_plain [of "[]" "Split (CHR ''/'') p"]
  by simp

lemma Clean_rooted:
  "HasPrefix p ''/'' \<Longrightarrow> \<exists>es. list_all plain es \<and> Clean p = abs_path es"
  using clean_elems_rooted by (auto simp: Clean_def abs_path_def)

lemma clean_elems_abs_path: "list_all plain es \<Longrightarrow> clean_elems (abs_path es) = es"
proof -
  assume es: "list_all plain es"
  have "HasPrefix (abs_path es) ''/''" by (simp add: abs_path_def)
  with es show ?thesis
    by (simp add: clean_elems_def Split_abs_path foldl_plain)
qed

lemma Clean_abs_path: "list_all plain es \<Longrightarrow> Clean (abs_path es) = abs_path es"
  by (simp add: Clean_def clean_elems_abs_path) (simp add: abs_path_def)

lemma Clean_idem_rooted: "HasPrefix p ''/'' \<Longrightarrow> Clean (Clean p) = Clean p"
  using Clean_rooted Clean_abs_path by metis

lemma abs_path_inject:
  "list_all plain es \<Longrightarrow> list_all plain fs \<Longrightarrow> abs_path es = abs_path fs \<longleftrightarrow> es = fs"
  by (metis clean_elems_abs_path)

lemma abs_path_append:
  "es \<noteq> [] \<Longrightarrow> fs \<noteq> [] \<Longrightarrow> abs_path (es @ fs) = abs_path es @ ''/'' @ Join fs ''/''"
  by (simp add: abs_path_def Join_append)

lemma base_ok_elems:
  assumes "base_ok b"
  obtains es where "b = abs_path es" "list_all plain es" "es \<noteq> []"
proof -
  obtain es where es: "list_all plain es" "Clean b = abs_path es"
    using assms Clean_rooted [of b] by (auto simp: base_ok_def)
  with assms have "b = abs_path es" "es \<noteq> []" by (auto simp: base_ok_def abs_path_def)
  with es that show thesis by blast
qed

lemma base_ok_abs_path: "list_all plain es \<Longrightarrow> es \<noteq> [] \<Longrightarrow> base_ok (abs_path es)"
  using Clean_abs_path Join_eq_Nil by (auto simp: base_ok_def abs_path_def)

text \<open>Joining plain elements below a clean absolute path appends them.\<close>

lemma JoinPath_below:
  assumes "list_all plain es" "es \<noteq> []" "list_all plain fs" "fs \<noteq> []"
  shows "JoinPath (abs_path es # fs) = abs_path (es @ fs)"
proof -
  have "Join (abs_path es # fs) ''/'' = abs_path (es @ fs)"
    using assms abs_path_append [of es fs] by (cases fs) auto
  with assms show ?thesis by (simp add: JoinPath_def) (simp add: abs_path_def Clean_abs_path [unfolded abs_path_def])
qed

lemma JoinPath_plain:
  assumes "list_all plain fs" "fs \<noteq> []"
  shows "JoinPath fs = Join fs ''/''"
proof -
  obtain f fs' where f: "fs = f # fs'" using assms(2) by (cases fs) auto
  have "dropWhile (\<lambda>e. e = '''') fs = fs" using f assms by (simp add: plain_def)
  moreover have nr: "\<not> HasPrefix (Join fs ''/'') ''/''"
    using f assms by (cases f; cases fs') (auto simp: plain_def)
  moreover have "clean_elems (Join fs ''/'') = fs"
    using assms nr Split_Join [of fs "CHR ''/''"]
    by (auto simp: clean_elems_def list_all_iff plain_def foldl_plain [unfolded list_all_iff plain_def])
  ultimately show ?thesis using f by (simp add: JoinPath_def Clean_def)
qed

lemma JoinPath_two:
  assumes "list_all plain es" "es \<noteq> []" "list_all plain fs" "fs \<noteq> []"
  shows "JoinPath [abs_path es, Join fs ''/''] = abs_path (es @ fs)"
  using assms Clean_abs_path [of "es @ fs"] abs_path_append [of es fs]
  by (simp add: JoinPath_def) (simp add: abs_path_def)

lemma Abs_clean: "list_all plain es \<Longrightarrow> Abs wd (abs_path es) = Inr (abs_path es)"
  using Clean_abs_path by (simp add: Abs_def abs_path_def)

lemma below_base_prefix:
  "es \<noteq> [] \<Longrightarrow> HasPrefix (abs_path (es @ fs)) (abs_path es @ ''/'') \<or> fs = []"
  by (cases fs) (simp_all add: abs_path_append HasPrefix_iff del: append_Cons)

section \<open>The layout of blobs\<close>

lemma plain_hex: "set h \<subseteq> set ''0123456789abcdef'' \<Longrightarrow> h \<noteq> [] \<Longrightarrow> plain h"
  by (auto simp: plain_def)

lemma address_hash_facts:
  "length (ObjectAddressHash b k) = 64" "set (ObjectAddressHash b k) \<subseteq> set ''0123456789abcdef''"
  using set_hex_encode by (simp_all add: ObjectAddressHash_def Let_def)

definition blob_elems :: "string \<Rightarrow> string \<Rightarrow> string list" where
  "blob_elems b k =
     (let h = ObjectAddressHash b k in [b, take 2 h, take 2 (drop 2 h), h @ ''.blob''])"

lemma valid_bucket_plain:
  assumes "BucketNameError b = ''''"
  shows "plain b" "b \<noteq> ''_multipart''" "b \<noteq> ''_hints''"
proof -
  have r: "3 \<le> length b" "\<forall>c \<in> set b. re_alnum c \<or> c = CHR ''-''"
    using assms by (auto simp: valid_bucket_iff)
  from r(2) have "CHR ''/'' \<notin> set b" "CHR ''_'' \<notin> set b"
    using re_alnum_hyphen_facts [of "CHR ''/''"] re_alnum_hyphen_facts [of "CHR ''_''"] by auto
  with r(1) show "plain b" "b \<noteq> ''_multipart''" "b \<noteq> ''_hints''" by (auto simp: plain_def)
qed

lemma blob_elems_plain: "plain b \<Longrightarrow> list_all plain (blob_elems b k)"
proof -
  assume b: "plain b"
  define h where "h = ObjectAddressHash b k"
  have h: "length h = 64" "set h \<subseteq> set ''0123456789abcdef''"
    using address_hash_facts by (auto simp: h_def)
  have "plain (take 2 h)"
    by (rule plain_hex [OF subset_trans [OF set_take_subset h(2)]]) (use h(1) in auto)
  moreover have "plain (take 2 (drop 2 h))"
    by (rule plain_hex [OF subset_trans [OF set_take_subset subset_trans [OF set_drop_subset h(2)]]])
       (use h(1) in auto)
  moreover have "CHR ''/'' \<notin> set h" using h(2) by auto
  then have "plain (h @ ''.blob'')" by (simp add: plain_def append_eq_Cons_conv)
  ultimately show ?thesis using b by (simp add: blob_elems_def Let_def h_def)
qed

lemma ResolveBlobPath_valid:
  assumes "plain bucket" "list_all plain es" "es \<noteq> []"
  shows "ResolveBlobPath wd (abs_path es) bucket key = Inr (abs_path (es @ blob_elems bucket key))"
proof -
  let ?fs = "blob_elems bucket key"
  have fs: "list_all plain ?fs" "?fs \<noteq> []"
    using blob_elems_plain [OF assms(1)] by (auto simp: blob_elems_def Let_def)
  have "BlobRelativePath bucket key = Join ?fs ''/''"
    using JoinPath_plain [OF fs] by (simp add: BlobRelativePath_def blob_elems_def Let_def)
  then have "JoinPath [abs_path es, BlobRelativePath bucket key] = abs_path (es @ ?fs)"
    using JoinPath_two [OF assms(2,3) fs] by simp
  moreover have "Abs wd (abs_path (es @ ?fs)) = Inr (abs_path (es @ ?fs))"
    using assms fs by (intro Abs_clean) simp
  ultimately show ?thesis
    using below_base_prefix [OF assms(3), of ?fs] fs(2) Abs_clean [OF assms(2)]
    by (auto simp: ResolveBlobPath_def AssertWithinBase_def Let_def)
qed

text \<open>
  For an accepted bucket name and a proper storage root, resolving the blob path
  always succeeds, with \<^verbatim>\<open>base/bucket/hh/hh/hash.blob\<close> for the hash of the object's address;
  the path is clean, so the file lies inside the bucket's own directory.
\<close>

lemma blob_path_layout:
  assumes "base_ok base" "BucketNameError bucket = ''''"
  shows "ResolveBlobPath wd base bucket key =
     Inr (base @ ''/'' @ bucket @ ''/'' @ take 2 (ObjectAddressHash bucket key) @ ''/'' @
          take 2 (drop 2 (ObjectAddressHash bucket key)) @ ''/'' @
          ObjectAddressHash bucket key @ ''.blob'')"
proof -
  obtain es where es: "base = abs_path es" "list_all plain es" "es \<noteq> []"
    using assms(1) by (rule base_ok_elems)
  have "abs_path (es @ blob_elems bucket key) = base @ ''/'' @ Join (blob_elems bucket key) ''/''"
    using es abs_path_append [of es] by (simp add: blob_elems_def Let_def)
  with ResolveBlobPath_valid [OF valid_bucket_plain(1) [OF assms(2)] es(2,3)] es(1) show ?thesis
    by (simp add: blob_elems_def Let_def)
qed

theorem blob_path_layout_witness:
  "base_ok ''/data'' \<and> BucketNameError ''abc'' = '''' \<and>
   (\<exists>h. ResolveBlobPath (Inr ''/'') ''/data'' ''abc'' ''k'' = Inr (''/data/abc/'' @ h))"
proof -
  have "base_ok ''/data''" "BucketNameError ''abc'' = ''''" by code_simp+
  with blob_path_layout [of "''/data''" "''abc''" "Inr ''/''" "''k''"] show ?thesis by auto
qed

text \<open>
  C33: no path escapes the storage root, whatever the bucket and key: a resolved path is the
  root's absolute path followed by elements none of which is empty, \<^verbatim>\<open>.\<close>, \<^verbatim>\<open>..\<close>
  or contains a slash.
\<close>

theorem resolved_path_contained:
  assumes "ResolveBlobPath wd base bucket key = Inr p" "HasPrefix base ''/''"
  shows "\<exists>es fs. Abs wd base = Inr (abs_path es) \<and> list_all plain (es @ fs) \<and> p = abs_path (es @ fs)"
proof -
  obtain es where es: "list_all plain es" "Clean base = abs_path es"
    using Clean_rooted [OF assms(2)] by blast
  then have ab: "Abs wd base = Inr (abs_path es)" using assms(2) by (simp add: Abs_def)
  have full: "HasPrefix (JoinPath [base, rel]) ''/''" for rel
    using assms(2) by (cases base) (auto simp: JoinPath_def Clean_def)
  then obtain gs where gs: "list_all plain gs" "p = abs_path gs"
    using assms Clean_rooted [OF full]
    by (force simp: ResolveBlobPath_def AssertWithinBase_def Abs_def Let_def split: if_splits)
  have "p = abs_path es \<or> HasPrefix p (abs_path es @ ''/'')"
    using assms(1) ab by (auto simp: ResolveBlobPath_def AssertWithinBase_def Let_def split: sum.splits if_splits)
  then show ?thesis
  proof
    assume "HasPrefix p (abs_path es @ ''/'')"
    then obtain t where t: "p = abs_path es @ CHR ''/'' # t" by (auto simp: HasPrefix_iff)
    have "Split (CHR ''/'') p = Split (CHR ''/'') (abs_path es) @ Split (CHR ''/'') t"
      unfolding t by (rule Split_append_any)
    with gs es have "gs = es @ Split (CHR ''/'') t"
      by (cases "gs = []"; cases "es = []") (auto simp: Split_abs_path plain_def Cons_eq_append_conv dest: sym)
    with gs ab show ?thesis by metis
  next
    assume "p = abs_path es"
    then show ?thesis using es ab by (intro exI [of _ es] exI [of _ "[]"]) simp
  qed
qed

theorem resolved_path_contained_witness:
  "\<exists>es fs p. ResolveBlobPath (Inr ''/'') ''/data'' ''abc'' ''k'' = Inr p \<and>
     Abs (Inr ''/'') ''/data'' = Inr (abs_path es) \<and> p = abs_path (es @ fs)"
proof -
  have "list_all plain [''data'']" "plain ''abc''" by code_simp+
  then have "ResolveBlobPath (Inr ''/'') ''/data'' ''abc'' ''k'' =
      Inr (abs_path ([''data''] @ blob_elems ''abc'' ''k''))"
    using ResolveBlobPath_valid [of "''abc''" "[''data'']" "Inr ''/''" "''k''"] by (simp add: abs_path_def)
  from this resolved_path_contained [OF this] show ?thesis by auto
qed

text \<open>
  In one storage root, two objects of valid buckets share a blob file exactly when they are
  in the same bucket and their normalised keys have the same digest. Keys with the same
  normal form (\<^verbatim>\<open>a..b\<close> and \<^verbatim>\<open>ab\<close>, both valid) therefore share one file.
\<close>

lemma blob_path_shared_iff:
  assumes "base_ok base" "BucketNameError b1 = ''''" "BucketNameError b2 = ''''"
  shows "(ResolveBlobPath wd base b1 k1 = ResolveBlobPath wd base b2 k2 \<longleftrightarrow>
            b1 = b2 \<and> sha256 (b1 @ ''/'' @ SanitizeKey k1) = sha256 (b2 @ ''/'' @ SanitizeKey k2)) \<and>
         ResolveBlobPath wd base b1 ''a..b'' = ResolveBlobPath wd base b1 ''ab'' \<and>
         KeyError ''a..b'' = '''' \<and> KeyError ''ab'' = ''''"
proof -
  obtain es where es: "base = abs_path es" "list_all plain es" "es \<noteq> []"
    using assms(1) by (rule base_ok_elems)
  have pl: "plain b1" "plain b2" using assms valid_bucket_plain by auto
  have "ResolveBlobPath wd base b1 k1 = ResolveBlobPath wd base b2 k2 \<longleftrightarrow>
        es @ blob_elems b1 k1 = es @ blob_elems b2 k2"
    unfolding es(1) ResolveBlobPath_valid [OF pl(1) es(2,3)] ResolveBlobPath_valid [OF pl(2) es(2,3)]
    using es(2) blob_elems_plain [OF pl(1)] blob_elems_plain [OF pl(2)] by (simp add: abs_path_inject)
  also have "\<dots> \<longleftrightarrow> b1 = b2 \<and> ObjectAddressHash b1 k1 = ObjectAddressHash b2 k2"
    by (auto simp: blob_elems_def Let_def)
  also have "\<dots> \<longleftrightarrow> b1 = b2 \<and> sha256 (b1 @ ''/'' @ SanitizeKey k1) = sha256 (b2 @ ''/'' @ SanitizeKey k2)"
    by (auto simp: ObjectAddressHash_def Let_def hex_encode_inject)
  finally have shared: "ResolveBlobPath wd base b1 k1 = ResolveBlobPath wd base b2 k2 \<longleftrightarrow>
      b1 = b2 \<and> sha256 (b1 @ ''/'' @ SanitizeKey k1) = sha256 (b2 @ ''/'' @ SanitizeKey k2)" .
  have "SanitizeKey ''a..b'' = SanitizeKey ''ab''" by code_simp
  then have "blob_elems b1 ''a..b'' = blob_elems b1 ''ab''"
    by (simp add: blob_elems_def ObjectAddressHash_def)
  moreover have "KeyError ''a..b'' = ''''" "KeyError ''ab'' = ''''" by code_simp+
  ultimately show ?thesis
    using shared ResolveBlobPath_valid [OF pl(1) es(2,3)] es(1) by simp
qed

lemma blob_path_shared_iff_example:
  "base_ok ''/data'' \<and> BucketNameError ''abc'' = '''' \<and>
   ResolveBlobPath (Inr ''/'') ''/data'' ''abc'' ''a..b'' = ResolveBlobPath (Inr ''/'') ''/data'' ''abc'' ''ab''"
proof -
  have "base_ok ''/data''" "BucketNameError ''abc'' = ''''" by code_simp+
  with blob_path_shared_iff [of "''/data''" "''abc''" "''abc''" "Inr ''/''" "''a''" "''b''"]
  show ?thesis by auto
qed

end
