(* ===== verification/Streams.thy ===== *)
theory Streams
  imports Go_Hash
begin

text \<open>
  Streaming: \<^verbatim>\<open>internal/object/limitreader.go\<close>, \<^verbatim>\<open>internal/hash\<close> (the MD5 reader and the
  multipart ETag) and the copy loop of \<^verbatim>\<open>internal/storage/filesystem/storage.go\<close>.

  An \<^verbatim>\<open>io.Reader\<close> is a value of the datatype \<open>reader\<close>: a source, or a wrapper around a reader
  with its fields. A source is the list of what its successive reads would deliver to a large
  enough buffer, each a run of bytes and the error returned together with them; a smaller buffer
  takes a run in pieces, the error coming with the last one, and the end of the list is
  \<^verbatim>\<open>io.EOF\<close>. This covers readers that return data together with an error, and
  zero-byte reads without error.
\<close>

section \<open>Readers\<close>

datatype rerr = EOF | RErr goerr

type_synonym chunk = "string \<times> rerr option"

datatype reader =
    Src "chunk list"
  | LimitReader reader int int
  | MD5Reader reader string int "rerr option"

definition newLimitReader :: "reader \<Rightarrow> int \<Rightarrow> reader" where
  "newLimitReader r limit = LimitReader r limit 0"

text \<open>The state of \<^verbatim>\<open>hash.Hash\<close> is the bytes written to it; \<^verbatim>\<open>Write\<close> never fails.\<close>

definition NewMD5Reader :: "reader \<Rightarrow> reader" where
  "NewMD5Reader r = MD5Reader r '''' 0 None"

text \<open>What \<^verbatim>\<open>MD5Reader.Read\<close> does with the result of the underlying read.\<close>

definition md5_note :: "string \<Rightarrow> rerr option \<Rightarrow> string \<Rightarrow> int \<Rightarrow> rerr option \<Rightarrow> string \<times> int \<times> rerr option" where
  "md5_note b e h n err =
     (if b \<noteq> '''' then h @ b else h,
      if b \<noteq> '''' then n + int (length b) else n,
      if e \<noteq> None then e else err)"

fun Read :: "nat \<Rightarrow> reader \<Rightarrow> (string \<times> rerr option) \<times> reader" where
  "Read p (Src []) = (('''', Some EOF), Src [])"
| "Read p (Src ((b, e) # cs)) =
     (if length b \<le> p then ((b, e), Src cs)
      else ((take p b, None), Src ((drop p b, e) # cs)))"
| "Read p (LimitReader r limit n) =
     (if n > limit then (('''', Some (RErr ErrUploadTooLarge)), LimitReader r limit n)
      else let remaining = limit - n in
        if remaining = 0 then
          (case Read 1 r of
             ((_, Some EOF), r') \<Rightarrow> (('''', Some EOF), LimitReader r' limit n)
           | ((_, Some (RErr e)), r') \<Rightarrow> (('''', Some (RErr e)), LimitReader r' limit n)
           | ((_, None), r') \<Rightarrow> (('''', Some (RErr ErrUploadTooLarge)), LimitReader r' limit n))
        else
          let p' = (if int p > remaining then nat remaining else p) in
          (case Read p' r of
             ((b, e), r') \<Rightarrow> ((b, e), LimitReader r' limit (n + int (length b)))))"
| "Read p (MD5Reader r h n err) =
     (case Read p r of
        ((b, e), r') \<Rightarrow>
          (case md5_note b e h n err of (h', n', err') \<Rightarrow> ((b, e), MD5Reader r' h' n' err')))"

fun md5_Size :: "reader \<Rightarrow> int" where
  "md5_Size (MD5Reader r h n err) = n"
| "md5_Size r = 0"

fun ETag :: "reader \<Rightarrow> string" where
  "ETag (MD5Reader r h n err) = hex_encode (md5 h)"
| "ETag r = ''''"

text \<open>\<^verbatim>\<open>Err\<close>: the last read error other than EOF.\<close>

fun Err :: "reader \<Rightarrow> goerr option" where
  "Err (MD5Reader r h n err) =
     (case err of None \<Rightarrow> None | Some EOF \<Rightarrow> None | Some (RErr e) \<Rightarrow> Some e)"
| "Err r = None"

section \<open>The copy loop\<close>

text \<open>
  \<^verbatim>\<open>copyWithContext\<close>. The environment of a run is how many context checks succeed before
  the context is cancelled and how many bytes the destination still takes (\<open>None\<close> for no limit):
  \<^verbatim>\<open>os.File.Write\<close> returns an error with every short write. The result is the bytes written,
  the error, and the reader as it is left.
\<close>

record io_env =
  ctx_left :: "nat option"
  disk_left :: "nat option"

definition io_ok :: io_env where
  "io_ok = \<lparr>ctx_left = None, disk_left = None\<rparr>"

definition ctx_err :: goerr where
  "ctx_err = Other ''context canceled''"

definition write_err :: goerr where
  "write_err = Other ''no space left on device''"

definition buf_size :: nat where
  "buf_size = 32 * 1024"

lemma buf_size_pos [simp]: "0 < buf_size"
  by (simp add: buf_size_def)

fun reader_size :: "reader \<Rightarrow> nat" where
  "reader_size (Src cs) = sum_list (map (\<lambda>(b, e). Suc (length b)) cs)"
| "reader_size (LimitReader r limit n) = reader_size r"
| "reader_size (MD5Reader r h n err) = reader_size r"

lemma Read_size:
  "Read p r = ((b, None), r') \<Longrightarrow> 0 < p \<Longrightarrow> reader_size r' < reader_size r"
proof (induction p r arbitrary: b r' rule: Read.induct)
  case (3 p r limit n)
  then show ?case
    by (auto simp: Let_def split: if_splits prod.splits option.splits rerr.splits)
next
  case (4 p r h n err)
  then show ?case by (auto simp: md5_note_def split: prod.splits)
qed (auto split: if_splits)

function copy_loop :: "io_env \<Rightarrow> reader \<Rightarrow> string \<Rightarrow> (string \<times> goerr option) \<times> reader" where
  "copy_loop io r out =
     (if ctx_left io = Some 0 then ((out, Some ctx_err), r)
      else case Read buf_size r of
        ((b, readErr), r') \<Rightarrow>
          let wn = (case disk_left io of None \<Rightarrow> length b | Some m \<Rightarrow> min m (length b));
              out' = out @ take wn b
          in if b \<noteq> '''' \<and> wn \<noteq> length b then ((out', Some write_err), r')
             else case readErr of
                 Some EOF \<Rightarrow> ((out', None), r')
               | Some (RErr e) \<Rightarrow> ((out', Some e), r')
               | None \<Rightarrow> copy_loop (io\<lparr>ctx_left := map_option (\<lambda>k. k - 1) (ctx_left io),
                                     disk_left := map_option (\<lambda>m. m - wn) (disk_left io)\<rparr>) r' out')"
  by pat_completeness auto
termination
  by (relation "measure (\<lambda>(io, r, out). reader_size r)") (auto dest!: sym [THEN Read_size])

declare copy_loop.simps [simp del]

definition copyWithContext :: "io_env \<Rightarrow> reader \<Rightarrow> (string \<times> goerr option) \<times> reader" where
  "copyWithContext io r = copy_loop io r ''''"

section \<open>The multipart ETag\<close>

text \<open>\<^verbatim>\<open>itoa\<close>: the digits are put into a buffer from the right.\<close>

fun itoa_loop :: "nat \<Rightarrow> string \<Rightarrow> string" where
  "itoa_loop n buf = (if n = 0 then buf else itoa_loop (n div 10) (char_of (48 + n mod 10) # buf))"

declare itoa_loop.simps [simp del]

definition itoa :: "nat \<Rightarrow> string" where
  "itoa n = (if n = 0 then ''0'' else itoa_loop n '''')"

text \<open>The loop writes the decoded ETags to the hash and stops at the first that does not decode.\<close>

fun etag_loop :: "string list \<Rightarrow> string \<Rightarrow> string res" where
  "etag_loop [] h = Inr h"
| "etag_loop (etag # es) h =
     (case hex_decode etag of
        None \<Rightarrow> Inl (Other ''encoding/hex'')
      | Some b \<Rightarrow> etag_loop es (h @ b))"

definition MultipartETag :: "string list \<Rightarrow> string res" where
  "MultipartETag partETags =
     (case etag_loop partETags '''' of
        Inl e \<Rightarrow> Inl e
      | Inr h \<Rightarrow> Inr (hex_encode (md5 h) @ ''-'' @ itoa (length partETags)))"

section \<open>What a source delivers\<close>

text \<open>
  The specification of a source: the bytes up to and including the first read that returns an
  error, and that error.
\<close>

fun stream_data :: "chunk list \<Rightarrow> string" where
  "stream_data [] = ''''"
| "stream_data ((b, None) # cs) = b @ stream_data cs"
| "stream_data ((b, Some e) # cs) = b"

fun stream_end :: "chunk list \<Rightarrow> rerr" where
  "stream_end [] = EOF"
| "stream_end ((b, None) # cs) = stream_end cs"
| "stream_end ((b, Some e) # cs) = e"

definition end_err :: "rerr \<Rightarrow> goerr option" where
  "end_err e = (case e of EOF \<Rightarrow> None | RErr x \<Rightarrow> Some x)"

text \<open>The innermost source of a reader, and the bytes an MD5 reader has hashed.\<close>

fun source_of :: "reader \<Rightarrow> chunk list" where
  "source_of (Src cs) = cs"
| "source_of (LimitReader r limit n) = source_of r"
| "source_of (MD5Reader r h n err) = source_of r"

lemma Read_Src:
  assumes "0 < p"
  obtains b e cs' where "Read p (Src cs) = ((b, e), Src cs')" "length b \<le> p"
    "e = None \<longrightarrow> stream_data cs = b @ stream_data cs' \<and> stream_end cs = stream_end cs'"
    "\<forall>x. e = Some x \<longrightarrow> stream_data cs = b \<and> stream_end cs = x"
proof (cases cs)
  case Nil
  with that show thesis by simp
next
  case (Cons c cs')
  obtain b e where c: "c = (b, e)" by (cases c)
  show thesis
  proof (cases "length b \<le> p")
    case True
    then show thesis using Cons c by (intro that [of b e cs']) (cases e; simp)+
  next
    case False
    then show thesis using Cons c
      by (intro that [of "take p b" None "(drop p b, e) # cs'"]) (cases e; simp)+
  qed
qed

lemma copy_loop_io_ok:
  assumes "Read buf_size r = ((b, e), r')"
  shows "copy_loop io_ok r out =
    (case e of None \<Rightarrow> copy_loop io_ok r' (out @ b)
     | Some EOF \<Rightarrow> ((out @ b, None), r') | Some (RErr x) \<Rightarrow> ((out @ b, Some x), r'))"
proof -
  have "(io_ok\<lparr>ctx_left := map_option (\<lambda>k. k - 1) (ctx_left io_ok),
      disk_left := map_option (\<lambda>m. m - wn) (disk_left io_ok)\<rparr>) = io_ok" for wn
    by (simp add: io_ok_def)
  then show ?thesis
    by (subst copy_loop.simps) (simp add: assms io_ok_def Let_def split: option.splits rerr.splits)
qed

text \<open>Copying a plain source, and a source through an MD5 reader, without a limit.\<close>

lemma copy_loop_Src:
  "\<exists>cs'. copy_loop io_ok (Src cs) out = ((out @ stream_data cs, end_err (stream_end cs)), Src cs')"
proof (induction "Src cs" arbitrary: cs out rule: measure_induct_rule [of reader_size])
  case (less cs)
  obtain b e cs' where R: "Read buf_size (Src cs) = ((b, e), Src cs')" and "length b \<le> buf_size"
    and n: "e = None \<longrightarrow> stream_data cs = b @ stream_data cs' \<and> stream_end cs = stream_end cs'"
    and s: "\<forall>x. e = Some x \<longrightarrow> stream_data cs = b \<and> stream_end cs = x"
    by (rule Read_Src [OF buf_size_pos, of cs])
  show ?case
  proof (cases e)
    case None
    with R buf_size_pos have "reader_size (Src cs') < reader_size (Src cs)" using Read_size by blast
    from less(1) [OF this] obtain cs'' where
      "copy_loop io_ok (Src cs') (out @ b) = ((out @ b @ stream_data cs', end_err (stream_end cs')), Src cs'')"
      by (metis append.assoc)
    with None n copy_loop_io_ok [OF R] show ?thesis by simp
  next
    case (Some x)
    with s copy_loop_io_ok [OF R] show ?thesis by (cases x) (auto simp: end_err_def)
  qed
qed

lemma Read_MD5: "Read p r = ((b, e), r') \<Longrightarrow>
   Read p (MD5Reader r h n err) =
     ((b, e), MD5Reader r' (h @ b) (n + int (length b)) (if e \<noteq> None then e else err))"
  by (simp add: md5_note_def)

text \<open>
  Through an MD5 reader every byte copied is hashed: the copy is that of the underlying
  reader, and the digest is of exactly the bytes the underlying reader delivered.
\<close>

lemma copy_loop_MD5:
  assumes "copy_loop io_ok r out = ((out @ d, e), r')"
  shows "\<exists>err. copy_loop io_ok (MD5Reader r h n None) out =
       ((out @ d, e), MD5Reader r' (h @ d) (n + int (length d)) err) \<and>
     (case err of None \<Rightarrow> True | Some x \<Rightarrow> end_err x = e)"
  using assms
proof (induction r arbitrary: out d h n rule: measure_induct_rule [of reader_size])
  case (less r)
  obtain b re r1 where R: "Read buf_size r = ((b, re), r1)" by (metis surj_pair)
  note RM = Read_MD5 [OF R, of h n None]
  show ?case
  proof (cases re)
    case None
    have "reader_size r1 < reader_size r" using Read_size R None by simp
    moreover from None less(2) copy_loop_io_ok [OF R]
    have c: "copy_loop io_ok r1 (out @ b) = ((out @ d, e), r')" by simp
    moreover have "\<exists>d'. out @ d = (out @ b) @ d'"
    proof -
      have "\<exists>d'. fst (fst (copy_loop io r out)) = out @ d'" for io r out
        by (induction io r out rule: copy_loop.induct)
           (subst copy_loop.simps, auto simp: Let_def split: prod.splits option.splits rerr.splits; metis append.assoc)
      then show ?thesis using c by (metis fst_conv)
    qed
    then obtain d' where d': "d = b @ d'" by auto
    ultimately obtain err where
      "copy_loop io_ok (MD5Reader r1 (h @ b) (n + int (length b)) None) (out @ b) =
         ((out @ b @ d', e), MD5Reader r' (h @ b @ d') (n + int (length b) + int (length d')) err)"
      "case err of None \<Rightarrow> True | Some x \<Rightarrow> end_err x = e"
      using less(1) [of r1 "out @ b" d' "h @ b" "n + int (length b)"] by auto
    with None copy_loop_io_ok [OF RM] d' show ?thesis by (auto simp: algebra_simps)
  next
    case (Some x)
    with less(2) copy_loop_io_ok [OF R] copy_loop_io_ok [OF RM] show ?thesis
      by (cases x) (auto simp: end_err_def)
  qed
qed

lemma md5_copy_stream:
  "\<exists>r. copyWithContext io_ok (NewMD5Reader (Src cs)) =
        ((stream_data cs, end_err (stream_end cs)), r) \<and>
      ETag r = hex_encode (md5 (stream_data cs)) \<and> md5_Size r = int (length (stream_data cs)) \<and>
      Err r \<in> {None, end_err (stream_end cs)}"
proof -
  obtain cs' where "copy_loop io_ok (Src cs) '''' = (('''' @ stream_data cs, end_err (stream_end cs)), Src cs')"
    using copy_loop_Src [of cs "''''"] by auto
  from copy_loop_MD5 [OF this, of "''''" 0] obtain err where
    c: "copy_loop io_ok (NewMD5Reader (Src cs)) '''' = ((stream_data cs, end_err (stream_end cs)),
        MD5Reader (Src cs') (stream_data cs) (int (length (stream_data cs))) err)"
    and e: "case err of None \<Rightarrow> True | Some x \<Rightarrow> end_err x = end_err (stream_end cs)"
    by (auto simp: NewMD5Reader_def)
  have "Err (MD5Reader (Src cs') h n err) \<in> {None, end_err (stream_end cs)}" for h n
    using e by (auto simp: end_err_def split: option.splits rerr.splits)
  with c show ?thesis by (simp add: copyWithContext_def)
qed

text \<open>
  Streaming a source through the MD5 reader into a file, with any sizes of reads and
  whatever way the end is signalled, writes exactly the source's bytes, reports the source's
  error (none at EOF), and leaves the reader with the length and the MD5 of exactly
  those bytes.
\<close>

lemma md5_copy_exact:
  "\<exists>r. copyWithContext io_ok (NewMD5Reader (Src cs)) =
        ((stream_data cs, end_err (stream_end cs)), r) \<and>
      ETag r = hex_encode (md5 (stream_data cs)) \<and> md5_Size r = int (length (stream_data cs)) \<and>
      Err r \<in> {None, end_err (stream_end cs)}"
  by (rule md5_copy_stream)

section \<open>The upload limit\<close>

text \<open>A source that signals its end, or an error, by a read of its own (as \<^verbatim>\<open>bytes.Reader\<close> does).\<close>

definition separate_end :: "chunk list \<Rightarrow> bool" where
  "separate_end cs \<longleftrightarrow> list_all (\<lambda>(b, e). b = '''' \<longleftrightarrow> e \<noteq> None) cs"

lemma Read_Src_separate:
  "separate_end cs \<Longrightarrow> 0 < p \<Longrightarrow> Read p (Src cs) = ((b, e), Src cs') \<Longrightarrow> separate_end cs'"
  by (cases cs) (auto simp: separate_end_def split: if_splits)

lemma Read_limit_pos:
  assumes "n < limit" "Read (min p (nat (limit - n))) r = ((b, e), r')"
  shows "Read p (LimitReader r limit n) = ((b, e), LimitReader r' limit (n + int (length b)))"
proof -
  have "(if int p > limit - n then nat (limit - n) else p) = min p (nat (limit - n))"
    using assms(1) by (auto simp: min_def)
  with assms show ?thesis by (simp add: Let_def)
qed

lemma Read_limit_zero:
  assumes "separate_end cs"
  shows "\<exists>cs'. Read p (LimitReader (Src cs) limit limit) =
    (('''', Some (if stream_data cs = '''' then stream_end cs else RErr ErrUploadTooLarge)),
     LimitReader (Src cs') limit limit)"
proof (cases cs)
  case (Cons c cs')
  then show ?thesis using assms
    by (cases c; cases "snd c") (auto simp: separate_end_def split: rerr.splits)
qed simp

lemma copy_loop_limit:
  assumes "separate_end cs" "n \<le> limit"
  shows "\<exists>cs' m. copy_loop io_ok (LimitReader (Src cs) limit n) out =
     ((out @ take (nat (limit - n)) (stream_data cs),
       if int (length (stream_data cs)) \<le> limit - n then end_err (stream_end cs)
       else Some ErrUploadTooLarge), LimitReader (Src cs') limit m)"
  using assms
proof (induction "Src cs" arbitrary: cs n out rule: measure_induct_rule [of reader_size])
  case (less cs)
  show ?case
  proof (cases "n = limit")
    case True
    from Read_limit_zero [OF less(2)] obtain cs' where
      R: "Read buf_size (LimitReader (Src cs) limit n) =
        (('''', Some (if stream_data cs = '''' then stream_end cs else RErr ErrUploadTooLarge)),
         LimitReader (Src cs') limit n)"
      using True by blast
    from copy_loop_io_ok [OF R] True show ?thesis by (auto simp: end_err_def split: rerr.splits)
  next
    case False
    with less(3) have lt: "n < limit" by simp
    let ?p = "min buf_size (nat (limit - n))"
    have p: "0 < ?p" using lt by simp
    obtain b e cs' where R: "Read ?p (Src cs) = ((b, e), Src cs')" and len: "length b \<le> ?p"
      and nn: "e = None \<longrightarrow> stream_data cs = b @ stream_data cs' \<and> stream_end cs = stream_end cs'"
      and ss: "\<forall>x. e = Some x \<longrightarrow> stream_data cs = b \<and> stream_end cs = x"
      by (rule Read_Src [OF p, of cs])
    note RL = copy_loop_io_ok [OF Read_limit_pos [OF lt R]]
    have le: "int (length b) \<le> limit - n" using len lt by linarith
    show ?thesis
    proof (cases e)
      case None
      have sz: "reader_size (Src cs') < reader_size (Src cs)" using Read_size R p None by blast
      have nl: "nat (limit - n) = length b + nat (limit - (n + int (length b)))" using le by linarith
      obtain cs'' m where "copy_loop io_ok (LimitReader (Src cs') limit (n + int (length b))) (out @ b) =
         (((out @ b) @ take (nat (limit - (n + int (length b)))) (stream_data cs'),
           if int (length (stream_data cs')) \<le> limit - (n + int (length b)) then end_err (stream_end cs')
           else Some ErrUploadTooLarge), LimitReader (Src cs'') limit m)"
        using less(1) [OF sz Read_Src_separate [OF less(2) p R], of "n + int (length b)" "out @ b"] le
        by auto
      with None RL nn nl show ?thesis by auto
    next
      case (Some x)
      with ss RL le show ?thesis by (cases x) (auto simp: end_err_def)
    qed
  qed
qed

text \<open>
  C32: with an upload limit, a source that signals its end separately is stored whole, with the
  MD5 of its bytes, exactly when it has at most that many bytes; a longer one makes the copy
  fail with the upload-too-large error after exactly the limit, however its reads are cut.
\<close>

theorem upload_limit_enforced:
  assumes "separate_end cs" "0 < limit"
  shows "\<exists>r. copyWithContext io_ok (NewMD5Reader (newLimitReader (Src cs) limit)) =
      ((take (nat limit) (stream_data cs),
        if int (length (stream_data cs)) \<le> limit then end_err (stream_end cs)
        else Some ErrUploadTooLarge), r) \<and>
      ETag r = hex_encode (md5 (take (nat limit) (stream_data cs)))"
proof -
  let ?d = "take (nat limit) (stream_data cs)"
  let ?e = "if int (length (stream_data cs)) \<le> limit then end_err (stream_end cs) else Some ErrUploadTooLarge"
  obtain r where "copy_loop io_ok (newLimitReader (Src cs) limit) '''' = (('''' @ ?d, ?e), r)"
    using copy_loop_limit [OF assms(1), of 0 limit "''''"] assms(2) by (auto simp: newLimitReader_def)
  from copy_loop_MD5 [OF this, of "''''" 0] show ?thesis
    by (auto simp: copyWithContext_def NewMD5Reader_def)
qed

theorem upload_limit_enforced_witness:
  "separate_end [(''ab'', None), (''c'', None)] \<and>
   (\<exists>r. copyWithContext io_ok (NewMD5Reader (newLimitReader (Src [(''ab'', None), (''c'', None)]) 2)) =
      ((''ab'', Some ErrUploadTooLarge), r))"
proof -
  have "separate_end [(''ab'', None), (''c'', None)]" by code_simp
  with upload_limit_enforced [OF this, of 2] show ?thesis by auto
qed

text \<open>A source that hands over its last bytes together with EOF (as a \<^verbatim>\<open>net/http\<close> request body does).\<close>

lemma copy_loop_limit_eof:
  assumes "int (length d) = limit - n + 1" "n \<le> limit"
  shows "\<exists>cs' m. copy_loop io_ok (LimitReader (Src [(d, Some EOF)]) limit n) out =
     ((out @ butlast d, None), LimitReader (Src cs') limit m)"
  using assms
proof (induction "Src [(d, Some EOF)]" arbitrary: d n out rule: measure_induct_rule [of reader_size])
  case (less d)
  show ?case
  proof (cases "n = limit")
    case True
    with less(2) obtain c where "d = [c]" by (auto simp: length_Suc_conv)
    then have "Read buf_size (LimitReader (Src [(d, Some EOF)]) limit n) =
        (('''', Some EOF), LimitReader (Src []) limit n)" using True by simp
    from copy_loop_io_ok [OF this] \<open>d = [c]\<close> show ?thesis by simp
  next
    case False
    with less(3) have lt: "n < limit" by simp
    define q where "q = min buf_size (nat (limit - n))"
    have p: "0 < q" "q < length d" "int q \<le> limit - n" using lt less(2) by (auto simp: q_def)
    then have R: "Read q (Src [(d, Some EOF)]) = ((take q d, None), Src [(drop q d, Some EOF)])"
      and len: "int (length (take q d)) = int q" by simp_all
    have "reader_size (Src [(drop q d, Some EOF)]) < reader_size (Src [(d, Some EOF)])"
      using p by simp
    from less(1) [OF this, of "n + int q" "out @ take q d"] p less(2)
    obtain cs' m where "copy_loop io_ok (LimitReader (Src [(drop q d, Some EOF)]) limit (n + int q)) (out @ take q d) =
       (((out @ take q d) @ butlast (drop q d), None), LimitReader (Src cs') limit m)" by auto
    moreover have "take q d @ butlast (drop q d) = butlast d"
      using p(2) by (metis append_take_drop_id butlast_append drop_eq_Nil not_le)
    ultimately show ?thesis
      using copy_loop_io_ok [OF Read_limit_pos [OF lt R [unfolded q_def]], folded q_def, unfolded len] by simp
  qed
qed

text \<open>
  C36: a body of exactly one byte more than the limit whose last byte comes together with EOF is
  not rejected: the probing read of the limit reader discards the byte and reports EOF, so the
  copy succeeds with the body cut to the limit, and the ETag is that of the cut body.
\<close>

theorem upload_limit_eof_truncates:
  assumes "int (length d) = limit + 1" "0 < limit"
  shows "\<exists>r. copyWithContext io_ok (NewMD5Reader (newLimitReader (Src [(d, Some EOF)]) limit)) =
      ((butlast d, None), r) \<and> Err r = None \<and> ETag r = hex_encode (md5 (butlast d))"
proof -
  obtain r where "copy_loop io_ok (newLimitReader (Src [(d, Some EOF)]) limit) '''' = (('''' @ butlast d, None), r)"
    using copy_loop_limit_eof [of d limit 0 "''''"] assms by (auto simp: newLimitReader_def)
  from copy_loop_MD5 [OF this, of "''''" 0] obtain err where
    c: "copy_loop io_ok (NewMD5Reader (newLimitReader (Src [(d, Some EOF)]) limit)) '''' =
      ((butlast d, None), MD5Reader r (butlast d) (int (length (butlast d))) err)"
    and e: "case err of None \<Rightarrow> True | Some x \<Rightarrow> end_err x = None"
    by (auto simp: NewMD5Reader_def)
  have "Err (MD5Reader r (butlast d) (int (length (butlast d))) err) = None"
    using e by (auto simp: end_err_def split: option.splits rerr.splits)
  with c show ?thesis by (simp add: copyWithContext_def)
qed

theorem upload_limit_eof_truncates_witness:
  "\<exists>r. copyWithContext io_ok (NewMD5Reader (newLimitReader (Src [(''abc'', Some EOF)]) 2)) =
     ((''ab'', None), r)"
  using upload_limit_eof_truncates [of "''abc''" 2] by auto

section \<open>The multipart ETag of whole parts\<close>

lemma itoa_loop_digits: "0 < n \<Longrightarrow> itoa_loop n buf = dec_digits n @ buf"
proof (induction n buf rule: itoa_loop.induct)
  case (1 n buf)
  show ?case
  proof (cases "n < 10")
    case True
    with 1(2) show ?thesis
      by (subst itoa_loop.simps, subst itoa_loop.simps) (simp add: dec_digits.simps [of n] digit_char_def)
  next
    case False
    with 1 show ?thesis
      by (subst itoa_loop.simps) (simp add: dec_digits.simps [of n] digit_char_def)
  qed
qed

lemma itoa_dec_digits: "itoa n = dec_digits n"
proof (cases "n = 0")
  case True
  have "itoa 0 = dec_digits 0" by code_simp
  with True show ?thesis by simp
qed (simp add: itoa_def itoa_loop_digits)

lemma etag_loop_encoded: "etag_loop (map hex_encode ds) h = Inr (h @ concat ds)"
  by (induction ds arbitrary: h) auto

lemma etag_loop_Inl: "(\<exists>e. etag_loop es h = Inl e) \<longleftrightarrow> (\<exists>x \<in> set es. hex_decode x = None)"
  by (induction es arbitrary: h) (auto split: option.splits)

lemma MultipartETag_parts:
  "MultipartETag (map (\<lambda>p. hex_encode (md5 p)) parts) =
     Inr (hex_encode (md5 (concat (map md5 parts))) @ ''-'' @ dec_digits (length parts))"
  using etag_loop_encoded [of "map md5 parts" "''''"]
  by (simp add: MultipartETag_def comp_def itoa_dec_digits)

text \<open>
  On the part ETags of stored parts (the hexadecimal MD5 of each) the multipart ETag is
  the MD5 of the concatenated part digests, a hyphen and the number of parts in decimal; it fails
  exactly when some part ETag is not hexadecimal. It contains a hyphen, so it is never the
  MD5 ETag of any content.
\<close>

lemma multipart_etag:
  "MultipartETag (map (\<lambda>p. hex_encode (md5 p)) parts) =
      Inr (hex_encode (md5 (concat (map md5 parts))) @ ''-'' @ dec_digits (length parts)) \<and>
   ((\<exists>e. MultipartETag es = Inl e) \<longleftrightarrow> (\<exists>x \<in> set es. hex_decode x = None)) \<and>
   (\<forall>t d. MultipartETag es = Inr t \<longrightarrow> t \<noteq> hex_encode (md5 d))"
proof -
  have "CHR ''-'' \<notin> set (hex_encode (md5 d))" for d using set_hex_encode [of "md5 d"] by auto
  then have "\<forall>t d. MultipartETag es = Inr t \<longrightarrow> t \<noteq> hex_encode (md5 d)"
    by (auto simp: MultipartETag_def split: sum.splits) (metis in_set_conv_decomp)
  moreover have "(\<exists>e. MultipartETag es = Inl e) \<longleftrightarrow> (\<exists>x \<in> set es. hex_decode x = None)"
    unfolding etag_loop_Inl [of es "''''", symmetric] by (auto simp: MultipartETag_def split: sum.splits)
  ultimately show ?thesis using MultipartETag_parts by blast
qed

lemma multipart_etag_example:
  "\<exists>t. MultipartETag [hex_encode (md5 ''a''), hex_encode (md5 ''b'')] = Inr t \<and> t \<noteq> hex_encode (md5 ''ab'')"
  using multipart_etag [of "[''a'', ''b'']" "[hex_encode (md5 ''a''), hex_encode (md5 ''b'')]"] by simp

end
