(* ===== verification/Filesystem.thy ===== *)
theory Filesystem
  imports BlobPath Streams "HOL-Library.AList"
begin

text \<open>
  \<^verbatim>\<open>internal/storage/filesystem\<close>: the local blob store (\<^verbatim>\<open>storage.go\<close>, \<^verbatim>\<open>parts.go\<close>,
  \<^verbatim>\<open>hint_staging.go\<close>) over a model of the operating system's files.

  The file system is a list of files by path and a list of directories by path, with modification
  times. Operating-system calls that can fail do so when their label is in the environment's
  list of faults (so every combination of failures is a value of the environment); the
  environment also gives the clock, the working directory, the random suffix of temporary files
  and, per copy, when the context is cancelled or the disk is full.
\<close>

section \<open>Operating system\<close>

record osfile =
  f_data :: string
  f_mtime :: int

record fs =
  fs_files :: "(string \<times> osfile) list"
  fs_dirs :: "(string \<times> int) list"

record fs_env =
  fs_now :: int
  fs_wd :: "string res"
  fs_rand :: string
  fs_faults :: "string list"
  fs_io :: "string \<Rightarrow> io_env"

definition fails :: "fs_env \<Rightarrow> string \<Rightarrow> bool" where
  "fails env l \<longleftrightarrow> l \<in> set (fs_faults env)"

definition os_err :: "string \<Rightarrow> goerr" where
  "os_err l = Other l"

definition file_at :: "fs \<Rightarrow> string \<Rightarrow> osfile option" where
  "file_at fs p = map_of (fs_files fs) p"

definition data_at :: "fs \<Rightarrow> string \<Rightarrow> string option" where
  "data_at fs p = map_option f_data (file_at fs p)"

text \<open>Creating, moving or removing an entry sets the modification time of its directory.\<close>

definition touch_dir :: "int \<Rightarrow> string \<Rightarrow> fs \<Rightarrow> fs" where
  "touch_dir now d fs = fs\<lparr>fs_dirs := map (\<lambda>(p, t). if p = d then (p, now) else (p, t)) (fs_dirs fs)\<rparr>"

definition set_file :: "string \<Rightarrow> osfile \<Rightarrow> fs \<Rightarrow> fs" where
  "set_file p f fs = fs\<lparr>fs_files := AList.update p f (fs_files fs)\<rparr>"

definition unset_file :: "string \<Rightarrow> fs \<Rightarrow> fs" where
  "unset_file p fs = fs\<lparr>fs_files := AList.delete p (fs_files fs)\<rparr>"

definition os_write :: "int \<Rightarrow> string \<Rightarrow> string \<Rightarrow> fs \<Rightarrow> fs" where
  "os_write now p d fs =
     (let fs' = (if file_at fs p = None then touch_dir now (Dir p) fs else fs)
      in set_file p \<lparr>f_data = d, f_mtime = now\<rparr> fs')"

definition os_remove :: "int \<Rightarrow> string \<Rightarrow> fs \<Rightarrow> fs" where
  "os_remove now p fs =
     (if file_at fs p = None then fs else touch_dir now (Dir p) (unset_file p fs))"

definition os_rename :: "int \<Rightarrow> string \<Rightarrow> string \<Rightarrow> fs \<Rightarrow> fs" where
  "os_rename now a b fs =
     (case file_at fs a of
        None \<Rightarrow> fs
      | Some f \<Rightarrow> touch_dir now (Dir a) (touch_dir now (Dir b) (set_file b f (unset_file a fs))))"

text \<open>\<^verbatim>\<open>os.MkdirAll\<close> of an absolute path: each missing directory on the way is made.\<close>

fun mkdirs :: "int \<Rightarrow> string \<Rightarrow> string list \<Rightarrow> fs \<Rightarrow> fs" where
  "mkdirs now parent [] fs = fs"
| "mkdirs now parent (e # es) fs =
     (let d = parent @ ''/'' @ e
      in mkdirs now d es
           (if map_of (fs_dirs fs) d = None
            then (touch_dir now parent fs)\<lparr>fs_dirs := (d, now) # fs_dirs (touch_dir now parent fs)\<rparr>
            else fs))"

definition MkdirAll :: "int \<Rightarrow> string \<Rightarrow> fs \<Rightarrow> fs" where
  "MkdirAll now d fs = mkdirs now '''' (clean_elems d) fs"

definition under :: "string \<Rightarrow> string \<Rightarrow> bool" where
  "under d p \<longleftrightarrow> p = d \<or> HasPrefix p (d @ ''/'')"

definition os_removeall :: "int \<Rightarrow> string \<Rightarrow> fs \<Rightarrow> fs" where
  "os_removeall now d fs =
     touch_dir now (Dir d)
       (fs\<lparr>fs_files := filter (\<lambda>(p, f). \<not> under d p) (fs_files fs),
           fs_dirs := filter (\<lambda>(p, t). \<not> under d p) (fs_dirs fs)\<rparr>)"

text \<open>The files \<^verbatim>\<open>filepath.Walk\<close> visits, in lexical order.\<close>

definition walk_files :: "string \<Rightarrow> fs \<Rightarrow> string list" where
  "walk_files base fs = filter (under base) (sort (remdups (map fst (fs_files fs))))"

text \<open>The directories \<^verbatim>\<open>os.ReadDir\<close> lists, with their modification times (None when there is no such directory).\<close>

definition read_dirs :: "string \<Rightarrow> fs \<Rightarrow> (string \<times> int) list option" where
  "read_dirs d fs =
     (if map_of (fs_dirs fs) d = None then None
      else Some (filter (\<lambda>(p, t). p \<noteq> d \<and> Dir p = d) (fs_dirs fs)))"

section \<open>storage.go\<close>

record Storage =
  basePath :: string

record PutResult =
  pPath :: string
  pSize :: int

record Info =
  iPath :: string
  iSize :: int

definition staleTmpThreshold :: int where
  "staleTmpThreshold = 3600 * 10 ^ 9"

definition staleMultipartThreshold :: int where
  "staleMultipartThreshold = 48 * 3600 * 10 ^ 9"

definition uniqueTmpPath :: "fs_env \<Rightarrow> string \<Rightarrow> string res" where
  "uniqueTmpPath env finalPath =
     (if fails env ''rand'' then Inl (Other ''generate tmp suffix'')
      else Inr (finalPath @ ''.'' @ hex_encode (fs_rand env) @ ''.tmp''))"

text \<open>
  \<^verbatim>\<open>writeToTmp\<close>: the file is created, the body copied into it, then synced and closed. The
  result is the file system, the size or the error, and the reader as it is left.
\<close>

definition writeToTmp :: "fs_env \<Rightarrow> string \<Rightarrow> reader \<Rightarrow> fs \<Rightarrow> fs \<times> int res \<times> reader" where
  "writeToTmp env tmpPath body fs =
     (if fails env ''tmp.create'' then (fs, Inl (Other ''create tmp file''), body)
      else case copyWithContext (fs_io env ''put'') body of
        ((out, err), body') \<Rightarrow>
          let fs' = os_write (fs_now env) tmpPath out fs
          in case err of
               Some e \<Rightarrow> (fs', Inl e, body')
             | None \<Rightarrow>
                 if fails env ''tmp.sync'' then (fs', Inl (Other ''sync tmp file''), body')
                 else if fails env ''tmp.close'' then (fs', Inl (os_err ''close''), body')
                 else (fs', Inr (int (length out)), body'))"

text \<open>\<^verbatim>\<open>os.Remove\<close> of a temporary file, whose error is ignored.\<close>

definition drop_tmp :: "fs_env \<Rightarrow> string \<Rightarrow> fs \<Rightarrow> fs" where
  "drop_tmp env p fs = (if fails env ''tmp.remove'' then fs else os_remove (fs_now env) p fs)"

definition Put :: "Storage \<Rightarrow> fs_env \<Rightarrow> string \<Rightarrow> string \<Rightarrow> reader \<Rightarrow> fs \<Rightarrow> fs \<times> PutResult res \<times> reader" where
  "Put s env bucket key body fs =
     (case ResolveBlobPath (fs_wd env) (basePath s) bucket key of
        Inl e \<Rightarrow> (fs, Inl e, body)
      | Inr filePath \<Rightarrow>
          (case uniqueTmpPath env filePath of
             Inl e \<Rightarrow> (fs, Inl e, body)
           | Inr tmpPath \<Rightarrow>
               if fails env ''put.mkdir'' then (fs, Inl (Other ''create object dir''), body)
               else let fs = MkdirAll (fs_now env) (Dir filePath) fs in
                 (case writeToTmp env tmpPath body fs of
                    (fs, Inl e, body') \<Rightarrow> (drop_tmp env tmpPath fs, Inl e, body')
                  | (fs, Inr sz, body') \<Rightarrow>
                      if fails env ''put.rename''
                      then (drop_tmp env tmpPath fs, Inl (Other ''atomic rename''), body')
                      else (os_rename (fs_now env) tmpPath filePath fs,
                            Inr \<lparr>pPath = filePath, pSize = sz\<rparr>, body'))))"

text \<open>\<^verbatim>\<open>Get\<close> returns the opened file, here its bytes at the time of opening.\<close>

definition Get :: "Storage \<Rightarrow> fs_env \<Rightarrow> string \<Rightarrow> string \<Rightarrow> fs \<Rightarrow> (string \<times> Info) res" where
  "Get s env bucket key fs =
     (case ResolveBlobPath (fs_wd env) (basePath s) bucket key of
        Inl e \<Rightarrow> Inl e
      | Inr filePath \<Rightarrow>
          if fails env ''get.open'' then Inl (os_err ''open'')
          else (case file_at fs filePath of
             None \<Rightarrow> Inl ErrNotFound
           | Some f \<Rightarrow>
               if fails env ''get.stat'' then Inl (os_err ''stat'')
               else Inr (f_data f, \<lparr>iPath = filePath, iSize = int (length (f_data f))\<rparr>)))"

definition Delete :: "Storage \<Rightarrow> fs_env \<Rightarrow> string \<Rightarrow> string \<Rightarrow> fs \<Rightarrow> fs \<times> unit res" where
  "Delete s env bucket key fs =
     (case ResolveBlobPath (fs_wd env) (basePath s) bucket key of
        Inl e \<Rightarrow> (fs, Inl e)
      | Inr filePath \<Rightarrow>
          if fails env ''delete.remove'' then (fs, Inl (os_err ''remove''))
          else (os_remove (fs_now env) filePath fs, Inr ()))"

definition Stat :: "Storage \<Rightarrow> fs_env \<Rightarrow> string \<Rightarrow> string \<Rightarrow> fs \<Rightarrow> Info res" where
  "Stat s env bucket key fs =
     (case ResolveBlobPath (fs_wd env) (basePath s) bucket key of
        Inl e \<Rightarrow> Inl e
      | Inr filePath \<Rightarrow>
          if fails env ''stat'' then Inl (os_err ''stat'')
          else (case file_at fs filePath of
             None \<Rightarrow> Inl ErrNotFound
           | Some f \<Rightarrow> Inr \<lparr>iPath = filePath, iSize = int (length (f_data f))\<rparr>))"

definition Exists :: "Storage \<Rightarrow> fs_env \<Rightarrow> string \<Rightarrow> string \<Rightarrow> fs \<Rightarrow> bool res" where
  "Exists s env bucket key fs =
     (case ResolveBlobPath (fs_wd env) (basePath s) bucket key of
        Inl e \<Rightarrow> Inl e
      | Inr filePath \<Rightarrow>
          if fails env ''stat'' then Inl (os_err ''stat'')
          else Inr (file_at fs filePath \<noteq> None))"

text \<open>
  \<^verbatim>\<open>cleanupStaleTmpFiles\<close>: first the walk over the temporary files, then the directories of
  \<^verbatim>\<open>_multipart\<close>. A removal that fails is logged and skipped.
\<close>

definition stale_tmp :: "int \<Rightarrow> fs \<Rightarrow> string \<Rightarrow> bool" where
  "stale_tmp cutoff fs p \<longleftrightarrow>
     HasSuffix (base_name p) ''.tmp'' \<and>
     (case file_at fs p of None \<Rightarrow> False | Some f \<Rightarrow> \<not> f_mtime f > cutoff)"

definition cleanupStaleTmpFiles :: "Storage \<Rightarrow> fs_env \<Rightarrow> fs \<Rightarrow> fs" where
  "cleanupStaleTmpFiles s env fs0 =
     (let cutoff = fs_now env - staleTmpThreshold;
          fs = fold (\<lambda>p fs. if stale_tmp cutoff fs p \<and> \<not> fails env (''rm:'' @ p)
                            then os_remove (fs_now env) p fs else fs)
                 (walk_files (basePath s) fs0) fs0;
          multipartRoot = JoinPath [basePath s, ''_multipart'']
      in case read_dirs multipartRoot fs of
           None \<Rightarrow> fs
         | Some entries \<Rightarrow>
             let cutoff2 = fs_now env - staleMultipartThreshold
             in fold (\<lambda>(d, t) fs. if t > cutoff2 \<or> fails env (''rm:'' @ d) then fs
                                  else os_removeall (fs_now env) d fs) entries fs)"

definition New :: "fs_env \<Rightarrow> string \<Rightarrow> fs \<Rightarrow> fs \<times> Storage res" where
  "New env base fs =
     (case Abs (fs_wd env) base of
        Inl e \<Rightarrow> (fs, Inl (Other ''resolve base path''))
      | Inr absp \<Rightarrow>
          if fails env ''new.mkdir'' then (fs, Inl (Other ''create base path''))
          else let s = \<lparr>basePath = absp\<rparr>
               in (cleanupStaleTmpFiles s env (MkdirAll (fs_now env) absp fs), Inr s))"

section \<open>parts.go\<close>

record PartPutResult =
  ppPath :: string
  ppSize :: int
  ppETag :: string

definition multipart_dir :: "Storage \<Rightarrow> string \<Rightarrow> string" where
  "multipart_dir s uploadID = JoinPath [basePath s, ''_multipart'', uploadID]"

definition part_path :: "Storage \<Rightarrow> string \<Rightarrow> int \<Rightarrow> string" where
  "part_path s uploadID partNumber =
     JoinPath [multipart_dir s uploadID, FormatInt partNumber @ ''.part'']"

definition PutPart :: "Storage \<Rightarrow> fs_env \<Rightarrow> string \<Rightarrow> int \<Rightarrow> reader \<Rightarrow> fs \<Rightarrow> fs \<times> PartPutResult res" where
  "PutPart s env uploadID partNumber body fs =
     (if fails env ''part.mkdir'' then (fs, Inl (Other ''create multipart dir''))
      else let fs = MkdirAll (fs_now env) (multipart_dir s uploadID) fs;
               partPath = part_path s uploadID partNumber
      in case uniqueTmpPath env partPath of
           Inl e \<Rightarrow> (fs, Inl e)
         | Inr tmpPath \<Rightarrow>
             (case writeToTmp env tmpPath (NewMD5Reader body) fs of
                (fs, Inl e, hasher) \<Rightarrow> (drop_tmp env tmpPath fs, Inl e)
              | (fs, Inr sz, hasher) \<Rightarrow>
                  (case Err hasher of
                     Some herr \<Rightarrow> (drop_tmp env tmpPath fs, Inl herr)
                   | None \<Rightarrow>
                       if fails env ''part.rename''
                       then (drop_tmp env tmpPath fs, Inl (Other ''atomic rename part''))
                       else (os_rename (fs_now env) tmpPath partPath fs,
                             Inr \<lparr>ppPath = partPath, ppSize = sz, ppETag = ETag hasher\<rparr>))))"

text \<open>The copying loop of \<^verbatim>\<open>AssembleParts\<close>: the bytes assembled so far and the error, if any.\<close>

fun assemble_loop :: "fs_env \<Rightarrow> fs \<Rightarrow> string list \<Rightarrow> string \<Rightarrow> string \<times> goerr option" where
  "assemble_loop env fs [] out = (out, None)"
| "assemble_loop env fs (partPath # ps) out =
     (if fails env (''ctx:'' @ partPath) then (out, Some ctx_err)
      else if fails env (''open:'' @ partPath) then (out, Some (Other (''open part '' @ partPath)))
      else case file_at fs partPath of
        None \<Rightarrow> (out, Some (Other (''open part '' @ partPath)))
      | Some f \<Rightarrow>
          (case copyWithContext (fs_io env partPath) (Src [(f_data f, None)]) of
             ((b, Some e), _) \<Rightarrow> (out @ b, Some e)
           | ((b, None), _) \<Rightarrow> assemble_loop env fs ps (out @ b)))"

definition AssembleParts :: "Storage \<Rightarrow> fs_env \<Rightarrow> string \<Rightarrow> string \<Rightarrow> string list \<Rightarrow> fs \<Rightarrow> fs \<times> PutResult res" where
  "AssembleParts s env bucket key orderedPartPaths fs =
     (case ResolveBlobPath (fs_wd env) (basePath s) bucket key of
        Inl e \<Rightarrow> (fs, Inl e)
      | Inr finalPath \<Rightarrow>
          (case uniqueTmpPath env finalPath of
             Inl e \<Rightarrow> (fs, Inl e)
           | Inr tmpPath \<Rightarrow>
               if fails env ''put.mkdir'' then (fs, Inl (os_err ''mkdir''))
               else let fs = MkdirAll (fs_now env) (Dir finalPath) fs in
                 if fails env ''tmp.create'' then (fs, Inl (os_err ''open''))
                 else let fs = os_write (fs_now env) tmpPath '''' fs in
                   (case assemble_loop env fs orderedPartPaths '''' of
                      (out, err) \<Rightarrow>
                        let fs = os_write (fs_now env) tmpPath out fs in
                        (case err of
                           Some e \<Rightarrow> (drop_tmp env tmpPath fs, Inl e)
                         | None \<Rightarrow>
                             if fails env ''tmp.sync'' then (drop_tmp env tmpPath fs, Inl (os_err ''sync''))
                             else if fails env ''tmp.close'' then (drop_tmp env tmpPath fs, Inl (os_err ''close''))
                             else if fails env ''put.rename''
                             then (drop_tmp env tmpPath fs, Inl (Other ''atomic rename''))
                             else (os_rename (fs_now env) tmpPath finalPath fs,
                                   Inr \<lparr>pPath = finalPath, pSize = int (length out)\<rparr>)))))"

definition DeleteUploadParts :: "Storage \<Rightarrow> fs_env \<Rightarrow> string \<Rightarrow> fs \<Rightarrow> fs \<times> unit res" where
  "DeleteUploadParts s env uploadID fs =
     (if fails env ''parts.remove'' then (fs, Inl (os_err ''remove''))
      else (os_removeall (fs_now env) (multipart_dir s uploadID) fs, Inr ()))"

section \<open>hint\_staging.go\<close>

definition isUnderBase :: "Storage \<Rightarrow> fs_env \<Rightarrow> string \<Rightarrow> bool" where
  "isUnderBase s env path =
     (case Abs (fs_wd env) path of
        Inl e \<Rightarrow> False
      | Inr absp \<Rightarrow> let base = Clean (basePath s) in absp = base \<or> HasPrefix absp (base @ ''/''))"

definition OpenPath :: "Storage \<Rightarrow> fs_env \<Rightarrow> string \<Rightarrow> fs \<Rightarrow> (string \<times> int) res" where
  "OpenPath s env path fs =
     (if \<not> isUnderBase s env path then Inl (Other ''path outside storage base'')
      else if fails env ''hint.open'' then Inl (os_err ''open'')
      else case file_at fs path of
        None \<Rightarrow> Inl ErrNotFound
      | Some f \<Rightarrow>
          if fails env ''hint.stat'' then Inl (os_err ''stat'')
          else Inr (f_data f, int (length (f_data f))))"

definition hintPayloadPath :: "string \<Rightarrow> string \<Rightarrow> string \<Rightarrow> string \<Rightarrow> int \<Rightarrow> string" where
  "hintPayloadPath base targetNode bucket key version =
     (let safeKey = ReplaceAll key ''/'' ''_''
      in JoinPath [base, ''_hints'', targetNode, bucket, FormatInt version, safeKey @ ''.blob''])"

definition copyFile :: "fs_env \<Rightarrow> string \<Rightarrow> string \<Rightarrow> fs \<Rightarrow> fs \<times> int res" where
  "copyFile env src dst fs =
     (if fails env ''copy.open'' then (fs, Inl (os_err ''open''))
      else case file_at fs src of
        None \<Rightarrow> (fs, Inl (os_err ''open''))
      | Some f \<Rightarrow>
          if fails env ''copy.create'' then (fs, Inl (os_err ''create''))
          else (case copyWithContext ((fs_io env ''copy'')\<lparr>ctx_left := None\<rparr>) (Src [(f_data f, None)]) of
            ((out, err), _) \<Rightarrow>
              let fs' = os_write (fs_now env) dst out fs
              in case err of
                   Some e \<Rightarrow> (fs', Inl e)
                 | None \<Rightarrow> if fails env ''copy.close'' then (fs', Inl (os_err ''close''))
                           else (fs', Inr (int (length out)))))"

definition StageHintCopy ::
  "Storage \<Rightarrow> fs_env \<Rightarrow> string \<Rightarrow> string \<Rightarrow> string \<Rightarrow> string \<Rightarrow> int \<Rightarrow> fs \<Rightarrow> fs \<times> (string \<times> int) res" where
  "StageHintCopy s env srcPath targetNode bucket key version fs =
     (if \<not> isUnderBase s env srcPath then (fs, Inl (Other ''source path outside storage base''))
      else let dest = hintPayloadPath (basePath s) targetNode bucket key version in
        if fails env ''hint.mkdir'' then (fs, Inl (os_err ''mkdir''))
        else case copyFile env srcPath dest (MkdirAll (fs_now env) (Dir dest) fs) of
            (fs, Inl e) \<Rightarrow> (if fails env ''hint.remove'' then fs else os_remove (fs_now env) dest fs, Inl e)
          | (fs, Inr sz) \<Rightarrow> (fs, Inr (dest, sz)))"

definition RemovePath :: "Storage \<Rightarrow> fs_env \<Rightarrow> string \<Rightarrow> fs \<Rightarrow> fs \<times> unit res" where
  "RemovePath s env path fs =
     (if path = '''' \<or> \<not> isUnderBase s env path then (fs, Inr ())
      else if fails env ''hint.remove'' then (fs, Inl (os_err ''remove''))
      else (os_remove (fs_now env) path fs, Inr ()))"

section \<open>Files as a keyed store\<close>

lemma file_at_touch [simp]: "file_at (touch_dir now d fs) p = file_at fs p"
  by (simp add: file_at_def touch_dir_def)

interpretation files: keyed_store file_at set_file unset_file
  by unfold_locales (auto simp: file_at_def set_file_def unset_file_def update_conv' delete_conv')

lemma file_at_write [simp]:
  "file_at (os_write now p d fs) q = (if q = p then Some \<lparr>f_data = d, f_mtime = now\<rparr> else file_at fs q)"
  by (simp add: os_write_def Let_def files.look_upd)

lemma file_at_remove [simp]: "file_at (os_remove now p fs) q = (if q = p then None else file_at fs q)"
  by (simp add: os_remove_def files.look_del)

lemma file_at_rename:
  "file_at fs a = Some f \<Longrightarrow> a \<noteq> b \<Longrightarrow>
   file_at (os_rename now a b fs) q = (if q = b then Some f else if q = a then None else file_at fs q)"
  by (simp add: os_rename_def files.look_move)

lemma file_at_mkdirs [simp]: "file_at (mkdirs now d es fs) p = file_at fs p"
proof (induction now d es fs rule: mkdirs.induct)
  case (2 now d e es fs)
  then show ?case by (auto simp: Let_def file_at_def touch_dir_def)
qed simp

lemma file_at_MkdirAll [simp]: "file_at (MkdirAll now d fs) p = file_at fs p"
  by (simp add: MkdirAll_def)

lemma map_of_filter_key: "map_of (filter (\<lambda>(k, v). P k) xs) k = (if P k then map_of xs k else None)"
  by (induction xs) auto

lemma file_at_removeall: "file_at (os_removeall now d fs) p = (if under d p then None else file_at fs p)"
  by (simp add: os_removeall_def) (simp add: file_at_def map_of_filter_key [of "\<lambda>p. \<not> under d p"])

interpretation os_files: keyed_store file_at
    "\<lambda>p f. os_write (f_mtime f) p (f_data f)" "os_remove now"
  by unfold_locales auto

lemma data_at_simps [simp]:
  "data_at (touch_dir now d fs) p = data_at fs p"
  "data_at (MkdirAll now d fs) p = data_at fs p"
  "data_at (os_write now p d fs) q = (if q = p then Some d else data_at fs q)"
  "data_at (os_remove now p fs) q = (if q = p then None else data_at fs q)"
  by (simp_all add: data_at_def)

lemma drop_tmp_other: "q \<noteq> p \<Longrightarrow> file_at (drop_tmp env p fs) q = file_at fs q"
  by (simp add: drop_tmp_def)

lemma uniqueTmpPath_neq: "uniqueTmpPath env p = Inr t \<Longrightarrow> t \<noteq> p"
  by (auto simp: uniqueTmpPath_def split: if_splits)

lemma writeToTmp_file_at:
  "writeToTmp env t body fs = (fs', r, body') \<Longrightarrow> q \<noteq> t \<Longrightarrow> file_at fs' q = file_at fs q"
  by (auto simp: writeToTmp_def Let_def split: if_splits prod.splits option.splits)

lemma writeToTmp_Inr:
  assumes "writeToTmp env t body fs = (fs', Inr n, body')"
  obtains out where "copyWithContext (fs_io env ''put'') body = ((out, None), body')"
    "file_at fs' t = Some \<lparr>f_data = out, f_mtime = fs_now env\<rparr>" "n = int (length out)"
  using assms by (auto simp: writeToTmp_def Let_def split: if_splits prod.splits option.splits)

section \<open>Put is atomic\<close>

text \<open>The temporary name Put uses for a final path.\<close>

definition tmp_name :: "fs_env \<Rightarrow> string \<Rightarrow> string" where
  "tmp_name env p = p @ ''.'' @ hex_encode (fs_rand env) @ ''.tmp''"

lemma uniqueTmpPath_name: "uniqueTmpPath env p = Inr t \<Longrightarrow> t = tmp_name env p"
  by (auto simp: uniqueTmpPath_def tmp_name_def split: if_splits)

lemma Put_Inl:
  assumes "Put s env b k body fs = (fs', Inl e, body')"
    "\<And>p. ResolveBlobPath (fs_wd env) (basePath s) b k = Inr p \<Longrightarrow> q \<noteq> tmp_name env p"
  shows "file_at fs' q = file_at fs q"
proof (cases "ResolveBlobPath (fs_wd env) (basePath s) b k")
  case (Inl x)
  with assms(1) show ?thesis by (simp add: Put_def)
next
  case (Inr p)
  show ?thesis
  proof (cases "uniqueTmpPath env p")
    case (Inl x)
    with assms(1) Inr show ?thesis by (simp add: Put_def)
  next
    case (Inr t)
    have q: "q \<noteq> t" using assms(2) \<open>ResolveBlobPath _ _ _ _ = Inr p\<close> uniqueTmpPath_name [OF Inr] by auto
    obtain f1 r b1 where w: "writeToTmp env t body (MkdirAll (fs_now env) (Dir p) fs) = (f1, r, b1)"
      by (metis prod_cases3)
    have "file_at f1 q = file_at fs q" using writeToTmp_file_at [OF w q] by simp
    with assms(1) Inr \<open>ResolveBlobPath _ _ _ _ = Inr p\<close> w q show ?thesis
      by (auto simp: Put_def drop_tmp_other split: if_splits sum.splits)
  qed
qed

lemma Put_Inr:
  assumes "Put s env b k body fs = (fs', Inr res, body')"
  obtains p out where "ResolveBlobPath (fs_wd env) (basePath s) b k = Inr p"
    "copyWithContext (fs_io env ''put'') body = ((out, None), body')"
    "res = \<lparr>pPath = p, pSize = int (length out)\<rparr>"
    "\<And>q. file_at fs' q = (if q = p then Some \<lparr>f_data = out, f_mtime = fs_now env\<rparr>
                          else if q = tmp_name env p then None else file_at fs q)"
proof (cases "ResolveBlobPath (fs_wd env) (basePath s) b k")
  case (Inl x)
  with assms show thesis by (simp add: Put_def)
next
  case (Inr p)
  note rp = this
  show thesis
  proof (cases "uniqueTmpPath env p")
    case (Inl x)
    with assms rp show thesis by (simp add: Put_def)
  next
    case (Inr t)
    have t: "t = tmp_name env p" "t \<noteq> p" using uniqueTmpPath_name uniqueTmpPath_neq Inr by auto
    obtain f1 r b1 where w: "writeToTmp env t body (MkdirAll (fs_now env) (Dir p) fs) = (f1, r, b1)"
      by (metis prod_cases3)
    with assms rp Inr obtain n where r: "r = Inr n" and f: "fs' = os_rename (fs_now env) t p f1"
      and res: "res = \<lparr>pPath = p, pSize = n\<rparr>" "b1 = body'"
      by (auto simp: Put_def split: if_splits sum.splits)
    from w r obtain out where out: "copyWithContext (fs_io env ''put'') body = ((out, None), b1)"
      "file_at f1 t = Some \<lparr>f_data = out, f_mtime = fs_now env\<rparr>" "n = int (length out)"
      by (auto elim: writeToTmp_Inr)
    show thesis
    proof (rule that [OF rp])
      show "file_at fs' q = (if q = p then Some \<lparr>f_data = out, f_mtime = fs_now env\<rparr>
          else if q = tmp_name env p then None else file_at fs q)" for q
        using file_at_rename [OF out(2) t(2)] writeToTmp_file_at [OF w, of q] t(1)
        by (auto simp: f)
    qed (use out res in auto)
  qed
qed

lemma Put_Inr_data:
  assumes "Put s env b k body fs = (fs', Inr res, body')"
  obtains p out where "ResolveBlobPath (fs_wd env) (basePath s) b k = Inr p"
    "copyWithContext (fs_io env ''put'') body = ((out, None), body')"
    "res = \<lparr>pPath = p, pSize = int (length out)\<rparr>"
    "\<And>q. q \<noteq> tmp_name env p \<Longrightarrow> data_at fs' q = (if q = p then Some out else data_at fs q)"
    "data_at fs' p = Some out"
proof -
  obtain p out where P: "ResolveBlobPath (fs_wd env) (basePath s) b k = Inr p"
    "copyWithContext (fs_io env ''put'') body = ((out, None), body')"
    "res = \<lparr>pPath = p, pSize = int (length out)\<rparr>"
    "\<And>q. file_at fs' q = (if q = p then Some \<lparr>f_data = out, f_mtime = fs_now env\<rparr>
                          else if q = tmp_name env p then None else file_at fs q)"
    using assms by (blast elim: Put_Inr)
  show thesis by (rule that [OF P(1-3)]) (simp_all add: data_at_def P(4))
qed

text \<open>The environment in which no call fails, the context lives and the disk has room.\<close>

definition quiet :: "fs_env \<Rightarrow> bool" where
  "quiet env \<longleftrightarrow> fs_faults env = [] \<and> fs_io env ''put'' = io_ok"

lemma Put_quiet:
  assumes "quiet env" "ResolveBlobPath (fs_wd env) (basePath s) b k = Inr p"
    "copyWithContext io_ok body = ((out, None), body')"
  shows "\<exists>fs'. Put s env b k body fs = (fs', Inr \<lparr>pPath = p, pSize = int (length out)\<rparr>, body')"
  using assms by (simp add: Put_def uniqueTmpPath_def writeToTmp_def fails_def Let_def quiet_def)

lemma Put_quiet_error:
  assumes "quiet env" "ResolveBlobPath (fs_wd env) (basePath s) b k = Inr p"
    "copyWithContext io_ok body = ((out, Some e), body')"
  shows "\<exists>fs'. Put s env b k body fs = (fs', Inl e, body')"
  using assms by (simp add: Put_def uniqueTmpPath_def writeToTmp_def fails_def Let_def quiet_def)

text \<open>
  A Put that fails, in whatever way (the body's error, cancellation, a full disk, any
  operating-system fault), changes no file other than its own temporary one: the previous blob of
  the object and every other blob keep their content.
\<close>

lemma put_failure_keeps_files:
  assumes "Put s env bucket key body fs = (fs', Inl e, body')"
    "q \<noteq> tmp_name env p" "ResolveBlobPath (fs_wd env) (basePath s) bucket key = Inr p"
  shows "file_at fs' q = file_at fs q"
  by (rule Put_Inl [OF assms(1)]) (use assms in auto)

definition example_env :: fs_env where
  "example_env = \<lparr>fs_now = 0, fs_wd = Inr ''/'', fs_rand = ''r'', fs_faults = [], fs_io = (\<lambda>_. io_ok)\<rparr>"

definition example_storage :: Storage where
  "example_storage = \<lparr>basePath = ''/data''\<rparr>"

lemma example_quiet: "quiet example_env"
  by (simp add: quiet_def example_env_def)

lemma example_resolve:
  "\<exists>p. ResolveBlobPath (fs_wd example_env) (basePath example_storage) ''abc'' k = Inr p \<and>
       p = abs_path ([''data''] @ blob_elems ''abc'' k)"
proof -
  have "list_all plain [''data'']" "plain ''abc''" by code_simp+
  with ResolveBlobPath_valid [of "''abc''" "[''data'']"] show ?thesis
    by (simp add: example_env_def example_storage_def abs_path_def)
qed

lemma put_failure_keeps_files_example:
  "\<exists>fs' e body' p. Put example_storage example_env ''abc'' ''k'' (Src [(''x'', Some (RErr ErrNotFound))]) \<lparr>fs_files = [], fs_dirs = []\<rparr> =
     (fs', Inl e, body') \<and> file_at fs' p = file_at \<lparr>fs_files = [], fs_dirs = []\<rparr> p"
proof -
  let ?fs = "\<lparr>fs_files = [], fs_dirs = []\<rparr>" and ?body = "Src [(''x'', Some (RErr ErrNotFound))]"
  obtain p where p: "ResolveBlobPath (fs_wd example_env) (basePath example_storage) ''abc'' ''k'' = Inr p"
    using example_resolve by blast
  have c: "copyWithContext io_ok ?body = ((''x'', Some ErrNotFound), Src [])"
    using copy_loop_io_ok [of ?body] by (simp add: copyWithContext_def buf_size_def)
  obtain fs' body' where P: "Put example_storage example_env ''abc'' ''k'' ?body ?fs = (fs', Inl ErrNotFound, body')"
    using Put_quiet_error [OF _ p c, of ?fs] example_quiet by blast
  from put_failure_keeps_files [OF P _ p, of p] P show ?thesis by (auto simp: tmp_name_def)
qed

lemma Get_data:
  assumes "fs_faults env = []" "ResolveBlobPath (fs_wd env) (basePath s) b k = Inr p"
  shows "Get s env b k fs =
    (case data_at fs p of None \<Rightarrow> Inl ErrNotFound
     | Some d \<Rightarrow> Inr (d, \<lparr>iPath = p, iSize = int (length d)\<rparr>))"
  using assms by (auto simp: Get_def fails_def data_at_def split: option.splits)

text \<open>
  Blob round trip. In a quiet environment and for a valid bucket, Put of a body that ends with
  EOF succeeds and reports its length, and Get then returns exactly the body's bytes under the
  same path, whatever was stored before; no temporary file is left, and every other
  file is as before.
\<close>

lemma put_get_roundtrip:
  assumes "quiet env" "base_ok (basePath s)" "BucketNameError bucket = ''''" "stream_end cs = EOF"
  shows "\<exists>fs' res r. Put s env bucket key (NewMD5Reader (Src cs)) fs = (fs', Inr res, r) \<and>
     ETag r = hex_encode (md5 (stream_data cs)) \<and>
     Get s env bucket key fs' = Inr (stream_data cs, \<lparr>iPath = pPath res, iSize = pSize res\<rparr>) \<and>
     pSize res = int (length (stream_data cs)) \<and>
     data_at fs' (tmp_name env (pPath res)) = None \<and>
     (\<forall>q. q \<noteq> pPath res \<longrightarrow> q \<noteq> tmp_name env (pPath res) \<longrightarrow> file_at fs' q = file_at fs q)"
proof -
  obtain p where p: "ResolveBlobPath (fs_wd env) (basePath s) bucket key = Inr p"
    using assms(2,3) base_ok_elems ResolveBlobPath_valid valid_bucket_plain(1) by metis
  obtain r where c: "copyWithContext io_ok (NewMD5Reader (Src cs)) = ((stream_data cs, None), r)"
    and r: "ETag r = hex_encode (md5 (stream_data cs))"
    using md5_copy_stream [of cs] assms(4) by (auto simp: end_err_def)
  obtain fs' where P: "Put s env bucket key (NewMD5Reader (Src cs)) fs =
      (fs', Inr \<lparr>pPath = p, pSize = int (length (stream_data cs))\<rparr>, r)"
    using Put_quiet [OF assms(1) p c] by blast
  from P have at: "file_at fs' q = (if q = p then Some \<lparr>f_data = stream_data cs, f_mtime = fs_now env\<rparr>
      else if q = tmp_name env p then None else file_at fs q)" for q
    using p c assms(1) by (elim Put_Inr) (auto simp: quiet_def)
  have "data_at fs' p = Some (stream_data cs)" "data_at fs' (tmp_name env p) = None"
    by (simp_all add: data_at_def at) (simp add: tmp_name_def)
  with P r at Get_data [OF _ p, of fs'] assms(1) show ?thesis by (auto simp: quiet_def)
qed

lemma put_get_roundtrip_example:
  "\<exists>fs' res r. Put example_storage example_env ''abc'' ''k'' (NewMD5Reader (Src [(''hel'', None), (''lo'', Some EOF)])) \<lparr>fs_files = [], fs_dirs = []\<rparr> =
      (fs', Inr res, r) \<and> Get example_storage example_env ''abc'' ''k'' fs' = Inr (''hello'', \<lparr>iPath = pPath res, iSize = 5\<rparr>)"
proof -
  have "quiet example_env" "base_ok (basePath example_storage)" "BucketNameError ''abc'' = ''''"
    by (simp_all add: quiet_def example_env_def) code_simp+
  from put_get_roundtrip [OF this, of "[(''hel'', None), (''lo'', Some EOF)]" "''k''" "\<lparr>fs_files = [], fs_dirs = []\<rparr>"]
  show ?thesis by auto
qed

section \<open>Assembling parts\<close>

lemma copyWithContext_file: "\<exists>r. copyWithContext io_ok (Src [(d, None)]) = ((d, None), r)"
  using copy_loop_Src [of "[(d, None)]" "''''"] by (auto simp: copyWithContext_def end_err_def)

lemma assemble_loop_ok:
  assumes "fs_faults env = []" "\<And>l. fs_io env l = io_ok" "map (data_at fs) ps = map Some ds"
  shows "assemble_loop env fs ps out = (out @ concat ds, None)"
  using assms(3)
proof (induction ps arbitrary: ds out)
  case (Cons p ps)
  then obtain d ds' where ds: "ds = d # ds'" "data_at fs p = Some d" "map (data_at fs) ps = map Some ds'"
    by (cases ds) auto
  then obtain f where "file_at fs p = Some f" "f_data f = d" by (auto simp: data_at_def)
  with Cons(1) [OF ds(3)] ds copyWithContext_file [of d] assms(1,2) show ?case
    by (auto simp: fails_def)
qed simp

lemma AssembleParts_ok:
  assumes "fs_faults env = []" "\<And>l. fs_io env l = io_ok"
    and p: "ResolveBlobPath (fs_wd env) (basePath s) b k = Inr p"
    and ps: "map (data_at fs) ps = map Some ds" "tmp_name env p \<notin> set ps"
  shows "\<exists>fs'. AssembleParts s env b k ps fs = (fs', Inr \<lparr>pPath = p, pSize = int (length (concat ds))\<rparr>) \<and>
     (\<forall>q. file_at fs' q = (if q = p then Some \<lparr>f_data = concat ds, f_mtime = fs_now env\<rparr>
        else if q = tmp_name env p then None else file_at fs q))"
proof -
  let ?t = "tmp_name env p"
  let ?f = "os_write (fs_now env) ?t '''' (MkdirAll (fs_now env) (Dir p) fs)"
  have t: "uniqueTmpPath env p = Inr ?t" "?t \<noteq> p"
    using assms(1) by (simp_all add: uniqueTmpPath_def tmp_name_def fails_def)
  have "map (data_at ?f) ps = map Some ds" unfolding ps(1) [symmetric] using ps(2) by auto
  from assemble_loop_ok [OF assms(1,2) this, of "''''"]
  have "AssembleParts s env b k ps fs =
      (os_rename (fs_now env) ?t p (os_write (fs_now env) ?t (concat ds) ?f),
       Inr \<lparr>pPath = p, pSize = int (length (concat ds))\<rparr>)"
    using t assms(1) p by (simp add: AssembleParts_def fails_def Let_def)
  then show ?thesis using t(2) by (simp add: file_at_rename)
qed

text \<open>
  Assembling parts. When every part file exists, AssembleParts succeeds and the blob's content is
  the concatenation of the parts in the given order, its size their total; the part files and every
  other file stay.
\<close>

lemma assemble_concatenates:
  assumes "fs_faults env = []" "\<And>l. fs_io env l = io_ok"
    "ResolveBlobPath (fs_wd env) (basePath s) bucket key = Inr p"
    "map (data_at fs) paths = map Some ds" "tmp_name env p \<notin> set paths"
  shows "\<exists>fs'. AssembleParts s env bucket key paths fs = (fs', Inr \<lparr>pPath = p, pSize = int (length (concat ds))\<rparr>) \<and>
     data_at fs' p = Some (concat ds) \<and> data_at fs' (tmp_name env p) = None \<and>
     (\<forall>q. q \<noteq> p \<longrightarrow> q \<noteq> tmp_name env p \<longrightarrow> file_at fs' q = file_at fs q)"
  using AssembleParts_ok [OF assms(1-5)] by (force simp: data_at_def tmp_name_def)

theorem assemble_concatenates_witness:
  "\<exists>fs' p. data_at fs' p = Some ''abcd'' \<and>
     AssembleParts example_storage example_env ''abc'' ''k'' [''/u/2'', ''/u/1'']
       \<lparr>fs_files = [(''/u/1'', \<lparr>f_data = ''cd'', f_mtime = 0\<rparr>), (''/u/2'', \<lparr>f_data = ''ab'', f_mtime = 0\<rparr>)], fs_dirs = []\<rparr> =
     (fs', Inr \<lparr>pPath = p, pSize = 4\<rparr>)"
proof -
  let ?fs = "\<lparr>fs_files = [(''/u/1'', \<lparr>f_data = ''cd'', f_mtime = 0\<rparr>), (''/u/2'', \<lparr>f_data = ''ab'', f_mtime = 0\<rparr>)], fs_dirs = []\<rparr>"
  obtain p where p: "ResolveBlobPath (fs_wd example_env) (basePath example_storage) ''abc'' ''k'' = Inr p"
    "p = abs_path ([''data''] @ blob_elems ''abc'' ''k'')"
    using example_resolve by blast
  have "hd (tl p) = CHR ''d''" by (simp add: p(2) abs_path_def blob_elems_def Let_def)
  then have "tmp_name example_env p \<notin> set [''/u/2'', ''/u/1'']"
    by (cases p; cases "tl p") (auto simp: tmp_name_def)
  from assemble_concatenates [OF _ _ p(1) _ this, of ?fs "[''ab'', ''cd'']"] show ?thesis
    by (force simp: example_env_def data_at_def file_at_def)
qed

end
