(* ===== verification/MetaMultipart.thy ===== *)
theory MetaMultipart
  imports MetaStore
begin

text \<open>
  \<^verbatim>\<open>internal/metadata/sqlite/multipart.go\<close>: the tables of multipart uploads and their parts, and
  the two queries over all stored objects. Deleting an upload row deletes its part rows (ON
  DELETE CASCADE). The id column of a part row is not part of the modelled row; a collision of
  random part ids is a fault of the INSERT.
\<close>

section \<open>Operations\<close>

text \<open>\<^verbatim>\<open>newUploadID\<close>: sixteen random bytes as a version-4 UUID.\<close>

definition set_low :: "nat \<Rightarrow> nat \<Rightarrow> char \<Rightarrow> char" where
  "set_low m b c = char_of (of_char c mod m + b)"

definition newUploadID :: "string \<Rightarrow> string" where
  "newUploadID r =
     (let b = r[6 := set_low 16 64 (r ! 6)];
          b = b[8 := set_low 64 128 (b ! 8)]
      in hex_encode (take 4 b) @ ''-'' @ hex_encode (take 2 (drop 4 b)) @ ''-'' @
         hex_encode (take 2 (drop 6 b)) @ ''-'' @ hex_encode (take 2 (drop 8 b)) @ ''-'' @
         hex_encode (take 6 (drop 10 b)))"

definition CreateMultipartUpload :: "db_env \<Rightarrow> string \<Rightarrow> string \<Rightarrow> string \<Rightarrow> db \<Rightarrow> db \<times> string res" where
  "CreateMultipartUpload env bucket key contentType db =
     (case BucketExists env bucket db of
        Inl e \<Rightarrow> (db, Inl e)
      | Inr ex \<Rightarrow>
          if \<not> ex then (db, Inl ErrBucketNotFound)
          else let contentType = (if contentType = '''' then octet_stream else contentType);
                   now = db_now env; id' = newUploadID (db_rand env)
          in if db_fails env ''upload.insert'' then (db, Inl (sql_err ''upload.insert''))
             else if id' \<in> uID ` set (db_uploads db) then (db, Inl unique_err)
             else (db\<lparr>db_uploads := db_uploads db @
                     [\<lparr>uID = id', uBucketName = bucket, uKey = key, uContentType = contentType,
                       uCreatedAt = now, uUpdatedAt = now\<rparr>]\<rparr>, Inr id'))"

definition GetMultipartUpload :: "db_env \<Rightarrow> string \<Rightarrow> string \<Rightarrow> string \<Rightarrow> db \<Rightarrow> MultipartUpload res" where
  "GetMultipartUpload env uploadID bucket key db =
     (if db_fails env ''upload.get'' then Inl (sql_err ''upload.get'')
      else case find (\<lambda>u. uID u = uploadID \<and> uBucketName u = bucket \<and> uKey u = key) (db_uploads db) of
        None \<Rightarrow> Inl ErrNoSuchUpload
      | Some u \<Rightarrow> Inr u)"

definition ListMultipartUploads :: "db_env \<Rightarrow> string \<Rightarrow> db \<Rightarrow> MultipartUpload list res" where
  "ListMultipartUploads env bucket db =
     (if db_fails env ''upload.list'' then Inl (sql_err ''upload.list'')
      else Inr (sort_key (\<lambda>u. formatTime (uCreatedAt u)) (filter (\<lambda>u. uBucketName u = bucket) (db_uploads db))))"

definition delete_upload :: "string \<Rightarrow> db \<Rightarrow> db" where
  "delete_upload uploadID db =
     db\<lparr>db_uploads := filter (\<lambda>u. uID u \<noteq> uploadID) (db_uploads db),
        db_parts := filter (\<lambda>p. mUploadID p \<noteq> uploadID) (db_parts db)\<rparr>"

definition DeleteMultipartUpload :: "db_env \<Rightarrow> string \<Rightarrow> db \<Rightarrow> db \<times> unit res" where
  "DeleteMultipartUpload env uploadID db =
     (if db_fails env ''upload.delete'' then (db, Inl (sql_err ''upload.delete''))
      else (delete_upload uploadID db, Inr ()))"

definition pkey :: "MultipartPart \<Rightarrow> string \<times> int" where
  "pkey p = (mUploadID p, mPartNumber p)"

definition put_part :: "time \<Rightarrow> MultipartPart \<Rightarrow> MultipartPart \<Rightarrow> MultipartPart" where
  "put_part now part p =
     p\<lparr>mSize := mSize part, mETag := mETag part, mStoragePath := mStoragePath part, mUpdatedAt := now\<rparr>"

definition UpsertMultipartPart :: "db_env \<Rightarrow> MultipartPart \<Rightarrow> db \<Rightarrow> db \<times> unit res" where
  "UpsertMultipartPart env part db =
     (let now = db_now env in
      if db_fails env ''part.update'' then (db, Inl (sql_err ''part.update''))
      else if pkey part \<in> pkey ` set (db_parts db)
      then (db\<lparr>db_parts := update_rows (\<lambda>p. pkey p = pkey part) (put_part now part) (db_parts db)\<rparr>, Inr ())
      else if db_fails env ''part.insert'' then (db, Inl (sql_err ''part.insert''))
      else if mUploadID part \<notin> uID ` set (db_uploads db) then (db, Inl foreign_err)
      else (db\<lparr>db_parts := db_parts db @ [part\<lparr>mCreatedAt := now, mUpdatedAt := now\<rparr>]\<rparr>, Inr ()))"

definition ListMultipartParts :: "db_env \<Rightarrow> string \<Rightarrow> db \<Rightarrow> MultipartPart list res" where
  "ListMultipartParts env uploadID db =
     (if db_fails env ''part.list'' then Inl (sql_err ''part.list'')
      else Inr (sort_key mPartNumber (filter (\<lambda>p. mUploadID p = uploadID) (db_parts db))))"

text \<open>The deletion loop stops at the first statement that fails; earlier deletions stay.\<close>

fun delete_uploads :: "db_env \<Rightarrow> string list \<Rightarrow> db \<Rightarrow> db \<times> unit res" where
  "delete_uploads env [] db = (db, Inr ())"
| "delete_uploads env (i # is) db =
     (if db_fails env (''upload.delete:'' @ i) then (db, Inl (sql_err ''upload.delete''))
      else delete_uploads env is (delete_upload i db))"

definition DeleteAbandonedMultipartUploads :: "db_env \<Rightarrow> time \<Rightarrow> db \<Rightarrow> db \<times> int res" where
  "DeleteAbandonedMultipartUploads env olderThan db =
     (if db_fails env ''upload.old'' then (db, Inl (sql_err ''upload.old''))
      else let ids = map uID (filter (\<lambda>u. formatTime (uCreatedAt u) < formatTime olderThan) (db_uploads db))
      in case delete_uploads env ids db of
           (db', Inl e) \<Rightarrow> (db', Inl e)
         | (db', Inr _) \<Rightarrow> (db', Inr (int (length ids))))"

definition AllObjectStoragePaths :: "db_env \<Rightarrow> db \<Rightarrow> string list res" where
  "AllObjectStoragePaths env db =
     (if db_fails env ''paths'' then Inl (sql_err ''paths'') else Inr (map oStoragePath (db_objects db)))"

definition ListAllStoredObjects :: "db_env \<Rightarrow> db \<Rightarrow> Object list res" where
  "ListAllStoredObjects env db =
     (if db_fails env ''stored'' then Inl (sql_err ''stored'')
      else Inr (filter (\<lambda>r. \<not> oDeleted r \<and> oStoragePath r \<noteq> '''' \<and> oETag r \<noteq> '''') (db_objects db)))"

lemma put_part_simps [simp]: "pkey (put_part now part p) = pkey p" "mUploadID (put_part now part p) = mUploadID p"
  by (simp_all add: put_part_def pkey_def)

section \<open>Invariant of uploads and parts\<close>

definition uploads_ok :: "db \<Rightarrow> bool" where
  "uploads_ok db \<longleftrightarrow>
     distinct (map uID (db_uploads db)) \<and> distinct (map pkey (db_parts db)) \<and>
     uBucketName ` set (db_uploads db) \<subseteq> bName ` set (db_buckets db) \<and>
     mUploadID ` set (db_parts db) \<subseteq> uID ` set (db_uploads db)"

lemma delete_upload_ok:
  assumes "uploads_ok db"
  shows "uploads_ok (delete_upload i db)"
proof -
  have "uID ` {x \<in> set (db_uploads db). uID x \<noteq> i} = uID ` set (db_uploads db) - {i}" by auto
  then show ?thesis
    using assms distinct_filter_key [of uID "db_uploads db"] distinct_filter_key [of pkey "db_parts db"]
    by (auto simp: uploads_ok_def delete_upload_def)
qed

lemma delete_uploads_ok: "uploads_ok db \<Longrightarrow> uploads_ok (fst (delete_uploads env is db))"
  by (induction env "is" db rule: delete_uploads.induct) (auto simp: delete_upload_ok)

lemma CreateMultipartUpload_ok:
  "uploads_ok db \<Longrightarrow> CreateMultipartUpload env b k ct db = (db', r) \<Longrightarrow> uploads_ok db'"
  using bucket_at_iff [of db b]
  by (auto simp: CreateMultipartUpload_def BucketExists_def Let_def uploads_ok_def image_subset_iff split: if_splits)

lemma UpsertMultipartPart_ok:
  assumes "uploads_ok db" "UpsertMultipartPart env part db = (db', r)"
  shows "uploads_ok db'"
proof (cases "pkey part \<in> pkey ` set (db_parts db)")
  case True
  then have "db' = db \<or> db' = db\<lparr>db_parts := update_rows (\<lambda>p. pkey p = pkey part) (put_part (db_now env) part) (db_parts db)\<rparr>"
    using assms(2) by (auto simp: UpsertMultipartPart_def Let_def split: if_splits)
  then show ?thesis using assms(1)
    by (elim disjE) (simp_all add: uploads_ok_def map_update_rows image_update_rows)
next
  case False
  let ?p = "part\<lparr>mCreatedAt := db_now env, mUpdatedAt := db_now env\<rparr>"
  have "db' = db \<or> mUploadID part \<in> uID ` set (db_uploads db) \<and> db' = db\<lparr>db_parts := db_parts db @ [?p]\<rparr>"
    using assms(2) False by (auto simp: UpsertMultipartPart_def Let_def split: if_splits)
  moreover have "pkey ?p = pkey part" by (simp add: pkey_def)
  ultimately show ?thesis using assms(1) False
    by (elim disjE) (simp_all add: uploads_ok_def)
qed

lemma DeleteAbandoned_fst:
  assumes "DeleteAbandonedMultipartUploads env t db = (db', r)"
  shows "\<exists>is. db' = fst (delete_uploads env is db)"
proof (cases "db_fails env ''upload.old''")
  case True
  with assms have "db' = fst (delete_uploads env [] db)" by (simp add: DeleteAbandonedMultipartUploads_def)
  then show ?thesis by blast
next
  case False
  let ?ids = "map uID (filter (\<lambda>u. formatTime (uCreatedAt u) < formatTime t) (db_uploads db))"
  from False assms have "db' = fst (delete_uploads env ?ids db)"
    by (auto simp: DeleteAbandonedMultipartUploads_def Let_def split: prod.splits sum.splits)
  then show ?thesis by blast
qed

lemma DeleteAbandoned_ok:
  "uploads_ok db \<Longrightarrow> DeleteAbandonedMultipartUploads env t db = (db', r) \<Longrightarrow> uploads_ok db'"
  using DeleteAbandoned_fst delete_uploads_ok by blast

lemma delete_uploads_other:
  "db_objects (fst (delete_uploads env is db)) = db_objects db"
  "db_buckets (fst (delete_uploads env is db)) = db_buckets db"
  "db_hints (fst (delete_uploads env is db)) = db_hints db"
  "db_credentials (fst (delete_uploads env is db)) = db_credentials db"
  by (induction env "is" db rule: delete_uploads.induct) (simp_all add: delete_upload_def)

section \<open>Parts of an upload\<close>

definition part_at :: "db \<Rightarrow> string \<Rightarrow> int \<Rightarrow> MultipartPart option" where
  "part_at db u n = row_at pkey (db_parts db) (u, n)"

lemma part_at_upsert:
  assumes "UpsertMultipartPart env part db = (db', Inr ())"
  shows "\<exists>p. part_at db' (mUploadID part) (mPartNumber part) = Some p \<and> mSize p = mSize part \<and>
       mETag p = mETag part \<and> mStoragePath p = mStoragePath part"
    and "(u, n) \<noteq> pkey part \<Longrightarrow> part_at db' u n = part_at db u n"
proof -
  let ?f = "put_part (db_now env) part"
  consider (upd) "pkey part \<in> pkey ` set (db_parts db)"
      "db' = db\<lparr>db_parts := update_rows (\<lambda>p. pkey p = pkey part) ?f (db_parts db)\<rparr>"
    | (ins) "pkey part \<notin> pkey ` set (db_parts db)"
      "db' = db\<lparr>db_parts := db_parts db @ [part\<lparr>mCreatedAt := db_now env, mUpdatedAt := db_now env\<rparr>]\<rparr>"
    using assms by (auto simp: UpsertMultipartPart_def Let_def split: if_splits)
  note cases = this
  show "\<exists>p. part_at db' (mUploadID part) (mPartNumber part) = Some p \<and> mSize p = mSize part \<and>
       mETag p = mETag part \<and> mStoragePath p = mStoragePath part"
  proof (cases rule: cases)
    case upd
    then obtain x where "row_at pkey (db_parts db) (pkey part) = Some x"
      using row_at_None [of pkey "db_parts db" "pkey part"] by auto
    then show ?thesis unfolding upd(2) part_at_def pkey_def [symmetric]
      by (simp add: row_at_update) (simp add: put_part_def)
  next
    case ins
    then have "row_at pkey (db_parts db) (pkey part) = None" by (simp add: row_at_None)
    then show ?thesis unfolding ins(2) part_at_def by (simp add: row_at_append pkey_def)
  qed
  show "(u, n) \<noteq> pkey part \<Longrightarrow> part_at db' u n = part_at db u n"
  proof (cases rule: cases)
    case upd
    assume "(u, n) \<noteq> pkey part"
    then show ?thesis unfolding upd(2) part_at_def by (simp add: row_at_update)
  next
    case ins
    assume "(u, n) \<noteq> pkey part"
    then show ?thesis unfolding ins(2) part_at_def
      by (auto simp: row_at_append pkey_def split: option.splits)
  qed
qed

text \<open>
  The parts of an upload. Storing a part makes it the one row of its upload and number, with the new
  size, ETag and path, leaves every other part as it was, and keeps the tables consistent;
  listing the parts of an upload returns each part number once, in ascending order.
\<close>

lemma multipart_parts_table:
  assumes "uploads_ok db" "UpsertMultipartPart env part db = (db', Inr ())" "db_quiet env"
  shows "uploads_ok db' \<and>
    (\<exists>p. part_at db' (mUploadID part) (mPartNumber part) = Some p \<and> mSize p = mSize part \<and>
       mETag p = mETag part \<and> mStoragePath p = mStoragePath part) \<and>
    (\<forall>u n. (u, n) \<noteq> pkey part \<longrightarrow> part_at db' u n = part_at db u n) \<and>
    (\<exists>ps. ListMultipartParts env (mUploadID part) db' = Inr ps \<and> sorted_wrt (<) (map mPartNumber ps) \<and>
       (\<forall>n. n \<in> mPartNumber ` set ps \<longleftrightarrow> part_at db' (mUploadID part) n \<noteq> None))"
proof -
  let ?u = "mUploadID part"
  let ?f = "filter (\<lambda>p. mUploadID p = ?u) (db_parts db')"
  have ok: "uploads_ok db'" using UpsertMultipartPart_ok assms(1,2) by blast
  then have "distinct (map pkey ?f)" by (simp add: uploads_ok_def distinct_filter_key)
  moreover have "map pkey ?f = map (\<lambda>n. (?u, n)) (map mPartNumber ?f)" by (simp add: pkey_def)
  ultimately have "distinct (map mPartNumber ?f)" by (metis distinct_map)
  then have "distinct (map mPartNumber (sort_key mPartNumber ?f))"
    by (metis distinct_map distinct_sort set_sort)
  then have "sorted_wrt (<) (map mPartNumber (sort_key mPartNumber ?f))"
    by (simp add: strict_sorted_iff)
  moreover have "n \<in> mPartNumber ` set ?f \<longleftrightarrow> part_at db' ?u n \<noteq> None" for n
    using row_at_None [of pkey "db_parts db'" "(?u, n)"] by (auto simp: part_at_def pkey_def image_iff)
  ultimately show ?thesis
    using ok part_at_upsert [OF assms(2)] assms(3) by (simp add: ListMultipartParts_def)
qed

definition example_part :: MultipartPart where
  "example_part = \<lparr>mUploadID = ''u'', mPartNumber = 1, mSize = 3, mETag = ''e'', mStoragePath = ''/p'',
     mCreatedAt = 0, mUpdatedAt = 0\<rparr>"

definition example_upload_db :: db where
  "example_upload_db = empty_db\<lparr>
     db_buckets := [\<lparr>bID = ''1'', bName = ''abc'', bObjectCount = 0, bTotalSize = 0, bCreatedAt = 0, bUpdatedAt = 0\<rparr>],
     db_uploads := [\<lparr>uID = ''u'', uBucketName = ''abc'', uKey = ''k'', uContentType = '''', uCreatedAt = 0, uUpdatedAt = 0\<rparr>]\<rparr>"

theorem multipart_parts_table_witness:
  "\<exists>db'. UpsertMultipartPart \<lparr>db_now = 0, db_rand = '''', db_faults = []\<rparr> example_part example_upload_db = (db', Inr ()) \<and>
     part_at db' ''u'' 1 \<noteq> None"
proof -
  let ?env = "\<lparr>db_now = 0, db_rand = '''', db_faults = []\<rparr> :: db_env"
  have "uploads_ok example_upload_db" "db_quiet ?env" by code_simp+
  moreover have "UpsertMultipartPart ?env example_part example_upload_db =
      (example_upload_db\<lparr>db_parts := [example_part]\<rparr>, Inr ())" by code_simp
  ultimately show ?thesis
    using multipart_parts_table [of example_upload_db ?env example_part] by (auto simp: example_part_def)
qed

end
