(* ===== verification/MetaHints.thy ===== *)
theory MetaHints
  imports MetaMultipart
begin

text \<open>
  \<^verbatim>\<open>internal/metadata/sqlite/hints.go\<close> and \<^verbatim>\<open>credentials.go\<close>: the durable replication hints and
  the access keys; then the invariant of the whole database over every operation of
  the store, as a step relation.
\<close>

section \<open>Hints\<close>

text \<open>The key of the table's UNIQUE constraint.\<close>

definition hkey :: "ReplicationHint \<Rightarrow> string \<times> string \<times> string \<times> int \<times> HintKind" where
  "hkey h = (hTargetNode h, hBucketName h, hKey h, hVersion h, hKind h)"

definition merge_hint :: "ReplicationHint \<Rightarrow> ReplicationHint \<Rightarrow> ReplicationHint" where
  "merge_hint new h =
     h\<lparr>hETag := hETag new, hContentType := hContentType new, hCustomMetadata := hCustomMetadata new,
       hSourcePath := hSourcePath new, hStatus := ''pending'', hNextAttemptAt := hNextAttemptAt new,
       hLastError := ''''\<rparr>"

definition CreateHint :: "db_env \<Rightarrow> ReplicationHint \<Rightarrow> db \<Rightarrow> db \<times> unit res" where
  "CreateHint env hint db =
     (if db_fails env ''hint.encode'' then (db, Inl (sql_err ''hint.encode''))
      else let now = db_now env;
               hint = hint\<lparr>hID := (if hID hint = '''' then newID env else hID hint),
                           hCreatedAt := (if hCreatedAt hint = zero_time then now else hCreatedAt hint),
                           hStatus := (if hStatus hint = '''' then ''pending'' else hStatus hint)\<rparr>
      in if db_fails env ''hint.insert'' then (db, Inl (sql_err ''hint.insert''))
         else if hkey hint \<in> hkey ` set (db_hints db)
         then (db\<lparr>db_hints := update_rows (\<lambda>h. hkey h = hkey hint) (merge_hint hint) (db_hints db)\<rparr>, Inr ())
         else if hID hint \<in> hID ` set (db_hints db) then (db, Inl unique_err)
         else (db\<lparr>db_hints := db_hints db @ [hint]\<rparr>, Inr ()))"

definition due :: "time \<Rightarrow> ReplicationHint \<Rightarrow> bool" where
  "due now h \<longleftrightarrow> hStatus h = ''pending'' \<and> formatTime (hNextAttemptAt h) \<le> formatTime now"

definition ListDueHints :: "db_env \<Rightarrow> time \<Rightarrow> int \<Rightarrow> db \<Rightarrow> ReplicationHint list res" where
  "ListDueHints env now limit db =
     (let limit = (if limit \<le> 0 then 100 else limit) in
      if db_fails env ''hint.due'' then Inl (sql_err ''hint.due'')
      else Inr (take (nat limit)
        (sort_key (\<lambda>h. formatTime (hNextAttemptAt h)) (filter (due now) (db_hints db)))))"

definition MarkHintDelivered :: "db_env \<Rightarrow> string \<Rightarrow> db \<Rightarrow> db \<times> unit res" where
  "MarkHintDelivered env i db =
     (if db_fails env ''hint.delete'' then (db, Inl (sql_err ''hint.delete''))
      else (db\<lparr>db_hints := filter (\<lambda>h. hID h \<noteq> i) (db_hints db)\<rparr>, Inr ()))"

definition RecordHintFailure :: "db_env \<Rightarrow> string \<Rightarrow> time \<Rightarrow> string \<Rightarrow> db \<Rightarrow> db \<times> unit res" where
  "RecordHintFailure env i nextAttempt lastError db =
     (if db_fails env ''hint.fail'' then (db, Inl (sql_err ''hint.fail''))
      else (db\<lparr>db_hints := update_rows (\<lambda>h. hID h = i)
              (\<lambda>h. h\<lparr>hAttempts := hAttempts h + 1, hNextAttemptAt := nextAttempt,
                     hLastError := lastError, hStatus := ''pending''\<rparr>) (db_hints db)\<rparr>, Inr ()))"

definition CountPendingHints :: "db_env \<Rightarrow> db \<Rightarrow> int res" where
  "CountPendingHints env db =
     (if db_fails env ''hint.count'' then Inl (sql_err ''hint.count'')
      else Inr (int (length (filter (\<lambda>h. hStatus h = ''pending'') (db_hints db)))))"

definition ResetHintsForTarget :: "db_env \<Rightarrow> string \<Rightarrow> db \<Rightarrow> db \<times> unit res" where
  "ResetHintsForTarget env targetNode db =
     (if db_fails env ''hint.reset'' then (db, Inl (sql_err ''hint.reset''))
      else (db\<lparr>db_hints := update_rows (\<lambda>h. hTargetNode h = targetNode \<and> hStatus h = ''pending'')
              (\<lambda>h. h\<lparr>hNextAttemptAt := db_now env, hAttempts := 0, hLastError := '''', hStatus := ''pending''\<rparr>)
              (db_hints db)\<rparr>, Inr ()))"

definition ListHintProtectedStoragePaths :: "db_env \<Rightarrow> db \<Rightarrow> string list res" where
  "ListHintProtectedStoragePaths env db =
     (if db_fails env ''hint.paths'' then Inl (sql_err ''hint.paths'')
      else Inr (map hSourcePath (filter (\<lambda>h. hStatus h = ''pending'' \<and> hSourcePath h \<noteq> '''') (db_hints db))))"

section \<open>Credentials\<close>

definition GetCredential :: "db_env \<Rightarrow> string \<Rightarrow> db \<Rightarrow> Credential option res" where
  "GetCredential env accessKeyID db =
     (if db_fails env ''cred.get'' then Inl (sql_err ''cred.get'')
      else Inr (row_at AccessKeyID (db_credentials db) accessKeyID))"

definition UpsertCredential :: "db_env \<Rightarrow> string \<Rightarrow> string \<Rightarrow> string \<Rightarrow> db \<Rightarrow> db \<times> unit res" where
  "UpsertCredential env name accessKeyID secretAccessKey db =
     (let now = db_now env; id' = newID env in
      if db_fails env ''cred.upsert'' then (db, Inl (sql_err ''cred.upsert''))
      else if accessKeyID \<in> AccessKeyID ` set (db_credentials db)
      then (db\<lparr>db_credentials := update_rows (\<lambda>c. AccessKeyID c = accessKeyID)
              (\<lambda>c. c\<lparr>SecretAccessKey := secretAccessKey, crUpdatedAt := now\<rparr>) (db_credentials db)\<rparr>, Inr ())
      else if id' \<in> crID ` set (db_credentials db) then (db, Inl unique_err)
      else (db\<lparr>db_credentials := db_credentials db @
              [\<lparr>crID = id', crName = name, AccessKeyID = accessKeyID, SecretAccessKey = secretAccessKey,
                crCreatedAt = now, crUpdatedAt = now\<rparr>]\<rparr>, Inr ()))"

definition FirstCredential :: "db_env \<Rightarrow> db \<Rightarrow> Credential option res" where
  "FirstCredential env db =
     (if db_fails env ''cred.first'' then Inl (sql_err ''cred.first'')
      else Inr (case sort_key (\<lambda>c. formatTime (crCreatedAt c)) (db_credentials db) of
                  [] \<Rightarrow> None | c # cs \<Rightarrow> Some c))"

section \<open>Facts about hints\<close>

definition hint_at :: "db \<Rightarrow> string \<times> string \<times> string \<times> int \<times> HintKind \<Rightarrow> ReplicationHint option" where
  "hint_at db k = row_at hkey (db_hints db) k"

definition hints_ok :: "db \<Rightarrow> bool" where
  "hints_ok db \<longleftrightarrow> distinct (map hkey (db_hints db)) \<and> distinct (map hID (db_hints db)) \<and>
     distinct (map AccessKeyID (db_credentials db))"

lemma merge_hint_simps [simp]:
  "hkey (merge_hint n h) = hkey h" "hID (merge_hint n h) = hID h" "hStatus (merge_hint n h) = ''pending''"
  "hNextAttemptAt (merge_hint n h) = hNextAttemptAt n" "hSourcePath (merge_hint n h) = hSourcePath n"
  "hETag (merge_hint n h) = hETag n"
  by (simp_all add: merge_hint_def hkey_def)

lemma CreateHint_cases:
  assumes "CreateHint env hint db = (db', r)"
  obtains (none) "db' = db" "\<exists>e. r = Inl e"
  | (merge) hint' where "hkey hint' = hkey hint" "hETag hint' = hETag hint" "hSourcePath hint' = hSourcePath hint"
      "hNextAttemptAt hint' = hNextAttemptAt hint" "hkey hint \<in> hkey ` set (db_hints db)" "r = Inr ()"
      "db' = db\<lparr>db_hints := update_rows (\<lambda>h. hkey h = hkey hint) (merge_hint hint') (db_hints db)\<rparr>"
  | (ins) hint' where "hkey hint' = hkey hint" "hETag hint' = hETag hint" "hSourcePath hint' = hSourcePath hint"
      "hNextAttemptAt hint' = hNextAttemptAt hint" "hStatus hint = '''' \<longrightarrow> hStatus hint' = ''pending''"
      "hkey hint \<notin> hkey ` set (db_hints db)" "hID hint' \<notin> hID ` set (db_hints db)" "r = Inr ()"
      "db' = db\<lparr>db_hints := db_hints db @ [hint']\<rparr>"
proof -
  define hint' where "hint' = hint\<lparr>hID := (if hID hint = '''' then newID env else hID hint),
     hCreatedAt := (if hCreatedAt hint = zero_time then db_now env else hCreatedAt hint),
     hStatus := (if hStatus hint = '''' then ''pending'' else hStatus hint)\<rparr>"
  have h: "hkey hint' = hkey hint" "hETag hint' = hETag hint" "hSourcePath hint' = hSourcePath hint"
    "hNextAttemptAt hint' = hNextAttemptAt hint" "hStatus hint = '''' \<longrightarrow> hStatus hint' = ''pending''"
    by (simp_all add: hint'_def hkey_def)
  have C: "CreateHint env hint db =
      (if db_fails env ''hint.encode'' then (db, Inl (sql_err ''hint.encode''))
       else if db_fails env ''hint.insert'' then (db, Inl (sql_err ''hint.insert''))
       else if hkey hint' \<in> hkey ` set (db_hints db)
       then (db\<lparr>db_hints := update_rows (\<lambda>h. hkey h = hkey hint') (merge_hint hint') (db_hints db)\<rparr>, Inr ())
       else if hID hint' \<in> hID ` set (db_hints db) then (db, Inl unique_err)
       else (db\<lparr>db_hints := db_hints db @ [hint']\<rparr>, Inr ()))"
    unfolding CreateHint_def Let_def hint'_def by simp
  show thesis
    using assms unfolding C h(1)
    by (auto split: if_splits intro: none merge [OF h(1-4)] ins [OF h])
qed

lemma CreateHint_ok: "hints_ok db \<Longrightarrow> CreateHint env hint db = (db', r) \<Longrightarrow> hints_ok db'"
  by (erule CreateHint_cases) (auto simp: hints_ok_def map_update_rows)

lemma MarkHintDelivered_ok: "hints_ok db \<Longrightarrow> MarkHintDelivered env i db = (db', r) \<Longrightarrow> hints_ok db'"
  by (auto simp: MarkHintDelivered_def hints_ok_def distinct_filter_key split: if_splits)

lemma RecordHintFailure_ok: "hints_ok db \<Longrightarrow> RecordHintFailure env i t e db = (db', r) \<Longrightarrow> hints_ok db'"
  by (auto simp: RecordHintFailure_def hints_ok_def map_update_rows hkey_def split: if_splits)

lemma ResetHintsForTarget_ok: "hints_ok db \<Longrightarrow> ResetHintsForTarget env n db = (db', r) \<Longrightarrow> hints_ok db'"
  by (auto simp: ResetHintsForTarget_def hints_ok_def map_update_rows hkey_def split: if_splits)

lemma UpsertCredential_ok: "hints_ok db \<Longrightarrow> UpsertCredential env n a s db = (db', r) \<Longrightarrow> hints_ok db'"
  by (auto simp: UpsertCredential_def hints_ok_def Let_def map_update_rows split: if_splits)

text \<open>
  Hints are kept once per target, object, version and kind. Creating a hint leaves exactly one row
  under that key, pending, with the new ETag, payload path and attempt time, whether or not
  the key was there; every other hint keeps its row.
\<close>

lemma create_hint_upserts:
  assumes "hints_ok db" "CreateHint env hint db = (db', Inr ())" "hStatus hint = ''''"
  shows "hints_ok db' \<and>
    (\<exists>h. hint_at db' (hkey hint) = Some h \<and> hStatus h = ''pending'' \<and> hETag h = hETag hint \<and>
       hSourcePath h = hSourcePath hint \<and> hNextAttemptAt h = hNextAttemptAt hint) \<and>
    (\<forall>k. k \<noteq> hkey hint \<longrightarrow> hint_at db' k = hint_at db k) \<and>
    length (filter (\<lambda>h. hkey h = hkey hint) (db_hints db')) = 1"
proof -
  have ok: "hints_ok db'" using CreateHint_ok assms(1,2) by blast
  have at: "(\<exists>h. hint_at db' (hkey hint) = Some h \<and> hStatus h = ''pending'' \<and> hETag h = hETag hint \<and>
       hSourcePath h = hSourcePath hint \<and> hNextAttemptAt h = hNextAttemptAt hint) \<and>
    (\<forall>k. k \<noteq> hkey hint \<longrightarrow> hint_at db' k = hint_at db k)"
    using assms(2)
  proof (cases rule: CreateHint_cases)
    case (merge hint')
    then obtain h where "row_at hkey (db_hints db) (hkey hint) = Some h"
      using row_at_None [of hkey "db_hints db" "hkey hint"] by auto
    then show ?thesis using merge by (simp add: hint_at_def row_at_update)
  next
    case (ins hint')
    then have "row_at hkey (db_hints db) (hkey hint) = None" by (simp add: row_at_None)
    then show ?thesis using ins assms(3) by (auto simp: hint_at_def row_at_append split: option.splits)
  qed simp
  then obtain h where h: "h \<in> set (db_hints db')" "hkey h = hkey hint"
    using row_at_Some by (metis hint_at_def)
  have "length (filter (\<lambda>x. hkey x = hkey hint) (db_hints db')) = 1"
  proof -
    have "distinct (db_hints db')" "inj_on hkey (set (db_hints db'))" using ok by (auto simp: hints_ok_def distinct_map)
    then have "set (filter (\<lambda>x. hkey x = hkey hint) (db_hints db')) = {h}"
      "distinct (filter (\<lambda>x. hkey x = hkey hint) (db_hints db'))"
      using h by (auto simp: inj_on_def)
    then have "card (set (filter (\<lambda>x. hkey x = hkey hint) (db_hints db'))) = 1" by simp
    then have "length (filter (\<lambda>x. hkey x = hkey hint) (db_hints db')) = 1"
      using \<open>distinct (filter _ _)\<close> by (simp only: distinct_card)
    then show ?thesis .
  qed
  with ok at show ?thesis by simp
qed

definition example_hint :: ReplicationHint where
  "example_hint = \<lparr>hID = '''', hTargetNode = ''n2'', hBucketName = ''abc'', hKey = ''k'', hVersion = 1, hETag = ''e'',
     hKind = HintKindPut, hContentType = '''', hCustomMetadata = [], hSourceNode = ''n1'', hSourcePath = '''',
     hAttempts = 0, hNextAttemptAt = 0, hStatus = '''', hLastError = '''', hCreatedAt = zero_time\<rparr>"

theorem create_hint_upserts_witness:
  "\<exists>db'. CreateHint \<lparr>db_now = 0, db_rand = ''x'', db_faults = []\<rparr> example_hint empty_db = (db', Inr ()) \<and>
     length (filter (\<lambda>h. hkey h = hkey example_hint) (db_hints db')) = 1"
proof -
  let ?env = "\<lparr>db_now = 0, db_rand = ''x'', db_faults = []\<rparr> :: db_env"
  have "hints_ok empty_db" "hStatus example_hint = ''''" by code_simp+
  moreover obtain db' where "CreateHint ?env example_hint empty_db = (db', Inr ())"
    by (simp add: CreateHint_def Let_def db_fails_def empty_db_def)
  ultimately show ?thesis using create_hint_upserts [of empty_db ?env example_hint] by blast
qed

section \<open>The database as a state machine\<close>

text \<open>
  One step is any state-changing method of the store, called with any arguments in any environment,
  so with any faults. An object written by \<^verbatim>\<open>PutObject\<close> is not a tombstone (the service
  never writes one this way).
\<close>

inductive db_step :: "db \<Rightarrow> db \<Rightarrow> bool" where
  create_bucket: "CreateBucket env n db = (db', r) \<Longrightarrow> db_step db db'"
| delete_bucket: "DeleteBucket env n db = (db', r) \<Longrightarrow> db_step db db'"
| put_object: "PutObject env obj db = (db', r) \<Longrightarrow> \<not> oDeleted obj \<Longrightarrow> db_step db db'"
| put_tombstone: "PutTombstone env b k v db = (db', r) \<Longrightarrow> db_step db db'"
| update_status: "UpdateReplicationStatus env b k st db = (db', r) \<Longrightarrow> db_step db db'"
| delete_object: "DeleteObject env b k db = (db', r) \<Longrightarrow> db_step db db'"
| create_upload: "CreateMultipartUpload env b k ct db = (db', r') \<Longrightarrow> db_step db db'"
| delete_upload: "DeleteMultipartUpload env u db = (db', r) \<Longrightarrow> db_step db db'"
| upsert_part: "UpsertMultipartPart env p db = (db', r) \<Longrightarrow> db_step db db'"
| abandoned: "DeleteAbandonedMultipartUploads env t db = (db', r'') \<Longrightarrow> db_step db db'"
| create_hint: "CreateHint env h db = (db', r) \<Longrightarrow> db_step db db'"
| delivered: "MarkHintDelivered env i db = (db', r) \<Longrightarrow> db_step db db'"
| failure: "RecordHintFailure env i t e db = (db', r) \<Longrightarrow> db_step db db'"
| reset: "ResetHintsForTarget env n db = (db', r) \<Longrightarrow> db_step db db'"
| credential: "UpsertCredential env n a s db = (db', r) \<Longrightarrow> db_step db db'"

inductive db_reachable :: "db \<Rightarrow> bool" where
  init: "db_reachable empty_db"
| step: "db_reachable db \<Longrightarrow> db_step db db' \<Longrightarrow> db_reachable db'"

definition db_ok :: "db \<Rightarrow> bool" where
  "db_ok db \<longleftrightarrow> objects_ok db \<and> uploads_ok db \<and> hints_ok db"

text \<open>What each group of operations leaves alone.\<close>

lemma uploads_ok_frame:
  "uploads_ok db \<Longrightarrow> db_uploads db' = db_uploads db \<Longrightarrow> db_parts db' = db_parts db \<Longrightarrow>
   bName ` set (db_buckets db) \<subseteq> bName ` set (db_buckets db') \<Longrightarrow> uploads_ok db'"
  unfolding uploads_ok_def by (simp only: simp_thms) (elim conjE, erule order_trans, assumption)

lemma hints_ok_frame:
  "hints_ok db \<Longrightarrow> db_hints db' = db_hints db \<Longrightarrow> db_credentials db' = db_credentials db \<Longrightarrow> hints_ok db'"
  by (simp add: hints_ok_def)

lemma objects_ok_frame:
  "objects_ok db \<Longrightarrow> db_objects db' = db_objects db \<Longrightarrow> db_buckets db' = db_buckets db \<Longrightarrow> objects_ok db'"
  by (simp add: objects_ok_def)

lemma credentials_update_bucket [simp]: "db_credentials (update_bucket now n dc ds db) = db_credentials db"
  by (simp add: update_bucket_def)

text \<open>The object operations change no other table and keep the bucket names.\<close>

definition same_rest :: "db \<Rightarrow> db \<Rightarrow> bool" where
  "same_rest db db' \<longleftrightarrow> db_uploads db' = db_uploads db \<and> db_parts db' = db_parts db \<and>
     db_hints db' = db_hints db \<and> db_credentials db' = db_credentials db \<and>
     bName ` set (db_buckets db') = bName ` set (db_buckets db)"

lemma PutObject_rest: "PutObject env obj db = (db', r) \<Longrightarrow> same_rest db db'"
proof (cases r)
  case (Inr u)
  moreover assume "PutObject env obj db = (db', r)"
  ultimately have "PutObject env obj db = (db', Inr ())" by simp
  then show ?thesis by (cases rule: PutObject_Inr) (simp_all add: same_rest_def update_object_def)
qed (auto dest: PutObject_Inl simp: same_rest_def)

lemma PutTombstone_rest: "PutTombstone env b k v db = (db', r) \<Longrightarrow> same_rest db db'"
proof (cases r)
  case (Inr u)
  moreover assume "PutTombstone env b k v db = (db', r)"
  ultimately have "PutTombstone env b k v db = (db', Inr ())" by simp
  then show ?thesis by (cases rule: PutTombstone_Inr) (simp_all add: same_rest_def Let_def)
qed (auto dest: PutTombstone_Inl simp: same_rest_def)

lemma DeleteObject_rest: "DeleteObject env b k db = (db', r) \<Longrightarrow> same_rest db db'"
proof -
  assume "DeleteObject env b k db = (db', r)"
  then have "db' = db \<or> (\<exists>s. db' = update_bucket (db_now env) b (-1) s
      (db\<lparr>db_objects := filter (\<lambda>r. okey r \<noteq> (b, k)) (db_objects db)\<rparr>))"
    by (auto simp: DeleteObject_def split: if_splits option.splits)
  then show ?thesis by (elim disjE exE) (simp_all add: same_rest_def)
qed

lemma UpdateReplicationStatus_rest: "UpdateReplicationStatus env b k st db = (db', r) \<Longrightarrow> same_rest db db'"
  by (auto simp: UpdateReplicationStatus_def same_rest_def split: if_splits)

lemma db_ok_object_step: "db_ok db \<Longrightarrow> objects_ok db' \<Longrightarrow> same_rest db db' \<Longrightarrow> db_ok db'"
  unfolding db_ok_def same_rest_def
  using uploads_ok_frame [of db db'] hints_ok_frame [of db db'] by simp

lemma db_ok_CreateBucket: "db_ok db \<Longrightarrow> CreateBucket env n db = (db', r) \<Longrightarrow> db_ok db'"
proof -
  assume a: "db_ok db" "CreateBucket env n db = (db', r)"
  then have "objects_ok db'" using CreateBucket_ok db_ok_def by blast
  moreover have "db_uploads db' = db_uploads db" "db_parts db' = db_parts db" "db_hints db' = db_hints db"
    "db_credentials db' = db_credentials db" "bName ` set (db_buckets db) \<subseteq> bName ` set (db_buckets db')"
    using a(2) by (auto simp: CreateBucket_def Let_def split: if_splits)
  ultimately show ?thesis
    using a(1) uploads_ok_frame [of db db'] hints_ok_frame [of db db'] by (simp add: db_ok_def)
qed

lemma db_ok_DeleteBucket: "db_ok db \<Longrightarrow> DeleteBucket env n db = (db', r) \<Longrightarrow> db_ok db'"
proof -
  assume a: "db_ok db" "DeleteBucket env n db = (db', r)"
  then have "objects_ok db'" using DeleteBucket_ok db_ok_def by blast
  moreover have d: "db' = db \<or> n \<notin> uBucketName ` set (db_uploads db) \<and>
      db' = db\<lparr>db_buckets := filter (\<lambda>b. bName b \<noteq> n) (db_buckets db)\<rparr>"
    using a(2) by (auto simp: DeleteBucket_def split: if_splits sum.splits)
  moreover have "hints_ok db'"
    using a(1) d by (elim disjE) (simp_all add: db_ok_def hints_ok_def)
  moreover have "uploads_ok db'"
  proof (cases "db' = db")
    case False
    have "bName ` {x \<in> set (db_buckets db). bName x \<noteq> n} = bName ` set (db_buckets db) - {n}" by auto
    with a(1) d show ?thesis by (auto simp: db_ok_def uploads_ok_def image_subset_iff)
  qed (use a in \<open>simp add: db_ok_def\<close>)
  ultimately show ?thesis by (simp add: db_ok_def)
qed

lemma db_ok_uploads_step:
  "db_ok db \<Longrightarrow> uploads_ok db' \<Longrightarrow> db_objects db' = db_objects db \<Longrightarrow> db_buckets db' = db_buckets db \<Longrightarrow>
   db_hints db' = db_hints db \<Longrightarrow> db_credentials db' = db_credentials db \<Longrightarrow> db_ok db'"
  using objects_ok_frame [of db db'] hints_ok_frame [of db db'] by (simp add: db_ok_def)

lemma db_ok_hints_step:
  "db_ok db \<Longrightarrow> hints_ok db' \<Longrightarrow> db_objects db' = db_objects db \<Longrightarrow> db_buckets db' = db_buckets db \<Longrightarrow>
   db_uploads db' = db_uploads db \<Longrightarrow> db_parts db' = db_parts db \<Longrightarrow> db_ok db'"
  using objects_ok_frame [of db db'] uploads_ok_frame [of db db'] by (simp add: db_ok_def)

lemma CreateHint_rest:
  "CreateHint env h db = (db', r) \<Longrightarrow> db_objects db' = db_objects db \<and> db_buckets db' = db_buckets db \<and>
     db_uploads db' = db_uploads db \<and> db_parts db' = db_parts db"
  by (erule CreateHint_cases) auto

lemma db_step_ok: "db_step db db' \<Longrightarrow> db_ok db \<Longrightarrow> db_ok db'"
proof (induction rule: db_step.induct)
  case (create_bucket env n db db' r)
  then show ?case using db_ok_CreateBucket by blast
next
  case (delete_bucket env n db db' r)
  then show ?case using db_ok_DeleteBucket by blast
next
  case (put_object env obj db db' r)
  then show ?case using db_ok_object_step PutObject_ok PutObject_rest unfolding db_ok_def by metis
next
  case (put_tombstone env b k v db db' r)
  then show ?case using db_ok_object_step PutTombstone_ok PutTombstone_rest unfolding db_ok_def by metis
next
  case (update_status env b k st db db' r)
  then show ?case
    using db_ok_object_step UpdateReplicationStatus_ok UpdateReplicationStatus_rest unfolding db_ok_def by metis
next
  case (delete_object env b k db db' r)
  then show ?case using db_ok_object_step DeleteObject_ok DeleteObject_rest unfolding db_ok_def by metis
next
  case (create_upload env b k ct db db' r')
  moreover from create_upload have "uploads_ok db'" using CreateMultipartUpload_ok db_ok_def by blast
  ultimately show ?case
    by (elim db_ok_uploads_step) (auto simp: CreateMultipartUpload_def Let_def split: if_splits sum.splits)
next
  case (delete_upload env u db db' r)
  then have "db' = db \<or> db' = MetaMultipart.delete_upload u db"
    by (auto simp: DeleteMultipartUpload_def split: if_splits)
  moreover have "uploads_ok (MetaMultipart.delete_upload u db)"
    using delete_upload(2) delete_upload_ok db_ok_def by blast
  then have "db_ok (MetaMultipart.delete_upload u db)"
    by (rule db_ok_uploads_step [OF delete_upload(2)]) (simp_all add: delete_upload_def)
  ultimately show ?case using delete_upload(2) by blast
next
  case (upsert_part env p db db' r)
  moreover from upsert_part have "uploads_ok db'" using UpsertMultipartPart_ok db_ok_def by blast
  ultimately show ?case
    by (elim db_ok_uploads_step) (auto simp: UpsertMultipartPart_def Let_def split: if_splits)
next
  case (abandoned env t db db' r)
  moreover from abandoned have "uploads_ok db'" using DeleteAbandoned_ok db_ok_def by blast
  moreover from abandoned obtain "is" where "db' = fst (delete_uploads env is db)" using DeleteAbandoned_fst by blast
  ultimately show ?case using db_ok_uploads_step delete_uploads_other by metis
next
  case (create_hint env h db db' r)
  then show ?case using db_ok_hints_step CreateHint_ok CreateHint_rest db_ok_def by metis
next
  case (delivered env i db db' r)
  moreover from delivered have "hints_ok db'" using MarkHintDelivered_ok db_ok_def by blast
  ultimately show ?case by (elim db_ok_hints_step) (auto simp: MarkHintDelivered_def split: if_splits)
next
  case (failure env i t e db db' r)
  moreover from failure have "hints_ok db'" using RecordHintFailure_ok db_ok_def by blast
  ultimately show ?case by (elim db_ok_hints_step) (auto simp: RecordHintFailure_def split: if_splits)
next
  case (reset env n db db' r)
  moreover from reset have "hints_ok db'" using ResetHintsForTarget_ok db_ok_def by blast
  ultimately show ?case by (elim db_ok_hints_step) (auto simp: ResetHintsForTarget_def split: if_splits)
next
  case (credential env n a s db db' r)
  moreover from credential have "hints_ok db'" using UpsertCredential_ok db_ok_def by blast
  ultimately show ?case by (elim db_ok_hints_step) (auto simp: UpsertCredential_def Let_def split: if_splits)
qed

lemma db_reachable_ok: "db_reachable db \<Longrightarrow> db_ok db"
proof (induction rule: db_reachable.induct)
  case init
  show ?case by code_simp
next
  case (step db db')
  then show ?case using db_step_ok by blast
qed

text \<open>
  The metadata database is consistent in every state reachable by any sequence of store
  operations with any failures: bucket names, object keys, upload ids, part numbers and
  hint keys are unique, every object and upload belongs to an existing bucket and every part
  to an existing upload, a tombstone has size zero, and the total size stored for a bucket
  is the sum of the sizes of its objects.
\<close>

lemma database_invariant:
  "db_reachable db \<Longrightarrow> db_ok db \<and>
     (\<forall>b \<in> set (db_buckets db). bTotalSize b =
        sum_list (map oSize (filter (\<lambda>r. oBucketName r = bName b) (db_objects db))))"
  using db_reachable_ok by (auto simp: db_ok_def objects_ok_def bsize_def)

lemma database_invariant_example:
  "db_reachable (fst (CreateBucket \<lparr>db_now = 0, db_rand = ''x'', db_faults = []\<rparr> ''abc'' empty_db)) \<and>
   db_ok (fst (CreateBucket \<lparr>db_now = 0, db_rand = ''x'', db_faults = []\<rparr> ''abc'' empty_db))"
proof -
  let ?d = "fst (CreateBucket \<lparr>db_now = 0, db_rand = ''x'', db_faults = []\<rparr> ''abc'' empty_db)"
  have "db_step empty_db ?d" by (rule db_step.create_bucket) (rule prod.collapse [symmetric])
  then have "db_reachable ?d" using db_reachable.intros by blast
  with database_invariant [OF this] show ?thesis by blast
qed

section \<open>Object counts\<close>

text \<open>The objects a bucket lists, the count stored for it, and by how much the count is off.\<close>

definition live_count :: "Object list \<Rightarrow> string \<Rightarrow> int" where
  "live_count objs n = sum_list (map (\<lambda>_. 1) (filter (\<lambda>r. oBucketName r = n \<and> \<not> oDeleted r) objs))"

definition stored_count :: "db \<Rightarrow> string \<Rightarrow> int" where
  "stored_count db n = (case bucket_at db n of None \<Rightarrow> 0 | Some b \<Rightarrow> bObjectCount b)"

definition count_drift :: "db \<Rightarrow> string \<Rightarrow> int" where
  "count_drift db n = stored_count db n - live_count (db_objects db) n"

definition live_row :: "Object \<Rightarrow> int" where
  "live_row r = (if oDeleted r then 0 else 1)"

lemma stored_count_update:
  assumes "bucket_at db m \<noteq> None"
  shows "stored_count (update_bucket now m dc ds (db\<lparr>db_objects := objs\<rparr>)) n = stored_count db n + (if n = m then dc else 0)"
  using assms by (auto simp: stored_count_def bucket_at_def update_bucket_def row_at_update split: option.splits)

lemma stored_count_objects: "stored_count (db\<lparr>db_objects := objs\<rparr>) n = stored_count db n"
  by (simp add: stored_count_def bucket_at_def)

lemma live_count_update:
  assumes "objects_ok db" "obj_at db n k = Some old" "\<And>r. okey (f r) = okey r"
  shows "live_count (update_rows (\<lambda>r. okey r = (n, k)) f (db_objects db)) m =
    live_count (db_objects db) m + (if m = n then live_row (f old) - live_row old else 0)"
proof -
  have "oBucketName (f old) = oBucketName old" using assms(3) [of old] by (simp add: okey_def)
  moreover have "oBucketName old = n" using row_at_Some [OF assms(2) [unfolded obj_at_def]] by (simp add: okey_def)
  ultimately show ?thesis
    unfolding live_count_def sum_list_update_row [OF objects_okD(2) [OF assms(1)] assms(2) [unfolded obj_at_def], of f, OF assms(3)]
    by (simp add: live_row_def)
qed

lemma live_count_delete:
  assumes "objects_ok db" "obj_at db n k = Some old"
  shows "live_count (filter (\<lambda>r. okey r \<noteq> (n, k)) (db_objects db)) m =
    live_count (db_objects db) m - (if m = n then live_row old else 0)"
proof -
  have "oBucketName old = n" using row_at_Some [OF assms(2) [unfolded obj_at_def]] by (simp add: okey_def)
  then show ?thesis
    unfolding live_count_def sum_list_delete_row [OF objects_okD(2) [OF assms(1)] assms(2) [unfolded obj_at_def]]
    by (simp add: live_row_def)
qed

lemma live_count_append: "live_count (objs @ [r]) m = live_count objs m + (if m = oBucketName r then live_row r else 0)"
  by (simp add: live_count_def live_row_def)

lemma PutObject_drift:
  assumes "objects_ok db" "PutObject env obj db = (db', Inr ())"
  shows "count_drift db' n = count_drift db n +
    (case obj_at db (oBucketName obj) (oKey obj) of
       Some old \<Rightarrow> if n = oBucketName obj then live_row old - live_row obj else 0
     | None \<Rightarrow> 0)"
  using assms(2)
proof (cases rule: PutObject_Inr)
  case (upd old)
  let ?f = "put_row (db_now env) (fill_object env obj)"
  have o: "db_objects db' = update_rows (\<lambda>r. okey r = (oBucketName obj, oKey obj)) ?f (db_objects db)"
    by (simp add: upd(2) update_bucket_def update_object_def)
  have "stored_count db' n = stored_count db n"
    unfolding upd(2) update_object_def using stored_count_update [OF upd(5)] by simp
  moreover have "live_count (db_objects db') n = live_count (db_objects db) n +
      (if n = oBucketName obj then live_row (?f old) - live_row old else 0)"
    unfolding o by (rule live_count_update [OF assms(1) upd(1)]) simp
  moreover have "live_row (?f old) = live_row obj" by (simp add: live_row_def put_row_def fill_object_def)
  ultimately show ?thesis using upd(1) by (simp add: count_drift_def)
next
  case (ins row)
  then have "stored_count db' n = stored_count db n + (if n = oBucketName obj then live_row obj else 0)"
    using stored_count_update [OF ins(8)] by (simp add: live_row_def)
  moreover have "db_objects db' = db_objects db @ [row]" by (simp add: ins(5) update_bucket_def)
  moreover have "live_row row = live_row obj" "oBucketName row = oBucketName obj" using ins(2) by (simp_all add: live_row_def)
  ultimately show ?thesis using ins(1) by (simp add: count_drift_def live_count_append)
qed

lemma PutTombstone_drift:
  assumes "objects_ok db" "PutTombstone env b k v db = (db', Inr ())"
  shows "count_drift db' n = count_drift db n"
  using assms(2)
proof (cases rule: PutTombstone_Inr)
  case (upd old)
  let ?objs = "update_rows (\<lambda>r. okey r = (b, k)) (tombstone_row (db_now env) v) (db_objects db)"
  have l: "live_count ?objs n = live_count (db_objects db) n - (if n = b then live_row old else 0)"
    using live_count_update [OF assms(1) upd(1), of "tombstone_row (db_now env) v" n] by (simp add: live_row_def)
  show ?thesis
  proof (cases "oDeleted old")
    case True
    then have "db' = db\<lparr>db_objects := ?objs\<rparr>" using upd(2) by (simp add: Let_def)
    with True l show ?thesis by (simp add: count_drift_def stored_count_objects live_row_def)
  next
    case False
    then have "db' = update_bucket (db_now env) b (-1) (- oSize old) (db\<lparr>db_objects := ?objs\<rparr>)" using upd(2) by (simp add: Let_def)
    moreover from this have "db_objects db' = ?objs" by (simp add: update_bucket_def)
    ultimately show ?thesis using False l stored_count_update [OF upd(3)] by (simp add: count_drift_def live_row_def)
  qed
next
  case (ins row)
  then show ?thesis by (simp add: count_drift_def stored_count_objects live_count_append live_row_def)
qed

lemma DeleteObject_drift:
  assumes "objects_ok db" "DeleteObject env b k db = (db', Inr ())"
  shows "count_drift db' n = count_drift db n -
    (case obj_at db b k of Some old \<Rightarrow> if n = b \<and> oDeleted old then 1 else 0 | None \<Rightarrow> 0)"
proof (cases "obj_at db b k")
  case None
  with assms(2) have "db' = db" by (auto simp: DeleteObject_def split: if_splits)
  with None show ?thesis by simp
next
  case (Some old)
  let ?objs = "filter (\<lambda>r. okey r \<noteq> (b, k)) (db_objects db)"
  have d: "db' = update_bucket (db_now env) b (-1) (- oSize old) (db\<lparr>db_objects := ?objs\<rparr>)"
    using assms(2) Some by (auto simp: DeleteObject_def split: if_splits)
  then have "db_objects db' = ?objs" by (simp add: update_bucket_def)
  moreover have "bucket_at db b \<noteq> None"
    using row_at_Some [OF Some [unfolded obj_at_def]] objects_okD(3) [OF assms(1)] bucket_at_iff by (auto simp: okey_def)
  ultimately show ?thesis
    using Some live_count_delete [OF assms(1) Some, of n] stored_count_update [of db b] unfolding d
    by (simp add: count_drift_def live_row_def)
qed

text \<open>
  C40: the object count stored for a bucket, exactly. On every database the store can reach, whatever failed before, a put or delete
  that succeeds leaves the difference between the stored count of any bucket and the number of objects it lists as it was, but
  for two flaws: a put that replaces a tombstone does not count the object that is now listed, so that delete and put again of a
  key leaves the count one short (and one that replaced a listed object by a deleted row would leave it
  one over); and removing the row of a tombstone takes one from the count a second time. Writing a tombstone is
  always counted right.
\<close>

theorem object_count_drifts:
  assumes "db_reachable db"
  shows "(PutObject env obj db = (db1, Inr ()) \<longrightarrow>
      count_drift db1 n = count_drift db n +
        (case obj_at db (oBucketName obj) (oKey obj) of
           Some old \<Rightarrow> if n = oBucketName obj then (if oDeleted old then 0 else 1) - (if oDeleted obj then 0 else 1) else 0
         | None \<Rightarrow> 0)) \<and>
    (PutTombstone env b k v db = (db2, Inr ()) \<longrightarrow> count_drift db2 n = count_drift db n) \<and>
    (DeleteObject env b k db = (db3, Inr ()) \<longrightarrow>
      count_drift db3 n = count_drift db n -
        (case obj_at db b k of Some old \<Rightarrow> if n = b \<and> oDeleted old then 1 else 0 | None \<Rightarrow> 0))"
proof -
  have ok: "objects_ok db" using db_reachable_ok [OF assms] by (simp add: db_ok_def)
  show ?thesis
    using PutObject_drift [OF ok, unfolded live_row_def] PutTombstone_drift [OF ok] DeleteObject_drift [OF ok] by blast
qed

definition counting_object :: Object where
  "counting_object = \<lparr>oID = ''i'', oBucketName = ''abc'', oKey = ''k'', oSize = 5, oContentType = '''', oETag = ''e'',
     oStoragePath = ''/p'', oCustomMetadata = [], oVersion = 1, oReplicationStatus = '''', oDeleted = False,
     oCreatedAt = 0, oUpdatedAt = 0\<rparr>"

definition counting_env :: db_env where
  "counting_env = \<lparr>db_now = 0, db_rand = ''x'', db_faults = []\<rparr>"

text \<open>A bucket with one deleted object.\<close>

definition counted_db :: db where
  "counted_db = fst (PutTombstone counting_env ''abc'' ''k'' 2 (fst (PutObject counting_env counting_object
     (fst (CreateBucket counting_env ''abc'' empty_db)))))"

theorem object_count_drifts_witness:
  "db_reachable counted_db \<and> count_drift counted_db ''abc'' = 0 \<and>
   count_drift (fst (PutObject counting_env (counting_object\<lparr>oVersion := 3\<rparr>) counted_db)) ''abc'' = -1 \<and>
   count_drift (fst (DeleteObject counting_env ''abc'' ''k'' counted_db)) ''abc'' = -1"
proof -
  have s: "db_step d (fst (CreateBucket e n d))" "db_step d (fst (PutTombstone e n k v d))"
      "\<not> oDeleted o' \<Longrightarrow> db_step d (fst (PutObject e o' d))" for d e n k v o'
    by (rule db_step.intros; (rule prod.collapse [symmetric] | simp))+
  have r: "db_reachable counted_db"
    unfolding counted_db_def by (intro db_reachable.step [OF _ s(1)] db_reachable.step [OF _ s(2)] db_reachable.step [OF _ s(3)]
        db_reachable.init) (simp add: counting_object_def)
  have c: "count_drift counted_db ''abc'' = 0" "map_option oDeleted (obj_at counted_db ''abc'' ''k'') = Some True"
      "is_ok (snd (PutObject counting_env (counting_object\<lparr>oVersion := 3\<rparr>) counted_db))"
      "is_ok (snd (DeleteObject counting_env ''abc'' ''k'' counted_db))" by code_simp+
  then obtain old where old: "obj_at counted_db ''abc'' ''k'' = Some old" "oDeleted old" by auto
  obtain db1 db3 where d: "PutObject counting_env (counting_object\<lparr>oVersion := 3\<rparr>) counted_db = (db1, Inr ())"
      "DeleteObject counting_env ''abc'' ''k'' counted_db = (db3, Inr ())"
    using c(3,4) by (metis is_ok_iff old.unit.exhaust prod.collapse)
  show ?thesis
    using r c(1) d old object_count_drifts [OF r, of counting_env "counting_object\<lparr>oVersion := 3\<rparr>" db1 "''abc''" "''abc''" "''k''" 0 counted_db db3]
    by (simp add: counting_object_def)
qed

end
