(* ===== verification/ObjectService.thy ===== *)
theory ObjectService
  imports Filesystem MetaHints
begin

text \<open>
  \<^verbatim>\<open>internal/object/service.go\<close>: the object service of one node, which keeps the blob store and
  the metadata database together. The state of a node is its files and its database; a call
  runs in an environment for each of them and the free disk space. Names that the store
  already uses carry the suffix \<open>_svc\<close>. \<^verbatim>\<open>recordPlacement\<close> only logs and counts, so it has no
  counterpart here.
\<close>

section \<open>State and errors\<close>

record Service =
  svBlob :: Storage
  maxUploadBytes :: int
  minFreeBytes :: int

definition NewService :: "Storage \<Rightarrow> int \<Rightarrow> int \<Rightarrow> Service" where
  "NewService blob maxUpload minFree = \<lparr>svBlob = blob, maxUploadBytes = maxUpload, minFreeBytes = minFree\<rparr>"

record node_state =
  sFs :: fs
  sDb :: db

record env =
  eFs :: fs_env
  eDb :: db_env
  eFree :: int

definition minPartSize :: int where
  "minPartSize = 5 * 1024 * 1024"

definition newErr :: "code \<Rightarrow> string \<Rightarrow> int \<Rightarrow> goerr" where
  "newErr c message status = ObjErr c message status"

definition NotFoundKey :: goerr where
  "NotFoundKey = newErr CodeNoSuchKey ''The specified key does not exist.'' 404"

definition noSuchBucket :: goerr where
  "noSuchBucket = newErr CodeNoSuchBucket ''The specified bucket does not exist.'' 404"

definition NewReplicationError :: "goerr \<Rightarrow> goerr" where
  "NewReplicationError e = newErr CodeInternalError ''Object replication did not complete on enough replicas.'' 500"

definition NewQuorumReadError :: "goerr \<Rightarrow> goerr" where
  "NewQuorumReadError e = newErr CodeInternalError ''Unable to read object: read quorum not satisfied.'' 503"

section \<open>Buckets\<close>

definition quote :: "string \<Rightarrow> string" where
  "quote s = [CHR 0x27] @ s @ [CHR 0x27]"

definition CreateBucket_svc :: "env \<Rightarrow> string \<Rightarrow> node_state \<Rightarrow> node_state \<times> unit res" where
  "CreateBucket_svc env name st =
     (let msg = BucketNameError name in
      if msg \<noteq> '''' then (st, Inl (newErr CodeInvalidBucketName msg 400))
      else case CreateBucket (eDb env) name (sDb st) of
        (db, Inl e) \<Rightarrow>
          (st\<lparr>sDb := db\<rparr>,
           Inl (if e = ErrBucketExists
                then newErr CodeBucketAlreadyExists (''The bucket '' @ quote name @ '' already exists.'') 409
                else e))
      | (db, Inr u) \<Rightarrow> (st\<lparr>sDb := db\<rparr>, Inr u))"

definition DeleteBucket_svc :: "env \<Rightarrow> string \<Rightarrow> node_state \<Rightarrow> node_state \<times> unit res" where
  "DeleteBucket_svc env name st =
     (case DeleteBucket (eDb env) name (sDb st) of
        (db, Inl e) \<Rightarrow>
          (st\<lparr>sDb := db\<rparr>,
           Inl (if e = ErrBucketNotFound then noSuchBucket
                else if e = ErrBucketNotEmpty
                then newErr CodeBucketNotEmpty ''The bucket you tried to delete is not empty.'' 409
                else e))
      | (db, Inr u) \<Rightarrow> (st\<lparr>sDb := db\<rparr>, Inr u))"

definition HeadBucket_svc :: "env \<Rightarrow> string \<Rightarrow> node_state \<Rightarrow> unit res" where
  "HeadBucket_svc env name st =
     (case BucketExists (eDb env) name (sDb st) of
        Inl e \<Rightarrow> Inl e
      | Inr ok \<Rightarrow> if \<not> ok then Inl noSuchBucket else Inr ())"

definition ListBuckets_svc :: "env \<Rightarrow> node_state \<Rightarrow> Bucket list res" where
  "ListBuckets_svc env st = ListBuckets (eDb env) (sDb st)"

section \<open>Writing objects\<close>

record PutObjectInput =
  inBucketName :: string
  inKey :: string
  inContentType :: string
  inCustomMetadata :: custom_md
  inBody :: reader

definition zero_object :: Object where
  "zero_object = \<lparr>oID = '''', oBucketName = '''', oKey = '''', oSize = 0, oContentType = '''', oETag = '''',
     oStoragePath = '''', oCustomMetadata = [], oVersion = 0, oReplicationStatus = '''', oDeleted = False,
     oCreatedAt = zero_time, oUpdatedAt = zero_time\<rparr>"

text \<open>\<^verbatim>\<open>existing.Version + 1\<close> wraps around at 64 bits.\<close>

definition NextObjectVersion :: "env \<Rightarrow> string \<Rightarrow> string \<Rightarrow> node_state \<Rightarrow> int res" where
  "NextObjectVersion env bucket key st =
     (case GetObject (eDb env) bucket key (sDb st) of
        Inl e \<Rightarrow> if e = ErrObjectNotFound then Inr 1 else Inl e
      | Inr existing \<Rightarrow> Inr (i64 (oVersion existing + 1)))"

definition limit_body :: "Service \<Rightarrow> reader \<Rightarrow> reader" where
  "limit_body s body = (if maxUploadBytes s > 0 then newLimitReader body (maxUploadBytes s) else body)"

definition delete_blob :: "Service \<Rightarrow> env \<Rightarrow> string \<Rightarrow> string \<Rightarrow> node_state \<Rightarrow> node_state" where
  "delete_blob s env bucket key st = st\<lparr>sFs := fst (Delete (svBlob s) (eFs env) bucket key (sFs st))\<rparr>"

definition too_large :: goerr where
  "too_large = newErr CodeEntityTooLarge ''Object exceeds maximum upload size.'' 400"

definition PutObjectWithVersion ::
  "Service \<Rightarrow> env \<Rightarrow> PutObjectInput \<Rightarrow> int \<Rightarrow> string \<Rightarrow> node_state \<Rightarrow> node_state \<times> string res" where
  "PutObjectWithVersion s env inp version replicationStatus st =
     (let msg = KeyError (inKey inp) in
      if msg \<noteq> '''' then (st, Inl (newErr CodeInvalidArgument msg 400))
      else case BucketExists (eDb env) (inBucketName inp) (sDb st) of
        Inl e \<Rightarrow> (st, Inl e)
      | Inr ex \<Rightarrow>
          if \<not> ex then (st, Inl noSuchBucket)
          else if minFreeBytes s > 0 \<and> eFree env < minFreeBytes s
          then (st, Inl (newErr CodeEntityTooLarge ''Insufficient disk space.'' 507))
          else (case Put (svBlob s) (eFs env) (inBucketName inp) (inKey inp)
                       (NewMD5Reader (limit_body s (inBody inp))) (sFs st) of
              (fs, Inl e, _) \<Rightarrow> (st\<lparr>sFs := fs\<rparr>, Inl (if e = ErrUploadTooLarge then too_large else e))
            | (fs, Inr putResult, hasher) \<Rightarrow>
                let st = st\<lparr>sFs := fs\<rparr> in
                (case Err hasher of
                   Some herr \<Rightarrow>
                     (delete_blob s env (inBucketName inp) (inKey inp) st,
                      Inl (if herr = ErrUploadTooLarge then too_large else herr))
                 | None \<Rightarrow>
                     let etag = ETag hasher;
                         contentType = (if inContentType inp = '''' then octet_stream else inContentType inp);
                         obj = zero_object\<lparr>oBucketName := inBucketName inp, oKey := inKey inp,
                                 oSize := pSize putResult, oContentType := contentType, oETag := etag,
                                 oStoragePath := pPath putResult, oCustomMetadata := inCustomMetadata inp,
                                 oVersion := version, oReplicationStatus := replicationStatus\<rparr>
                     in (case PutObject (eDb env) obj (sDb st) of
                           (db, Inl e) \<Rightarrow> (delete_blob s env (inBucketName inp) (inKey inp) (st\<lparr>sDb := db\<rparr>), Inl e)
                         | (db, Inr _) \<Rightarrow> (st\<lparr>sDb := db\<rparr>, Inr etag)))))"

definition PutObject_svc :: "Service \<Rightarrow> env \<Rightarrow> PutObjectInput \<Rightarrow> node_state \<Rightarrow> node_state \<times> string res" where
  "PutObject_svc s env inp st =
     (case NextObjectVersion env (inBucketName inp) (inKey inp) st of
        Inl e \<Rightarrow> (st, Inl e)
      | Inr version \<Rightarrow> PutObjectWithVersion s env inp version ''replicated'' st)"

section \<open>Replica writes\<close>

record PutReplicaInput =
  riBucketName :: string
  riKey :: string
  riVersion :: int
  riExpectedETag :: string
  riContentType :: string
  riCustomMetadata :: custom_md
  riBody :: reader

definition stale_write :: goerr where
  "stale_write = newErr CodeInvalidArgument ''Stale replica write rejected.'' 409"

definition version_conflict :: goerr where
  "version_conflict = newErr CodeInvalidArgument ''Version conflict: same version with different ETag.'' 409"

text \<open>
  The decision of \<^verbatim>\<open>PutReplica\<close> against the existing row: refuse, accept without writing, or (None)
  go on and write.
\<close>

definition replica_decision :: "PutReplicaInput \<Rightarrow> Object option \<Rightarrow> unit res option" where
  "replica_decision inp existing =
     (case existing of
        None \<Rightarrow> None
      | Some ex \<Rightarrow>
          if riVersion inp < oVersion ex then Some (Inl stale_write)
          else if riVersion inp = oVersion ex then
            (if oDeleted ex then Some (Inl stale_write)
             else if oETag ex = riExpectedETag inp then Some (Inr ())
             else Some (Inl version_conflict))
          else None)"

definition PutReplica :: "Service \<Rightarrow> env \<Rightarrow> PutReplicaInput \<Rightarrow> node_state \<Rightarrow> node_state \<times> unit res" where
  "PutReplica s env inp st =
     (let msg = KeyError (riKey inp) in
      if msg \<noteq> '''' then (st, Inl (newErr CodeInvalidArgument msg 400))
      else case BucketExists (eDb env) (riBucketName inp) (sDb st) of
        Inl e \<Rightarrow> (st, Inl e)
      | Inr ex \<Rightarrow>
          if \<not> ex then (st, Inl noSuchBucket)
          else if db_fails (eDb env) ''object.get'' then (st, Inl (sql_err ''object.get''))
          else (case replica_decision inp (obj_at (sDb st) (riBucketName inp) (riKey inp)) of
             Some r \<Rightarrow> (st, r)
           | None \<Rightarrow>
               (case Put (svBlob s) (eFs env) (riBucketName inp) (riKey inp)
                       (NewMD5Reader (limit_body s (riBody inp))) (sFs st) of
                  (fs, Inl e, _) \<Rightarrow> (st\<lparr>sFs := fs\<rparr>, Inl e)
                | (fs, Inr putResult, hasher) \<Rightarrow>
                    let st = st\<lparr>sFs := fs\<rparr> in
                    (case Err hasher of
                       Some herr \<Rightarrow> (delete_blob s env (riBucketName inp) (riKey inp) st, Inl herr)
                     | None \<Rightarrow>
                         let etag = ETag hasher in
                         if etag \<noteq> riExpectedETag inp
                         then (delete_blob s env (riBucketName inp) (riKey inp) st,
                               Inl (newErr CodeInvalidArgument ''Replica checksum mismatch.'' 400))
                         else
                           let contentType = (if riContentType inp = '''' then octet_stream else riContentType inp);
                               obj = zero_object\<lparr>oBucketName := riBucketName inp, oKey := riKey inp,
                                       oSize := pSize putResult, oContentType := contentType, oETag := etag,
                                       oStoragePath := pPath putResult, oCustomMetadata := riCustomMetadata inp,
                                       oVersion := riVersion inp, oReplicationStatus := ''replicated''\<rparr>
                           in (case PutObject (eDb env) obj (sDb st) of
                                 (db, Inl e) \<Rightarrow> (delete_blob s env (riBucketName inp) (riKey inp) (st\<lparr>sDb := db\<rparr>), Inl e)
                               | (db, Inr _) \<Rightarrow> (st\<lparr>sDb := db\<rparr>, Inr ()))))))"

definition SetReplicationStatus :: "env \<Rightarrow> string \<Rightarrow> string \<Rightarrow> string \<Rightarrow> node_state \<Rightarrow> node_state \<times> unit res" where
  "SetReplicationStatus env bucket key status st =
     (case UpdateReplicationStatus (eDb env) bucket key status (sDb st) of
        (db, r) \<Rightarrow> (st\<lparr>sDb := db\<rparr>, r))"

definition GetObjectMetadata :: "env \<Rightarrow> string \<Rightarrow> string \<Rightarrow> node_state \<Rightarrow> Object res" where
  "GetObjectMetadata env bucket key st =
     (case GetObject (eDb env) bucket key (sDb st) of
        Inl e \<Rightarrow> Inl (if e = ErrObjectNotFound then NotFoundKey else e)
      | Inr obj \<Rightarrow> Inr obj)"

definition OpenStoredObject :: "Service \<Rightarrow> env \<Rightarrow> string \<Rightarrow> string \<Rightarrow> node_state \<Rightarrow> (string \<times> int) res" where
  "OpenStoredObject s env bucket key st =
     (case Get (svBlob s) (eFs env) bucket key (sFs st) of
        Inl e \<Rightarrow> Inl (if e = ErrNotFound then NotFoundKey else e)
      | Inr (body, info) \<Rightarrow> Inr (body, iSize info))"

text \<open>The blob store is the file system, which has the optional interfaces of the next three.\<close>

definition StageHintPayload ::
  "Service \<Rightarrow> env \<Rightarrow> string \<Rightarrow> string \<Rightarrow> int \<Rightarrow> string \<Rightarrow> node_state \<Rightarrow> node_state \<times> (string \<times> int) res" where
  "StageHintPayload s env bucket key version targetNode st =
     (case GetObject (eDb env) bucket key (sDb st) of
        Inl e \<Rightarrow> (st, Inl e)
      | Inr obj \<Rightarrow>
          if oDeleted obj \<or> oStoragePath obj = '''' then (st, Inl (Other ''no object bytes to stage''))
          else (case StageHintCopy (svBlob s) (eFs env) (oStoragePath obj) targetNode bucket key version (sFs st) of
                  (fs, r) \<Rightarrow> (st\<lparr>sFs := fs\<rparr>, r)))"

definition OpenStoragePath :: "Service \<Rightarrow> env \<Rightarrow> string \<Rightarrow> node_state \<Rightarrow> (string \<times> int) res" where
  "OpenStoragePath s env path st = OpenPath (svBlob s) (eFs env) path (sFs st)"

definition RemoveStoragePath :: "Service \<Rightarrow> env \<Rightarrow> string \<Rightarrow> node_state \<Rightarrow> node_state \<times> unit res" where
  "RemoveStoragePath s env path st =
     (case RemovePath (svBlob s) (eFs env) path (sFs st) of (fs, r) \<Rightarrow> (st\<lparr>sFs := fs\<rparr>, r))"

section \<open>Reading objects\<close>

record GetObjectResult =
  gBody :: string
  gSize :: int
  gContentType :: string
  gETag :: string
  gLastModified :: time
  gCustomMetadata :: custom_md

text \<open>The checks before the blob is opened, which \<^verbatim>\<open>HeadObject\<close> shares.\<close>

definition HeadObject_svc :: "env \<Rightarrow> string \<Rightarrow> string \<Rightarrow> node_state \<Rightarrow> Object res" where
  "HeadObject_svc env bucket key st =
     (let msg = KeyError key in
      if msg \<noteq> '''' then Inl (newErr CodeInvalidArgument msg 400)
      else case BucketExists (eDb env) bucket (sDb st) of
        Inl e \<Rightarrow> Inl e
      | Inr ok \<Rightarrow>
          if \<not> ok then Inl NotFoundKey
          else (case GetObject (eDb env) bucket key (sDb st) of
             Inl e \<Rightarrow> Inl (if e = ErrObjectNotFound then NotFoundKey else e)
           | Inr obj \<Rightarrow> if oDeleted obj then Inl NotFoundKey else Inr obj))"

text \<open>The digest of the integrity check: \<^verbatim>\<open>io.Copy(io.Discard, hasher)\<close> over the opened file.\<close>

definition computed_etag :: "string \<Rightarrow> string" where
  "computed_etag body = ETag (snd (copyWithContext io_ok (NewMD5Reader (Src [(body, None)]))))"

text \<open>After the check the blob is opened again; on unchanged files that yields the same bytes, or fails.\<close>

definition GetObject_svc ::
  "Service \<Rightarrow> env \<Rightarrow> string \<Rightarrow> string \<Rightarrow> bool \<Rightarrow> node_state \<Rightarrow> GetObjectResult res" where
  "GetObject_svc s env bucket key verifyIntegrity st =
     (let msg = KeyError key in
      if msg \<noteq> '''' then Inl (newErr CodeInvalidArgument msg 400)
      else case BucketExists (eDb env) bucket (sDb st) of
        Inl e \<Rightarrow> Inl e
      | Inr ok \<Rightarrow>
          if \<not> ok then Inl NotFoundKey
          else (case GetObject (eDb env) bucket key (sDb st) of
             Inl e \<Rightarrow> Inl (if e = ErrObjectNotFound then NotFoundKey else e)
           | Inr obj \<Rightarrow>
               if oDeleted obj then Inl NotFoundKey
               else (case Get (svBlob s) (eFs env) bucket key (sFs st) of
                  Inl e \<Rightarrow> Inl (if e = ErrNotFound then NotFoundKey else e)
                | Inr (body, info) \<Rightarrow>
                    if verifyIntegrity \<and> fails (eFs env) ''verify.read'' then Inl (os_err ''read'')
                    else if verifyIntegrity \<and> computed_etag body \<noteq> oETag obj
                    then Inl (newErr CodeInternalError
                      (''Integrity check failed: stored ETag '' @ oETag obj @ '' does not match computed '' @
                       computed_etag body @ ''.'') 500)
                    else if verifyIntegrity \<and> fails (eFs env) ''get.reopen'' then Inl (os_err ''open'')
                    else Inr \<lparr>gBody = body, gSize = iSize info, gContentType = oContentType obj,
                              gETag = oETag obj, gLastModified = oUpdatedAt obj,
                              gCustomMetadata = oCustomMetadata obj\<rparr>)))"

section \<open>Deleting and listing\<close>

definition PutTombstone_svc ::
  "Service \<Rightarrow> env \<Rightarrow> string \<Rightarrow> string \<Rightarrow> int \<Rightarrow> node_state \<Rightarrow> node_state \<times> unit res" where
  "PutTombstone_svc s env bucket key version st =
     (case BucketExists (eDb env) bucket (sDb st) of
        Inl e \<Rightarrow> (st, Inl e)
      | Inr ok \<Rightarrow>
          if \<not> ok then (st, Inr ())
          else if db_fails (eDb env) ''object.get'' then (st, Inl (sql_err ''object.get''))
          else let st = (case obj_at (sDb st) bucket key of
                           Some ex \<Rightarrow> if \<not> oDeleted ex then delete_blob s env bucket key st else st
                         | None \<Rightarrow> st)
               in (case PutTombstone (eDb env) bucket key version (sDb st) of
                     (db, r) \<Rightarrow> (st\<lparr>sDb := db\<rparr>, r)))"

definition stale_delete :: goerr where
  "stale_delete = newErr CodeInvalidArgument ''Stale replica delete rejected.'' 409"

definition tombstone_conflict :: goerr where
  "tombstone_conflict = newErr CodeInvalidArgument ''Version conflict on tombstone.'' 409"

definition tombstone_decision :: "int \<Rightarrow> Object option \<Rightarrow> unit res option" where
  "tombstone_decision version existing =
     (case existing of
        None \<Rightarrow> None
      | Some ex \<Rightarrow>
          if version < oVersion ex then Some (Inl stale_delete)
          else if version = oVersion ex \<and> oDeleted ex then Some (Inr ())
          else if version = oVersion ex \<and> \<not> oDeleted ex then Some (Inl tombstone_conflict)
          else None)"

definition PutTombstoneReplica ::
  "Service \<Rightarrow> env \<Rightarrow> string \<Rightarrow> string \<Rightarrow> int \<Rightarrow> node_state \<Rightarrow> node_state \<times> unit res" where
  "PutTombstoneReplica s env bucket key version st =
     (if db_fails (eDb env) ''object.get'' then (st, Inl (sql_err ''object.get''))
      else case tombstone_decision version (obj_at (sDb st) bucket key) of
        Some r \<Rightarrow> (st, r)
      | None \<Rightarrow>
          let st = (case obj_at (sDb st) bucket key of
                      Some ex \<Rightarrow> if \<not> oDeleted ex then delete_blob s env bucket key st else st
                    | None \<Rightarrow> st)
          in (case PutTombstone (eDb env) bucket key version (sDb st) of
                (db, r) \<Rightarrow> (st\<lparr>sDb := db\<rparr>, r)))"

definition LocalReplicaState :: "env \<Rightarrow> string \<Rightarrow> string \<Rightarrow> node_state \<Rightarrow> Object option res" where
  "LocalReplicaState env bucket key st =
     (case GetObject (eDb env) bucket key (sDb st) of
        Inl e \<Rightarrow> if e = ErrObjectNotFound then Inr None else Inl e
      | Inr obj \<Rightarrow> Inr (Some obj))"

definition DeleteObject_svc :: "Service \<Rightarrow> env \<Rightarrow> string \<Rightarrow> string \<Rightarrow> node_state \<Rightarrow> node_state \<times> unit res" where
  "DeleteObject_svc s env bucket key st =
     (case BucketExists (eDb env) bucket (sDb st) of
        Inl e \<Rightarrow> (st, Inl e)
      | Inr ok \<Rightarrow>
          if \<not> ok then (st, Inr ())
          else (case GetObject (eDb env) bucket key (sDb st) of
             Inl e \<Rightarrow> (st, if e = ErrObjectNotFound then Inr () else Inl e)
           | Inr _ \<Rightarrow>
               (case DeleteObject (eDb env) bucket key (sDb st) of
                  (db, Inl e) \<Rightarrow> (st\<lparr>sDb := db\<rparr>, Inl e)
                | (db, Inr _) \<Rightarrow>
                    (case Delete (svBlob s) (eFs env) bucket key (sFs st) of
                       (fs, r) \<Rightarrow> (st\<lparr>sDb := db, sFs := fs\<rparr>, r)))))"

definition ListObjects_svc :: "env \<Rightarrow> string \<Rightarrow> ListOptions \<Rightarrow> node_state \<Rightarrow> ListResult res" where
  "ListObjects_svc env bucket opts st =
     (case BucketExists (eDb env) bucket (sDb st) of
        Inl e \<Rightarrow> Inl e
      | Inr ok \<Rightarrow> if \<not> ok then Inl noSuchBucket else ListObjects (eDb env) bucket opts (sDb st))"

end
