(* ===== verification/ObjectProps.thy ===== *)
theory ObjectProps
  imports ObjectService
begin

text \<open>
  What the object service guarantees on one node: a stored object is read back with its bytes and
  ETag, a replica write never lowers a version and changes nothing when it is refused, and what
  is left behind when a replica write fails its checksum.
\<close>

section \<open>Uploading a body\<close>

text \<open>A body the service accepts: it ends with EOF, by a read of its own, within the limit.\<close>

definition accepted :: "Service \<Rightarrow> chunk list \<Rightarrow> bool" where
  "accepted s cs \<longleftrightarrow> separate_end cs \<and> stream_end cs = EOF \<and>
     (maxUploadBytes s > 0 \<longrightarrow> int (length (stream_data cs)) \<le> maxUploadBytes s)"

lemma body_copy:
  assumes "accepted s cs"
  shows "\<exists>r. copyWithContext io_ok (NewMD5Reader (limit_body s (Src cs))) = ((stream_data cs, None), r) \<and>
     ETag r = hex_encode (md5 (stream_data cs)) \<and> Err r = None"
proof -
  obtain r where "copy_loop io_ok (limit_body s (Src cs)) '''' = (('''' @ stream_data cs, None), r)"
  proof (cases "maxUploadBytes s > 0")
    case True
    with assms copy_loop_limit [of cs 0 "maxUploadBytes s" "''''"] that show thesis
      by (auto simp: accepted_def limit_body_def newLimitReader_def end_err_def)
  next
    case False
    with assms copy_loop_Src [of cs "''''"] that show thesis
      by (auto simp: accepted_def limit_body_def end_err_def)
  qed
  from copy_loop_MD5 [OF this, of "''''" 0] obtain err where
    c: "copy_loop io_ok (NewMD5Reader (limit_body s (Src cs))) '''' =
      ((stream_data cs, None), MD5Reader r (stream_data cs) (int (length (stream_data cs))) err)"
    and e: "case err of None \<Rightarrow> True | Some x \<Rightarrow> end_err x = None"
    by (auto simp: NewMD5Reader_def)
  have "Err (MD5Reader r (stream_data cs) (int (length (stream_data cs))) err) = None"
    using e by (auto simp: end_err_def split: option.splits rerr.splits)
  with c show ?thesis by (simp add: copyWithContext_def)
qed

text \<open>A healthy environment for a bucket: no faults, room on the disk, a proper root.\<close>

definition healthy :: "Service \<Rightarrow> env \<Rightarrow> bool" where
  "healthy s env \<longleftrightarrow> quiet (eFs env) \<and> db_quiet (eDb env) \<and> base_ok (basePath (svBlob s)) \<and>
     (minFreeBytes s > 0 \<longrightarrow> minFreeBytes s \<le> eFree env)"

definition blob_path :: "Service \<Rightarrow> string \<Rightarrow> string \<Rightarrow> string" where
  "blob_path s b k = basePath (svBlob s) @ ''/'' @ Join (blob_elems b k) ''/''"

lemma healthy_resolve:
  assumes "base_ok (basePath (svBlob s))" "BucketNameError b = ''''"
  shows "ResolveBlobPath wd (basePath (svBlob s)) b k = Inr (blob_path s b k)"
proof -
  obtain es where es: "basePath (svBlob s) = abs_path es" "list_all plain es" "es \<noteq> []"
    using assms(1) by (rule base_ok_elems)
  have "abs_path (es @ blob_elems b k) = blob_path s b k"
    using es abs_path_append [of es "blob_elems b k"] by (simp add: blob_path_def blob_elems_def Let_def)
  with ResolveBlobPath_valid [OF valid_bucket_plain(1) [OF assms(2)] es(2,3)] es(1) show ?thesis by simp
qed

text \<open>What Put does with a body that is copied whole.\<close>

lemma Put_copied:
  assumes "healthy s env" "BucketNameError b = ''''" "copyWithContext io_ok body = ((d, None), r)"
  shows "\<exists>fs'. Put (svBlob s) (eFs env) b k body fs = (fs', Inr \<lparr>pPath = blob_path s b k, pSize = int (length d)\<rparr>, r) \<and>
    data_at fs' (blob_path s b k) = Some d \<and>
    (\<forall>q. q \<noteq> tmp_name (eFs env) (blob_path s b k) \<longrightarrow> q \<noteq> blob_path s b k \<longrightarrow> data_at fs' q = data_at fs q)"
proof -
  let ?p = "blob_path s b k"
  have q: "quiet (eFs env)" and b: "base_ok (basePath (svBlob s))" using assms(1) by (auto simp: healthy_def)
  note p = healthy_resolve [OF b assms(2), of "fs_wd (eFs env)" k]
  obtain fs' where P: "Put (svBlob s) (eFs env) b k body fs = (fs', Inr \<lparr>pPath = ?p, pSize = int (length d)\<rparr>, r)"
    using Put_quiet [OF q p assms(3)] by blast
  then have "file_at fs' x = (if x = ?p then Some \<lparr>f_data = d, f_mtime = fs_now (eFs env)\<rparr>
      else if x = tmp_name (eFs env) ?p then None else file_at fs x)" for x
    using p assms(3) q by (elim Put_Inr) (simp add: quiet_def)
  then have "data_at fs' ?p = Some d"
    "\<forall>x. x \<noteq> tmp_name (eFs env) ?p \<longrightarrow> x \<noteq> ?p \<longrightarrow> data_at fs' x = data_at fs x"
    by (simp_all add: data_at_def)
  with P show ?thesis by blast
qed

lemma Put_accepted:
  assumes "healthy s env" "BucketNameError b = ''''" "accepted s cs"
  shows "\<exists>fs' r. Put (svBlob s) (eFs env) b k (NewMD5Reader (limit_body s (Src cs))) fs =
       (fs', Inr \<lparr>pPath = blob_path s b k, pSize = int (length (stream_data cs))\<rparr>, r) \<and>
    ETag r = hex_encode (md5 (stream_data cs)) \<and> Err r = None \<and>
    data_at fs' (blob_path s b k) = Some (stream_data cs) \<and>
    (\<forall>q. q \<noteq> tmp_name (eFs env) (blob_path s b k) \<longrightarrow> q \<noteq> blob_path s b k \<longrightarrow> data_at fs' q = data_at fs q)"
  using body_copy [OF assms(3)] Put_copied [OF assms(1,2)] by metis

lemma Delete_quiet_data:
  assumes "fs_faults e = []" "ResolveBlobPath (fs_wd e) (basePath s) b k = Inr p"
  shows "data_at (fst (Delete s e b k fs)) q = (if q = p then None else data_at fs q)"
  using assms by (simp add: Delete_def fails_def)

section \<open>Put and get\<close>

text \<open>What a client sees under a key: the service's answer to GetObject with and without verification.\<close>

lemma GetObject_svc_ok:
  assumes "healthy s env" "BucketNameError b = ''''" "KeyError k = ''''" "bucket_at (sDb st) b \<noteq> None"
    "obj_at (sDb st) b k = Some obj" "\<not> oDeleted obj" "data_at (sFs st) (blob_path s b k) = Some d"
    "verify \<longrightarrow> oETag obj = hex_encode (md5 d)"
  shows "GetObject_svc s env b k verify st = Inr \<lparr>gBody = d, gSize = int (length d),
     gContentType = oContentType obj, gETag = oETag obj, gLastModified = oUpdatedAt obj,
     gCustomMetadata = oCustomMetadata obj\<rparr>"
proof -
  have q: "fs_faults (eFs env) = []" "db_quiet (eDb env)" using assms(1) by (auto simp: healthy_def quiet_def)
  have p: "ResolveBlobPath (fs_wd (eFs env)) (basePath (svBlob s)) b k = Inr (blob_path s b k)"
    using healthy_resolve assms(1,2) by (simp add: healthy_def)
  have "computed_etag d = hex_encode (md5 d)"
    using md5_copy_stream [of "[(d, None)]"] by (auto simp: computed_etag_def)
  then show ?thesis
    using assms(3-8) q Get_data [OF q(1) p, of "sFs st"]
    by (auto simp: GetObject_svc_def BucketExists_def GetObject_def fails_def Let_def)
qed

text \<open>
  The row PutObjectWithVersion leaves, for an accepted body: the service's own success case, from
  which the round trips follow.
\<close>

definition fresh_id :: "env \<Rightarrow> db \<Rightarrow> string \<Rightarrow> string \<Rightarrow> bool" where
  "fresh_id env db b k \<longleftrightarrow> obj_at db b k = None \<longrightarrow> newID (eDb env) \<notin> oID ` set (db_objects db)"

lemma KeyError_nonempty: "KeyError k = '''' \<Longrightarrow> k \<noteq> ''''"
  by (auto simp: KeyError_def)

lemma valid_bucket_nonempty: "BucketNameError b = '''' \<Longrightarrow> b \<noteq> ''''"
  by (auto simp: valid_bucket_iff)

lemma newID_nonempty: "db_rand e \<noteq> '''' \<Longrightarrow> newID e \<noteq> ''''"
  by (simp add: newID_def)

lemma PutObject_quiet:
  assumes "db_quiet e" "oBucketName obj \<noteq> ''''" "oKey obj \<noteq> ''''" "bucket_at db (oBucketName obj) \<noteq> None"
    "obj_at db (oBucketName obj) (oKey obj) = None \<longrightarrow> oID (fill_object e obj) \<notin> oID ` set (db_objects db)"
  shows "\<exists>db'. PutObject e obj db = (db', Inr ())"
proof (cases "obj_at db (oBucketName obj) (oKey obj)")
  case None
  have "okey obj \<notin> okey ` set (db_objects db)"
    using None by (simp add: obj_at_def row_at_None okey_def)
  moreover have "oID (insert_defaults (fill_object e obj)) = oID (fill_object e obj)"
    by (simp add: insert_defaults_def)
  ultimately show ?thesis using assms None
    by (auto simp: PutObject_def BucketExists_def write_object_def insert_object_def Let_def)
next
  case (Some old)
  with assms show ?thesis
    by (auto simp: PutObject_def BucketExists_def write_object_def Let_def)
qed

text \<open>
  The effect of storing an object: its row, its bytes under the object's path, and nothing else changed
  (but for the temporary file).
\<close>

definition stored :: "Service \<Rightarrow> env \<Rightarrow> Object \<Rightarrow> string \<Rightarrow> node_state \<Rightarrow> node_state \<Rightarrow> bool" where
  "stored s env obj d st st' \<longleftrightarrow>
     (\<exists>row. obj_at (sDb st') (oBucketName obj) (oKey obj) = Some row \<and> \<not> oDeleted row \<and>
        oETag row = oETag obj \<and> oSize row = oSize obj \<and> oContentType row = oContentType obj \<and>
        oCustomMetadata row = oCustomMetadata obj \<and> oStoragePath row = oStoragePath obj \<and>
        (oVersion obj \<noteq> 0 \<or> obj_at (sDb st) (oBucketName obj) (oKey obj) \<noteq> None \<longrightarrow> oVersion row = oVersion obj) \<and>
        (oReplicationStatus obj \<noteq> '''' \<or> obj_at (sDb st) (oBucketName obj) (oKey obj) \<noteq> None \<longrightarrow>
           oReplicationStatus row = oReplicationStatus obj)) \<and>
     data_at (sFs st') (blob_path s (oBucketName obj) (oKey obj)) = Some d \<and>
     bucket_at (sDb st') (oBucketName obj) \<noteq> None \<and>
     (\<forall>b' k'. (b', k') \<noteq> (oBucketName obj, oKey obj) \<longrightarrow> obj_at (sDb st') b' k' = obj_at (sDb st) b' k') \<and>
     (\<forall>q. q \<noteq> tmp_name (eFs env) (blob_path s (oBucketName obj) (oKey obj)) \<longrightarrow>
        q \<noteq> blob_path s (oBucketName obj) (oKey obj) \<longrightarrow> data_at (sFs st') q = data_at (sFs st) q)"

lemma store_object:
  assumes "db_quiet (eDb env)" "oBucketName obj \<noteq> ''''" "oKey obj \<noteq> ''''"
    "bucket_at (sDb st) (oBucketName obj) \<noteq> None" "fresh_id env (sDb st) (oBucketName obj) (oKey obj)"
    "oID obj = ''''" "\<not> oDeleted obj" "oContentType obj \<noteq> ''''"
    "data_at fs' (blob_path s (oBucketName obj) (oKey obj)) = Some d"
    "\<forall>q. q \<noteq> tmp_name (eFs env) (blob_path s (oBucketName obj) (oKey obj)) \<longrightarrow>
        q \<noteq> blob_path s (oBucketName obj) (oKey obj) \<longrightarrow> data_at fs' q = data_at (sFs st) q"
  shows "\<exists>db'. PutObject (eDb env) obj (sDb st) = (db', Inr ()) \<and>
     stored s env obj d st (st\<lparr>sFs := fs', sDb := db'\<rparr>)"
proof -
  have "oID (fill_object (eDb env) obj) = newID (eDb env)" using assms(6) by (simp add: fill_object_def)
  then obtain db' where D: "PutObject (eDb env) obj (sDb st) = (db', Inr ())"
    using PutObject_quiet [OF assms(1-4)] assms(5) by (auto simp: fresh_id_def)
  have b: "bucket_at db' (oBucketName obj) \<noteq> None"
    using PutObject_rest [OF D] assms(4) unfolding bucket_at_iff same_rest_def by simp
  have o: "\<forall>b' k'. (b', k') \<noteq> (oBucketName obj, oKey obj) \<longrightarrow> obj_at db' b' k' = obj_at (sDb st) b' k'"
    using PutObject_other [OF D] by (simp add: okey_def)
  from D have "stored s env obj d st (st\<lparr>sFs := fs', sDb := db'\<rparr>)"
  proof (rule PutObject_at)
    fix row
    assume "obj_at db' (oBucketName obj) (oKey obj) = Some row" "oSize row = oSize obj" "oETag row = oETag obj"
      "oStoragePath row = oStoragePath obj" "oDeleted row = oDeleted obj" "oCustomMetadata row = oCustomMetadata obj"
      "oContentType row = (if oContentType obj = '''' then octet_stream else oContentType obj)"
      "oVersion obj \<noteq> 0 \<Longrightarrow> oVersion row = oVersion obj"
      "oReplicationStatus obj \<noteq> '''' \<Longrightarrow> oReplicationStatus row = oReplicationStatus obj"
      "obj_at (sDb st) (oBucketName obj) (oKey obj) \<noteq> None \<Longrightarrow>
         oVersion row = oVersion obj \<and> oReplicationStatus row = oReplicationStatus obj"
    with b o assms(7-10) show ?thesis unfolding stored_def by (intro conjI exI [of _ row]) auto
  qed
  with D show ?thesis by blast
qed

definition input_object :: "Service \<Rightarrow> PutObjectInput \<Rightarrow> string \<Rightarrow> int \<Rightarrow> string \<Rightarrow> Object" where
  "input_object s inp d version status =
     zero_object\<lparr>oBucketName := inBucketName inp, oKey := inKey inp, oSize := int (length d),
       oContentType := (if inContentType inp = '''' then octet_stream else inContentType inp),
       oETag := hex_encode (md5 d), oStoragePath := blob_path s (inBucketName inp) (inKey inp),
       oCustomMetadata := inCustomMetadata inp, oVersion := version, oReplicationStatus := status\<rparr>"

lemma input_object_simps [simp]:
  "oBucketName (input_object s inp d v st) = inBucketName inp" "oKey (input_object s inp d v st) = inKey inp"
  "oSize (input_object s inp d v st) = int (length d)" "oETag (input_object s inp d v st) = hex_encode (md5 d)"
  "oVersion (input_object s inp d v st) = v" "oReplicationStatus (input_object s inp d v st) = st"
  "oStoragePath (input_object s inp d v st) = blob_path s (inBucketName inp) (inKey inp)"
  "oCustomMetadata (input_object s inp d v st) = inCustomMetadata inp"
  "oContentType (input_object s inp d v st) = (if inContentType inp = '''' then octet_stream else inContentType inp)"
  "oID (input_object s inp d v st) = ''''" "\<not> oDeleted (input_object s inp d v st)"
  by (simp_all add: input_object_def zero_object_def)

lemma octet_stream_nonempty [simp]: "octet_stream \<noteq> ''''"
  by (simp add: octet_stream_def)

lemma input_content_type: "oContentType (input_object s inp d v st) \<noteq> ''''"
  by (simp add: input_object_def)

lemma PutObjectWithVersion_ok:
  assumes h: "healthy s env" and b: "BucketNameError (inBucketName inp) = ''''" and k: "KeyError (inKey inp) = ''''"
    and bk: "bucket_at (sDb st) (inBucketName inp) \<noteq> None" and body: "inBody inp = Src cs" "accepted s cs"
    and f: "fresh_id env (sDb st) (inBucketName inp) (inKey inp)"
  shows "\<exists>st'. PutObjectWithVersion s env inp version status st = (st', Inr (hex_encode (md5 (stream_data cs)))) \<and>
    stored s env (input_object s inp (stream_data cs) version status) (stream_data cs) st st'"
proof -
  let ?b = "inBucketName inp" and ?k = "inKey inp" and ?d = "stream_data cs"
  let ?obj = "input_object s inp ?d version status"
  obtain fs' r where P: "Put (svBlob s) (eFs env) ?b ?k (NewMD5Reader (limit_body s (Src cs))) (sFs st) =
       (fs', Inr \<lparr>pPath = blob_path s ?b ?k, pSize = int (length ?d)\<rparr>, r)"
    "ETag r = hex_encode (md5 ?d)" "Err r = None" "data_at fs' (blob_path s ?b ?k) = Some ?d"
    "\<forall>q. q \<noteq> tmp_name (eFs env) (blob_path s ?b ?k) \<longrightarrow> q \<noteq> blob_path s ?b ?k \<longrightarrow> data_at fs' q = data_at (sFs st) q"
    using Put_accepted [OF h b body(2), of ?k "sFs st"] by blast
  have q: "db_quiet (eDb env)" using h by (simp add: healthy_def)
  have "\<exists>db'. PutObject (eDb env) ?obj (sDb st) = (db', Inr ()) \<and>
      stored s env ?obj ?d st (st\<lparr>sFs := fs', sDb := db'\<rparr>)"
    by (rule store_object [OF q])
       (use KeyError_nonempty [OF k] valid_bucket_nonempty [OF b] bk f P(4,5) in simp_all)
  then obtain db' where D: "PutObject (eDb env) ?obj (sDb st) = (db', Inr ())"
    "stored s env ?obj ?d st (st\<lparr>sFs := fs', sDb := db'\<rparr>)" by blast
  have "PutObjectWithVersion s env inp version status st =
      (st\<lparr>sFs := fs', sDb := db'\<rparr>, Inr (hex_encode (md5 ?d)))"
    using h k bk body(1) P(1-3) D(1) q
    by (auto simp: PutObjectWithVersion_def BucketExists_def healthy_def input_object_def Let_def)
  with D(2) show ?thesis by blast
qed

text \<open>
  Object round trip. For a valid key in an existing bucket and a body within the limit, PutObject succeeds
  and returns the MD5 of the body; GetObject on the resulting state, with or without the
  integrity check, returns exactly the body with its length, ETag, content type (with the
  default) and custom metadata. The stored version is one above the previous one (1 for a new
  key), and no other key's row changed.
\<close>

lemma put_object_roundtrip:
  assumes "healthy s env" "BucketNameError (inBucketName inp) = ''''" "KeyError (inKey inp) = ''''"
    "bucket_at (sDb st) (inBucketName inp) \<noteq> None" "inBody inp = Src cs" "accepted s cs"
    "fresh_id env (sDb st) (inBucketName inp) (inKey inp)"
    "\<forall>r. obj_at (sDb st) (inBucketName inp) (inKey inp) = Some r \<longrightarrow> 0 \<le> oVersion r \<and> oVersion r < 2 ^ 63 - 1"
  shows "\<exists>st' g row. PutObject_svc s env inp st = (st', Inr (hex_encode (md5 (stream_data cs)))) \<and>
     GetObject_svc s env (inBucketName inp) (inKey inp) verify st' = Inr g \<and>
     gBody g = stream_data cs \<and> gSize g = int (length (stream_data cs)) \<and>
     gETag g = hex_encode (md5 (stream_data cs)) \<and> gCustomMetadata g = inCustomMetadata inp \<and>
     gContentType g = (if inContentType inp = '''' then octet_stream else inContentType inp) \<and>
     obj_at (sDb st') (inBucketName inp) (inKey inp) = Some row \<and>
     oVersion row = (case obj_at (sDb st) (inBucketName inp) (inKey inp) of None \<Rightarrow> 1 | Some r \<Rightarrow> oVersion r + 1) \<and>
     (\<forall>b k. (b, k) \<noteq> (inBucketName inp, inKey inp) \<longrightarrow> obj_at (sDb st') b k = obj_at (sDb st) b k)"
proof -
  let ?b = "inBucketName inp" and ?k = "inKey inp" and ?d = "stream_data cs"
  define v where "v = (case obj_at (sDb st) ?b ?k of None \<Rightarrow> 1 | Some r \<Rightarrow> oVersion r + 1)"
  have v: "v \<noteq> 0" "NextObjectVersion env ?b ?k st = Inr v"
    using assms(1,8) by (auto simp: v_def NextObjectVersion_def GetObject_def healthy_def in_i64_def split: option.splits)
  obtain st' where P: "PutObjectWithVersion s env inp v ''replicated'' st = (st', Inr (hex_encode (md5 ?d)))"
    and S: "stored s env (input_object s inp ?d v ''replicated'') ?d st st'"
    using PutObjectWithVersion_ok [OF assms(1-7)] by blast
  from S v(1) obtain row where row: "obj_at (sDb st') ?b ?k = Some row" "\<not> oDeleted row"
      "oETag row = hex_encode (md5 ?d)" "oSize row = int (length ?d)" "oVersion row = v"
      "oContentType row = (if inContentType inp = '''' then octet_stream else inContentType inp)"
      "oCustomMetadata row = inCustomMetadata inp"
    and rest: "data_at (sFs st') (blob_path s ?b ?k) = Some ?d" "bucket_at (sDb st') ?b \<noteq> None"
      "\<forall>b k. (b, k) \<noteq> (?b, ?k) \<longrightarrow> obj_at (sDb st') b k = obj_at (sDb st) b k"
    by (auto simp: stored_def)
  from GetObject_svc_ok [OF assms(1-3) rest(2) row(1,2) rest(1)] row(3)
  have "GetObject_svc s env ?b ?k verify st' = Inr \<lparr>gBody = ?d, gSize = int (length ?d),
     gContentType = oContentType row, gETag = oETag row, gLastModified = oUpdatedAt row,
     gCustomMetadata = oCustomMetadata row\<rparr>" by blast
  moreover have "PutObject_svc s env inp st = (st', Inr (hex_encode (md5 ?d)))"
    using P v(2) by (simp add: PutObject_svc_def)
  ultimately show ?thesis using row rest(3) by (simp add: v_def)
qed

definition example_service :: Service where
  "example_service = \<lparr>svBlob = example_storage, maxUploadBytes = 100, minFreeBytes = 0\<rparr>"

definition example_node_env :: env where
  "example_node_env = \<lparr>eFs = example_env, eDb = \<lparr>db_now = 0, db_rand = ''x'', db_faults = []\<rparr>, eFree = 0\<rparr>"

definition example_node :: node_state where
  "example_node = \<lparr>sFs = \<lparr>fs_files = [], fs_dirs = []\<rparr>,
     sDb = empty_db\<lparr>db_buckets := [\<lparr>bID = ''1'', bName = ''abc'', bObjectCount = 0, bTotalSize = 0,
       bCreatedAt = 0, bUpdatedAt = 0\<rparr>]\<rparr>\<rparr>"

definition example_input :: PutObjectInput where
  "example_input = \<lparr>inBucketName = ''abc'', inKey = ''k'', inContentType = '''', inCustomMetadata = [],
     inBody = Src [(''hel'', None), (''lo'', None)]\<rparr>"

lemma example_healthy: "healthy example_service example_node_env"
  using example_quiet
  by (simp add: healthy_def example_service_def example_node_env_def db_quiet_def example_storage_def)
     code_simp

lemma example_facts:
  "BucketNameError ''abc'' = ''''" "KeyError ''k'' = ''''" "bucket_at (sDb example_node) ''abc'' \<noteq> None"
  "accepted example_service [(''hel'', None), (''lo'', None)]" "obj_at (sDb example_node) ''abc'' ''k'' = None"
  "newID (eDb example_node_env) \<notin> oID ` set (db_objects (sDb example_node))"
proof -
  show "newID (eDb example_node_env) \<notin> oID ` set (db_objects (sDb example_node))"
    by (simp add: example_node_def empty_db_def)
qed code_simp+

lemma put_object_roundtrip_example:
  "\<exists>st' g. PutObject_svc example_service example_node_env example_input example_node = (st', Inr (hex_encode (md5 ''hello''))) \<and>
     GetObject_svc example_service example_node_env ''abc'' ''k'' True st' = Inr g \<and> gBody g = ''hello''"
proof -
  have i: "inBucketName example_input = ''abc''" "inKey example_input = ''k''"
    "inBody example_input = Src [(''hel'', None), (''lo'', None)]" by (simp_all add: example_input_def)
  have f: "fresh_id example_node_env (sDb example_node) ''abc'' ''k''"
    using example_facts(6) by (simp add: fresh_id_def)
  show ?thesis
    using put_object_roundtrip [of example_service example_node_env example_input example_node, unfolded i,
      OF example_healthy example_facts(1-3) refl example_facts(4) f, where verify = True] example_facts(5)
    by auto
qed

section \<open>Replica operations\<close>

text \<open>The two operations a replica node accepts from its peers, at any key.\<close>

datatype replica_op = RPut PutReplicaInput | RDel string string int

fun op_key :: "replica_op \<Rightarrow> string \<times> string" where
  "op_key (RPut inp) = (riBucketName inp, riKey inp)"
| "op_key (RDel b k v) = (b, k)"

fun op_version :: "replica_op \<Rightarrow> int" where
  "op_version (RPut inp) = riVersion inp"
| "op_version (RDel b k v) = v"

fun apply_op :: "Service \<Rightarrow> env \<Rightarrow> replica_op \<Rightarrow> node_state \<Rightarrow> node_state \<times> unit res" where
  "apply_op s env (RPut inp) st = PutReplica s env inp st"
| "apply_op s env (RDel b k v) st = PutTombstoneReplica s env b k v st"

definition row_of :: "node_state \<Rightarrow> string \<times> string \<Rightarrow> Object option" where
  "row_of st bk = obj_at (sDb st) (fst bk) (snd bk)"

lemma delete_blob_db [simp]: "sDb (delete_blob s env b k st) = sDb st"
  by (simp add: delete_blob_def)

text \<open>How a replica write ends: refused or accepted without a write, failed, or written.\<close>

lemma PutReplica_cases:
  assumes "PutReplica s env inp st = (st', r)"
  obtains (same) "st' = st"
  | (failed) e where "sDb st' = sDb st" "r = Inl e" "replica_decision inp (row_of st (op_key (RPut inp))) = None"
  | (written) obj where "r = Inr ()" "PutObject (eDb env) obj (sDb st) = (sDb st', Inr ())"
      "okey obj = op_key (RPut inp)" "oVersion obj = riVersion inp" "oETag obj = riExpectedETag inp" "\<not> oDeleted obj"
      "replica_decision inp (row_of st (op_key (RPut inp))) = None"
proof (cases "st' = st")
  case False
  let ?row = "obj_at (sDb st) (riBucketName inp) (riKey inp)"
  from assms False have dec: "replica_decision inp ?row = None"
    by (auto simp: PutReplica_def BucketExists_def Let_def split: if_splits option.splits sum.splits)
  obtain fs pr hasher where P: "Put (svBlob s) (eFs env) (riBucketName inp) (riKey inp)
      (NewMD5Reader (limit_body s (riBody inp))) (sFs st) = (fs, pr, hasher)" by (metis prod_cases3)
  show thesis
  proof (cases "\<exists>e. r = Inl e")
    case True
    then obtain e where e: "r = Inl e" by blast
    have "sDb st' = sDb st"
      using assms False dec P e PutObject_Inl
      by (auto simp: PutReplica_def BucketExists_def Let_def split: if_splits option.splits sum.splits prod.splits)
    with e dec show thesis by (intro failed) (simp_all add: row_of_def)
  next
    case False
    with assms \<open>st' \<noteq> st\<close> dec P obtain res where res: "pr = Inr res" "Err hasher = None" "ETag hasher = riExpectedETag inp" "r = Inr ()"
      by (auto simp: PutReplica_def BucketExists_def Let_def split: if_splits option.splits sum.splits prod.splits)
    define obj where "obj = zero_object\<lparr>oBucketName := riBucketName inp, oKey := riKey inp, oSize := pSize res,
      oContentType := (if riContentType inp = '''' then octet_stream else riContentType inp), oETag := riExpectedETag inp,
      oStoragePath := pPath res, oCustomMetadata := riCustomMetadata inp, oVersion := riVersion inp,
      oReplicationStatus := ''replicated''\<rparr>"
    have "PutObject (eDb env) obj (sDb st) = (sDb st', Inr ())"
      using assms False dec P res
      by (auto simp: PutReplica_def BucketExists_def Let_def obj_def split: if_splits option.splits sum.splits prod.splits)
    with res dec show thesis
      by (intro written [of obj]) (simp_all add: obj_def zero_object_def okey_def row_of_def)
  qed
qed (rule same)

lemma PutTombstoneReplica_cases:
  assumes "PutTombstoneReplica s env b k v st = (st', r)"
  obtains (same) "st' = st"
  | (failed) e where "sDb st' = sDb st" "r = Inl e" "tombstone_decision v (row_of st (b, k)) = None"
  | (written) "r = Inr ()" "PutTombstone (eDb env) b k v (sDb st) = (sDb st', Inr ())"
      "tombstone_decision v (row_of st (b, k)) = None"
proof (cases "st' = st")
  case False
  from assms False have dec: "tombstone_decision v (obj_at (sDb st) b k) = None"
    by (auto simp: PutTombstoneReplica_def Let_def split: if_splits option.splits)
  obtain db' r' where T: "PutTombstone (eDb env) b k v (sDb st) = (db', r')" by (metis surj_pair)
  have "r' = r \<and> sDb st' = db'"
    using assms False dec T
    by (auto simp: PutTombstoneReplica_def Let_def split: if_splits option.splits)
  moreover have "\<exists>e. r = Inl e \<or> r = Inr ()" by (cases r) auto
  ultimately show thesis
    using T PutTombstone_Inl dec failed written by (auto simp: row_of_def)
qed (rule same)

lemma decision_newer:
  "replica_decision inp (Some ex) = None \<longleftrightarrow> oVersion ex < riVersion inp"
  "tombstone_decision v (Some ex) = None \<longleftrightarrow> oVersion ex < v"
  by (auto simp: replica_decision_def tombstone_decision_def)

text \<open>What one replica operation does to the rows, in any environment.\<close>

lemma apply_op_row:
  assumes "apply_op s env op st = (st', r)" "row_of st bk = Some ex"
  shows "\<exists>row. row_of st' bk = Some row \<and> (row = ex \<or> bk = op_key op \<and> oVersion ex < oVersion row \<and> oVersion row = op_version op)"
proof (cases op)
  case (RPut inp)
  with assms(1) have "PutReplica s env inp st = (st', r)" by simp
  then show ?thesis
  proof (cases rule: PutReplica_cases)
    case (written obj)
    show ?thesis
    proof (cases "bk = op_key op")
      case True
      from written(2) obtain row where "obj_at (sDb st') (oBucketName obj) (oKey obj) = Some row"
        "obj_at (sDb st) (oBucketName obj) (oKey obj) \<noteq> None \<Longrightarrow> oVersion row = oVersion obj \<and>
           oReplicationStatus row = oReplicationStatus obj" by (rule PutObject_at) blast
      with True written RPut assms(2) show ?thesis
        by (auto simp: row_of_def okey_def decision_newer)
    next
      case False
      with written RPut assms(2) PutObject_other [OF written(2), of "fst bk" "snd bk"] show ?thesis
        by (simp add: row_of_def)
    qed
  qed (use assms in \<open>auto simp: row_of_def\<close>)
next
  case (RDel b k v)
  with assms(1) have "PutTombstoneReplica s env b k v st = (st', r)" by simp
  then show ?thesis
  proof (cases rule: PutTombstoneReplica_cases)
    case written
    show ?thesis
    proof (cases "bk = (b, k)")
      case True
      with written RDel assms(2) PutTombstone_at [OF written(2)] show ?thesis
        by (auto simp: row_of_def decision_newer)
    next
      case False
      with written RDel assms(2) PutTombstone_other [OF written(2), of "fst bk" "snd bk"] show ?thesis
        by (simp add: row_of_def)
    qed
  qed (use assms in \<open>auto simp: row_of_def\<close>)
qed

lemma apply_op_stale:
  assumes "apply_op s env op st = (st', r)" "row_of st (op_key op) = Some ex" "op_version op \<le> oVersion ex"
  shows "st' = st"
proof (cases op)
  case (RPut inp)
  with assms(1) have "PutReplica s env inp st = (st', r)" by simp
  then show ?thesis using RPut assms(2,3) by (cases rule: PutReplica_cases) (auto simp: decision_newer)
next
  case (RDel b k v)
  with assms(1) have "PutTombstoneReplica s env b k v st = (st', r)" by simp
  then show ?thesis using RDel assms(2,3) by (cases rule: PutTombstoneReplica_cases) (auto simp: decision_newer)
qed

text \<open>A history of replica operations, each in its own environment.\<close>

definition run_ops :: "Service \<Rightarrow> (env \<times> replica_op) list \<Rightarrow> node_state \<Rightarrow> node_state" where
  "run_ops s ops st = fold (\<lambda>(env, op) st. fst (apply_op s env op st)) ops st"

lemma run_ops_row:
  "row_of st bk = Some ex \<Longrightarrow> \<exists>row. row_of (run_ops s ops st) bk = Some row \<and>
     (row = ex \<or> oVersion ex < oVersion row \<and> (\<exists>(env, op) \<in> set ops. op_key op = bk \<and> op_version op = oVersion row))"
proof (induction ops arbitrary: st ex)
  case (Cons eo ops)
  obtain env op where eo: "eo = (env, op)" by (cases eo)
  obtain st1 r where a: "apply_op s env op st = (st1, r)" by (metis surj_pair)
  obtain row1 where r1: "row_of st1 bk = Some row1"
    "row1 = ex \<or> bk = op_key op \<and> oVersion ex < oVersion row1 \<and> oVersion row1 = op_version op"
    using apply_op_row [OF a Cons.prems] by blast
  have "run_ops s (eo # ops) st = run_ops s ops st1" using a eo by (simp add: run_ops_def)
  with Cons.IH [OF r1(1)] r1(2) eo show ?case by fastforce
qed (simp add: run_ops_def)

text \<open>
  C20: versions on a replica. Whatever replica writes and tombstones arrive, in whatever order and with whatever
  faults, the row of a key changes only to a strictly higher version that one of the operations
  carried. So once a key is deleted at version \<open>v\<close>, no write of version \<open>v\<close> or below brings it back; a
  single stale operation leaves the whole node (rows and files) untouched.
\<close>

theorem replica_versions_monotone:
  assumes "row_of st bk = Some ex"
  shows "(\<exists>row. row_of (run_ops s ops st) bk = Some row \<and>
      (row = ex \<or> oVersion ex < oVersion row \<and>
         (\<exists>(env, op) \<in> set ops. op_key op = bk \<and> op_version op = oVersion row))) \<and>
    ((\<forall>(env, op) \<in> set ops. op_key op = bk \<longrightarrow> op_version op \<le> oVersion ex) \<longrightarrow>
       row_of (run_ops s ops st) bk = Some ex) \<and>
    (\<forall>env op st' r. apply_op s env op st = (st', r) \<longrightarrow> op_key op = bk \<longrightarrow> op_version op \<le> oVersion ex \<longrightarrow> st' = st)"
proof -
  have stale: "\<forall>env op st' r. apply_op s env op st = (st', r) \<longrightarrow> op_key op = bk \<longrightarrow> op_version op \<le> oVersion ex \<longrightarrow> st' = st"
    using apply_op_stale assms by blast
  obtain row where row: "row_of (run_ops s ops st) bk = Some row"
    "row = ex \<or> oVersion ex < oVersion row \<and> (\<exists>(env, op) \<in> set ops. op_key op = bk \<and> op_version op = oVersion row)"
    using run_ops_row [OF assms] by blast
  then have "(\<forall>(env, op) \<in> set ops. op_key op = bk \<longrightarrow> op_version op \<le> oVersion ex) \<longrightarrow> row = ex" by fastforce
  with row stale show ?thesis by blast
qed

definition example_row :: Object where
  "example_row = zero_object\<lparr>oID := ''i'', oBucketName := ''abc'', oKey := ''k'', oVersion := 3, oDeleted := True\<rparr>"

definition example_replica :: node_state where
  "example_replica = example_node\<lparr>sDb := (sDb example_node)\<lparr>db_objects := [example_row]\<rparr>\<rparr>"

definition example_replica_input :: PutReplicaInput where
  "example_replica_input = \<lparr>riBucketName = ''abc'', riKey = ''k'', riVersion = 2, riExpectedETag = ''e'', riContentType = '''',
     riCustomMetadata = [], riBody = Src [(''hello'', None)]\<rparr>"

theorem replica_versions_monotone_witness:
  "row_of example_replica (''abc'', ''k'') = Some example_row \<and>
   row_of (run_ops example_service [(example_node_env, RPut example_replica_input)] example_replica) (''abc'', ''k'') = Some example_row"
proof -
  have r: "row_of example_replica (''abc'', ''k'') = Some example_row" by code_simp
  have "\<forall>(env, op) \<in> set [(example_node_env, RPut example_replica_input)].
      op_key op = (''abc'', ''k'') \<longrightarrow> op_version op \<le> oVersion example_row"
    by (simp add: example_replica_input_def example_row_def zero_object_def)
  with replica_versions_monotone [OF r, of example_service "[(example_node_env, RPut example_replica_input)]"] r
  show ?thesis by blast
qed


end
