(* ===== verification/ObjectMultipart.thy ===== *)
theory ObjectMultipart
  imports ObjectProps
begin

text \<open>
  \<^verbatim>\<open>internal/object/multipart.go\<close> and \<^verbatim>\<open>copy.go\<close>: multipart uploads and server-side copies on one
  node. The theorems follow an upload from its parts to the completed object.
\<close>

section \<open>multipart.go\<close>

definition no_such_upload :: goerr where
  "no_such_upload = newErr CodeNoSuchUpload ''The specified upload does not exist.'' 404"

definition no_space :: goerr where
  "no_space = newErr CodeEntityTooLarge ''Insufficient disk space.'' 507"

definition InitiateMultipartUpload ::
  "env \<Rightarrow> string \<Rightarrow> string \<Rightarrow> string \<Rightarrow> node_state \<Rightarrow> node_state \<times> string res" where
  "InitiateMultipartUpload env bucket key contentType st =
     (let msg = KeyError key in
      if msg \<noteq> '''' then (st, Inl (newErr CodeInvalidArgument msg 400))
      else case CreateMultipartUpload (eDb env) bucket key contentType (sDb st) of
        (db, Inl e) \<Rightarrow> (st\<lparr>sDb := db\<rparr>, Inl (if e = ErrBucketNotFound then noSuchBucket else e))
      | (db, Inr i) \<Rightarrow> (st\<lparr>sDb := db\<rparr>, Inr i))"

definition UploadPart ::
  "Service \<Rightarrow> env \<Rightarrow> string \<Rightarrow> string \<Rightarrow> string \<Rightarrow> int \<Rightarrow> reader \<Rightarrow> node_state \<Rightarrow> node_state \<times> string res" where
  "UploadPart s env bucket key uploadID partNumber body st =
     (if partNumber < 1 \<or> partNumber > 10000
      then (st, Inl (newErr CodeInvalidArgument ''Part number must be between 1 and 10000.'' 400))
      else let msg = KeyError key in
      if msg \<noteq> '''' then (st, Inl (newErr CodeInvalidArgument msg 400))
      else case GetMultipartUpload (eDb env) uploadID bucket key (sDb st) of
        Inl e \<Rightarrow> (st, Inl (if e = ErrNoSuchUpload then no_such_upload else e))
      | Inr upload \<Rightarrow>
          if minFreeBytes s > 0 \<and> eFree env < minFreeBytes s then (st, Inl no_space)
          else (case PutPart (svBlob s) (eFs env) uploadID partNumber (limit_body s body) (sFs st) of
              (fs, Inl e) \<Rightarrow>
                (st\<lparr>sFs := fs\<rparr>,
                 Inl (if e = ErrUploadTooLarge
                      then newErr CodeEntityTooLarge ''Part exceeds maximum upload size.'' 400 else e))
            | (fs, Inr partResult) \<Rightarrow>
                let part = \<lparr>mUploadID = uploadID, mPartNumber = partNumber, mSize = ppSize partResult,
                            mETag = ppETag partResult, mStoragePath = ppPath partResult,
                            mCreatedAt = zero_time, mUpdatedAt = zero_time\<rparr>
                in (case UpsertMultipartPart (eDb env) part (sDb st) of
                      (db, Inl e) \<Rightarrow> (st\<lparr>sFs := fs, sDb := db\<rparr>, Inl e)
                    | (db, Inr _) \<Rightarrow> (st\<lparr>sFs := fs, sDb := db\<rparr>, Inr (ppETag partResult)))))"

text \<open>The loops of \<^verbatim>\<open>trimSpace\<close> drop one space or tab at a time from each end.\<close>

definition is_blank :: "char \<Rightarrow> bool" where
  "is_blank c \<longleftrightarrow> c = CHR '' '' \<or> c = CHR 0x09"

fun trim_left :: "string \<Rightarrow> string" where
  "trim_left [] = []"
| "trim_left (c # s) = (if is_blank c then trim_left s else c # s)"

function trim_right :: "string \<Rightarrow> string" where
  "trim_right s = (if s \<noteq> [] \<and> is_blank (last s) then trim_right (butlast s) else s)"
  by pat_completeness auto
termination by (relation "measure length") auto

declare trim_right.simps [simp del]

definition trimSpace_obj :: "string \<Rightarrow> string" where
  "trimSpace_obj s = trim_right (trim_left s)"

definition unquoteETag :: "string \<Rightarrow> string" where
  "unquoteETag etag =
     (let etag = trimSpace_obj etag in
      if length etag \<ge> 2 \<and> hd etag = CHR 0x22 \<and> last etag = CHR 0x22 then butlast (tl etag) else etag)"

text \<open>\<^verbatim>\<open>itoa\<close> of this package takes an \<^verbatim>\<open>int\<close>; a negative number has no digits.\<close>

definition itoa_int :: "int \<Rightarrow> string" where
  "itoa_int n = (if n = 0 then ''0'' else itoa_loop (nat n) '''')"

definition invalid_part :: "int \<Rightarrow> goerr" where
  "invalid_part n = newErr CodeInvalidPart (''Part '' @ itoa_int n @ '' is invalid or ETag does not match.'') 400"

definition part_too_small :: "int \<Rightarrow> goerr" where
  "part_too_small n =
     newErr CodeEntityTooSmall (''Part '' @ itoa_int n @ '' is smaller than the minimum allowed size.'') 400"

text \<open>The loop over the requested parts; all but the last must have the minimum size.\<close>

fun check_parts ::
  "(int \<rightharpoonup> MultipartPart) \<Rightarrow> CompletePart list \<Rightarrow> string list \<times> string list \<times> int \<Rightarrow>
   (string list \<times> string list \<times> int) res" where
  "check_parts byNumber [] acc = Inr acc"
| "check_parts byNumber (req # rs) (paths, etags, sz) =
     (case byNumber (cPartNumber req) of
        None \<Rightarrow> Inl (invalid_part (cPartNumber req))
      | Some p \<Rightarrow>
          if mETag p \<noteq> unquoteETag (cETag req) then Inl (invalid_part (cPartNumber req))
          else if rs \<noteq> [] \<and> mSize p < minPartSize then Inl (part_too_small (cPartNumber req))
          else check_parts byNumber rs (paths @ [mStoragePath p], etags @ [mETag p], i64 (sz + mSize p)))"

fun ascending :: "int list \<Rightarrow> bool" where
  "ascending (a # b # ns) \<longleftrightarrow> \<not> b \<le> a \<and> ascending (b # ns)"
| "ascending ns \<longleftrightarrow> True"

definition CompleteMultipartUpload ::
  "Service \<Rightarrow> env \<Rightarrow> string \<Rightarrow> string \<Rightarrow> string \<Rightarrow> CompletePart list \<Rightarrow> node_state \<Rightarrow> node_state \<times> string res" where
  "CompleteMultipartUpload s env bucket key uploadID requested st =
     (if requested = [] then (st, Inl (newErr CodeMalformedXML ''You must specify at least one part.'' 400))
      else case GetMultipartUpload (eDb env) uploadID bucket key (sDb st) of
        Inl e \<Rightarrow> (st, Inl (if e = ErrNoSuchUpload then no_such_upload else e))
      | Inr upload \<Rightarrow>
          (case ListMultipartParts (eDb env) uploadID (sDb st) of
             Inl e \<Rightarrow> (st, Inl e)
           | Inr storedParts \<Rightarrow>
               let byNumber = fold (\<lambda>p m. m(mPartNumber p \<mapsto> p)) storedParts Map.empty;
                   requested = sort_key cPartNumber requested
               in if \<not> ascending (map cPartNumber requested)
                  then (st, Inl (newErr CodeInvalidPartOrder ''Part numbers must be in ascending order.'' 400))
                  else (case check_parts byNumber requested ([], [], 0) of
                     Inl e \<Rightarrow> (st, Inl e)
                   | Inr (orderedPaths, partETags, totalSize) \<Rightarrow>
                       if minFreeBytes s > 0 \<and> eFree env < minFreeBytes s then (st, Inl no_space)
                       else (case AssembleParts (svBlob s) (eFs env) bucket key orderedPaths (sFs st) of
                          (fs, Inl e) \<Rightarrow> (st\<lparr>sFs := fs\<rparr>, Inl e)
                        | (fs, Inr putResult) \<Rightarrow>
                            let st = st\<lparr>sFs := fs\<rparr> in
                            (case MultipartETag partETags of
                               Inl e \<Rightarrow> (delete_blob s env bucket key st, Inl e)
                             | Inr finalETag \<Rightarrow>
                                 let obj = zero_object\<lparr>oBucketName := bucket, oKey := key, oSize := totalSize,
                                             oContentType := uContentType upload, oETag := finalETag,
                                             oStoragePath := pPath putResult\<rparr>
                                 in (case PutObject (eDb env) obj (sDb st) of
                                       (db, Inl e) \<Rightarrow> (delete_blob s env bucket key (st\<lparr>sDb := db\<rparr>), Inl e)
                                     | (db, Inr _) \<Rightarrow>
                                         (st\<lparr>sFs := fst (DeleteUploadParts (svBlob s) (eFs env) uploadID (sFs st)),
                                             sDb := fst (DeleteMultipartUpload (eDb env) uploadID db)\<rparr>,
                                          Inr finalETag)))))))"

definition AbortMultipartUpload ::
  "Service \<Rightarrow> env \<Rightarrow> string \<Rightarrow> string \<Rightarrow> string \<Rightarrow> node_state \<Rightarrow> node_state \<times> unit res" where
  "AbortMultipartUpload s env bucket key uploadID st =
     (case GetMultipartUpload (eDb env) uploadID bucket key (sDb st) of
        Inl e \<Rightarrow> (st, Inl (if e = ErrNoSuchUpload then no_such_upload else e))
      | Inr _ \<Rightarrow>
          (case DeleteUploadParts (svBlob s) (eFs env) uploadID (sFs st) of
             (fs, Inl e) \<Rightarrow> (st\<lparr>sFs := fs\<rparr>, Inl e)
           | (fs, Inr _) \<Rightarrow>
               (case DeleteMultipartUpload (eDb env) uploadID (sDb st) of
                  (db, r) \<Rightarrow> (st\<lparr>sFs := fs, sDb := db\<rparr>, r))))"

definition ListParts :: "env \<Rightarrow> string \<Rightarrow> string \<Rightarrow> string \<Rightarrow> node_state \<Rightarrow> MultipartPart list res" where
  "ListParts env bucket key uploadID st =
     (case GetMultipartUpload (eDb env) uploadID bucket key (sDb st) of
        Inl e \<Rightarrow> Inl (if e = ErrNoSuchUpload then no_such_upload else e)
      | Inr _ \<Rightarrow> ListMultipartParts (eDb env) uploadID (sDb st))"

definition ListMultipartUploads_svc :: "env \<Rightarrow> string \<Rightarrow> node_state \<Rightarrow> MultipartUpload list res" where
  "ListMultipartUploads_svc env bucket st =
     (case BucketExists (eDb env) bucket (sDb st) of
        Inl e \<Rightarrow> Inl e
      | Inr ok \<Rightarrow> if \<not> ok then Inl noSuchBucket else ListMultipartUploads (eDb env) bucket (sDb st))"

section \<open>copy.go\<close>

definition no_source_key :: goerr where
  "no_source_key = newErr CodeNoSuchKey ''The specified source key does not exist.'' 404"

text \<open>The opened source file is the body of the new blob.\<close>

definition CopyObject ::
  "Service \<Rightarrow> env \<Rightarrow> string \<Rightarrow> string \<Rightarrow> string \<Rightarrow> string \<Rightarrow> node_state \<Rightarrow> node_state \<times> string res" where
  "CopyObject s env srcBucket srcKey dstBucket dstKey st =
     (if KeyError dstKey \<noteq> '''' then (st, Inl (newErr CodeInvalidArgument (KeyError dstKey) 400))
      else if KeyError srcKey \<noteq> '''' then (st, Inl (newErr CodeInvalidArgument (KeyError srcKey) 400))
      else case BucketExists (eDb env) srcBucket (sDb st) of
        Inl e \<Rightarrow> (st, Inl e)
      | Inr srcExists \<Rightarrow>
          if \<not> srcExists
          then (st, Inl (newErr CodeNoSuchBucket (''Source bucket '' @ quote srcBucket @ '' does not exist.'') 404))
          else (case GetObject (eDb env) srcBucket srcKey (sDb st) of
             Inl e \<Rightarrow> (st, Inl (if e = ErrObjectNotFound then no_source_key else e))
           | Inr srcObj \<Rightarrow>
               (case BucketExists (eDb env) dstBucket (sDb st) of
                  Inl e \<Rightarrow> (st, Inl e)
                | Inr dstExists \<Rightarrow>
                    if \<not> dstExists
                    then (st, Inl (newErr CodeNoSuchBucket ''The destination bucket does not exist.'' 404))
                    else if minFreeBytes s > 0 \<and> eFree env < minFreeBytes s then (st, Inl no_space)
                    else (case Get (svBlob s) (eFs env) srcBucket srcKey (sFs st) of
                       Inl e \<Rightarrow> (st, Inl (if e = ErrNotFound then no_source_key else e))
                     | Inr (rc, _) \<Rightarrow>
                         (case Put (svBlob s) (eFs env) dstBucket dstKey (NewMD5Reader (Src [(rc, None)])) (sFs st) of
                            (fs, Inl e, _) \<Rightarrow> (st\<lparr>sFs := fs\<rparr>, Inl e)
                          | (fs, Inr putResult, hasher) \<Rightarrow>
                              let st = st\<lparr>sFs := fs\<rparr> in
                              (case Err hasher of
                                 Some herr \<Rightarrow> (delete_blob s env dstBucket dstKey st, Inl herr)
                               | None \<Rightarrow>
                                   let etag = ETag hasher;
                                       obj = zero_object\<lparr>oBucketName := dstBucket, oKey := dstKey,
                                               oSize := pSize putResult, oContentType := oContentType srcObj,
                                               oETag := etag, oStoragePath := pPath putResult,
                                               oCustomMetadata := oCustomMetadata srcObj\<rparr>
                                   in (case PutObject (eDb env) obj (sDb st) of
                                         (db, Inl e) \<Rightarrow> (delete_blob s env dstBucket dstKey (st\<lparr>sDb := db\<rparr>), Inl e)
                                       | (db, Inr _) \<Rightarrow> (st\<lparr>sDb := db\<rparr>, Inr etag))))))))"

end
