(* ===== verification/MultipartProps.thy ===== *)
theory MultipartProps
  imports ObjectMultipart
begin

text \<open>
  What a multipart upload guarantees: an uploaded part is stored under its own file with its digest and
  disturbs no other part, and completing the upload makes the object the concatenation of
  the requested parts in part order.
\<close>

section \<open>The files of parts\<close>

lemma under_abs_path:
  assumes "list_all plain a" "list_all plain b" "a \<noteq> []" "b \<noteq> []"
  shows "under (abs_path a) (abs_path b) \<longleftrightarrow> (\<exists>t. b = a @ t)"
proof
  assume "under (abs_path a) (abs_path b)"
  then consider "abs_path b = abs_path a" | r where "abs_path b = abs_path a @ CHR ''/'' # r"
    by (auto simp: under_def HasPrefix_iff)
  then show "\<exists>t. b = a @ t"
  proof cases
    case 1
    then show ?thesis using abs_path_inject [OF assms(2,1)] by auto
  next
    case (2 r)
    then have "Split (CHR ''/'') (abs_path b) = Split (CHR ''/'') (abs_path a) @ Split (CHR ''/'') r"
      by (simp add: Split_append_any)
    then show ?thesis using Split_abs_path assms by auto
  qed
next
  assume "\<exists>t. b = a @ t"
  then obtain t where "b = a @ t" by blast
  then show "under (abs_path a) (abs_path b)"
    using below_base_prefix [OF assms(3), of t] by (auto simp: under_def)
qed

lemma tmp_name_abs_path:
  "tmp_name env (abs_path (es @ [l])) = abs_path (es @ [l @ ''.'' @ hex_encode (fs_rand env) @ ''.tmp''])"
  by (cases "es = []") (simp_all add: tmp_name_def abs_path_def Join_append)

lemma FormatInt_plain: "plain (FormatInt n @ ''.'' @ t)" if "CHR ''/'' \<notin> set t"
  using that FormatInt_chars [of "CHR ''/''" n] FormatInt_chars [of "CHR ''.''" n]
  by (auto simp: plain_def is_digit_def less_eq_char_def append_eq_Cons_conv)

lemma part_path_elems:
  assumes "basePath s = abs_path es" "list_all plain es" "es \<noteq> []" "plain u"
  shows "multipart_dir s u = abs_path (es @ [''_multipart'', u])"
    and "part_path s u n = abs_path (es @ [''_multipart'', u, FormatInt n @ ''.part''])"
proof -
  have m: "plain ''_multipart''" by code_simp
  show d: "multipart_dir s u = abs_path (es @ [''_multipart'', u])"
    using JoinPath_below [OF assms(2,3), of "[''_multipart'', u]"] m assms(1,4) by (simp add: multipart_dir_def)
  have "plain (FormatInt n @ ''.part'')" using FormatInt_plain [of "''part''" n] by simp
  with JoinPath_below [of "es @ [''_multipart'', u]" "[FormatInt n @ ''.part'']"] assms(2,4) m
  show "part_path s u n = abs_path (es @ [''_multipart'', u, FormatInt n @ ''.part''])"
    by (simp add: part_path_def d)
qed

text \<open>Part files of different parts differ, and none is a temporary file or a blob.\<close>

lemma plain_tmp: "plain l \<Longrightarrow> plain (l @ ''.'' @ hex_encode r @ ''.tmp'')"
  using set_hex_encode [of r] by (auto simp: plain_def append_eq_Cons_conv)

lemma part_path_distinct:
  assumes "base_ok (basePath s)" "plain u" "plain u'" "(u, n) \<noteq> (u', n')"
  shows "part_path s u n \<noteq> part_path s u' n'"
proof -
  obtain es where es: "basePath s = abs_path es" "list_all plain es" "es \<noteq> []"
    using assms(1) by (rule base_ok_elems)
  have "plain ''_multipart''" by code_simp
  moreover have "plain (FormatInt m @ ''.part'')" for m using FormatInt_plain [of "''part''" m] by simp
  ultimately show ?thesis
    using assms(2-4) es(2) by (auto simp: part_path_elems [OF es] abs_path_inject FormatInt_inject)
qed

lemma part_path_not_tmp:
  assumes "base_ok (basePath s)" "plain u" "plain u'"
  shows "part_path s u n \<noteq> tmp_name env (part_path s u' n')"
proof -
  obtain es where es: "basePath s = abs_path es" "list_all plain es" "es \<noteq> []"
    using assms(1) by (rule base_ok_elems)
  let ?t = "(FormatInt n' @ ''.part'') @ ''.'' @ hex_encode (fs_rand env) @ ''.tmp''"
  have "plain ''_multipart''" by code_simp
  moreover have p: "plain (FormatInt m @ ''.part'')" for m using FormatInt_plain [of "''part''" m] by simp
  moreover have "plain ?t" using plain_tmp [OF p] by simp
  moreover have "tmp_name env (part_path s u' n') = abs_path (es @ [''_multipart'', u', ?t])"
    using tmp_name_abs_path [of env "es @ [''_multipart'', u']"] part_path_elems(2) [OF es assms(3)] by simp
  moreover have "last (FormatInt n @ ''.part'') \<noteq> last ?t" by simp
  then have "FormatInt n @ ''.part'' \<noteq> ?t" by metis
  ultimately show ?thesis
    using assms(2,3) es(2) part_path_elems(2) [OF es assms(2)] by (simp add: abs_path_inject)
qed

lemma blob_path_elems:
  assumes "basePath (svBlob s) = abs_path es" "es \<noteq> []"
  shows "blob_path s b k = abs_path (es @ blob_elems b k)"
  using assms abs_path_append [of es "blob_elems b k"] by (simp add: blob_path_def blob_elems_def Let_def)

lemma blob_not_part:
  assumes "base_ok (basePath (svBlob s))" "BucketNameError b = ''''" "plain u"
  shows "part_path (svBlob s) u n \<noteq> blob_path s b k" "part_path (svBlob s) u n \<noteq> tmp_name env (blob_path s b k)"
    "\<not> under (multipart_dir (svBlob s) u) (blob_path s b k)"
proof -
  obtain es where es: "basePath (svBlob s) = abs_path es" "list_all plain es" "es \<noteq> []"
    using assms(1) by (rule base_ok_elems)
  note b = valid_bucket_plain [OF assms(2)]
  obtain x y z where xyz: "blob_elems b k = [b, x, y, z]" by (simp add: blob_elems_def Let_def)
  have bp: "plain x" "plain y" "plain z" using blob_elems_plain [OF b(1), of k] xyz by simp_all
  have "plain ''_multipart''" by code_simp
  then have m: "plain ''_multipart''" "plain (FormatInt n @ ''.part'')"
    using FormatInt_plain [of "''part''" n] by simp_all
  note P = part_path_elems [OF es assms(3)] blob_path_elems [OF es(1,3)] xyz
  have t: "tmp_name env (blob_path s b k) = abs_path (es @ [b, x, y, z @ ''.'' @ hex_encode (fs_rand env) @ ''.tmp''])"
    using tmp_name_abs_path [of env "es @ [b, x, y]"] by (simp add: P)
  have pl: "list_all plain (es @ [b, x, y, z])" "list_all plain (es @ [b, x, y, z @ ''.'' @ hex_encode (fs_rand env) @ ''.tmp''])"
    "list_all plain (es @ [''_multipart'', u, FormatInt n @ ''.part''])"
    using es(2) b(1) bp m assms(3) plain_tmp [OF bp(3)] by simp_all
  show "part_path (svBlob s) u n \<noteq> blob_path s b k" "part_path (svBlob s) u n \<noteq> tmp_name env (blob_path s b k)"
    unfolding t using pl b(2) by (simp_all add: P abs_path_inject)
  show "\<not> under (multipart_dir (svBlob s) u) (blob_path s b k)"
    using pl b(2) m es(2) assms(3) by (simp add: P under_abs_path)
qed

section \<open>Uploading a part\<close>

lemma PutPart_accepted:
  assumes "healthy s env" "plain u" "accepted s cs"
  shows "\<exists>fs'. PutPart (svBlob s) (eFs env) u n (limit_body s (Src cs)) fs =
       (fs', Inr \<lparr>ppPath = part_path (svBlob s) u n, ppSize = int (length (stream_data cs)),
                  ppETag = hex_encode (md5 (stream_data cs))\<rparr>) \<and>
    (\<forall>q. data_at fs' q = (if q = part_path (svBlob s) u n then Some (stream_data cs)
       else if q = tmp_name (eFs env) (part_path (svBlob s) u n) then None else data_at fs q))"
proof -
  let ?e = "eFs env" and ?p = "part_path (svBlob s) u n" and ?d = "stream_data cs"
  let ?t = "tmp_name ?e ?p"
  have q: "fs_faults ?e = []" "fs_io ?e ''put'' = io_ok" using assms(1) by (auto simp: healthy_def quiet_def)
  obtain r where c: "copyWithContext io_ok (NewMD5Reader (limit_body s (Src cs))) = ((?d, None), r)"
    and r: "ETag r = hex_encode (md5 ?d)" "Err r = None"
    using body_copy [OF assms(3)] by blast
  have t: "uniqueTmpPath ?e ?p = Inr ?t" "?t \<noteq> ?p" using q by (simp_all add: uniqueTmpPath_def tmp_name_def fails_def)
  define f where "f = os_write (fs_now ?e) ?t ?d (MkdirAll (fs_now ?e) (multipart_dir (svBlob s) u) fs)"
  have f: "file_at f ?t = Some \<lparr>f_data = ?d, f_mtime = fs_now ?e\<rparr>" by (simp add: f_def)
  have "PutPart (svBlob s) ?e u n (limit_body s (Src cs)) fs =
      (os_rename (fs_now ?e) ?t ?p f, Inr \<lparr>ppPath = ?p, ppSize = int (length ?d), ppETag = hex_encode (md5 ?d)\<rparr>)"
    using q c r t by (simp add: PutPart_def writeToTmp_def fails_def Let_def f_def)
  moreover have "data_at (os_rename (fs_now ?e) ?t ?p f) x =
      (if x = ?p then Some ?d else if x = ?t then None else data_at fs x)" for x
    unfolding data_at_def file_at_rename [OF f t(2)] by (simp add: f_def)
  ultimately show ?thesis by blast
qed

text \<open>A part row whose file is in place: under the part's own path, with the row's size and MD5 ETag.\<close>

definition part_stored :: "Service \<Rightarrow> node_state \<Rightarrow> MultipartPart \<Rightarrow> string \<Rightarrow> bool" where
  "part_stored s st p d \<longleftrightarrow>
     mStoragePath p = part_path (svBlob s) (mUploadID p) (mPartNumber p) \<and>
     data_at (sFs st) (mStoragePath p) = Some d \<and> mSize p = int (length d) \<and> mETag p = hex_encode (md5 d)"

lemma part_at_key: "part_at db u n = Some p \<Longrightarrow> mUploadID p = u \<and> mPartNumber p = n"
  using row_at_Some [of pkey "db_parts db"] by (auto simp: part_at_def pkey_def)

definition upload_at :: "db \<Rightarrow> string \<Rightarrow> string \<Rightarrow> string \<Rightarrow> MultipartUpload option" where
  "upload_at db u b k = find (\<lambda>x. uID x = u \<and> uBucketName x = b \<and> uKey x = k) (db_uploads db)"

lemma GetMultipartUpload_at:
  "db_quiet e \<Longrightarrow> GetMultipartUpload e u b k db = (case upload_at db u b k of None \<Rightarrow> Inl ErrNoSuchUpload | Some x \<Rightarrow> Inr x)"
  by (simp add: GetMultipartUpload_def upload_at_def)

lemma upload_at_ID: "upload_at db u b k = Some x \<Longrightarrow> u \<in> uID ` set (db_uploads db)"
  by (auto simp: upload_at_def find_Some_iff)

lemma Upsert_quiet:
  assumes "db_quiet e" "mUploadID part \<in> uID ` set (db_uploads db)"
  shows "\<exists>db'. UpsertMultipartPart e part db = (db', Inr ()) \<and> db_objects db' = db_objects db \<and>
     db_buckets db' = db_buckets db \<and> db_uploads db' = db_uploads db"
  using assms by (auto simp: UpsertMultipartPart_def Let_def)

text \<open>
  Uploading a part. For an open upload and a part number from 1 to 10000, UploadPart of a body within the
  limit succeeds with the MD5 of the body; the part's row then has the body's size and
  digest and its file holds the body. Every other stored part, of this upload and of others,
  keeps its row and its bytes, and no object or bucket row changes. A part number outside
  that range is refused and changes nothing.
\<close>

lemma upload_part_stored:
  assumes "healthy s env" "KeyError k = ''''" "upload_at (sDb st) u b k \<noteq> None" "plain u" "accepted s cs"
  shows "if 1 \<le> n \<and> n \<le> 10000 then
      \<exists>st' p. UploadPart s env b k u n (Src cs) st = (st', Inr (hex_encode (md5 (stream_data cs)))) \<and>
        part_at (sDb st') u n = Some p \<and> part_stored s st' p (stream_data cs) \<and>
        (\<forall>u' n' p d. (u', n') \<noteq> (u, n) \<longrightarrow> plain u' \<longrightarrow> part_at (sDb st) u' n' = Some p \<longrightarrow> part_stored s st p d \<longrightarrow>
           part_at (sDb st') u' n' = Some p \<and> part_stored s st' p d) \<and>
        db_objects (sDb st') = db_objects (sDb st) \<and> db_buckets (sDb st') = db_buckets (sDb st)
    else \<exists>e. UploadPart s env b k u n (Src cs) st = (st, Inl e)"
proof (cases "1 \<le> n \<and> n \<le> 10000")
  case n: True
  let ?d = "stream_data cs" and ?path = "part_path (svBlob s) u n"
  have q: "db_quiet (eDb env)" "base_ok (basePath (svBlob s))" using assms(1) by (auto simp: healthy_def)
  obtain fs' where P: "PutPart (svBlob s) (eFs env) u n (limit_body s (Src cs)) (sFs st) =
       (fs', Inr \<lparr>ppPath = ?path, ppSize = int (length ?d), ppETag = hex_encode (md5 ?d)\<rparr>)"
    and D: "\<And>q. data_at fs' q = (if q = ?path then Some ?d else if q = tmp_name (eFs env) ?path then None else data_at (sFs st) q)"
    using PutPart_accepted [OF assms(1,4,5), of n "sFs st"] by blast
  define part where "part = \<lparr>mUploadID = u, mPartNumber = n, mSize = int (length ?d), mETag = hex_encode (md5 ?d),
     mStoragePath = ?path, mCreatedAt = zero_time, mUpdatedAt = zero_time\<rparr>"
  obtain up where up: "upload_at (sDb st) u b k = Some up" using assms(3) by blast
  obtain db' where U: "UpsertMultipartPart (eDb env) part (sDb st) = (db', Inr ())"
    "db_objects db' = db_objects (sDb st)" "db_buckets db' = db_buckets (sDb st)"
    using Upsert_quiet [OF q(1), of part "sDb st"] upload_at_ID [OF up] by (auto simp: part_def)
  let ?st = "st\<lparr>sFs := fs', sDb := db'\<rparr>"
  have "UploadPart s env b k u n (Src cs) st = (?st, Inr (hex_encode (md5 ?d)))"
    using n assms(1,2) up P U(1) q(1)
    by (auto simp: UploadPart_def GetMultipartUpload_at Let_def part_def healthy_def)
  moreover obtain p where p: "part_at db' u n = Some p" "mSize p = int (length ?d)" "mETag p = hex_encode (md5 ?d)" "mStoragePath p = ?path"
    using part_at_upsert(1) [OF U(1)] by (auto simp: part_def)
  moreover from p have "part_stored s ?st p ?d"
    using part_at_key [OF p(1)] D by (simp add: part_stored_def)
  moreover have "part_at db' u' n' = Some p' \<and> part_stored s ?st p' d"
    if o: "(u', n') \<noteq> (u, n)" "plain u'" "part_at (sDb st) u' n' = Some p'" "part_stored s st p' d" for u' n' p' d
  proof -
    have "mStoragePath p' = part_path (svBlob s) u' n'" using o(3,4) part_at_key by (auto simp: part_stored_def)
    moreover have "part_path (svBlob s) u' n' \<noteq> ?path" "part_path (svBlob s) u' n' \<noteq> tmp_name (eFs env) ?path"
      using part_path_distinct [OF q(2) o(2) assms(4) o(1)] part_path_not_tmp [OF q(2) o(2) assms(4)] by auto
    moreover have "part_at db' u' n' = Some p'"
      using part_at_upsert(2) [OF U(1), of u' n'] o(1,3) by (simp add: part_def pkey_def)
    ultimately show ?thesis using o(4) by (auto simp: part_stored_def D)
  qed
  ultimately show ?thesis unfolding if_P [OF n]
    using U(2,3) by (intro exI [of _ ?st] exI [of _ p]) auto
qed (auto simp: UploadPart_def)

section \<open>Completing an upload\<close>

lemma fold_index_other: "n \<notin> f ` set xs \<Longrightarrow> fold (\<lambda>p m. m(f p \<mapsto> p)) xs m n = m n"
  by (induction xs arbitrary: m) auto

lemma fold_index: "distinct (map f xs) \<Longrightarrow> p \<in> set xs \<Longrightarrow> fold (\<lambda>p m. m(f p \<mapsto> p)) xs m (f p) = Some p"
proof (induction xs arbitrary: m)
  case (Cons x xs)
  show ?case
  proof (cases "p = x")
    case True
    with Cons.prems show ?thesis using fold_index_other [of "f x" f xs] by (simp del: fun_upd_apply add: fun_upd_same)
  next
    case False
    with Cons show ?thesis by simp
  qed
qed simp

lemma part_index:
  assumes "uploads_ok db" "db_quiet e" "part_at db u n = Some p"
  shows "\<exists>ps. ListMultipartParts e u db = Inr ps \<and> fold (\<lambda>p m. m(mPartNumber p \<mapsto> p)) ps Map.empty n = Some p"
proof -
  let ?f = "filter (\<lambda>p. mUploadID p = u) (db_parts db)"
  have p: "p \<in> set ?f" "mPartNumber p = n"
    using row_at_Some [of pkey "db_parts db" "(u, n)" p] assms(3) by (auto simp: part_at_def pkey_def)
  have "distinct (map pkey ?f)" using assms(1) by (simp add: uploads_ok_def distinct_filter_key)
  moreover have "map pkey ?f = map (\<lambda>n. (u, n)) (map mPartNumber ?f)" by (simp add: pkey_def)
  ultimately have "distinct (map mPartNumber ?f)" by (metis distinct_map)
  then have "distinct (map mPartNumber (sort_key mPartNumber ?f))" by (metis distinct_map distinct_sort set_sort)
  from fold_index [OF this, of p] p assms(2) show ?thesis by (simp add: ListMultipartParts_def)
qed

lemma ascending_sorted: "sorted_wrt (<) ns \<Longrightarrow> ascending ns"
  by (induction ns rule: ascending.induct) auto

lemma check_parts_ok:
  assumes "\<And>r. r \<in> set rs \<Longrightarrow> byNumber (cPartNumber r) = Some (P (cPartNumber r)) \<and> mETag (P (cPartNumber r)) = unquoteETag (cETag r)"
    "\<And>r. r \<in> set (butlast rs) \<Longrightarrow> minPartSize \<le> mSize (P (cPartNumber r))"
    "\<And>r. r \<in> set rs \<Longrightarrow> 0 \<le> mSize (P (cPartNumber r))"
    "0 \<le> sz" "sz + sum_list (map (\<lambda>r. mSize (P (cPartNumber r))) rs) < 2 ^ 63"
  shows "check_parts byNumber rs (ps, es, sz) =
     Inr (ps @ map (\<lambda>r. mStoragePath (P (cPartNumber r))) rs, es @ map (\<lambda>r. mETag (P (cPartNumber r))) rs,
          sz + sum_list (map (\<lambda>r. mSize (P (cPartNumber r))) rs))"
  using assms
proof (induction rs arbitrary: ps es sz)
  case (Cons r rs)
  let ?p = "P (cPartNumber r)"
  have p: "byNumber (cPartNumber r) = Some ?p" "mETag ?p = unquoteETag (cETag r)" "0 \<le> mSize ?p"
    using Cons.prems(1,3) by auto
  have small: "\<not> (rs \<noteq> [] \<and> mSize ?p < minPartSize)"
    using Cons.prems(2) [of r] by auto
  have pos: "0 \<le> sum_list (map (\<lambda>r. mSize (P (cPartNumber r))) rs)"
    using Cons.prems(3) by (intro sum_list_nonneg) auto
  then have i: "i64 (sz + mSize ?p) = sz + mSize ?p"
    using Cons.prems(4,5) p(3) by (intro i64_id) (simp add: in_i64_def)
  have "check_parts byNumber (r # rs) (ps, es, sz) =
      check_parts byNumber rs (ps @ [mStoragePath ?p], es @ [mETag ?p], sz + mSize ?p)"
    using p small i by auto
  also have "\<dots> = Inr ((ps @ [mStoragePath ?p]) @ map (\<lambda>r. mStoragePath (P (cPartNumber r))) rs,
      (es @ [mETag ?p]) @ map (\<lambda>r. mETag (P (cPartNumber r))) rs,
      (sz + mSize ?p) + sum_list (map (\<lambda>r. mSize (P (cPartNumber r))) rs))"
  proof (rule Cons.IH)
    fix x
    assume "x \<in> set (butlast rs)"
    then have "x \<in> set (butlast (r # rs))" by (cases rs) auto
    then show "minPartSize \<le> mSize (P (cPartNumber x))" by (rule Cons.prems(2))
  qed (use Cons.prems p(3) in \<open>auto simp: add.assoc\<close>)
  finally show ?case by simp
qed simp

text \<open>The digest of a list of parts, and the object a completed upload leaves.\<close>

definition parts_etag :: "string list \<Rightarrow> string" where
  "parts_etag ds = hex_encode (md5 (concat (map md5 ds))) @ ''-'' @ dec_digits (length ds)"

definition completed_object :: "Service \<Rightarrow> string \<Rightarrow> string \<Rightarrow> string \<Rightarrow> string list \<Rightarrow> Object" where
  "completed_object s b k ct ds =
     zero_object\<lparr>oBucketName := b, oKey := k, oSize := int (length (concat ds)), oContentType := ct,
       oETag := parts_etag ds, oStoragePath := blob_path s b k\<rparr>"

lemma completed_object_simps [simp]:
  "oBucketName (completed_object s b k ct ds) = b" "oKey (completed_object s b k ct ds) = k"
  "oContentType (completed_object s b k ct ds) = ct" "oETag (completed_object s b k ct ds) = parts_etag ds"
  "oVersion (completed_object s b k ct ds) = 0" "oReplicationStatus (completed_object s b k ct ds) = ''''"
  "oSize (completed_object s b k ct ds) = int (length (concat ds))" "\<not> oDeleted (completed_object s b k ct ds)"
  "oID (completed_object s b k ct ds) = ''''"
  by (simp_all add: completed_object_def zero_object_def)

lemma map_sort_key: "map f (sort_key f xs) = sort (map f xs)"
  by (rule properties_for_sort [symmetric]) simp_all

lemma sum_list_lengths: "(\<And>x. x \<in> set xs \<Longrightarrow> h x = int (length (g x))) \<Longrightarrow>
    sum_list (map h xs) = int (length (concat (map g xs)))"
  by (induction xs) auto

lemma sorted_requested:
  assumes "distinct (map cPartNumber requested)"
  shows "sorted_wrt (<) (map cPartNumber (sort_key cPartNumber requested))"
proof -
  have "distinct (map cPartNumber (sort_key cPartNumber requested))"
    using assms by (metis distinct_map distinct_sort set_sort)
  then show ?thesis by (simp add: strict_sorted_iff)
qed

lemma butlast_not_last:
  assumes "sorted_wrt (<) (map f xs)" "x \<in> set (butlast xs)"
  shows "f x \<noteq> Max (f ` set xs :: int set)"
proof -
  from assms(2) have "xs \<noteq> []" by auto
  then obtain ys y where xs: "xs = ys @ [y]" by (cases xs rule: rev_cases) auto
  with assms have "f x < f y" by (auto simp: sorted_wrt_append)
  moreover have "f y \<le> Max (f ` set xs)" using xs by simp
  ultimately show ?thesis by simp
qed

text \<open>The parts a completion request names, all stored with the contents given by part number.\<close>

definition request_ok :: "Service \<Rightarrow> node_state \<Rightarrow> string \<Rightarrow> CompletePart list \<Rightarrow> (int \<Rightarrow> string) \<Rightarrow> bool" where
  "request_ok s st u requested content \<longleftrightarrow>
     requested \<noteq> [] \<and> distinct (map cPartNumber requested) \<and>
     (\<forall>r \<in> set requested. \<exists>p. part_at (sDb st) u (cPartNumber r) = Some p \<and>
        part_stored s st p (content (cPartNumber r)) \<and> unquoteETag (cETag r) = mETag p) \<and>
     (\<forall>r \<in> set requested. cPartNumber r \<noteq> Max (cPartNumber ` set requested) \<longrightarrow>
        minPartSize \<le> int (length (content (cPartNumber r)))) \<and>
     sum_list (map (\<lambda>r. int (length (content (cPartNumber r)))) requested) < 2 ^ 63"

definition requested_data :: "CompletePart list \<Rightarrow> (int \<Rightarrow> string) \<Rightarrow> string list" where
  "requested_data requested content = map content (sort (map cPartNumber requested))"

lemma request_checked:
  assumes "request_ok s st u requested content" "uploads_ok (sDb st)" "db_quiet e"
  shows "\<exists>ps paths. ListMultipartParts e u (sDb st) = Inr ps \<and>
     ascending (map cPartNumber (sort_key cPartNumber requested)) \<and>
     check_parts (fold (\<lambda>p m. m(mPartNumber p \<mapsto> p)) ps Map.empty) (sort_key cPartNumber requested) ([], [], 0) =
       Inr (paths, map (\<lambda>d. hex_encode (md5 d)) (requested_data requested content),
            int (length (concat (requested_data requested content)))) \<and>
     map (data_at (sFs st)) paths = map Some (requested_data requested content) \<and>
     set paths \<subseteq> range (part_path (svBlob s) u)"
proof -
  let ?rs = "sort_key cPartNumber requested"
  define P where "P n = the (part_at (sDb st) u n)" for n
  obtain ps where ps: "ListMultipartParts e u (sDb st) = Inr ps"
    using assms(3) by (auto simp: ListMultipartParts_def)
  let ?by = "fold (\<lambda>p m. m(mPartNumber p \<mapsto> p)) ps Map.empty"
  have rd: "requested_data requested content = map (\<lambda>r. content (cPartNumber r)) ?rs"
    by (simp add: requested_data_def flip: map_sort_key)
  have st: "part_at (sDb st) u n = Some (P n) \<and> ?by n = Some (P n) \<and> part_stored s st (P n) (content n) \<and> unquoteETag (cETag r) = mETag (P n)"
    if r: "r \<in> set requested" "cPartNumber r = n" for r n
    using assms(1) r part_index [OF assms(2,3)] ps by (fastforce simp: request_ok_def P_def)
  have asc: "sorted_wrt (<) (map cPartNumber ?rs)"
    by (rule sorted_requested) (use assms(1) in \<open>simp add: request_ok_def\<close>)
  have len: "sum_list (map (\<lambda>r. mSize (P (cPartNumber r))) ?rs) = int (length (concat (requested_data requested content)))"
    unfolding rd by (rule sum_list_lengths) (use st in \<open>auto simp: part_stored_def\<close>)
  have "sum_list (map (\<lambda>r. int (length (content (cPartNumber r)))) ?rs) < 2 ^ 63"
    using assms(1) by (simp add: request_ok_def flip: sum_mset_sum_list)
  moreover have "map (\<lambda>r. mSize (P (cPartNumber r))) ?rs = map (\<lambda>r. int (length (content (cPartNumber r)))) ?rs"
    using st by (auto simp: part_stored_def)
  ultimately have total: "sum_list (map (\<lambda>r. mSize (P (cPartNumber r))) ?rs) < 2 ^ 63" by (simp only:)
  have min: "minPartSize \<le> mSize (P (cPartNumber r))" if "r \<in> set (butlast ?rs)" for r
    using butlast_not_last [OF asc that] in_set_butlastD [OF that] assms(1) st
    by (auto simp: request_ok_def part_stored_def)
  have c: "check_parts ?by ?rs ([], [], 0) = Inr ([] @ map (\<lambda>r. mStoragePath (P (cPartNumber r))) ?rs,
      [] @ map (\<lambda>r. mETag (P (cPartNumber r))) ?rs, 0 + sum_list (map (\<lambda>r. mSize (P (cPartNumber r))) ?rs))"
    by (rule check_parts_ok) (use st min total in \<open>auto simp: part_stored_def\<close>)
  let ?paths = "map (\<lambda>r. mStoragePath (P (cPartNumber r))) ?rs"
  have "data_at (sFs st) (mStoragePath (P (cPartNumber r))) = Some (content (cPartNumber r))"
    "mETag (P (cPartNumber r)) = hex_encode (md5 (content (cPartNumber r)))" if "r \<in> set requested" for r
    using st [OF that refl] unfolding part_stored_def by blast+
  then have "map (\<lambda>r. mETag (P (cPartNumber r))) ?rs = map (\<lambda>d. hex_encode (md5 d)) (requested_data requested content)"
    "map (data_at (sFs st)) ?paths = map Some (requested_data requested content)"
    unfolding rd by simp_all
  moreover have "set ?paths \<subseteq> range (part_path (svBlob s) u)"
  proof (clarsimp)
    fix r
    assume "r \<in> set requested"
    from st [OF this refl] part_at_key show "mStoragePath (P (cPartNumber r)) \<in> range (part_path (svBlob s) u)"
      unfolding part_stored_def by blast
  qed
  ultimately show ?thesis using ps c len ascending_sorted [OF asc] by (intro exI [of _ ps] exI [of _ ?paths]) simp
qed

text \<open>
  C21: completing an upload. When every requested part is stored (the numbers distinct, the ETags matching,
  quoted or not, all but the last at least 5 MiB), in whatever order the request lists them,
  CompleteMultipartUpload succeeds with the multipart ETag of the parts; GetObject then
  returns the concatenation of the parts in ascending part number, with that ETag and
  their total size; the upload and its parts are gone, and no other object's row changed.
\<close>

theorem complete_multipart_roundtrip:
  assumes "healthy s env" "\<And>l. fs_io (eFs env) l = io_ok" "BucketNameError b = ''''" "KeyError k = ''''"
    "bucket_at (sDb st) b \<noteq> None" "upload_at (sDb st) u b k = Some up" "uContentType up \<noteq> ''''" "plain u"
    "uploads_ok (sDb st)" "request_ok s st u requested content" "fresh_id env (sDb st) b k"
  defines "ds \<equiv> requested_data requested content"
  shows "\<exists>st' g. CompleteMultipartUpload s env b k u requested st = (st', Inr (parts_etag ds)) \<and>
     GetObject_svc s env b k False st' = Inr g \<and> gBody g = concat ds \<and> gSize g = int (length (concat ds)) \<and>
     gETag g = parts_etag ds \<and> gContentType g = uContentType up \<and>
     upload_at (sDb st') u b k = None \<and> (\<forall>n. part_at (sDb st') u n = None) \<and>
     (\<forall>b' k'. (b', k') \<noteq> (b, k) \<longrightarrow> obj_at (sDb st') b' k' = obj_at (sDb st) b' k')"
proof -
  let ?p = "blob_path s b k" and ?obj = "completed_object s b k (uContentType up) ds"
  have q: "db_quiet (eDb env)" "fs_faults (eFs env) = []" "base_ok (basePath (svBlob s))"
    using assms(1) by (auto simp: healthy_def quiet_def)
  obtain ps paths where c: "ListMultipartParts (eDb env) u (sDb st) = Inr ps"
    "ascending (map cPartNumber (sort_key cPartNumber requested))"
    "check_parts (fold (\<lambda>p m. m(mPartNumber p \<mapsto> p)) ps Map.empty) (sort_key cPartNumber requested) ([], [], 0) =
       Inr (paths, map (\<lambda>d. hex_encode (md5 d)) ds, int (length (concat ds)))"
    "map (data_at (sFs st)) paths = map Some ds" "set paths \<subseteq> range (part_path (svBlob s) u)"
    using request_checked [OF assms(10,9) q(1)] ds_def by blast
  have "tmp_name (eFs env) ?p \<notin> set paths" using c(5) blob_not_part(2) [OF q(3) assms(3,8)] by (metis imageE subsetD)
  from AssembleParts_ok [OF q(2) assms(2) healthy_resolve [OF q(3) assms(3)] c(4) this]
  obtain fs' where A: "AssembleParts (svBlob s) (eFs env) b k paths (sFs st) = (fs', Inr \<lparr>pPath = ?p, pSize = int (length (concat ds))\<rparr>)"
    and F: "\<And>q. file_at fs' q = (if q = ?p then Some \<lparr>f_data = concat ds, f_mtime = fs_now (eFs env)\<rparr>
        else if q = tmp_name (eFs env) ?p then None else file_at (sFs st) q)" by blast
  have "\<exists>db'. PutObject (eDb env) ?obj (sDb st) = (db', Inr ()) \<and> stored s env ?obj (concat ds) st (st\<lparr>sFs := fs', sDb := db'\<rparr>)"
    by (rule store_object [OF q(1)])
       (use KeyError_nonempty [OF assms(4)] valid_bucket_nonempty [OF assms(3)] assms(5,7,11) F in \<open>auto simp: data_at_def\<close>)
  then obtain db' where D: "PutObject (eDb env) ?obj (sDb st) = (db', Inr ())"
    and S: "stored s env ?obj (concat ds) st (st\<lparr>sFs := fs', sDb := db'\<rparr>)" by blast
  define st' where "st' = st\<lparr>sFs := os_removeall (fs_now (eFs env)) (multipart_dir (svBlob s) u) fs', sDb := delete_upload u db'\<rparr>"
  have "CompleteMultipartUpload s env b k u requested st = (st', Inr (parts_etag ds))"
    using assms(1,6,10) c(1-3) A D q MultipartETag_parts [of ds]
    by (auto simp: CompleteMultipartUpload_def GetMultipartUpload_at request_ok_def Let_def healthy_def st'_def
        completed_object_def parts_etag_def DeleteUploadParts_def DeleteMultipartUpload_def fails_def)
  moreover from S obtain row where row: "obj_at (sDb st') b k = Some row" "\<not> oDeleted row" "oETag row = parts_etag ds"
      "oContentType row = uContentType up" "bucket_at (sDb st') b \<noteq> None"
      "\<forall>b' k'. (b', k') \<noteq> (b, k) \<longrightarrow> obj_at (sDb st') b' k' = obj_at (sDb st) b' k'"
    by (auto simp: stored_def st'_def delete_upload_def obj_at_def bucket_at_def)
  moreover have "data_at (sFs st') ?p = Some (concat ds)"
    using blob_not_part(3) [OF q(3) assms(3,8)] F by (simp add: st'_def data_at_def file_at_removeall)
  with row GetObject_svc_ok [OF assms(1,3,4) row(5,1,2), of "concat ds" False]
  have "GetObject_svc s env b k False st' = Inr \<lparr>gBody = concat ds, gSize = int (length (concat ds)),
     gContentType = oContentType row, gETag = oETag row, gLastModified = oUpdatedAt row, gCustomMetadata = oCustomMetadata row\<rparr>" by simp
  moreover have "upload_at (sDb st') u b k = None" "part_at (sDb st') u n = None" for n
    by (auto simp: st'_def upload_at_def delete_upload_def find_None_iff part_at_def row_at_None pkey_def)
  ultimately show ?thesis by auto
qed

lemma trim_left_id: "s = [] \<or> \<not> is_blank (hd s) \<Longrightarrow> trim_left s = s"
  by (cases s) auto

lemma trim_right_id: "s = [] \<or> \<not> is_blank (last s) \<Longrightarrow> trim_right s = s"
  by (subst trim_right.simps) auto

lemma hex_not_special: "c \<in> set (hex_encode d) \<Longrightarrow> \<not> is_blank c \<and> c \<noteq> CHR 0x22"
  using set_hex_encode [of d] by (auto simp: is_blank_def)

text \<open>A hexadecimal ETag is recognised bare and in double quotes.\<close>

lemma unquoteETag_hex [simp]:
  "unquoteETag (hex_encode d) = hex_encode d"
  "unquoteETag ([CHR 0x22] @ hex_encode d @ [CHR 0x22]) = hex_encode d"
proof -
  have "trimSpace_obj (hex_encode d) = hex_encode d"
    using hex_not_special [of _ d] hd_in_set last_in_set trim_left_id trim_right_id
    by (metis trimSpace_obj_def)
  then show "unquoteETag (hex_encode d) = hex_encode d"
    using hex_not_special [OF hd_in_set, of d] by (cases "d = []") (auto simp: unquoteETag_def Let_def)
  have "\<not> is_blank (CHR 0x22)" by code_simp
  then have "trimSpace_obj ([CHR 0x22] @ hex_encode d @ [CHR 0x22]) = [CHR 0x22] @ hex_encode d @ [CHR 0x22]"
    by (simp add: trimSpace_obj_def trim_left_id trim_right_id)
  then show "unquoteETag ([CHR 0x22] @ hex_encode d @ [CHR 0x22]) = hex_encode d"
    by (simp add: unquoteETag_def)
qed

definition example_upload_state :: node_state where
  "example_upload_state = \<lparr>
     sFs = \<lparr>fs_files = [(part_path example_storage ''u'' 1, \<lparr>f_data = ''hello'', f_mtime = 0\<rparr>)], fs_dirs = []\<rparr>,
     sDb = example_upload_db\<lparr>
       db_uploads := [\<lparr>uID = ''u'', uBucketName = ''abc'', uKey = ''k'', uContentType = ''text/plain'', uCreatedAt = 0, uUpdatedAt = 0\<rparr>],
       db_parts := [\<lparr>mUploadID = ''u'', mPartNumber = 1, mSize = 5, mETag = hex_encode (md5 ''hello''),
         mStoragePath = part_path example_storage ''u'' 1, mCreatedAt = 0, mUpdatedAt = 0\<rparr>]\<rparr>\<rparr>"

lemma example_upload_facts:
  "bucket_at (sDb example_upload_state) ''abc'' \<noteq> None" "upload_at (sDb example_upload_state) ''u'' ''abc'' ''k'' =
     Some \<lparr>uID = ''u'', uBucketName = ''abc'', uKey = ''k'', uContentType = ''text/plain'', uCreatedAt = 0, uUpdatedAt = 0\<rparr>"
  "uploads_ok (sDb example_upload_state)" "plain ''u''" "fs_io (eFs example_node_env) l = io_ok"
  "fresh_id example_node_env (sDb example_upload_state) ''abc'' ''k''"
  by (simp_all add: example_upload_state_def example_upload_db_def empty_db_def bucket_at_def row_at_def upload_at_def
      uploads_ok_def plain_def example_node_env_def example_env_def fresh_id_def)

definition example_request :: "CompletePart list" where
  "example_request = [\<lparr>cPartNumber = 1, cETag = [CHR 0x22] @ hex_encode (md5 ''hello'') @ [CHR 0x22]\<rparr>]"

lemma example_request_ok: "request_ok example_service example_upload_state ''u'' example_request (\<lambda>n. ''hello'')"
  using unquoteETag_hex(2) [of "md5 ''hello''"]
  by (simp add: request_ok_def example_request_def part_stored_def example_upload_state_def part_at_def row_at_def pkey_def
      example_service_def data_at_def file_at_def)

theorem complete_multipart_roundtrip_witness:
  "\<exists>st' g etag. CompleteMultipartUpload example_service example_node_env ''abc'' ''k'' ''u'' example_request example_upload_state =
      (st', Inr etag) \<and> GetObject_svc example_service example_node_env ''abc'' ''k'' False st' = Inr g \<and> gBody g = ''hello''"
proof -
  have "requested_data example_request (\<lambda>n. ''hello'') = [''hello'']" by (simp add: requested_data_def example_request_def)
  with complete_multipart_roundtrip [OF example_healthy example_upload_facts(5) example_facts(1,2) example_upload_facts(1,2) _
      example_upload_facts(4,3) example_request_ok example_upload_facts(6)]
  show ?thesis by auto
qed

lemma upload_part_stored_example:
  "\<exists>st' p. UploadPart example_service example_node_env ''abc'' ''k'' ''u'' 2 (Src [(''hel'', None), (''lo'', None)]) example_upload_state =
      (st', Inr (hex_encode (md5 ''hello''))) \<and> part_at (sDb st') ''u'' 2 = Some p \<and> part_stored example_service st' p ''hello''"
  using upload_part_stored [OF example_healthy example_facts(2) _ example_upload_facts(4) example_facts(4), of example_upload_state "''abc''" 2]
    example_upload_facts(2) by auto

section \<open>Copies\<close>

definition copied_object :: "Service \<Rightarrow> string \<Rightarrow> string \<Rightarrow> Object \<Rightarrow> string \<Rightarrow> Object" where
  "copied_object s b k src d =
     zero_object\<lparr>oBucketName := b, oKey := k, oSize := int (length d), oContentType := oContentType src,
       oETag := hex_encode (md5 d), oStoragePath := blob_path s b k, oCustomMetadata := oCustomMetadata src\<rparr>"

lemma copied_object_simps [simp]:
  "oBucketName (copied_object s b k src d) = b" "oKey (copied_object s b k src d) = k"
  "oContentType (copied_object s b k src d) = oContentType src" "oETag (copied_object s b k src d) = hex_encode (md5 d)"
  "oCustomMetadata (copied_object s b k src d) = oCustomMetadata src" "oID (copied_object s b k src d) = ''''"
  "oVersion (copied_object s b k src d) = 0" "oReplicationStatus (copied_object s b k src d) = ''''"
  "oSize (copied_object s b k src d) = int (length d)" "\<not> oDeleted (copied_object s b k src d)"
  by (simp_all add: copied_object_def zero_object_def)

lemma CopyObject_ok:
  assumes "healthy s env" "BucketNameError sb = ''''" "KeyError sk = ''''" "BucketNameError b = ''''" "KeyError k = ''''"
    "bucket_at (sDb st) sb \<noteq> None" "bucket_at (sDb st) b \<noteq> None" "obj_at (sDb st) sb sk = Some src" "oContentType src \<noteq> ''''"
    "data_at (sFs st) (blob_path s sb sk) = Some d" "fresh_id env (sDb st) b k"
  shows "\<exists>st'. CopyObject s env sb sk b k st = (st', Inr (hex_encode (md5 d))) \<and> stored s env (copied_object s b k src d) d st st'"
proof -
  let ?p = "blob_path s b k" and ?obj = "copied_object s b k src d"
  have q: "db_quiet (eDb env)" "fs_faults (eFs env) = []" "base_ok (basePath (svBlob s))" "quiet (eFs env)"
    using assms(1) by (auto simp: healthy_def quiet_def)
  note rs = healthy_resolve [OF q(3) assms(2)] and rd = healthy_resolve [OF q(3) assms(4)]
  have G: "Get (svBlob s) (eFs env) sb sk (sFs st) = Inr (d, \<lparr>iPath = blob_path s sb sk, iSize = int (length d)\<rparr>)"
    using Get_data [OF q(2) rs, of sk "sFs st"] assms(10) by simp
  obtain r where r: "copyWithContext io_ok (NewMD5Reader (Src [(d, None)])) = ((d, None), r)" "ETag r = hex_encode (md5 d)" "Err r = None"
    using md5_copy_stream [of "[(d, None)]"] by (auto simp: end_err_def)
  obtain fs' where P: "Put (svBlob s) (eFs env) b k (NewMD5Reader (Src [(d, None)])) (sFs st) =
       (fs', Inr \<lparr>pPath = ?p, pSize = int (length d)\<rparr>, r)"
    "data_at fs' ?p = Some d" "\<forall>q. q \<noteq> tmp_name (eFs env) ?p \<longrightarrow> q \<noteq> ?p \<longrightarrow> data_at fs' q = data_at (sFs st) q"
    using Put_copied [OF assms(1,4) r(1), of k "sFs st"] by blast
  have "\<exists>db'. PutObject (eDb env) ?obj (sDb st) = (db', Inr ()) \<and> stored s env ?obj d st (st\<lparr>sFs := fs', sDb := db'\<rparr>)"
    by (rule store_object [OF q(1)])
       (use KeyError_nonempty [OF assms(5)] valid_bucket_nonempty [OF assms(4)] assms(7,9,11) P(2,3) in simp_all)
  then obtain db' where D: "PutObject (eDb env) ?obj (sDb st) = (db', Inr ())"
    and S: "stored s env ?obj d st (st\<lparr>sFs := fs', sDb := db'\<rparr>)" by blast
  let ?st = "st\<lparr>sFs := fs', sDb := db'\<rparr>"
  have "CopyObject s env sb sk b k st = (?st, Inr (hex_encode (md5 d)))"
    using assms(1,3,5-8) q(1) G P(1) r D
    by (auto simp: CopyObject_def BucketExists_def GetObject_def healthy_def copied_object_def Let_def)
  with S show ?thesis by blast
qed

text \<open>
  C22: copying an object. A copy within the limits succeeds, and GetObject on the destination (verified or not)
  returns the source's bytes, content type and metadata under the MD5 of the bytes; no other row
  changes. A destination that already had a row is left with version 0 and an empty
  replication status, whatever its version was.
\<close>

theorem copy_object_roundtrip:
  assumes "healthy s env" "BucketNameError sb = ''''" "KeyError sk = ''''" "BucketNameError b = ''''" "KeyError k = ''''"
    "bucket_at (sDb st) sb \<noteq> None" "bucket_at (sDb st) b \<noteq> None" "obj_at (sDb st) sb sk = Some src" "oContentType src \<noteq> ''''"
    "data_at (sFs st) (blob_path s sb sk) = Some d" "fresh_id env (sDb st) b k"
  shows "\<exists>st' g row. CopyObject s env sb sk b k st = (st', Inr (hex_encode (md5 d))) \<and>
     GetObject_svc s env b k verify st' = Inr g \<and> gBody g = d \<and> gETag g = hex_encode (md5 d) \<and>
     gContentType g = oContentType src \<and> gCustomMetadata g = oCustomMetadata src \<and>
     obj_at (sDb st') b k = Some row \<and>
     (obj_at (sDb st) b k \<noteq> None \<longrightarrow> oVersion row = 0 \<and> oReplicationStatus row = '''') \<and>
     (\<forall>b' k'. (b', k') \<noteq> (b, k) \<longrightarrow> obj_at (sDb st') b' k' = obj_at (sDb st) b' k')"
proof -
  obtain st' where C: "CopyObject s env sb sk b k st = (st', Inr (hex_encode (md5 d)))" and S: "stored s env (copied_object s b k src d) d st st'"
    using CopyObject_ok [OF assms] by blast
  from S obtain row where row: "obj_at (sDb st') b k = Some row" "\<not> oDeleted row" "oETag row = hex_encode (md5 d)"
      "oContentType row = oContentType src" "oCustomMetadata row = oCustomMetadata src" "bucket_at (sDb st') b \<noteq> None"
      "obj_at (sDb st) b k \<noteq> None \<longrightarrow> oVersion row = 0 \<and> oReplicationStatus row = ''''"
      "\<forall>b' k'. (b', k') \<noteq> (b, k) \<longrightarrow> obj_at (sDb st') b' k' = obj_at (sDb st) b' k'" "data_at (sFs st') (blob_path s b k) = Some d"
    by (auto simp: stored_def)
  moreover have "GetObject_svc s env b k verify st' = Inr \<lparr>gBody = d, gSize = int (length d), gContentType = oContentType row,
      gETag = oETag row, gLastModified = oUpdatedAt row, gCustomMetadata = oCustomMetadata row\<rparr>"
    using GetObject_svc_ok [OF assms(1,4,5) row(6,1,2,9)] row(3) by simp
  ultimately show ?thesis using C by (intro exI [of _ st']) auto
qed

definition example_source :: Object where
  "example_source = zero_object\<lparr>oID := ''i'', oBucketName := ''abc'', oKey := ''k'', oSize := 5, oContentType := ''text/plain'',
     oVersion := 3, oReplicationStatus := ''replicated''\<rparr>"

definition example_stored_node :: node_state where
  "example_stored_node = \<lparr>
     sFs = \<lparr>fs_files = [(blob_path example_service ''abc'' ''k'', \<lparr>f_data = ''hello'', f_mtime = 0\<rparr>)], fs_dirs = []\<rparr>,
     sDb = (sDb example_node)\<lparr>db_objects := [example_source]\<rparr>\<rparr>"

lemma example_stored_facts:
  "bucket_at (sDb example_stored_node) ''abc'' \<noteq> None" "obj_at (sDb example_stored_node) ''abc'' ''k'' = Some example_source"
  "oContentType example_source \<noteq> ''''" "data_at (sFs example_stored_node) (blob_path example_service ''abc'' ''k'') = Some ''hello''"
  "fresh_id example_node_env (sDb example_stored_node) ''abc'' ''k''" "\<not> oDeleted example_source"
  by (simp_all add: example_stored_node_def example_source_def example_node_def zero_object_def bucket_at_def obj_at_def
      row_at_def okey_def data_at_def file_at_def fresh_id_def)

theorem copy_object_roundtrip_witness:
  "\<exists>st' g row. CopyObject example_service example_node_env ''abc'' ''k'' ''abc'' ''k'' example_stored_node = (st', Inr (hex_encode (md5 ''hello''))) \<and>
     GetObject_svc example_service example_node_env ''abc'' ''k'' True st' = Inr g \<and> gBody g = ''hello'' \<and>
     obj_at (sDb st') ''abc'' ''k'' = Some row \<and> oVersion row = 0"
  using copy_object_roundtrip [OF example_healthy example_facts(1,2,1,2) example_stored_facts(1,1-5), where verify = True]
    example_stored_facts(2) by auto

text \<open>
  C39: the integrity check and multipart objects. An object with a multipart ETag (as every completed upload has)
  never passes the verification of GetObject, however intact its bytes are: the stored ETag is not an MD5 of
  content, so the request fails with the internal integrity error.
\<close>

theorem multipart_never_verifies:
  assumes "healthy s env" "BucketNameError b = ''''" "KeyError k = ''''" "bucket_at (sDb st) b \<noteq> None"
    "obj_at (sDb st) b k = Some obj" "\<not> oDeleted obj" "data_at (sFs st) (blob_path s b k) = Some d"
    "oETag obj = parts_etag ds"
  shows "(\<exists>msg. GetObject_svc s env b k True st = Inl (ObjErr CodeInternalError msg 500)) \<and>
     (\<exists>g. GetObject_svc s env b k False st = Inr g \<and> gBody g = d)"
proof -
  have q: "fs_faults (eFs env) = []" "db_quiet (eDb env)" using assms(1) by (auto simp: healthy_def quiet_def)
  have p: "ResolveBlobPath (fs_wd (eFs env)) (basePath (svBlob s)) b k = Inr (blob_path s b k)"
    using healthy_resolve assms(1,2) by (simp add: healthy_def)
  have "CHR ''-'' \<notin> set (hex_encode (md5 d))" using set_hex_encode [of "md5 d"] by auto
  then have "hex_encode (md5 d) \<noteq> parts_etag ds" unfolding parts_etag_def by (metis Un_iff list.set_intros(1) set_append append_Cons)
  moreover have "computed_etag d = hex_encode (md5 d)"
    using md5_copy_stream [of "[(d, None)]"] by (auto simp: computed_etag_def)
  ultimately have "\<exists>msg. GetObject_svc s env b k True st = Inl (ObjErr CodeInternalError msg 500)"
    using assms(3-8) q Get_data [OF q(1) p, of "sFs st"]
    by (auto simp: GetObject_svc_def BucketExists_def GetObject_def fails_def newErr_def Let_def)
  moreover have "\<exists>g. GetObject_svc s env b k False st = Inr g \<and> gBody g = d"
    using GetObject_svc_ok [OF assms(1-7), of False] by simp
  ultimately show ?thesis by blast
qed

definition example_multipart_node :: node_state where
  "example_multipart_node = example_stored_node\<lparr>sDb := (sDb example_node)\<lparr>db_objects := [example_source\<lparr>oETag := parts_etag [''hello'']\<rparr>]\<rparr>\<rparr>"

theorem multipart_never_verifies_witness:
  "\<exists>msg. GetObject_svc example_service example_node_env ''abc'' ''k'' True example_multipart_node = Inl (ObjErr CodeInternalError msg 500)"
proof -
  let ?o = "example_source\<lparr>oETag := parts_etag [''hello'']\<rparr>"
  have "bucket_at (sDb example_multipart_node) ''abc'' \<noteq> None" "obj_at (sDb example_multipart_node) ''abc'' ''k'' = Some ?o"
    "\<not> oDeleted ?o" "data_at (sFs example_multipart_node) (blob_path example_service ''abc'' ''k'') = Some ''hello''"
    "oETag ?o = parts_etag [''hello'']"
    by (simp_all add: example_multipart_node_def example_stored_node_def example_source_def example_node_def zero_object_def
        bucket_at_def obj_at_def row_at_def okey_def data_at_def file_at_def)
  from multipart_never_verifies [OF example_healthy example_facts(1,2) this] show ?thesis by blast
qed

end
