(* ===== verification/Refinement.thy ===== *)
theory Refinement
  imports MultipartProps
begin

text \<open>
  The object service of a node as an implementation of a map: uploads, downloads, deletions and copies behave, command by
  command and reply by reply, like updates and lookups of a map from bucket and key to content. The simulation
  is a locale (one step of the implementation for one of the specification); the theorem is its instance on the
  service.
\<close>

section \<open>Simulation\<close>

text \<open>A run of commands, each in an environment of its own, with the replies.\<close>

fun run :: "('e \<Rightarrow> 'c \<Rightarrow> 's \<Rightarrow> 's \<times> 'r) \<Rightarrow> ('e \<times> 'c) list \<Rightarrow> 's \<Rightarrow> 's \<times> 'r list" where
  "run f [] st = (st, [])"
| "run f ((e, c) # cs) st = (case f e c st of (st', r) \<Rightarrow> case run f cs st' of (st'', rs) \<Rightarrow> (st'', r # rs))"

text \<open>Every command of the run meets a condition in the state it is carried out in.\<close>

fun along :: "('e \<Rightarrow> 'c \<Rightarrow> 's \<Rightarrow> bool) \<Rightarrow> ('e \<Rightarrow> 'c \<Rightarrow> 's \<Rightarrow> 's \<times> 'r) \<Rightarrow> ('e \<times> 'c) list \<Rightarrow> 's \<Rightarrow> bool" where
  "along good f [] st \<longleftrightarrow> True"
| "along good f ((e, c) # cs) st \<longleftrightarrow> good e c st \<and> along good f cs (fst (f e c st))"

locale simulation =
  fixes inv :: "'s \<Rightarrow> bool"
    and good :: "'e \<Rightarrow> 'c \<Rightarrow> 's \<Rightarrow> bool"
    and impl :: "'e \<Rightarrow> 'c \<Rightarrow> 's \<Rightarrow> 's \<times> 'r"
    and abs :: "'s \<Rightarrow> 'm"
    and spec :: "'c \<Rightarrow> 'm \<Rightarrow> 'm \<times> 'r"
  assumes step: "inv st \<Longrightarrow> good e c st \<Longrightarrow> impl e c st = (st', r) \<Longrightarrow> inv st' \<and> spec c (abs st) = (abs st', r)"
begin

lemma run_refines:
  "inv st \<Longrightarrow> along good impl cs st \<Longrightarrow> run impl cs st = (st', rs) \<Longrightarrow>
   inv st' \<and> run (\<lambda>_. spec) cs (abs st) = (abs st', rs)"
proof (induction cs arbitrary: st st' rs)
  case (Cons ec cs)
  obtain e c where ec: "ec = (e, c)" by (cases ec)
  obtain st1 r where i: "impl e c st = (st1, r)" by (cases "impl e c st")
  with Cons.prems ec have s: "inv st1" "spec c (abs st) = (abs st1, r)" "along good impl cs st1" using step by auto
  obtain st2 rs' where "run impl cs st1 = (st2, rs')" by (cases "run impl cs st1")
  with Cons.IH [OF s(1,3) this] Cons.prems(3) ec i s(2) show ?case by auto
qed simp

end

section \<open>Commands, replies and the map\<close>

datatype command =
    CPut string string string custom_md "chunk list"
  | CGet string string bool
  | CDelete string string
  | CCopy string string string string

datatype reply = Stored string | Found string string string custom_md | Done | Failed goerr

type_synonym content = "string \<times> string \<times> custom_md"

text \<open>The service: the four operations on a node's state.\<close>

fun service :: "Service \<Rightarrow> env \<Rightarrow> command \<Rightarrow> node_state \<Rightarrow> node_state \<times> reply" where
  "service s env (CPut b k ct md cs) st =
     (case PutObject_svc s env \<lparr>inBucketName = b, inKey = k, inContentType = ct, inCustomMetadata = md, inBody = Src cs\<rparr> st of
        (st', Inl e) \<Rightarrow> (st', Failed e) | (st', Inr etag) \<Rightarrow> (st', Stored etag))"
| "service s env (CGet b k verify) st =
     (st, case GetObject_svc s env b k verify st of
            Inl e \<Rightarrow> Failed e | Inr g \<Rightarrow> Found (gBody g) (gETag g) (gContentType g) (gCustomMetadata g))"
| "service s env (CDelete b k) st =
     (case DeleteObject_svc s env b k st of (st', Inl e) \<Rightarrow> (st', Failed e) | (st', Inr _) \<Rightarrow> (st', Done))"
| "service s env (CCopy sb sk b k) st =
     (case CopyObject s env sb sk b k st of (st', Inl e) \<Rightarrow> (st', Failed e) | (st', Inr etag) \<Rightarrow> (st', Stored etag))"

text \<open>The specification.\<close>

fun map_store :: "command \<Rightarrow> (string \<times> string \<rightharpoonup> content) \<Rightarrow> (string \<times> string \<rightharpoonup> content) \<times> reply" where
  "map_store (CPut b k ct md cs) m =
     (m((b, k) \<mapsto> (stream_data cs, if ct = '''' then octet_stream else ct, md)), Stored (hex_encode (md5 (stream_data cs))))"
| "map_store (CGet b k verify) m =
     (m, case m (b, k) of None \<Rightarrow> Failed NotFoundKey | Some (d, ct, md) \<Rightarrow> Found d (hex_encode (md5 d)) ct md)"
| "map_store (CDelete b k) m = (m((b, k) := None), Done)"
| "map_store (CCopy sb sk b k) m =
     (case m (sb, sk) of
        None \<Rightarrow> (m, Failed no_source_key)
      | Some (d, ct, md) \<Rightarrow> (m((b, k) \<mapsto> (d, ct, md)), Stored (hex_encode (md5 d))))"

section \<open>Abstraction and invariant\<close>

text \<open>
  The keys in use: valid, in existing buckets, with different blob files. Every row of theirs is live and has its
  bytes in the key's file under their own digest.
\<close>

definition intact :: "Service \<Rightarrow> node_state \<Rightarrow> string \<times> string \<Rightarrow> Object \<Rightarrow> bool" where
  "intact s st bk row \<longleftrightarrow> \<not> oDeleted row \<and> oContentType row \<noteq> '''' \<and>
     (\<exists>d. data_at (sFs st) (blob_path s (fst bk) (snd bk)) = Some d \<and> oETag row = hex_encode (md5 d))"

definition store_ok :: "Service \<Rightarrow> (string \<times> string) set \<Rightarrow> node_state \<Rightarrow> bool" where
  "store_ok s K st \<longleftrightarrow> inj_on (\<lambda>bk. blob_path s (fst bk) (snd bk)) K \<and>
     (\<forall>(b, k) \<in> K. BucketNameError b = '''' \<and> KeyError k = '''' \<and> bucket_at (sDb st) b \<noteq> None \<and>
        (\<forall>row. obj_at (sDb st) b k = Some row \<longrightarrow> intact s st (b, k) row))"

definition content_of :: "Service \<Rightarrow> (string \<times> string) set \<Rightarrow> node_state \<Rightarrow> string \<times> string \<rightharpoonup> content" where
  "content_of s K st = (\<lambda>bk. if bk \<in> K
     then (case obj_at (sDb st) (fst bk) (snd bk) of
             None \<Rightarrow> None
           | Some row \<Rightarrow> Some (the (data_at (sFs st) (blob_path s (fst bk) (snd bk))), oContentType row, oCustomMetadata row))
     else None)"

text \<open>A command on the keys in use, carried out without failures; a new row gets an identifier of its own.\<close>

fun good_command :: "Service \<Rightarrow> (string \<times> string) set \<Rightarrow> env \<Rightarrow> command \<Rightarrow> node_state \<Rightarrow> bool" where
  "good_command s K env (CPut b k ct md cs) st \<longleftrightarrow>
     healthy s env \<and> (b, k) \<in> K \<and> accepted s cs \<and> fresh_id env (sDb st) b k"
| "good_command s K env (CGet b k verify) st \<longleftrightarrow> healthy s env \<and> (b, k) \<in> K"
| "good_command s K env (CDelete b k) st \<longleftrightarrow> healthy s env \<and> (b, k) \<in> K"
| "good_command s K env (CCopy sb sk b k) st \<longleftrightarrow>
     healthy s env \<and> (sb, sk) \<in> K \<and> (b, k) \<in> K \<and> fresh_id env (sDb st) b k"

section \<open>One command\<close>

lemma tmp_not_blob: "tmp_name env (blob_path s b k) \<noteq> blob_path s b' k'"
proof -
  have "last (tmp_name env p) = CHR ''p''" for p by (simp add: tmp_name_def)
  moreover have "last (blob_path s b' k') = CHR ''b''" by (simp add: blob_path_def blob_elems_def Let_def)
  ultimately have "last (tmp_name env (blob_path s b k)) \<noteq> last (blob_path s b' k')" by simp
  then show ?thesis by (rule contrapos_nn) simp
qed

text \<open>The bucket table after storing an object or deleting one names the same buckets.\<close>

lemma same_buckets: "same_rest db db' \<Longrightarrow> bucket_at db' b \<noteq> None \<longleftrightarrow> bucket_at db b \<noteq> None"
  unfolding bucket_at_iff same_rest_def by simp

lemma store_ok_step:
  assumes "store_ok s K st" "(b, k) \<in> K" "\<forall>b. bucket_at (sDb st) b \<noteq> None \<longrightarrow> bucket_at (sDb st') b \<noteq> None"
    "\<forall>b' k'. (b', k') \<noteq> (b, k) \<longrightarrow> obj_at (sDb st') b' k' = obj_at (sDb st) b' k'"
    "\<forall>b' k'. blob_path s b' k' \<noteq> blob_path s b k \<longrightarrow> data_at (sFs st') (blob_path s b' k') = data_at (sFs st) (blob_path s b' k')"
    "\<forall>row. obj_at (sDb st') b k = Some row \<longrightarrow> intact s st' (b, k) row"
  shows "store_ok s K st' \<and> content_of s K st' = (content_of s K st)((b, k) := content_of s K st' (b, k))"
proof -
  have d: "data_at (sFs st') (blob_path s b' k') = data_at (sFs st) (blob_path s b' k')" if "(b', k') \<in> K" "(b', k') \<noteq> (b, k)" for b' k'
  proof -
    have "blob_path s b' k' \<noteq> blob_path s b k" using assms(1,2) that by (force simp: store_ok_def inj_on_def)
    then show ?thesis using assms(5) by blast
  qed
  have "intact s st' (b', k') row" if "(b', k') \<in> K" "obj_at (sDb st') b' k' = Some row" for b' k' row
  proof (cases "(b', k') = (b, k)")
    case False
    with that assms(4) have "obj_at (sDb st) b' k' = Some row" by auto
    then have "intact s st (b', k') row" using assms(1) that(1) by (auto simp: store_ok_def)
    then show ?thesis unfolding intact_def fst_conv snd_conv d [OF that(1) False] .
  qed (use that assms(6) in auto)
  then have "store_ok s K st'" using assms(1,3) by (auto simp: store_ok_def)
  moreover have "content_of s K st' bk = ((content_of s K st)((b, k) := content_of s K st' (b, k))) bk" for bk
    using assms(4) d [of "fst bk" "snd bk"] by (cases bk) (auto simp: content_of_def split: option.split)
  ultimately show ?thesis by blast
qed

lemma store_ok_stored:
  assumes "store_ok s K st" "(b, k) \<in> K" "stored s env obj d st st'" "oBucketName obj = b" "oKey obj = k"
    "oETag obj = hex_encode (md5 d)" "oContentType obj \<noteq> ''''" "same_rest (sDb st) (sDb st')"
  shows "store_ok s K st' \<and> content_of s K st' = (content_of s K st)((b, k) \<mapsto> (d, oContentType obj, oCustomMetadata obj))"
proof -
  have f: "data_at (sFs st') (blob_path s b' k') = data_at (sFs st) (blob_path s b' k')" if "blob_path s b' k' \<noteq> blob_path s b k" for b' k'
    using assms(3-5) that tmp_not_blob [of "eFs env" s b k b' k'] unfolding stored_def by metis
  from assms(3-5) obtain row where row: "obj_at (sDb st') b k = Some row" "\<not> oDeleted row" "oETag row = oETag obj"
      "oContentType row = oContentType obj" "oCustomMetadata row = oCustomMetadata obj" "data_at (sFs st') (blob_path s b k) = Some d"
    and o: "\<forall>b' k'. (b', k') \<noteq> (b, k) \<longrightarrow> obj_at (sDb st') b' k' = obj_at (sDb st) b' k'"
    unfolding stored_def by blast
  have "content_of s K st' (b, k) = Some (d, oContentType obj, oCustomMetadata obj)"
    using row assms(2) by (simp add: content_of_def)
  with store_ok_step [OF assms(1,2) _ o, of ] same_buckets [OF assms(8)] f row assms(6,7) show ?thesis by (simp add: intact_def)
qed

lemma put_same_rest: "same_rest (sDb st) (sDb (fst (PutObject_svc s env inp st)))" "same_rest (sDb st) (sDb (fst (CopyObject s env sb sk b k st)))"
proof -
  have r: "same_rest db db" for db by (simp add: same_rest_def)
  show "same_rest (sDb st) (sDb (fst (PutObject_svc s env inp st)))"
    by (auto simp: PutObject_svc_def PutObjectWithVersion_def delete_blob_def Let_def r split: sum.split prod.split option.split dest: PutObject_rest)
  show "same_rest (sDb st) (sDb (fst (CopyObject s env sb sk b k st)))"
    by (auto simp: CopyObject_def delete_blob_def Let_def r split: sum.split prod.split option.split dest: PutObject_rest)
qed

lemma NextObjectVersion_healthy: "healthy s env \<Longrightarrow> \<exists>v. NextObjectVersion env b k st = Inr v"
  by (auto simp: NextObjectVersion_def GetObject_def healthy_def split: option.split)

lemma put_step:
  assumes "store_ok s K st" "good_command s K env (CPut b k ct md cs) st" "service s env (CPut b k ct md cs) st = (st', r)"
  shows "store_ok s K st' \<and> map_store (CPut b k ct md cs) (content_of s K st) = (content_of s K st', r)"
proof -
  let ?inp = "\<lparr>inBucketName = b, inKey = k, inContentType = ct, inCustomMetadata = md, inBody = Src cs\<rparr>" and ?d = "stream_data cs"
  have g: "healthy s env" "(b, k) \<in> K" "accepted s cs" "fresh_id env (sDb st) b k" using assms(2) by simp_all
  have v: "BucketNameError b = ''''" "KeyError k = ''''" "bucket_at (sDb st) b \<noteq> None" using assms(1) g(2) by (auto simp: store_ok_def)
  obtain n where n: "NextObjectVersion env b k st = Inr n" using NextObjectVersion_healthy [OF g(1)] by blast
  obtain st1 where P: "PutObjectWithVersion s env ?inp n ''replicated'' st = (st1, Inr (hex_encode (md5 ?d)))"
    and S: "stored s env (input_object s ?inp ?d n ''replicated'') ?d st st1"
    using PutObjectWithVersion_ok [of s env ?inp st cs n "''replicated''"] g v by simp blast
  have p: "PutObject_svc s env ?inp st = (st1, Inr (hex_encode (md5 ?d)))" using P n by (simp add: PutObject_svc_def)
  with assms(3) have e: "st' = st1" "r = Stored (hex_encode (md5 ?d))" by simp_all
  have "same_rest (sDb st) (sDb st1)" using put_same_rest(1) [of st s env ?inp] p by simp
  with store_ok_stored [OF assms(1) g(2) S] input_content_type [of s ?inp] show ?thesis by (simp add: e)
qed

lemma get_step:
  assumes "store_ok s K st" "good_command s K env (CGet b k verify) st" "service s env (CGet b k verify) st = (st', r)"
  shows "store_ok s K st' \<and> map_store (CGet b k verify) (content_of s K st) = (content_of s K st', r)"
proof -
  have g: "healthy s env" "(b, k) \<in> K" using assms(2) by simp_all
  have v: "BucketNameError b = ''''" "KeyError k = ''''" "bucket_at (sDb st) b \<noteq> None"
    "\<forall>row. obj_at (sDb st) b k = Some row \<longrightarrow> intact s st (b, k) row" using assms(1) g(2) by (auto simp: store_ok_def)
  have q: "db_quiet (eDb env)" using g(1) by (simp add: healthy_def)
  have "r = (case content_of s K st (b, k) of None \<Rightarrow> Failed NotFoundKey | Some (d, ct, md) \<Rightarrow> Found d (hex_encode (md5 d)) ct md)"
  proof (cases "obj_at (sDb st) b k")
    case None
    then have "GetObject_svc s env b k verify st = Inl NotFoundKey"
      using v q by (auto simp: GetObject_svc_def BucketExists_def GetObject_def)
    then show ?thesis using assms(3) None by (simp add: content_of_def)
  next
    case (Some row)
    with v(4) obtain d where "data_at (sFs st) (blob_path s b k) = Some d" "oETag row = hex_encode (md5 d)" "\<not> oDeleted row"
      by (auto simp: intact_def)
    with GetObject_svc_ok [OF g(1) v(1-3) Some] assms(3) Some g(2) show ?thesis by (auto simp: content_of_def)
  qed
  then show ?thesis using assms(1,3) by auto
qed

lemma DeleteObject_quiet:
  assumes "db_quiet e" "obj_at db b k = Some row"
  shows "\<exists>db'. DeleteObject e b k db = (db', Inr ()) \<and> obj_at db' b k = None \<and>
    (\<forall>b' k'. (b', k') \<noteq> (b, k) \<longrightarrow> obj_at db' b' k' = obj_at db b' k')"
  using assms by (auto simp: DeleteObject_def obj_at_def row_at_filter)

lemma delete_step:
  assumes "store_ok s K st" "good_command s K env (CDelete b k) st" "service s env (CDelete b k) st = (st', r)"
  shows "store_ok s K st' \<and> map_store (CDelete b k) (content_of s K st) = (content_of s K st', r)"
proof -
  have g: "healthy s env" "(b, k) \<in> K" using assms(2) by simp_all
  have v: "BucketNameError b = ''''" "bucket_at (sDb st) b \<noteq> None" using assms(1) g(2) by (auto simp: store_ok_def)
  have q: "db_quiet (eDb env)" "fs_faults (eFs env) = []" "base_ok (basePath (svBlob s))" using g(1) by (auto simp: healthy_def quiet_def)
  show ?thesis
  proof (cases "obj_at (sDb st) b k")
    case None
    then have "DeleteObject_svc s env b k st = (st, Inr ())"
      using v(2) q(1) by (auto simp: DeleteObject_svc_def BucketExists_def GetObject_def)
    then show ?thesis using assms(1,3) None by (auto simp: content_of_def)
  next
    case (Some row)
    let ?p = "blob_path s b k"
    obtain db where D: "DeleteObject (eDb env) b k (sDb st) = (db, Inr ())" "obj_at db b k = None"
      "\<forall>b' k'. (b', k') \<noteq> (b, k) \<longrightarrow> obj_at db b' k' = obj_at (sDb st) b' k'"
      using Some DeleteObject_quiet [OF q(1)] by blast
    let ?st = "st\<lparr>sDb := db, sFs := os_remove (fs_now (eFs env)) ?p (sFs st)\<rparr>"
    have "DeleteObject_svc s env b k st = (?st, Inr ())"
      using v(2) q Some D(1) healthy_resolve [OF q(3) v(1)]
      by (auto simp: DeleteObject_svc_def BucketExists_def GetObject_def Delete_def fails_def)
    with assms(3) have e: "st' = ?st" "r = Done" by simp_all
    have "store_ok s K ?st \<and> content_of s K ?st = (content_of s K st)((b, k) := content_of s K ?st (b, k))"
      using D same_buckets [OF DeleteObject_rest [OF D(1)]] by (intro store_ok_step [OF assms(1) g(2)]) (auto simp: data_at_def)
    moreover have "content_of s K ?st (b, k) = None" using D(2) by (simp add: content_of_def)
    ultimately show ?thesis by (simp add: e)
  qed
qed


lemma copy_step:
  assumes "store_ok s K st" "good_command s K env (CCopy sb sk b k) st" "service s env (CCopy sb sk b k) st = (st', r)"
  shows "store_ok s K st' \<and> map_store (CCopy sb sk b k) (content_of s K st) = (content_of s K st', r)"
proof -
  have g: "healthy s env" "(sb, sk) \<in> K" "(b, k) \<in> K" "fresh_id env (sDb st) b k" using assms(2) by simp_all
  have v: "BucketNameError sb = ''''" "KeyError sk = ''''" "BucketNameError b = ''''" "KeyError k = ''''"
    "bucket_at (sDb st) sb \<noteq> None" "bucket_at (sDb st) b \<noteq> None"
    "\<forall>row. obj_at (sDb st) sb sk = Some row \<longrightarrow> intact s st (sb, sk) row" using assms(1) g(2,3) by (auto simp: store_ok_def)
  show ?thesis
  proof (cases "obj_at (sDb st) sb sk")
    case None
    have "db_quiet (eDb env)" using g(1) by (simp add: healthy_def)
    then have "CopyObject s env sb sk b k st = (st, Inl no_source_key)"
      using v None by (auto simp: CopyObject_def BucketExists_def GetObject_def)
    then show ?thesis using assms(1,3) None by (auto simp: content_of_def)
  next
    case (Some row)
    with v(7) obtain d where d: "data_at (sFs st) (blob_path s sb sk) = Some d" "oContentType row \<noteq> ''''"
      by (auto simp: intact_def)
    obtain st1 where P: "CopyObject s env sb sk b k st = (st1, Inr (hex_encode (md5 d)))" and S: "stored s env (copied_object s b k row d) d st st1"
      using CopyObject_ok [OF g(1) v(1-6) Some d(2,1) g(4)] by blast
    with assms(3) have e: "st' = st1" "r = Stored (hex_encode (md5 d))" by simp_all
    have "same_rest (sDb st) (sDb st1)" using put_same_rest(2) [of st s env sb sk b k] P by simp
    with store_ok_stored [OF assms(1) g(3) S] d(2) have "store_ok s K st1"
      "content_of s K st1 = (content_of s K st)((b, k) \<mapsto> (d, oContentType row, oCustomMetadata row))" by simp_all
    moreover have "content_of s K st (sb, sk) = Some (d, oContentType row, oCustomMetadata row)"
      using Some d(1) g(2) by (simp add: content_of_def)
    ultimately show ?thesis by (simp add: e)
  qed
qed

section \<open>Every run of commands\<close>

interpretation store: simulation "store_ok s K" "good_command s K" "service s" "content_of s K" map_store for s K
proof
  fix st env c st' r
  assume a: "store_ok s K st" "good_command s K env c st" "service s env c st = (st', r)"
  show "store_ok s K st' \<and> map_store c (content_of s K st) = (content_of s K st', r)"
  proof (cases c)
    case (CPut b k ct md cs)
    show ?thesis using a unfolding CPut by (rule put_step)
  next
    case (CGet b k verify)
    show ?thesis using a unfolding CGet by (rule get_step)
  next
    case (CDelete b k)
    show ?thesis using a unfolding CDelete by (rule delete_step)
  next
    case (CCopy sb sk b k)
    show ?thesis using a unfolding CCopy by (rule copy_step)
  qed
qed

text \<open>
  C13: the object service of a node refines a map from bucket and key to content. Take a set of keys that lie in
  different files, whose stored objects are live and match their digests, and any sequence of uploads,
  verified or unverified downloads, deletions and copies on them, each carried out without a failing disk or
  database and with an accepted body. Then the service keeps that invariant, every reply is the one the map
  gives (the digest of the bytes stored, the bytes, tag, content type and metadata last stored under the key, the
  error for a missing key or a missing copy source), and the final contents are those of the map.
\<close>

theorem service_refines_map:
  assumes "store_ok s K st" "along (good_command s K) (service s) cs st" "run (service s) cs st = (st', rs)"
  shows "store_ok s K st' \<and> run (\<lambda>_. map_store) cs (content_of s K st) = (content_of s K st', rs)"
  using assms by (rule store.run_refines)

definition example_commands :: "(env \<times> command) list" where
  "example_commands = map (Pair example_node_env)
     [CPut ''abc'' ''k'' '''' [] [(''hel'', None), (''lo'', None)], CGet ''abc'' ''k'' True,
      CDelete ''abc'' ''k'', CGet ''abc'' ''k'' False]"

theorem service_refines_map_witness:
  "store_ok example_service {(''abc'', ''k'')} example_node \<and>
   snd (run (service example_service) example_commands example_node) =
     [Stored (hex_encode (md5 ''hello'')), Found ''hello'' (hex_encode (md5 ''hello'')) octet_stream [], Done,
      Failed NotFoundKey]"
proof -
  let ?K = "{(''abc'', ''k'')}"
  have i: "store_ok example_service ?K example_node" using example_facts(1-3,5) by (simp add: store_ok_def)
  have a: "along (good_command example_service ?K) (service example_service) example_commands example_node"
    using example_healthy example_facts(4,6) by (simp add: example_commands_def fresh_id_def)
  obtain st' rs where r: "run (service example_service) example_commands example_node = (st', rs)"
    by (cases "run (service example_service) example_commands example_node")
  have "snd (run (\<lambda>_. map_store) example_commands m) =
     [Stored (hex_encode (md5 ''hello'')), Found ''hello'' (hex_encode (md5 ''hello'')) octet_stream [], Done, Failed NotFoundKey]" for m
    by (simp add: example_commands_def)
  from this [of "content_of example_service ?K example_node"] show ?thesis
    using service_refines_map [OF i a r] i r by simp
qed

end
