(* ===== verification/Utf8.thy ===== *)
theory Utf8
  imports Prelude
begin

text \<open>
  Go strings as sequences of runes: what \<^verbatim>\<open>range\<close> over a string, \<^verbatim>\<open>utf8.DecodeRune\<close> and the writers built on
  them see of a list of bytes.
\<close>

text \<open>
  \<^verbatim>\<open>for _, c := range s\<close>: the runes of a string, each as its UTF-8 bytes; a byte that starts no valid
  sequence yields the replacement character U+FFFD and is skipped alone.
\<close>

definition in_bytes :: "nat \<Rightarrow> nat \<Rightarrow> char \<Rightarrow> bool" where
  "in_bytes lo hi c \<longleftrightarrow> lo \<le> of_char c \<and> of_char c \<le> hi"

definition second_ok :: "char \<Rightarrow> char \<Rightarrow> bool" where
  "second_ok a b \<longleftrightarrow>
     (if a = CHR 0xE0 then in_bytes 0xA0 0xBF b else if a = CHR 0xED then in_bytes 0x80 0x9F b
      else if a = CHR 0xF0 then in_bytes 0x90 0xBF b else if a = CHR 0xF4 then in_bytes 0x80 0x8F b
      else in_bytes 0x80 0xBF b)"

fun rune_width :: "string \<Rightarrow> nat" where
  "rune_width [] = 0"
| "rune_width (a # s) =
     (if in_bytes 0 0x7F a then 1
      else if in_bytes 0xC2 0xDF a then
        (case s of b # t \<Rightarrow> if second_ok a b then 2 else 0 | _ \<Rightarrow> 0)
      else if in_bytes 0xE0 0xEF a then
        (case s of b # c # t \<Rightarrow> if second_ok a b \<and> in_bytes 0x80 0xBF c then 3 else 0 | _ \<Rightarrow> 0)
      else if in_bytes 0xF0 0xF4 a then
        (case s of b # c # d # t \<Rightarrow> if second_ok a b \<and> in_bytes 0x80 0xBF c \<and> in_bytes 0x80 0xBF d then 4 else 0 | _ \<Rightarrow> 0)
      else 0)"

definition rune_error :: string where
  "rune_error = [CHR 0xEF, CHR 0xBF, CHR 0xBD]"

function runes :: "string \<Rightarrow> string list" where
  "runes s =
     (case s of [] \<Rightarrow> []
      | c # cs \<Rightarrow> if rune_width s = 0 then rune_error # runes cs
                  else take (rune_width s) s # runes (drop (rune_width s) s))"
  by pat_completeness auto
termination by (relation "measure length") auto

declare runes.simps [simp del]

section \<open>Facts\<close>

definition valid_utf8 :: "string \<Rightarrow> bool" where
  "valid_utf8 s \<longleftrightarrow> concat (runes s) = s"

lemma of_char_255: "of_char (c :: char) \<le> (255 :: nat)"
  using nat_of_char_less_256 [of c] by linarith

lemma second_high: "second_ok a b \<Longrightarrow> in_bytes 0x80 0xFF b"
  by (auto simp: second_ok_def in_bytes_def of_char_255 split: if_splits)

lemma rune_bytes:
  assumes "rune_width s \<noteq> 0"
  shows "length (take (rune_width s) s) = 1 \<or> list_all (in_bytes 0x80 0xFF) (take (rune_width s) s)"
  using assms
  by (cases s) (auto split: if_splits list.splits dest: second_high simp: in_bytes_def of_char_255)

lemma ascii_runes: "list_all (in_bytes 0 0x7F) s \<Longrightarrow> concat (runes s) = s"
proof (induction s)
  case (Cons c s)
  then show ?case by (subst runes.simps) auto
qed (simp add: runes.simps)

lemma ascii_valid_utf8: "list_all (in_bytes 0 0x7F) s \<Longrightarrow> valid_utf8 s"
  by (simp add: valid_utf8_def ascii_runes)

lemma runes_subset: "r \<in> set (runes s) \<Longrightarrow> set r \<subseteq> set s \<union> set rune_error"
proof (induction s rule: runes.induct)
  case (1 s)
  show ?case
  proof (cases s)
    case Nil
    with "1.prems" show ?thesis by (simp add: runes.simps)
  next
    case (Cons c cs)
    show ?thesis
    proof (cases "rune_width s = 0")
      case True
      then have "runes s = rune_error # runes cs" using Cons by (subst runes.simps) simp
      with "1.prems" "1.IH"(1) [OF Cons True] Cons show ?thesis by auto
    next
      case False
      then have "runes s = take (rune_width s) s # runes (drop (rune_width s) s)" using Cons by (subst runes.simps) simp
      with "1.prems" "1.IH"(2) [OF Cons False] show ?thesis using set_take_subset set_drop_subset by fastforce
    qed
  qed
qed

lemma rune_shape: "r \<in> set (runes s) \<Longrightarrow> length r = 1 \<or> list_all (in_bytes 0x80 0xFF) r"
proof (induction s rule: runes.induct)
  case (1 s)
  show ?case
  proof (cases s)
    case Nil
    with "1.prems" show ?thesis by (simp add: runes.simps)
  next
    case (Cons c cs)
    show ?thesis
    proof (cases "rune_width s = 0")
      case True
      have "list_all (in_bytes 0x80 0xFF) rune_error" by code_simp
      moreover have "runes s = rune_error # runes cs" using True Cons by (subst runes.simps) simp
      ultimately show ?thesis using "1.prems" "1.IH"(1) [OF Cons True] by auto
    next
      case False
      have "runes s = take (rune_width s) s # runes (drop (rune_width s) s)" using False Cons by (subst runes.simps) simp
      then show ?thesis using rune_bytes [OF False] "1.prems" "1.IH"(2) [OF Cons False] by auto
    qed
  qed
qed

end
