(* ===== verification/Http.thy ===== *)
theory Http
  imports ObjectService Utf8
begin

text \<open>
  The HTTP surface between nodes: the parts of \<^verbatim>\<open>net/url\<close> and \<^verbatim>\<open>net/http\<close> the code relies on (path
  escaping, canonical header keys, requests and responses), the routing of
  \<^verbatim>\<open>internal/api/handler.go\<close>, the internal operations of \<^verbatim>\<open>internal/auth/internal.go\<close>
  and the four replica handlers. Header values travel unchanged.
\<close>

section \<open>Paths\<close>

text \<open>\<^verbatim>\<open>url.PathEscape\<close> and \<^verbatim>\<open>url.PathUnescape\<close>; None is the escape error.\<close>

definition in_span :: "char \<Rightarrow> char \<Rightarrow> char \<Rightarrow> bool" where
  "in_span lo hi c \<longleftrightarrow> lo \<le> c \<and> c \<le> hi"

definition is_alnum :: "char \<Rightarrow> bool" where
  "is_alnum c \<longleftrightarrow> is_digit c \<or> in_span (CHR ''a'') (CHR ''z'') c \<or> in_span (CHR ''A'') (CHR ''Z'') c"

definition path_safe :: "char \<Rightarrow> bool" where
  "path_safe c \<longleftrightarrow> is_alnum c \<or> c \<in> set ''-_.~$&+:=@''"

definition upper_hex :: "nat \<Rightarrow> char" where
  "upper_hex d = ''0123456789ABCDEF'' ! d"

definition escape_char :: "char \<Rightarrow> string" where
  "escape_char c =
     (if path_safe c then [c] else [CHR ''%'', upper_hex (of_char c div 16), upper_hex (of_char c mod 16)])"

definition PathEscape :: "string \<Rightarrow> string" where
  "PathEscape s = concat (map escape_char s)"

fun PathUnescape :: "string \<Rightarrow> string option" where
  "PathUnescape [] = Some []"
| "PathUnescape (c # s) =
     (if c = CHR ''%'' then
        (case s of
           a # b # t \<Rightarrow>
             (case (unhex_digit a, unhex_digit b) of
                (Some x, Some y) \<Rightarrow> map_option (Cons (byte (16 * x + y))) (PathUnescape t)
              | _ \<Rightarrow> None)
         | _ \<Rightarrow> None)
      else map_option (Cons c) (PathUnescape s))"

definition objectPath :: "string \<Rightarrow> string" where
  "objectPath key = Join (map PathEscape (Split (CHR ''/'') key)) ''/''"

definition nodeBaseURL :: "string \<Rightarrow> string" where
  "nodeBaseURL address =
     (if HasPrefix address ''http://'' \<or> HasPrefix address ''https://'' then TrimRight address (CHR ''/'')
      else ''http://'' @ address)"

section \<open>Headers\<close>

definition token_char :: "char \<Rightarrow> bool" where
  "token_char c \<longleftrightarrow> is_alnum c \<or> c \<in> set (''!#$%&*+-.^_`|~'' @ [CHR 0x27])"

fun canonical :: "bool \<Rightarrow> string \<Rightarrow> string" where
  "canonical up [] = []"
| "canonical up (c # s) = (if up then upper_char c else lower_char c) # canonical (c = CHR ''-'') s"

text \<open>\<^verbatim>\<open>http.CanonicalHeaderKey\<close>: a key with a byte that is no token character is left alone.\<close>

definition CanonicalHeaderKey :: "string \<Rightarrow> string" where
  "CanonicalHeaderKey k = (if list_all token_char k then canonical True k else k)"

type_synonym header = "(string \<times> string list) list"

definition header_get :: "header \<Rightarrow> string \<Rightarrow> string" where
  "header_get h k = (case map_of h (CanonicalHeaderKey k) of Some (v # vs) \<Rightarrow> v | _ \<Rightarrow> '''')"

definition header_set :: "string \<Rightarrow> string \<Rightarrow> header \<Rightarrow> header" where
  "header_set k v h = AList.update (CanonicalHeaderKey k) [v] h"

record http_req =
  rqMethod :: string
  rqPath :: string
  rqHeader :: header
  rqBody :: reader

text \<open>
  A response. A handler that writes an error after it has sent a response (a broken forward) leaves a second status and the bytes of it
  the server still takes; the client has the first status. A handler that panics sends nothing: the server closes the connection, which is the
  status 0.
\<close>

record http_resp =
  rsStatus :: int
  rsHeader :: header
  rsBody :: string
  rsSecond :: "(int \<times> string) option"

definition aborted :: http_resp where
  "aborted = \<lparr>rsStatus = 0, rsHeader = [], rsBody = '''', rsSecond = None\<rparr>"

section \<open>Errors as responses\<close>

fun code_text :: "code \<Rightarrow> string" where
  "code_text CodeNoSuchBucket = ''NoSuchBucket''"
| "code_text CodeNoSuchKey = ''NoSuchKey''"
| "code_text CodeBucketAlreadyExists = ''BucketAlreadyExists''"
| "code_text CodeBucketNotEmpty = ''BucketNotEmpty''"
| "code_text CodeInvalidBucketName = ''InvalidBucketName''"
| "code_text CodeInvalidArgument = ''InvalidArgument''"
| "code_text CodeEntityTooLarge = ''EntityTooLarge''"
| "code_text CodeEntityTooSmall = ''EntityTooSmall''"
| "code_text CodeInternalError = ''InternalError''"
| "code_text CodeNotImplemented = ''NotImplemented''"
| "code_text CodeNoSuchUpload = ''NoSuchUpload''"
| "code_text CodeInvalidPart = ''InvalidPart''"
| "code_text CodeInvalidPartOrder = ''InvalidPartOrder''"
| "code_text CodeMalformedXML = ''MalformedXML''"

text \<open>\<^verbatim>\<open>xml.EscapeText\<close> rune by rune: one that has no XML form (a control character, U+FFFE, U+FFFF) or is
  no valid UTF-8 becomes U+FFFD.\<close>

definition escape_xml_char :: "char \<Rightarrow> string" where
  "escape_xml_char c =
     (if c = CHR ''&'' then ''&amp;'' else if c = CHR ''<'' then ''&lt;'' else if c = CHR ''>'' then ''&gt;''
      else if c = CHR 0x22 then ''&#34;'' else if c = CHR 0x27 then ''&#39;''
      else if c = CHR 0x09 then ''&#x9;'' else if c = CHR 0x0A then ''&#xA;'' else if c = CHR 0x0D then ''&#xD;''
      else if c < CHR '' '' then rune_error else [c])"

definition escape_xml_rune :: "string \<Rightarrow> string" where
  "escape_xml_rune r =
     (case r of [c] \<Rightarrow> escape_xml_char c
      | _ \<Rightarrow> if r = [CHR 0xEF, CHR 0xBF, CHR 0xBE] \<or> r = [CHR 0xEF, CHR 0xBF, CHR 0xBF] then rune_error else r)"

definition escapeXML :: "string \<Rightarrow> string" where
  "escapeXML s = concat (map escape_xml_rune (runes s))"

definition newline :: string where
  "newline = [CHR 0x0A]"

definition WriteError :: "string \<Rightarrow> string \<Rightarrow> int \<Rightarrow> http_resp" where
  "WriteError c message status = \<lparr>rsStatus = status, rsHeader = header_set ''Content-Type'' ''application/xml'' [],
     rsBody = ''<?xml version='' @ [CHR 0x22] @ ''1.0'' @ [CHR 0x22] @ '' encoding='' @ [CHR 0x22] @ ''UTF-8'' @ [CHR 0x22] @ ''?>''
       @ newline @ ''<Error>'' @ newline @ ''  <Code>'' @ escapeXML c @ ''</Code>'' @ newline
       @ ''  <Message>'' @ escapeXML message @ ''</Message>'' @ newline @ ''</Error>'', rsSecond = None\<rparr>"

definition writeError :: "goerr \<Rightarrow> http_resp" where
  "writeError e =
     (case e of
        ObjErr c m st \<Rightarrow> WriteError (code_text c) m st
      | _ \<Rightarrow> WriteError ''InternalError'' ''An internal error occurred.'' 500)"

definition plain_response :: "int \<Rightarrow> http_resp" where
  "plain_response status = \<lparr>rsStatus = status, rsHeader = [], rsBody = '''', rsSecond = None\<rparr>"

section \<open>internal.go\<close>

definition InternalTokenHeader :: string where "InternalTokenHeader = ''X-ObjeX-Internal-Token''"
definition InternalOperationHeader :: string where "InternalOperationHeader = ''X-ObjeX-Internal-Operation''"
definition InternalObjectVersion :: string where "InternalObjectVersion = ''X-ObjeX-Object-Version''"
definition InternalExpectedETag :: string where "InternalExpectedETag = ''X-ObjeX-Expected-ETag''"
definition InternalObjectDeleted :: string where "InternalObjectDeleted = ''X-ObjeX-Object-Deleted''"

definition OpReplicatePut :: string where "OpReplicatePut = ''replicate-put''"
definition OpReplicateDelete :: string where "OpReplicateDelete = ''replicate-delete''"
definition OpReplicateHead :: string where "OpReplicateHead = ''replicate-head''"
definition OpReplicateGet :: string where "OpReplicateGet = ''replicate-get''"

definition IsInternalRequest :: "http_req \<Rightarrow> string \<Rightarrow> bool" where
  "IsInternalRequest r expectedToken \<longleftrightarrow>
     (if expectedToken = '''' then False else header_get (rqHeader r) InternalTokenHeader = expectedToken)"

definition InternalOperation :: "http_req \<Rightarrow> string \<Rightarrow> string" where
  "InternalOperation r expectedToken =
     (if \<not> IsInternalRequest r expectedToken then '''' else header_get (rqHeader r) InternalOperationHeader)"

definition IsReplicatePut :: "http_req \<Rightarrow> string \<Rightarrow> bool" where
  "IsReplicatePut r expectedToken \<longleftrightarrow> InternalOperation r expectedToken = OpReplicatePut"

definition IsReplicateDelete :: "http_req \<Rightarrow> string \<Rightarrow> bool" where
  "IsReplicateDelete r expectedToken \<longleftrightarrow> InternalOperation r expectedToken = OpReplicateDelete"

definition IsReplicateHead :: "http_req \<Rightarrow> string \<Rightarrow> bool" where
  "IsReplicateHead r expectedToken \<longleftrightarrow> InternalOperation r expectedToken = OpReplicateHead"

definition IsReplicateGet :: "http_req \<Rightarrow> string \<Rightarrow> bool" where
  "IsReplicateGet r expectedToken \<longleftrightarrow> InternalOperation r expectedToken = OpReplicateGet"

section \<open>Routing\<close>

datatype route =
    RouteLive | RouteReady | RouteCluster | RoutePlacement | RoutePresign | RouteListBuckets
  | RouteBucket string | RouteObject string string
  | RouteNotAllowed | RouteBadBucket | RouteBadKey

text \<open>\<^verbatim>\<open>ServeHTTP\<close> on the decoded path of the URL, which it decodes once more.\<close>

definition ServeHTTP_route :: "string \<Rightarrow> string \<Rightarrow> route" where
  "ServeHTTP_route method path =
     (if path = ''/health'' \<or> path = ''/health/live'' then
        (if method = ''GET'' \<or> method = ''HEAD'' then RouteLive else RouteNotAllowed)
      else if path = ''/health/ready'' then
        (if method = ''GET'' \<or> method = ''HEAD'' then RouteReady else RouteNotAllowed)
      else if path = ''/cluster'' then (if method \<noteq> ''GET'' then RouteNotAllowed else RouteCluster)
      else if path = ''/debug/placement'' then (if method \<noteq> ''GET'' then RouteNotAllowed else RoutePlacement)
      else if HasPrefix path ''/api/presign/'' then (if method \<noteq> ''GET'' then RouteNotAllowed else RoutePresign)
      else let trimmed = TrimPrefix path ''/'' in
        if trimmed = '''' then (if method = ''GET'' then RouteListBuckets else RouteNotAllowed)
        else case Index trimmed ''/'' of
          None \<Rightarrow> (case PathUnescape trimmed of None \<Rightarrow> RouteBadBucket | Some bucket \<Rightarrow> RouteBucket bucket)
        | Some slash \<Rightarrow>
            (case PathUnescape (take slash trimmed) of
               None \<Rightarrow> RouteBadBucket
             | Some bucket \<Rightarrow>
                 (case PathUnescape (drop (slash + 1) trimmed) of
                    None \<Rightarrow> RouteBadKey
                  | Some key \<Rightarrow> RouteObject bucket key)))"

text \<open>
  In front of the handler stands \<^verbatim>\<open>http.ServeMux\<close>: a request whose escaped path is not clean (it has an empty element,
  a dot or a double dot) is answered with a redirect to the cleaned path (\<^verbatim>\<open>cleanPath\<close> keeps a final slash).
\<close>

definition mux_cleanPath :: "string \<Rightarrow> string" where
  "mux_cleanPath p =
     (if p = '''' then ''/''
      else let p = (if HasPrefix p ''/'' then p else ''/'' @ p); np = Clean p
           in if last p = CHR ''/'' \<and> np \<noteq> ''/'' then np @ ''/'' else np)"

definition mux_clean :: "string \<Rightarrow> bool" where
  "mux_clean p \<longleftrightarrow> mux_cleanPath p = p"

section \<open>Replica handlers\<close>

definition meta_prefix :: string where
  "meta_prefix = ''x-amz-meta-''"

definition extractCustomMetadata :: "header \<Rightarrow> custom_md" where
  "extractCustomMetadata h =
     map (\<lambda>(k, vals). (ToLower k, hd vals)) (filter (\<lambda>(k, vals). HasPrefix (ToLower k) meta_prefix \<and> vals \<noteq> []) h)"

definition setCustomMetadata :: "custom_md \<Rightarrow> header \<Rightarrow> header" where
  "setCustomMetadata m h =
     fold (\<lambda>(k, v) h. if HasPrefix (ToLower k) meta_prefix then header_set k v h else h) m h"

definition dquote :: "string \<Rightarrow> string" where
  "dquote s = [CHR 0x22] @ s @ [CHR 0x22]"

definition putReplica :: "Service \<Rightarrow> env \<Rightarrow> http_req \<Rightarrow> string \<Rightarrow> string \<Rightarrow> node_state \<Rightarrow> node_state \<times> http_resp" where
  "putReplica s env r bucket key st =
     (case ParseInt (header_get (rqHeader r) InternalObjectVersion) of
        None \<Rightarrow> (st, WriteError ''InvalidArgument'' ''Invalid object version.'' 400)
      | Some version \<Rightarrow>
          if version < 1 then (st, WriteError ''InvalidArgument'' ''Invalid object version.'' 400)
          else let expectedETag = header_get (rqHeader r) InternalExpectedETag in
            if expectedETag = '''' then (st, WriteError ''InvalidArgument'' ''Missing expected ETag.'' 400)
            else (case PutReplica s env \<lparr>riBucketName = bucket, riKey = key, riVersion = version,
                      riExpectedETag = expectedETag, riContentType = header_get (rqHeader r) ''Content-Type'',
                      riCustomMetadata = extractCustomMetadata (rqHeader r), riBody = rqBody r\<rparr> st of
                    (st', Inl e) \<Rightarrow> (st', writeError e)
                  | (st', Inr _) \<Rightarrow> (st', plain_response 200)))"

definition deleteReplica :: "Service \<Rightarrow> env \<Rightarrow> http_req \<Rightarrow> string \<Rightarrow> string \<Rightarrow> node_state \<Rightarrow> node_state \<times> http_resp" where
  "deleteReplica s env r bucket key st =
     (case ParseInt (header_get (rqHeader r) InternalObjectVersion) of
        None \<Rightarrow> (st, WriteError ''InvalidArgument'' ''Invalid object version.'' 400)
      | Some version \<Rightarrow>
          if version < 1 then (st, WriteError ''InvalidArgument'' ''Invalid object version.'' 400)
          else (case PutTombstoneReplica s env bucket key version st of
                  (st', Inl e) \<Rightarrow> (st', writeError e)
                | (st', Inr _) \<Rightarrow> (st', plain_response 204)))"

definition headReplica :: "env \<Rightarrow> string \<Rightarrow> string \<Rightarrow> node_state \<Rightarrow> http_resp" where
  "headReplica env bucket key st =
     (case LocalReplicaState env bucket key st of
        Inl e \<Rightarrow> writeError e
      | Inr None \<Rightarrow> plain_response 404
      | Inr (Some obj) \<Rightarrow>
          let h = header_set InternalObjectVersion (FormatInt (oVersion obj)) [];
              h = header_set ''ETag'' (dquote (oETag obj)) h;
              h = header_set ''Content-Length'' (FormatInt (oSize obj)) h;
              h = header_set ''Content-Type'' (oContentType obj) h;
              h = (if oDeleted obj then header_set InternalObjectDeleted ''true'' h else h)
          in \<lparr>rsStatus = 200, rsHeader = setCustomMetadata (oCustomMetadata obj) h, rsBody = '''', rsSecond = None\<rparr>)"

definition getReplica :: "Service \<Rightarrow> env \<Rightarrow> string \<Rightarrow> string \<Rightarrow> node_state \<Rightarrow> http_resp" where
  "getReplica s env bucket key st =
     (case LocalReplicaState env bucket key st of
        Inl e \<Rightarrow> writeError e
      | Inr None \<Rightarrow> plain_response 404
      | Inr (Some obj) \<Rightarrow>
          if oDeleted obj then plain_response 404
          else (case OpenStoredObject s env bucket key st of
                  Inl e \<Rightarrow> writeError e
                | Inr (rc, sz) \<Rightarrow>
                    let h = header_set ''ETag'' (dquote (oETag obj)) [];
                        h = header_set ''Content-Length'' (FormatInt sz) h;
                        h = header_set ''Content-Type'' (oContentType obj) h
                    in \<lparr>rsStatus = 200, rsHeader = setCustomMetadata (oCustomMetadata obj) h, rsBody = rc, rsSecond = None\<rparr>))"

text \<open>
  A node's answer to one of the four replica requests: the server decodes the path, the middleware lets a
  request with the node's own token through (one without credentials is refused), the route
  leads to the object's handler, which acts on the internal operation. A bucket or list route cannot
  come from the path of an object (\<open>object_route\<close> below).
\<close>

definition DefaultSkip :: "string \<Rightarrow> bool" where
  "DefaultSkip path \<longleftrightarrow> path = ''/health'' \<or> path = ''/health/live'' \<or> path = ''/health/ready'' \<or>
     path = ''/metrics'' \<or> path = ''/cluster'' \<or> path = ''/debug/placement''"

definition serve_replica :: "Service \<Rightarrow> string \<Rightarrow> env \<Rightarrow> http_req \<Rightarrow> node_state \<Rightarrow> node_state \<times> http_resp" where
  "serve_replica s token env r st =
     (case PathUnescape (rqPath r) of
        None \<Rightarrow> (st, plain_response 400)
      | Some path \<Rightarrow>
          if \<not> DefaultSkip path \<and> \<not> IsInternalRequest r token
          then (st, WriteError ''AccessDenied'' ''No credentials provided.'' 403)
          else (case ServeHTTP_route (rqMethod r) path of
             RouteLive \<Rightarrow> (st, plain_response 200)
           | RouteReady \<Rightarrow> (st, plain_response (if db_fails (eDb env) ''ready'' then 503 else 200))
           | RouteCluster \<Rightarrow> (st, plain_response 200)
           | RoutePlacement \<Rightarrow> (st, plain_response 400)
           | RoutePresign \<Rightarrow> (st, WriteError ''AccessDenied'' ''No credentials provided.'' 403)
           | RouteNotAllowed \<Rightarrow> (st, plain_response 405)
           | RouteBadBucket \<Rightarrow> (st, WriteError ''InvalidArgument'' ''Invalid bucket path.'' 400)
           | RouteBadKey \<Rightarrow> (st, WriteError ''InvalidArgument'' ''Invalid object key path.'' 400)
           | RouteListBuckets \<Rightarrow> (st, plain_response 405)
           | RouteBucket bucket \<Rightarrow> (st, plain_response 405)
           | RouteObject bucket key \<Rightarrow>
               if rqMethod r = ''PUT'' \<and> key = ''''
               then (st, WriteError ''InvalidArgument'' ''Object key must not be empty'' 400)
               else if rqMethod r = ''PUT'' \<and> IsReplicatePut r token then putReplica s env r bucket key st
               else if rqMethod r = ''DELETE'' \<and> IsReplicateDelete r token then deleteReplica s env r bucket key st
               else if rqMethod r = ''HEAD'' \<and> IsReplicateHead r token then (st, headReplica env bucket key st)
               else if rqMethod r = ''GET'' \<and> IsReplicateGet r token then (st, getReplica s env bucket key st)
               else (st, plain_response 405)))"

section \<open>Reading headers\<close>

lemma header_get_set:
  "header_get (header_set k v h) k' = (if CanonicalHeaderKey k' = CanonicalHeaderKey k then v else header_get h k')"
  by (simp add: header_get_def header_set_def update_conv')

lemma header_get_Nil [simp]: "header_get [] k = ''''"
  by (simp add: header_get_def)

section \<open>Escaping round trip\<close>

lemma upper_hex_unhex: "d < 16 \<Longrightarrow> unhex_digit (upper_hex d) = Some (int d)"
proof -
  assume "d < 16"
  then have "d \<in> set [0..<16]" by simp
  moreover have "\<forall>d \<in> set [0..<16]. unhex_digit (upper_hex d) = Some (int d)" by code_simp
  ultimately show ?thesis by blast
qed

lemma byte_of_char: "byte (16 * int (of_char c div 16) + int (of_char c mod 16)) = c"
proof -
  have "16 * int (of_char c div 16) + int (of_char c mod 16) = int (of_char c)" by presburger
  then show ?thesis by (simp only: byte_def of_nat_of_char char_of_char)
qed

lemma percent_not_safe: "\<not> path_safe (CHR ''%'')"
  by code_simp

lemma PathUnescape_escape_char: "PathUnescape (escape_char c @ t) = map_option (Cons c) (PathUnescape t)"
proof (cases "path_safe c")
  case True
  then have "c \<noteq> CHR ''%''" using percent_not_safe by auto
  with True show ?thesis by (simp add: escape_char_def)
next
  case False
  have "(of_char c :: nat) < 16 * 16" using nat_of_char_less_256 [of c] by simp
  then have "(of_char c :: nat) div 16 < 16" by (rule less_mult_imp_div_less)
  then have "unhex_digit (upper_hex (of_char c div 16)) = Some (int (of_char c div 16))"
    "unhex_digit (upper_hex (of_char c mod 16)) = Some (int (of_char c mod 16))"
    by (simp_all add: upper_hex_unhex)
  with False byte_of_char [of c] show ?thesis by (simp add: escape_char_def)
qed

lemma PathUnescape_escape: "PathUnescape (PathEscape s @ t) = map_option (append s) (PathUnescape t)"
proof (induction s)
  case Nil
  then show ?case by (simp add: PathEscape_def option.map_ident_strong)
next
  case (Cons c s)
  then show ?case
    using PathUnescape_escape_char [of c "PathEscape s @ t"] by (simp add: PathEscape_def option.map_comp comp_def)
qed

lemma PathUnescape_slash: "PathUnescape (CHR ''/'' # t) = map_option (Cons (CHR ''/'')) (PathUnescape t)"
  by simp

lemma PathUnescape_Join:
  "PathUnescape (Join (map PathEscape ss) ''/'' @ t) = map_option (append (Join ss ''/'')) (PathUnescape t)"
proof (induction ss rule: induct_list012)
  case 1
  then show ?case by (simp add: option.map_ident_strong)
next
  case (2 s)
  then show ?case by (simp add: PathUnescape_escape)
next
  case (3 s s' ss)
  then show ?case by (simp add: PathUnescape_escape option.map_comp comp_def)
qed

lemma PathUnescape_objectPath: "PathUnescape (objectPath k @ t) = map_option (append k) (PathUnescape t)"
  using PathUnescape_Join [of "Split (CHR ''/'') k" t] Join_Split [of "CHR ''/''" k] by (simp add: objectPath_def)

lemma PathUnescape_plain: "CHR ''%'' \<notin> set s \<Longrightarrow> PathUnescape s = Some s"
  by (induction s) auto

lemma PathUnescape_length: "PathUnescape s = Some r \<Longrightarrow> length r \<le> length s \<and> (CHR ''%'' \<in> set s \<longrightarrow> length r < length s)"
  by (induction s arbitrary: r rule: PathUnescape.induct)
     (force split: if_splits list.splits option.splits)+

lemma PathUnescape_same: "PathUnescape s = Some s \<longleftrightarrow> CHR ''%'' \<notin> set s"
  using PathUnescape_plain PathUnescape_length by blast

text \<open>The path of an object as the replicator sends it, and where it leads on the peer.\<close>

definition object_target :: "string \<Rightarrow> string \<Rightarrow> string" where
  "object_target bucket key = ''/'' @ PathEscape bucket @ ''/'' @ objectPath key"

lemma object_target_decoded: "PathUnescape (object_target b k) = Some (''/'' @ b @ ''/'' @ k)"
  using PathUnescape_escape [of b "''/'' @ objectPath k"] PathUnescape_objectPath [of k "''''"]
  by (simp add: object_target_def)

lemma Index_char: "c \<notin> set a \<Longrightarrow> Index (a @ c # t) [c] = Some (length a)"
  by (induction a) auto

definition reserved_path :: "string \<Rightarrow> string \<Rightarrow> bool" where
  "reserved_path b k \<longleftrightarrow> b = ''health'' \<and> (k = ''live'' \<or> k = ''ready'') \<or> b = ''debug'' \<and> k = ''placement'' \<or>
     b = ''api'' \<and> HasPrefix k ''presign/''"

lemma slash_split:
  "CHR ''/'' \<notin> set a \<Longrightarrow> CHR ''/'' \<notin> set b \<Longrightarrow> a @ CHR ''/'' # s = b @ CHR ''/'' # t \<longleftrightarrow> a = b \<and> s = t"
proof
  assume "CHR ''/'' \<notin> set a" "CHR ''/'' \<notin> set b" "a @ CHR ''/'' # s = b @ CHR ''/'' # t"
  then have "length a = length b" using Index_char [of "CHR ''/''" a s] Index_char [of "CHR ''/''" b t] by simp
  with \<open>a @ CHR ''/'' # s = b @ CHR ''/'' # t\<close> show "a = b \<and> s = t" by simp
qed simp

lemma object_route:
  assumes "CHR ''/'' \<notin> set b" "CHR ''%'' \<notin> set b"
  shows "ServeHTTP_route m (''/'' @ b @ ''/'' @ k) =
     (if reserved_path b k then
        (if b = ''health'' then (if m = ''GET'' \<or> m = ''HEAD'' then (if k = ''live'' then RouteLive else RouteReady) else RouteNotAllowed)
         else if m \<noteq> ''GET'' then RouteNotAllowed else if b = ''api'' then RoutePresign else RoutePlacement)
      else case PathUnescape k of None \<Rightarrow> RouteBadKey | Some key \<Rightarrow> RouteObject b key)"
proof -
  let ?p = "''/'' @ b @ ''/'' @ k"
  have eq: "?p = CHR ''/'' # a @ CHR ''/'' # t \<longleftrightarrow> b = a \<and> k = t" if "CHR ''/'' \<notin> set a" for a t
    using slash_split [OF assms(1) that] by simp
  have sl: "CHR ''/'' \<in> set (tl ?p)" by simp
  have ne: "?p \<noteq> ''/health''" "?p \<noteq> ''/cluster''"
  proof -
    have "CHR ''/'' \<notin> set (tl ''/health'')" "CHR ''/'' \<notin> set (tl ''/cluster'')" by simp_all
    with sl show "?p \<noteq> ''/health''" "?p \<noteq> ''/cluster''" by metis+
  qed
  have c: "?p = ''/health/live'' \<longleftrightarrow> b = ''health'' \<and> k = ''live''" "?p = ''/health/ready'' \<longleftrightarrow> b = ''health'' \<and> k = ''ready''"
    "?p = ''/debug/placement'' \<longleftrightarrow> b = ''debug'' \<and> k = ''placement''"
    using eq [of "''health''" "''live''"] eq [of "''health''" "''ready''"] eq [of "''debug''" "''placement''"] by simp_all
  have pre: "HasPrefix ?p ''/api/presign/'' \<longleftrightarrow> b = ''api'' \<and> HasPrefix k ''presign/''"
    using eq [of "''api''"] by (auto simp: HasPrefix_iff)
  have i: "Index (b @ CHR ''/'' # k) ''/'' = Some (length b)" using assms(1) by (rule Index_char)
  have "ServeHTTP_route m ?p = (case PathUnescape k of None \<Rightarrow> RouteBadKey | Some key \<Rightarrow> RouteObject b key)"
    if "\<not> reserved_path b k"
    using that ne c pre i PathUnescape_plain [OF assms(2)]
    by (simp add: ServeHTTP_route_def reserved_path_def TrimPrefix_def Let_def del: append_Cons append_Nil)
       (auto simp: Let_def)
  moreover have "ServeHTTP_route m ?p = (if b = ''health'' then (if m = ''GET'' \<or> m = ''HEAD'' then (if k = ''live'' then RouteLive else RouteReady) else RouteNotAllowed)
         else if m \<noteq> ''GET'' then RouteNotAllowed else if b = ''api'' then RoutePresign else RoutePlacement)"
    if "reserved_path b k"
    using that ne c pre unfolding ServeHTTP_route_def reserved_path_def by (elim disjE conjE) simp_all
  ultimately show ?thesis by simp
qed

lemma valid_bucket_chars:
  assumes "BucketNameError b = ''''"
  shows "CHR ''/'' \<notin> set b" "CHR ''%'' \<notin> set b"
proof -
  have "\<forall>c \<in> set b. re_alnum c \<or> c = CHR ''-''" using assms by (auto simp: valid_bucket_iff)
  then show "CHR ''/'' \<notin> set b" "CHR ''%'' \<notin> set b"
    by (auto simp: re_alnum_def)
qed

text \<open>
  Where a replica request lands that \<^verbatim>\<open>ServeMux\<close> lets through. For every bucket name the service accepts and
  every key, the path the replicator builds decodes on the peer to an object route for exactly that bucket and key if
  and only if the key contains no percent sign and the path is none of the reserved ones; a key
  with a percent sign is decoded once too often, so it is refused or lands on another key.
\<close>

lemma replica_target_exact:
  assumes "BucketNameError b = ''''"
  shows "(\<exists>path. PathUnescape (object_target b k) = Some path \<and>
      (ServeHTTP_route m path = RouteObject b k \<longleftrightarrow> CHR ''%'' \<notin> set k \<and> \<not> reserved_path b k) \<and>
      (\<forall>k'. ServeHTTP_route m path = RouteObject b k' \<longrightarrow> PathUnescape k = Some k') \<and>
      (\<forall>bucket. ServeHTTP_route m path \<noteq> RouteBucket bucket) \<and> ServeHTTP_route m path \<noteq> RouteListBuckets)"
  using object_route [OF valid_bucket_chars [OF assms], of m k] object_target_decoded [of b k] PathUnescape_same [of k]
  by (auto split: option.splits)

lemma replica_target_exact_example:
  "ServeHTTP_route ''PUT'' (''/'' @ ''abc'' @ ''/'' @ ''dir/file name'') = RouteObject ''abc'' ''dir/file name'' \<and>
   ServeHTTP_route ''PUT'' (''/'' @ ''abc'' @ ''/'' @ ''a%41'') \<noteq> RouteObject ''abc'' ''a%41'' \<and>
   ServeHTTP_route ''PUT'' (''/'' @ ''abc'' @ ''/'' @ ''a%41'') = RouteObject ''abc'' ''aA''"
proof -
  have b: "BucketNameError ''abc'' = ''''" by code_simp
  have "\<not> reserved_path ''abc'' k" for k by (simp add: reserved_path_def)
  moreover have "ServeHTTP_route ''PUT'' (''/'' @ ''abc'' @ ''/'' @ ''a%41'') = RouteObject ''abc'' ''aA''" by code_simp
  ultimately show ?thesis
    using replica_target_exact [OF b, of "''dir/file name''" "''PUT''"] object_target_decoded [of "''abc''" "''dir/file name''"]
    by auto
qed

end
