(* ===== verification/S3Xml.thy ===== *)
theory S3Xml
  imports Http MetaMultipart
begin

text \<open>
  \<^verbatim>\<open>internal/s3/xml.go\<close> and \<^verbatim>\<open>delete.go\<close>: the XML bodies of the S3 responses, byte by byte. Reading XML is
  \<^verbatim>\<open>encoding/xml\<close>'s work; what the code does with the decoded values is modelled with the handlers.
\<close>

section \<open>Building blocks\<close>

definition xmlNS :: string where
  "xmlNS = ''http://s3.amazonaws.com/doc/2006-03-01/''"

definition xml_decl :: string where
  "xml_decl = ''<?xml version='' @ dquote ''1.0'' @ '' encoding='' @ dquote ''UTF-8'' @ ''?>'' @ newline"

definition xml_response :: "string \<Rightarrow> http_resp" where
  "xml_response body = \<lparr>rsStatus = 200, rsHeader = header_set ''Content-Type'' ''application/xml'' [], rsBody = body, rsSecond = None\<rparr>"

text \<open>One line with an element, and the opening line of a document.\<close>

definition elem :: "string \<Rightarrow> string \<Rightarrow> string \<Rightarrow> string" where
  "elem indent tag txt = indent @ ''<'' @ tag @ ''>'' @ txt @ ''</'' @ tag @ ''>'' @ newline"

definition open_root :: "string \<Rightarrow> string" where
  "open_root tag = xml_decl @ ''<'' @ tag @ '' xmlns='' @ dquote xmlNS @ ''>'' @ newline"

definition quot :: "string \<Rightarrow> string" where
  "quot s = ''&quot;'' @ s @ ''&quot;''"

text \<open>\<^verbatim>\<open>t.UTC().Format("2006-01-02T15:04:05.000Z")\<close>: milliseconds, cut off.\<close>

definition formatS3Time :: "time \<Rightarrow> string" where
  "formatS3Time t =
     (let secs = t div 10 ^ 9; sod = secs mod 86400
      in case civil (secs div 86400) of (y, m, d) \<Rightarrow>
           pad_digits 4 y @ ''-'' @ pad_digits 2 m @ ''-'' @ pad_digits 2 d @ ''T'' @
           pad_digits 2 (sod div 3600) @ '':'' @ pad_digits 2 (sod div 60 mod 60) @ '':'' @ pad_digits 2 (sod mod 60) @
           ''.'' @ pad_digits 3 (t mod 10 ^ 9 div 10 ^ 6) @ ''Z'')"

section \<open>xml.go\<close>

definition bucket_xml :: "Bucket \<Rightarrow> string" where
  "bucket_xml b = ''    <Bucket>'' @ newline @ elem ''      '' ''Name'' (escapeXML (bName b)) @
     elem ''      '' ''CreationDate'' (formatS3Time (bCreatedAt b)) @ ''    </Bucket>'' @ newline"

definition WriteListBuckets :: "Bucket list \<Rightarrow> http_resp" where
  "WriteListBuckets buckets = xml_response
     (open_root ''ListAllMyBucketsResult'' @
      ''  <Owner><ID>owner</ID><DisplayName>owner</DisplayName></Owner>'' @ newline @
      ''  <Buckets>'' @ newline @ concat (map bucket_xml buckets) @ ''  </Buckets>'' @ newline @
      ''</ListAllMyBucketsResult>'' @ newline)"

record ListObjectsParams =
  lpBucket :: string
  lpPrefix :: string
  lpDelimiter :: string
  lpListType2 :: bool
  lpContinuationToken :: string
  lpStartAfter :: string
  lpResult :: ListResult

definition object_xml :: "Object \<Rightarrow> string" where
  "object_xml obj =
     (if HasSuffix (oKey obj) ''/'' then ''''
      else ''  <Contents>'' @ newline @ elem ''    '' ''Key'' (escapeXML (oKey obj)) @
        elem ''    '' ''LastModified'' (formatS3Time (oUpdatedAt obj)) @
        elem ''    '' ''ETag'' (quot (escapeXML (oETag obj))) @
        elem ''    '' ''Size'' (FormatInt (oSize obj)) @
        elem ''    '' ''StorageClass'' ''STANDARD'' @ ''  </Contents>'' @ newline)"

definition prefix_xml :: "string \<Rightarrow> string" where
  "prefix_xml cp = ''  <CommonPrefixes>'' @ newline @ elem ''    '' ''Prefix'' (escapeXML cp) @ ''  </CommonPrefixes>'' @ newline"

definition WriteListObjects :: "ListObjectsParams \<Rightarrow> http_resp" where
  "WriteListObjects p =
     (let r = lpResult p in xml_response
       (open_root ''ListBucketResult'' @
        elem ''  '' ''Name'' (escapeXML (lpBucket p)) @
        elem ''  '' ''Prefix'' (escapeXML (lpPrefix p)) @
        (if lpDelimiter p \<noteq> '''' then elem ''  '' ''Delimiter'' (escapeXML (lpDelimiter p)) else '''') @
        (if lpListType2 p then elem ''  '' ''KeyCount'' (FormatInt (int (length (rObjects r)))) else '''') @
        elem ''  '' ''IsTruncated'' (if rIsTruncated r then ''true'' else ''false'') @
        (if lpListType2 p \<and> lpContinuationToken p \<noteq> ''''
         then elem ''  '' ''ContinuationToken'' (escapeXML (lpContinuationToken p)) else '''') @
        (if lpListType2 p \<and> lpStartAfter p \<noteq> '''' then elem ''  '' ''StartAfter'' (escapeXML (lpStartAfter p)) else '''') @
        (if lpListType2 p \<and> rIsTruncated r \<and> rNextContinuationToken r \<noteq> ''''
         then elem ''  '' ''NextContinuationToken'' (escapeXML (rNextContinuationToken r)) else '''') @
        concat (map object_xml (rObjects r)) @ concat (map prefix_xml (rCommonPrefixes r)) @
        ''</ListBucketResult>'' @ newline))"

definition WriteBucketLocation :: http_resp where
  "WriteBucketLocation = xml_response
     (xml_decl @ ''<LocationConstraint xmlns='' @ dquote xmlNS @ ''>us-east-1</LocationConstraint>'')"

definition WriteInitiateMultipartUpload :: "string \<Rightarrow> string \<Rightarrow> string \<Rightarrow> http_resp" where
  "WriteInitiateMultipartUpload bucket key uploadID = xml_response
     (open_root ''InitiateMultipartUploadResult'' @ elem ''  '' ''Bucket'' (escapeXML bucket) @
      elem ''  '' ''Key'' (escapeXML key) @ elem ''  '' ''UploadId'' (escapeXML uploadID) @
      ''</InitiateMultipartUploadResult>'')"

definition WriteCompleteMultipartUpload :: "string \<Rightarrow> string \<Rightarrow> string \<Rightarrow> string \<Rightarrow> http_resp" where
  "WriteCompleteMultipartUpload bucket key location etag = xml_response
     (open_root ''CompleteMultipartUploadResult'' @ elem ''  '' ''Location'' (escapeXML location) @
      elem ''  '' ''Bucket'' (escapeXML bucket) @ elem ''  '' ''Key'' (escapeXML key) @
      elem ''  '' ''ETag'' (quot (escapeXML etag)) @ ''</CompleteMultipartUploadResult>'')"

definition part_xml :: "MultipartPart \<Rightarrow> string" where
  "part_xml p = ''  <Part>'' @ newline @ elem ''    '' ''PartNumber'' (FormatInt (mPartNumber p)) @
     elem ''    '' ''LastModified'' (formatS3Time (mUpdatedAt p)) @ elem ''    '' ''ETag'' (quot (escapeXML (mETag p))) @
     elem ''    '' ''Size'' (FormatInt (mSize p)) @ ''  </Part>'' @ newline"

definition WriteListParts :: "string \<Rightarrow> string \<Rightarrow> string \<Rightarrow> MultipartPart list \<Rightarrow> http_resp" where
  "WriteListParts bucket key uploadID parts = xml_response
     (open_root ''ListPartsResult'' @ elem ''  '' ''Bucket'' (escapeXML bucket) @ elem ''  '' ''Key'' (escapeXML key) @
      elem ''  '' ''UploadId'' (escapeXML uploadID) @ elem ''  '' ''IsTruncated'' ''false'' @
      concat (map part_xml parts) @ ''</ListPartsResult>'' @ newline)"

definition upload_xml :: "MultipartUpload \<Rightarrow> string" where
  "upload_xml u = ''  <Upload>'' @ newline @ elem ''    '' ''Key'' (escapeXML (uKey u)) @
     elem ''    '' ''UploadId'' (escapeXML (uID u)) @ elem ''    '' ''Initiated'' (formatS3Time (uCreatedAt u)) @
     ''  </Upload>'' @ newline"

definition WriteListMultipartUploads :: "string \<Rightarrow> MultipartUpload list \<Rightarrow> http_resp" where
  "WriteListMultipartUploads bucket uploads = xml_response
     (open_root ''ListMultipartUploadsResult'' @ elem ''  '' ''Bucket'' (escapeXML bucket) @
      elem ''  '' ''IsTruncated'' ''false'' @ concat (map upload_xml uploads) @ ''</ListMultipartUploadsResult>'' @ newline)"

definition WriteCopyObjectResult :: "string \<Rightarrow> time \<Rightarrow> http_resp" where
  "WriteCopyObjectResult etag lastModified = xml_response
     (open_root ''CopyObjectResult'' @ elem ''  '' ''LastModified'' (formatS3Time lastModified) @
      elem ''  '' ''ETag'' (quot (escapeXML etag)) @ ''</CopyObjectResult>'')"

section \<open>delete.go\<close>

definition MaxBatchDeleteKeys :: nat where
  "MaxBatchDeleteKeys = 1000"

record DeleteObjectError =
  deKey :: string
  deCode :: string
  deMessage :: string

text \<open>
  What \<^verbatim>\<open>decoder.Token\<close> yields (elements by their local names) until the end of the input or an error. The decoder
  checks the nesting, so an element that is open at the end is an error.
\<close>

datatype xml_token = StartElement string | EndElement string | CharData string | OtherToken

type_synonym xml_tokens = "xml_token list \<times> goerr option"

definition tokens_end :: "goerr option \<Rightarrow> goerr" where
  "tokens_end e = (case e of None \<Rightarrow> Other ''XML syntax error: unexpected EOF'' | Some e \<Rightarrow> e)"

text \<open>\<^verbatim>\<open>DecodeElement\<close> into a string: the character data of the element, without that of its children.\<close>

fun decode_text :: "nat \<Rightarrow> string \<Rightarrow> xml_token list \<Rightarrow> (string \<times> xml_token list) option" where
  "decode_text d txt [] = None"
| "decode_text d txt (StartElement n # ts) = decode_text (Suc d) txt ts"
| "decode_text 0 txt (EndElement n # ts) = Some (txt, ts)"
| "decode_text (Suc d) txt (EndElement n # ts) = decode_text d txt ts"
| "decode_text d txt (CharData s # ts) = decode_text d (if d = 0 then txt @ s else txt) ts"
| "decode_text d txt (OtherToken # ts) = decode_text d txt ts"

lemma decode_text_shorter: "decode_text d s0 ts = Some (s, ts') \<Longrightarrow> length ts' < length ts"
  by (induction d s0 ts rule: decode_text.induct) (auto split: if_splits)

function delete_keys :: "xml_token list \<Rightarrow> goerr option \<Rightarrow> string list \<Rightarrow> string list res" where
  "delete_keys [] end' keys = (case end' of None \<Rightarrow> Inr keys | Some e \<Rightarrow> Inl e)"
| "delete_keys (t # ts) end' keys =
     (if t \<noteq> StartElement ''Key'' then delete_keys ts end' keys
      else case decode_text 0 '''' ts of
        None \<Rightarrow> Inl (tokens_end end')
      | Some (key, ts') \<Rightarrow> delete_keys ts' end' (if key \<noteq> '''' then keys @ [key] else keys))"
  by pat_completeness auto
termination by (relation "measure (\<lambda>(ts, _, _). length ts)") (auto dest: decode_text_shorter)

definition ParseDeleteObjectKeys :: "(string \<Rightarrow> xml_tokens) \<Rightarrow> string \<Rightarrow> string list res" where
  "ParseDeleteObjectKeys decode body = (case decode body of (ts, end') \<Rightarrow> delete_keys ts end' [])"

definition deleted_xml :: "string \<Rightarrow> string" where
  "deleted_xml key = ''  <Deleted>'' @ newline @ elem ''    '' ''Key'' (escapeXML key) @ ''  </Deleted>'' @ newline"

definition delete_error_xml :: "DeleteObjectError \<Rightarrow> string" where
  "delete_error_xml e = ''  <Error>'' @ newline @ elem ''    '' ''Key'' (escapeXML (deKey e)) @
     elem ''    '' ''Code'' (escapeXML (deCode e)) @ elem ''    '' ''Message'' (escapeXML (deMessage e)) @ ''  </Error>'' @ newline"

definition WriteDeleteObjectsResult :: "string list \<Rightarrow> DeleteObjectError list \<Rightarrow> http_resp" where
  "WriteDeleteObjectsResult deleted errs = xml_response
     (open_root ''DeleteResult'' @ concat (map deleted_xml deleted) @ concat (map delete_error_xml errs) @
      ''</DeleteResult>'' @ newline)"

lemma formatS3Time_example: "formatS3Time 1735689599500000000 = ''2024-12-31T23:59:59.500Z''"
  by code_simp

section \<open>Reading the documents back\<close>

text \<open>What an XML reader makes of the references the writers use.\<close>

definition xml_entities :: "(string \<times> char) list" where
  "xml_entities =
     [(''&amp;'', CHR ''&''), (''&lt;'', CHR ''<''), (''&gt;'', CHR ''>''), (''&quot;'', CHR 0x22), (''&#34;'', CHR 0x22), (''&#39;'', CHR 0x27),
      (''&#x9;'', CHR 0x09), (''&#xA;'', CHR 0x0A), (''&#xD;'', CHR 0x0D)]"

function unescapeXML :: "string \<Rightarrow> string" where
  "unescapeXML s =
     (case find (\<lambda>(e, c). e \<noteq> [] \<and> s \<noteq> [] \<and> HasPrefix s e) xml_entities of
        Some (e, c) \<Rightarrow> c # unescapeXML (drop (length e) s)
      | None \<Rightarrow> (case s of [] \<Rightarrow> [] | c # t \<Rightarrow> c # unescapeXML t))"
  by pat_completeness auto
termination by (relation "measure length") (auto simp: find_Some_iff)

declare unescapeXML.simps [simp del]

text \<open>
  A reader of documents: the elements that hold text, in order, each with its name and its text. A raw line break belongs to the
  layout, so text with one in it is that of an element with children (or of none).
\<close>

function leaf_texts :: "string \<Rightarrow> (string \<times> string) list" where
  "leaf_texts [] = []"
| "leaf_texts (c # s) =
     (if c \<noteq> CHR ''<'' then leaf_texts s
      else let tag = takeWhile (\<lambda>x. x \<noteq> CHR ''>'') s; name = takeWhile (\<lambda>x. x \<noteq> CHR '' '') tag;
               rest = drop (length tag + 1) s; txt = takeWhile (\<lambda>x. x \<noteq> CHR ''<'') rest; after = drop (length txt) rest
           in if name \<noteq> [] \<and> hd name \<noteq> CHR ''/'' \<and> hd name \<noteq> CHR ''?'' \<and> CHR 0x0A \<notin> set txt \<and> HasPrefix after (''</'' @ name @ ''>'')
              then (name, unescapeXML txt) # leaf_texts after
              else leaf_texts rest)"
  by pat_completeness auto
termination by (relation "measure length") (auto simp: Let_def)

declare leaf_texts.simps(2) [simp del]

lemma unescape_plain: "c \<noteq> CHR ''&'' \<Longrightarrow> unescapeXML (c # t) = c # unescapeXML t"
  by (subst unescapeXML.simps) (simp add: xml_entities_def)

lemma unescape_plain_append: "CHR ''&'' \<notin> set r \<Longrightarrow> unescapeXML (r @ t) = r @ unescapeXML t"
  by (induction r) (auto simp: unescape_plain)

lemma unescape_Nil [simp]: "unescapeXML '''' = ''''"
  by (subst unescapeXML.simps) (simp add: xml_entities_def)

lemma unescape_id: "CHR ''&'' \<notin> set r \<Longrightarrow> unescapeXML r = r"
  using unescape_plain_append [of r "''''"] by simp

lemma unescape_entities:
  "unescapeXML (''&amp;'' @ t) = CHR ''&'' # unescapeXML t" "unescapeXML (''&lt;'' @ t) = CHR ''<'' # unescapeXML t"
  "unescapeXML (''&gt;'' @ t) = CHR ''>'' # unescapeXML t" "unescapeXML (''&#34;'' @ t) = CHR 0x22 # unescapeXML t"
  "unescapeXML (''&#39;'' @ t) = CHR 0x27 # unescapeXML t" "unescapeXML (''&#x9;'' @ t) = CHR 0x09 # unescapeXML t"
  "unescapeXML (''&#xA;'' @ t) = CHR 0x0A # unescapeXML t" "unescapeXML (''&#xD;'' @ t) = CHR 0x0D # unescapeXML t"
  "unescapeXML (''&quot;'' @ t) = CHR 0x22 # unescapeXML t"
  by (subst unescapeXML.simps, simp add: xml_entities_def)+

text \<open>
  The text a string can have in an XML document: a rune XML cannot carry (a control character, U+FFFE, U+FFFF, or a byte that is no
  UTF-8) is replaced by U+FFFD.
\<close>

definition xml_rune :: "string \<Rightarrow> bool" where
  "xml_rune r \<longleftrightarrow>
     (case r of [c] \<Rightarrow> CHR '' '' \<le> c \<or> c = CHR 0x09 \<or> c = CHR 0x0A \<or> c = CHR 0x0D
      | _ \<Rightarrow> r \<noteq> [CHR 0xEF, CHR 0xBF, CHR 0xBE] \<and> r \<noteq> [CHR 0xEF, CHR 0xBF, CHR 0xBF])"

definition xml_value :: "string \<Rightarrow> string" where
  "xml_value s = concat (map (\<lambda>r. if xml_rune r then r else rune_error) (runes s))"

lemma xml_value_id: "valid_utf8 s \<Longrightarrow> list_all xml_rune (runes s) \<Longrightarrow> xml_value s = s"
proof -
  assume s: "valid_utf8 s" "list_all xml_rune (runes s)"
  then have "map (\<lambda>r. if xml_rune r then r else rune_error) (runes s) = runes s" by (simp add: list_all_iff map_idI)
  with s(1) show ?thesis by (simp add: xml_value_def valid_utf8_def)
qed

lemma unescape_rune:
  assumes "length r = 1 \<or> list_all (in_bytes 0x80 0xFF) r"
  shows "unescapeXML (escape_xml_rune r @ t) = (if xml_rune r then r else rune_error) @ unescapeXML t"
proof (cases "length r = 1")
  case True
  then obtain c where r: "r = [c]" by (metis One_nat_def Suc_length_conv length_0_conv)
  have e: "unescapeXML (rune_error @ t) = rune_error @ unescapeXML t" by (rule unescape_plain_append) (simp add: rune_error_def)
  show ?thesis
    using r e by (auto simp: xml_rune_def escape_xml_rune_def escape_xml_char_def unescape_plain unescape_entities [simplified] not_le)
next
  case False
  have "\<not> in_bytes 0x80 0xFF (CHR ''&'')" by code_simp
  with assms False have "CHR ''&'' \<notin> set r" by (auto simp: list_all_iff)
  moreover have "CHR ''&'' \<notin> set rune_error" by (simp add: rune_error_def)
  moreover have "escape_xml_rune r = (if xml_rune r then r else rune_error)"
    using False by (auto simp: escape_xml_rune_def xml_rune_def split: list.splits)
  ultimately show ?thesis by (simp add: unescape_plain_append)
qed

lemma unescape_escape: "unescapeXML (escapeXML s @ t) = xml_value s @ unescapeXML t"
proof -
  have "unescapeXML (concat (map escape_xml_rune rs) @ t) = concat (map (\<lambda>r. if xml_rune r then r else rune_error) rs) @ unescapeXML t"
    if "set rs \<subseteq> set (runes s)" for rs
    using that by (induction rs) (simp_all add: unescape_rune [OF rune_shape [of _ s]])
  then show ?thesis by (simp add: escapeXML_def xml_value_def)
qed

lemma unescape_texts [simp]:
  "unescapeXML (escapeXML s) = xml_value s" "unescapeXML (quot (escapeXML s)) = dquote (xml_value s)"
  using unescape_escape [of s "''''"] unescape_escape [of s "''&quot;''"] unescape_entities(9) [of "''''"]
    unescape_entities(9) [of "escapeXML s @ ''&quot;''"]
  by (simp_all add: quot_def dquote_def)

text \<open>Text that can stand in an element: no markup and no raw line break.\<close>

definition text_ok :: "string \<Rightarrow> bool" where
  "text_ok s \<longleftrightarrow> CHR ''<'' \<notin> set s \<and> CHR 0x0A \<notin> set s"

lemma escape_rune_ok:
  assumes "length r = 1 \<or> list_all (in_bytes 0x80 0xFF) r"
  shows "text_ok (escape_xml_rune r)"
proof (cases "length r = 1")
  case True
  then obtain d where "r = [d]" by (metis One_nat_def Suc_length_conv length_0_conv)
  then show ?thesis by (auto simp: text_ok_def escape_xml_rune_def escape_xml_char_def rune_error_def)
next
  case False
  have "\<not> in_bytes 0x80 0xFF (CHR ''<'')" "\<not> in_bytes 0x80 0xFF (CHR 0x0A)" by code_simp+
  moreover have "escape_xml_rune r = r \<or> escape_xml_rune r = rune_error"
    using False by (cases r; cases "tl r") (simp_all add: escape_xml_rune_def)
  ultimately show ?thesis using assms False by (auto simp: text_ok_def list_all_iff rune_error_def)
qed

lemma escapeXML_ok [simp]: "text_ok (escapeXML s)" "text_ok (quot (escapeXML s))"
proof -
  have "text_ok (escape_xml_rune r)" if "r \<in> set (runes s)" for r by (rule escape_rune_ok [OF rune_shape [OF that]])
  then show "text_ok (escapeXML s)" unfolding text_ok_def escapeXML_def by auto
  then show "text_ok (quot (escapeXML s))" by (simp add: text_ok_def quot_def)
qed

lemma digits_text: "list_all is_digit s \<Longrightarrow> text_ok s \<and> CHR ''&'' \<notin> set s"
proof -
  have "\<not> is_digit (CHR ''<'')" "\<not> is_digit (CHR 0x0A)" "\<not> is_digit (CHR ''&'')" by code_simp+
  then show "list_all is_digit s \<Longrightarrow> text_ok s \<and> CHR ''&'' \<notin> set s" by (auto simp: text_ok_def list_all_iff)
qed

lemma number_text [simp]: "text_ok (FormatInt n)" "unescapeXML (FormatInt n) = FormatInt n"
proof -
  have "\<not> is_digit (CHR ''<'')" "\<not> is_digit (CHR 0x0A)" "\<not> is_digit (CHR ''&'')" by code_simp+
  then show "text_ok (FormatInt n)" "unescapeXML (FormatInt n) = FormatInt n"
    using FormatInt_chars [of _ n] by (fastforce simp: text_ok_def intro!: unescape_id)+
qed

lemma time_text [simp]: "text_ok (formatS3Time t)" "unescapeXML (formatS3Time t) = formatS3Time t"
proof -
  obtain y m d where c: "civil (t div 10 ^ 9 div 86400) = (y, m, d)" by (metis prod_cases3)
  have "text_ok (pad_digits k n)" "CHR ''&'' \<notin> set (pad_digits k n)" for k n using digits_text [OF pad_digits_digits] by auto
  then show "text_ok (formatS3Time t)" "unescapeXML (formatS3Time t) = formatS3Time t"
    by (auto simp: text_ok_def formatS3Time_def c Let_def intro!: unescape_id)
qed

text \<open>The reader on the pieces the writers put together.\<close>

definition name_ok :: "string \<Rightarrow> bool" where
  "name_ok n \<longleftrightarrow> n \<noteq> [] \<and> hd n \<noteq> CHR ''/'' \<and> hd n \<noteq> CHR ''?'' \<and> CHR '' '' \<notin> set n \<and> CHR ''>'' \<notin> set n"

lemma takeWhile_stop: "x \<notin> set xs \<Longrightarrow> takeWhile (\<lambda>y. y \<noteq> x) (xs @ x # ys) = xs"
  by (induction xs) auto

lemma takeWhile_all: "x \<notin> set xs \<Longrightarrow> takeWhile (\<lambda>y. y \<noteq> x) xs = xs"
  by (induction xs) auto

lemma leaf_skip: "CHR ''<'' \<notin> set s \<Longrightarrow> leaf_texts (s @ t) = leaf_texts t"
  by (induction s) (auto simp: leaf_texts.simps(2))

lemma leaf_element:
  assumes "name_ok n" "text_ok txt" "attrs = '''' \<or> hd attrs = CHR '' ''" "CHR ''>'' \<notin> set attrs"
  shows "leaf_texts (''<'' @ n @ attrs @ ''>'' @ txt @ ''</'' @ n @ ''>'' @ rest) = (n, unescapeXML txt) # leaf_texts rest"
proof -
  have c: "leaf_texts (''</'' @ n @ ''>'' @ rest) = leaf_texts rest"
    using assms(1) takeWhile_stop [of "CHR ''>''" "CHR ''/'' # n" rest]
    by (simp add: leaf_texts.simps(2) name_ok_def Let_def)
  have t: "takeWhile (\<lambda>x. x \<noteq> CHR ''>'') (n @ attrs @ CHR ''>'' # txt @ CHR ''<'' # CHR ''/'' # n @ CHR ''>'' # rest) = n @ attrs"
    using takeWhile_stop [of "CHR ''>''" "n @ attrs"] assms(1,4) by (simp add: name_ok_def)
  have m: "takeWhile (\<lambda>x. x \<noteq> CHR '' '') (n @ attrs) = n"
    using takeWhile_stop [of "CHR '' ''" n "tl attrs"] takeWhile_all [of "CHR '' ''" n] assms(1,3) by (cases attrs) (auto simp: name_ok_def)
  have x: "takeWhile (\<lambda>x. x \<noteq> CHR ''<'') (txt @ CHR ''<'' # CHR ''/'' # n @ CHR ''>'' # rest) = txt"
    using takeWhile_stop [of "CHR ''<''" "txt"] assms(2) by (simp add: text_ok_def)
  have "HasPrefix (CHR ''<'' # CHR ''/'' # n @ CHR ''>'' # rest) (''</'' @ n @ ''>'')" by (simp add: HasPrefix_iff)
  then show ?thesis using assms(1,2) c by (simp add: leaf_texts.simps(2) t m x Let_def name_ok_def text_ok_def)
qed

lemma leaf_open:
  assumes "CHR ''>'' \<notin> set tag"
  shows "leaf_texts (''<'' @ tag @ ''>'' @ newline @ rest) = leaf_texts rest"
proof -
  have t: "takeWhile (\<lambda>x. x \<noteq> CHR ''>'') (tag @ CHR ''>'' # CHR 0x0A # rest) = tag" using takeWhile_stop assms by metis
  show ?thesis using leaf_skip [of newline rest] by (simp add: leaf_texts.simps(2) t newline_def Let_def)
qed

lemma leaf_close: "CHR ''>'' \<notin> set n \<Longrightarrow> leaf_texts (''</'' @ n @ ''>'' @ rest) = leaf_texts rest"
  using takeWhile_stop [of "CHR ''>''" "CHR ''/'' # n" rest] by (simp add: leaf_texts.simps(2) Let_def)

lemma leaf_elem:
  assumes "name_ok n" "text_ok txt" "CHR ''<'' \<notin> set indent"
  shows "leaf_texts (elem indent n txt @ rest) = (n, unescapeXML txt) # leaf_texts rest"
  using leaf_element [OF assms(1,2), of "''''" "newline @ rest"] leaf_skip [OF assms(3)] leaf_skip [of newline rest]
  by (simp add: elem_def newline_def)

lemma leaf_root: "CHR ''>'' \<notin> set tag \<Longrightarrow> leaf_texts (open_root tag @ rest) = leaf_texts rest"
proof -
  assume tag: "CHR ''>'' \<notin> set tag"
  have "CHR ''>'' \<notin> set ('' xmlns='' @ dquote xmlNS)" "CHR ''>'' \<notin> set (''?xml version='' @ dquote ''1.0'' @ '' encoding='' @ dquote ''UTF-8'' @ ''?'')"
    by code_simp+
  with leaf_open [of "tag @ '' xmlns='' @ dquote xmlNS" rest] tag
    leaf_open [of "''?xml version='' @ dquote ''1.0'' @ '' encoding='' @ dquote ''UTF-8'' @ ''?''"]
  show ?thesis by (simp add: open_root_def xml_decl_def)
qed

lemma leaf_concat:
  assumes "\<And>x rest. leaf_texts (f x @ rest) = g x @ leaf_texts rest"
  shows "leaf_texts (concat (map f xs) @ rest) = concat (map g xs) @ leaf_texts rest"
  by (induction xs) (simp_all add: assms)

lemmas leaf_pieces = leaf_root leaf_elem leaf_close

lemma names_ok [simp]:
  "list_all name_ok [''Code'', ''Message'', ''ID'', ''DisplayName'', ''Name'', ''CreationDate'', ''Prefix'', ''Delimiter'', ''KeyCount'', ''IsTruncated'',
     ''ContinuationToken'', ''StartAfter'', ''NextContinuationToken'', ''Key'', ''LastModified'', ''ETag'', ''Size'', ''StorageClass'', ''Bucket'', ''UploadId'',
     ''Location'', ''PartNumber'', ''Initiated'', ''LocationConstraint'']"
  by code_simp

text \<open>The fields of an object, a part and an upload in a listing; a key that ends in a slash is left out.\<close>

definition object_fields :: "Object \<Rightarrow> (string \<times> string) list" where
  "object_fields obj =
     (if HasSuffix (oKey obj) ''/'' then []
      else [(''Key'', xml_value (oKey obj)), (''LastModified'', formatS3Time (oUpdatedAt obj)), (''ETag'', dquote (xml_value (oETag obj))),
            (''Size'', FormatInt (oSize obj)), (''StorageClass'', ''STANDARD'')])"

definition part_fields :: "MultipartPart \<Rightarrow> (string \<times> string) list" where
  "part_fields p = [(''PartNumber'', FormatInt (mPartNumber p)), (''LastModified'', formatS3Time (mUpdatedAt p)),
     (''ETag'', dquote (xml_value (mETag p))), (''Size'', FormatInt (mSize p))]"

definition upload_fields :: "MultipartUpload \<Rightarrow> (string \<times> string) list" where
  "upload_fields u = [(''Key'', xml_value (uKey u)), (''UploadId'', xml_value (uID u)), (''Initiated'', formatS3Time (uCreatedAt u))]"

lemma fixed_text [simp]: "text_ok ''STANDARD''" "text_ok ''true''" "text_ok ''false''" "text_ok ''owner''" "text_ok ''us-east-1''"
  "unescapeXML ''STANDARD'' = ''STANDARD''" "unescapeXML ''true'' = ''true''" "unescapeXML ''false'' = ''false''" "unescapeXML ''owner'' = ''owner''"
  "unescapeXML ''us-east-1'' = ''us-east-1''"
  by (simp_all add: text_ok_def unescape_id)

text \<open>A group of elements, on lines of its own.\<close>

lemma leaf_group:
  assumes "CHR ''>'' \<notin> set tag" "CHR ''<'' \<notin> set indent" "\<And>rest. leaf_texts (body @ rest) = fs @ leaf_texts rest"
  shows "leaf_texts (indent @ ''<'' @ tag @ ''>'' @ newline @ body @ indent @ ''</'' @ tag @ ''>'' @ newline @ rest) = fs @ leaf_texts rest"
  using leaf_skip [OF assms(2)] leaf_open [OF assms(1)] leaf_close [OF assms(1)] leaf_skip [of newline rest] assms(3) by (simp add: newline_def)

lemma leaf_items:
  "leaf_texts (bucket_xml b @ rest) = [(''Name'', xml_value (bName b)), (''CreationDate'', formatS3Time (bCreatedAt b))] @ leaf_texts rest"
  "leaf_texts (object_xml obj @ rest) = object_fields obj @ leaf_texts rest"
  "leaf_texts (prefix_xml cp @ rest) = [(''Prefix'', xml_value cp)] @ leaf_texts rest"
  "leaf_texts (part_xml p @ rest) = part_fields p @ leaf_texts rest"
  "leaf_texts (upload_xml u @ rest) = upload_fields u @ leaf_texts rest"
  "leaf_texts (deleted_xml key @ rest) = [(''Key'', xml_value key)] @ leaf_texts rest"
  "leaf_texts (delete_error_xml e @ rest) =
     [(''Key'', xml_value (deKey e)), (''Code'', xml_value (deCode e)), (''Message'', xml_value (deMessage e))] @ leaf_texts rest"
proof -
  note e = names_ok [simplified]
  show "leaf_texts (bucket_xml b @ rest) = [(''Name'', xml_value (bName b)), (''CreationDate'', formatS3Time (bCreatedAt b))] @ leaf_texts rest"
    using leaf_group [of "''Bucket''" "''    ''" "elem ''      '' ''Name'' (escapeXML (bName b)) @ elem ''      '' ''CreationDate'' (formatS3Time (bCreatedAt b))"
        "[(''Name'', xml_value (bName b)), (''CreationDate'', formatS3Time (bCreatedAt b))]" rest] e
    by (simp add: bucket_xml_def leaf_elem)
  show "leaf_texts (object_xml obj @ rest) = object_fields obj @ leaf_texts rest"
    using leaf_group [of "''Contents''" "''  ''" "elem ''    '' ''Key'' (escapeXML (oKey obj)) @ elem ''    '' ''LastModified'' (formatS3Time (oUpdatedAt obj)) @
        elem ''    '' ''ETag'' (quot (escapeXML (oETag obj))) @ elem ''    '' ''Size'' (FormatInt (oSize obj)) @ elem ''    '' ''StorageClass'' ''STANDARD''"
        "[(''Key'', xml_value (oKey obj)), (''LastModified'', formatS3Time (oUpdatedAt obj)), (''ETag'', dquote (xml_value (oETag obj))),
            (''Size'', FormatInt (oSize obj)), (''StorageClass'', ''STANDARD'')]" rest] e
    by (simp add: object_xml_def object_fields_def leaf_elem)
  show "leaf_texts (prefix_xml cp @ rest) = [(''Prefix'', xml_value cp)] @ leaf_texts rest"
    using leaf_group [of "''CommonPrefixes''" "''  ''" "elem ''    '' ''Prefix'' (escapeXML cp)" "[(''Prefix'', xml_value cp)]" rest] e
    by (simp add: prefix_xml_def leaf_elem)
  show "leaf_texts (part_xml p @ rest) = part_fields p @ leaf_texts rest"
    using leaf_group [of "''Part''" "''  ''" "elem ''    '' ''PartNumber'' (FormatInt (mPartNumber p)) @ elem ''    '' ''LastModified'' (formatS3Time (mUpdatedAt p)) @
        elem ''    '' ''ETag'' (quot (escapeXML (mETag p))) @ elem ''    '' ''Size'' (FormatInt (mSize p))" "part_fields p" rest] e
    by (simp add: part_xml_def part_fields_def leaf_elem)
  show "leaf_texts (upload_xml u @ rest) = upload_fields u @ leaf_texts rest"
    using leaf_group [of "''Upload''" "''  ''" "elem ''    '' ''Key'' (escapeXML (uKey u)) @ elem ''    '' ''UploadId'' (escapeXML (uID u)) @
        elem ''    '' ''Initiated'' (formatS3Time (uCreatedAt u))" "upload_fields u" rest] e
    by (simp add: upload_xml_def upload_fields_def leaf_elem)
  show "leaf_texts (deleted_xml key @ rest) = [(''Key'', xml_value key)] @ leaf_texts rest"
    using leaf_group [of "''Deleted''" "''  ''" "elem ''    '' ''Key'' (escapeXML key)" "[(''Key'', xml_value key)]" rest] e
    by (simp add: deleted_xml_def leaf_elem)
  show "leaf_texts (delete_error_xml e' @ rest) =
     [(''Key'', xml_value (deKey e')), (''Code'', xml_value (deCode e')), (''Message'', xml_value (deMessage e'))] @ leaf_texts rest" for e'
    using leaf_group [of "''Error''" "''  ''" "elem ''    '' ''Key'' (escapeXML (deKey e')) @ elem ''    '' ''Code'' (escapeXML (deCode e')) @
        elem ''    '' ''Message'' (escapeXML (deMessage e'))"
        "[(''Key'', xml_value (deKey e')), (''Code'', xml_value (deCode e')), (''Message'', xml_value (deMessage e'))]" rest] e
    by (simp add: delete_error_xml_def leaf_elem)
qed

text \<open>The two parts of the document of a listing: what the request asked for, and the tokens of a paged listing.\<close>

definition listing_fields :: "ListObjectsParams \<Rightarrow> (string \<times> string) list" where
  "listing_fields p =
     (let r = lpResult p in
      [(''Name'', xml_value (lpBucket p)), (''Prefix'', xml_value (lpPrefix p))] @
      (if lpDelimiter p = '''' then [] else [(''Delimiter'', xml_value (lpDelimiter p))]) @
      (if lpListType2 p then [(''KeyCount'', FormatInt (int (length (rObjects r))))] else []) @
      [(''IsTruncated'', if rIsTruncated r then ''true'' else ''false'')] @
      (if lpListType2 p \<and> lpContinuationToken p \<noteq> '''' then [(''ContinuationToken'', xml_value (lpContinuationToken p))] else []) @
      (if lpListType2 p \<and> lpStartAfter p \<noteq> '''' then [(''StartAfter'', xml_value (lpStartAfter p))] else []) @
      (if lpListType2 p \<and> rIsTruncated r \<and> rNextContinuationToken r \<noteq> ''''
       then [(''NextContinuationToken'', xml_value (rNextContinuationToken r))] else []) @
      concat (map object_fields (rObjects r)) @ map (\<lambda>cp. (''Prefix'', xml_value cp)) (rCommonPrefixes r))"

lemma leaf_listing: "leaf_texts (rsBody (WriteListObjects p)) = listing_fields p"
proof -
  note e = names_ok [simplified]
  have o: "leaf_texts (concat (map object_xml objs) @ rest) = concat (map object_fields objs) @ leaf_texts rest" for objs rest
    by (rule leaf_concat) (rule leaf_items(2))
  have c: "leaf_texts (concat (map prefix_xml cps) @ rest) = map (\<lambda>cp. (''Prefix'', xml_value cp)) cps @ leaf_texts rest" for cps rest
    using leaf_concat [of prefix_xml "\<lambda>cp. [(''Prefix'', xml_value cp)]" cps rest, OF leaf_items(3)] by (simp add: concat_map_singleton)
  have close: "leaf_texts (''</ListBucketResult>'' @ newline) = []"
    using leaf_close [of "''ListBucketResult''" newline] leaf_skip [of newline "''''"] by (simp add: newline_def)
  show ?thesis
    using e close by (simp add: WriteListObjects_def xml_response_def listing_fields_def leaf_pieces o c Let_def)
qed

text \<open>
  C30: the XML responses say what they are meant to say. Whatever names, keys, tokens, ETags and messages are written, a reader of the
  document finds exactly the elements of the response, in order, each with its value: nothing a client
  has chosen can add, remove or change an element. The value read is the string itself when XML can carry it (\<open>xml_value_id\<close>);
  every rune it cannot carry reads as U+FFFD. This holds for the error document and for all nine result documents.
\<close>

theorem responses_roundtrip:
  "leaf_texts (rsBody (WriteError c m status)) = [(''Code'', xml_value c), (''Message'', xml_value m)] \<and>
   leaf_texts (rsBody (WriteListBuckets buckets)) = [(''ID'', ''owner''), (''DisplayName'', ''owner'')] @
     concat (map (\<lambda>b. [(''Name'', xml_value (bName b)), (''CreationDate'', formatS3Time (bCreatedAt b))]) buckets) \<and>
   leaf_texts (rsBody (WriteListObjects p)) = listing_fields p \<and>
   leaf_texts (rsBody WriteBucketLocation) = [(''LocationConstraint'', ''us-east-1'')] \<and>
   leaf_texts (rsBody (WriteInitiateMultipartUpload bucket key uploadID)) =
     [(''Bucket'', xml_value bucket), (''Key'', xml_value key), (''UploadId'', xml_value uploadID)] \<and>
   leaf_texts (rsBody (WriteCompleteMultipartUpload bucket key location etag)) =
     [(''Location'', xml_value location), (''Bucket'', xml_value bucket), (''Key'', xml_value key), (''ETag'', dquote (xml_value etag))] \<and>
   leaf_texts (rsBody (WriteListParts bucket key uploadID parts)) =
     [(''Bucket'', xml_value bucket), (''Key'', xml_value key), (''UploadId'', xml_value uploadID), (''IsTruncated'', ''false'')] @
     concat (map part_fields parts) \<and>
   leaf_texts (rsBody (WriteListMultipartUploads bucket uploads)) =
     [(''Bucket'', xml_value bucket), (''IsTruncated'', ''false'')] @ concat (map upload_fields uploads) \<and>
   leaf_texts (rsBody (WriteCopyObjectResult etag t)) = [(''LastModified'', formatS3Time t), (''ETag'', dquote (xml_value etag))] \<and>
   leaf_texts (rsBody (WriteDeleteObjectsResult deleted errs)) = map (\<lambda>k. (''Key'', xml_value k)) deleted @
     concat (map (\<lambda>e. [(''Key'', xml_value (deKey e)), (''Code'', xml_value (deCode e)), (''Message'', xml_value (deMessage e))]) errs)"
proof (intro conjI)
  note e = names_ok [simplified]
  have nl: "leaf_texts newline = []" using leaf_skip [of newline "''''"] by (simp add: newline_def)
  have close: "leaf_texts (''</'' @ n @ ''>'' @ newline) = []" "leaf_texts (''</'' @ n @ ''>'') = []" if "CHR ''>'' \<notin> set n" for n
    using leaf_close [OF that, of newline] leaf_close [OF that, of "''''"] nl by simp_all
  have d: "CHR ''>'' \<notin> set (''?xml version='' @ dquote ''1.0'' @ '' encoding='' @ dquote ''UTF-8'' @ ''?'')" "CHR ''>'' \<notin> set ('' xmlns='' @ dquote xmlNS)"
    by code_simp+
  have decl: "leaf_texts (xml_decl @ rest) = leaf_texts rest" for rest
    using leaf_open [OF d(1), of rest] by (simp add: xml_decl_def)
  have "rsBody (WriteError c m status) = xml_decl @ ''<'' @ ''Error'' @ ''>'' @ newline @ elem ''  '' ''Code'' (escapeXML c) @
      elem ''  '' ''Message'' (escapeXML m) @ ''</'' @ ''Error'' @ ''>''"
    by (simp add: WriteError_def xml_decl_def elem_def dquote_def)
  then show "leaf_texts (rsBody (WriteError c m status)) = [(''Code'', xml_value c), (''Message'', xml_value m)]"
    using e close(2) [of "''Error''"] leaf_open [of "''Error''"] by (simp add: decl leaf_elem)
  let ?owner = "''<'' @ ''Owner'' @ ''>'' @ ''<'' @ ''ID'' @ ''>'' @ ''owner'' @ ''</'' @ ''ID'' @ ''>'' @ ''<'' @ ''DisplayName'' @ ''>'' @ ''owner'' @ ''</'' @
      ''DisplayName'' @ ''>'' @ ''</'' @ ''Owner'' @ ''>'' @ newline"
  have owner: "leaf_texts (?owner @ rest) = [(''ID'', ''owner''), (''DisplayName'', ''owner'')] @ leaf_texts rest" for rest
  proof -
    have "leaf_texts (''<'' @ ''Owner'' @ ''>'' @ ''<'' @ rest) = leaf_texts (''<'' @ rest)" if "hd rest \<noteq> CHR ''/''" "rest \<noteq> []" for rest
      using that by (cases rest) (simp_all add: leaf_texts.simps(2) Let_def)
    then show ?thesis
      using leaf_element [of "''ID''" "''owner''" "''''"] leaf_element [of "''DisplayName''" "''owner''" "''''"] leaf_close [of "''Owner''"]
        leaf_skip [of newline rest] e by (simp add: newline_def)
  qed
  have b: "leaf_texts (concat (map bucket_xml bs) @ rest) =
      concat (map (\<lambda>b. [(''Name'', xml_value (bName b)), (''CreationDate'', formatS3Time (bCreatedAt b))]) bs) @ leaf_texts rest" for bs rest
    by (rule leaf_concat) (rule leaf_items(1))
  have "rsBody (WriteListBuckets buckets) = open_root ''ListAllMyBucketsResult'' @ ''  '' @ ?owner @ ''  '' @ ''<'' @ ''Buckets'' @ ''>'' @ newline @
      concat (map bucket_xml buckets) @ ''  '' @ ''</'' @ ''Buckets'' @ ''>'' @ newline @ ''</'' @ ''ListAllMyBucketsResult'' @ ''>'' @ newline"
    by (simp add: WriteListBuckets_def xml_response_def)
  then show "leaf_texts (rsBody (WriteListBuckets buckets)) = [(''ID'', ''owner''), (''DisplayName'', ''owner'')] @
     concat (map (\<lambda>b. [(''Name'', xml_value (bName b)), (''CreationDate'', formatS3Time (bCreatedAt b))]) buckets)"
  proof -
    have "leaf_texts (''  '' @ rest) = leaf_texts rest" "leaf_texts (open_root ''ListAllMyBucketsResult'' @ rest) = leaf_texts rest"
      "leaf_texts (''<'' @ ''Buckets'' @ ''>'' @ newline @ rest) = leaf_texts rest" "leaf_texts (''</'' @ ''Buckets'' @ ''>'' @ newline @ rest) = leaf_texts rest"
      "leaf_texts (''</'' @ ''ListAllMyBucketsResult'' @ ''>'' @ newline) = []" for rest
      using leaf_skip [of "''  ''"] leaf_root [of "''ListAllMyBucketsResult''"] leaf_open [of "''Buckets''"] leaf_close [of "''Buckets''" "newline @ rest"]
        leaf_skip [of newline rest] close(1) [of "''ListAllMyBucketsResult''"] by (simp_all add: newline_def)
    then show ?thesis
      unfolding \<open>rsBody (WriteListBuckets buckets) = _\<close> by (simp only: owner b append_Nil2)
  qed
  show "leaf_texts (rsBody (WriteListObjects p)) = listing_fields p" by (rule leaf_listing)
  have "rsBody WriteBucketLocation = xml_decl @ ''<'' @ ''LocationConstraint'' @ ('' xmlns='' @ dquote xmlNS) @ ''>'' @ ''us-east-1'' @ ''</'' @
      ''LocationConstraint'' @ ''>'' @ ''''"
    by (simp add: WriteBucketLocation_def xml_response_def)
  then show "leaf_texts (rsBody WriteBucketLocation) = [(''LocationConstraint'', ''us-east-1'')]"
    using leaf_element [of "''LocationConstraint''" "''us-east-1''" "'' xmlns='' @ dquote xmlNS" "''''"] d(2) e by (simp only: decl) simp
  show "leaf_texts (rsBody (WriteInitiateMultipartUpload bucket key uploadID)) =
     [(''Bucket'', xml_value bucket), (''Key'', xml_value key), (''UploadId'', xml_value uploadID)]"
    using e close(2) [of "''InitiateMultipartUploadResult''"] by (simp add: WriteInitiateMultipartUpload_def xml_response_def leaf_pieces)
  show "leaf_texts (rsBody (WriteCompleteMultipartUpload bucket key location etag)) =
     [(''Location'', xml_value location), (''Bucket'', xml_value bucket), (''Key'', xml_value key), (''ETag'', dquote (xml_value etag))]"
    using e close(2) [of "''CompleteMultipartUploadResult''"] by (simp add: WriteCompleteMultipartUpload_def xml_response_def leaf_pieces)
  have pt: "leaf_texts (concat (map part_xml ps) @ rest) = concat (map part_fields ps) @ leaf_texts rest" for ps rest
    by (rule leaf_concat) (rule leaf_items(4))
  show "leaf_texts (rsBody (WriteListParts bucket key uploadID parts)) =
     [(''Bucket'', xml_value bucket), (''Key'', xml_value key), (''UploadId'', xml_value uploadID), (''IsTruncated'', ''false'')] @
     concat (map part_fields parts)"
    using e close(1) [of "''ListPartsResult''"] by (simp add: WriteListParts_def xml_response_def leaf_pieces pt)
  have up: "leaf_texts (concat (map upload_xml us) @ rest) = concat (map upload_fields us) @ leaf_texts rest" for us rest
    by (rule leaf_concat) (rule leaf_items(5))
  show "leaf_texts (rsBody (WriteListMultipartUploads bucket uploads)) =
     [(''Bucket'', xml_value bucket), (''IsTruncated'', ''false'')] @ concat (map upload_fields uploads)"
    using e close(1) [of "''ListMultipartUploadsResult''"] by (simp add: WriteListMultipartUploads_def xml_response_def leaf_pieces up)
  show "leaf_texts (rsBody (WriteCopyObjectResult etag t)) = [(''LastModified'', formatS3Time t), (''ETag'', dquote (xml_value etag))]"
    using e close(2) [of "''CopyObjectResult''"] by (simp add: WriteCopyObjectResult_def xml_response_def leaf_pieces)
  have de: "leaf_texts (concat (map deleted_xml ks) @ rest) = map (\<lambda>k. (''Key'', xml_value k)) ks @ leaf_texts rest" for ks rest
    using leaf_concat [of deleted_xml "\<lambda>k. [(''Key'', xml_value k)]" ks rest, OF leaf_items(6)] by (simp add: concat_map_singleton)
  have er: "leaf_texts (concat (map delete_error_xml es) @ rest) =
      concat (map (\<lambda>e. [(''Key'', xml_value (deKey e)), (''Code'', xml_value (deCode e)), (''Message'', xml_value (deMessage e))]) es) @ leaf_texts rest"
    for es rest by (rule leaf_concat) (rule leaf_items(7))
  show "leaf_texts (rsBody (WriteDeleteObjectsResult deleted errs)) = map (\<lambda>k. (''Key'', xml_value k)) deleted @
     concat (map (\<lambda>e. [(''Key'', xml_value (deKey e)), (''Code'', xml_value (deCode e)), (''Message'', xml_value (deMessage e))]) errs)"
    using close(1) [of "''DeleteResult''"] by (simp add: WriteDeleteObjectsResult_def xml_response_def leaf_root de er)
qed

end
