(* ===== verification/Auth.thy ===== *)
theory Auth
  imports Http
begin

text \<open>
  \<^verbatim>\<open>internal/auth\<close>: AWS Signature Version 4. Requests are checked against the canonical form the code
  rebuilds from them; SHA-256 and HMAC are computed. The credential store is an argument of
  the verifier, the clock an argument of the calls that read it. Case mapping is that of ASCII
  (the code applies it to methods, header names and hexadecimal digits).
\<close>

section \<open>encode.go\<close>

definition isUnreserved :: "char \<Rightarrow> bool" where
  "isUnreserved c \<longleftrightarrow> is_alnum c \<or> c = CHR ''-'' \<or> c = CHR ''_'' \<or> c = CHR ''.'' \<or> c = CHR ''~''"

definition hexUpper :: "char \<Rightarrow> string" where
  "hexUpper b = [upper_hex (of_char b div 16), upper_hex (of_char b mod 16)]"

definition encode_rune :: "string \<Rightarrow> string" where
  "encode_rune r = (if length r = 1 \<and> isUnreserved (hd r) then r else concat (map (\<lambda>b. CHR ''%'' # hexUpper b) r))"

definition UriEncodeStrict :: "string \<Rightarrow> string" where
  "UriEncodeStrict value = concat (map encode_rune (runes value))"

fun collapse :: "bool \<Rightarrow> string list \<Rightarrow> string" where
  "collapse prevSpace [] = []"
| "collapse prevSpace (r # rs) =
     (if r = '' '' then (if prevSpace then '''' else r) @ collapse True rs else r @ collapse False rs)"

definition CollapseSpaces :: "string \<Rightarrow> string" where
  "CollapseSpaces value = (if \<not> Contains value ''  '' then value else collapse False (runes value))"

section \<open>signing.go\<close>

definition HmacSHA256 :: "string \<Rightarrow> string \<Rightarrow> string" where
  "HmacSHA256 key msg = hmac_sha256 key msg"

definition DeriveSigningKey :: "string \<Rightarrow> string \<Rightarrow> string \<Rightarrow> string \<Rightarrow> string" where
  "DeriveSigningKey secretAccessKey date region service =
     (let kDate = HmacSHA256 (''AWS4'' @ secretAccessKey) date;
          kRegion = HmacSHA256 kDate region;
          kService = HmacSHA256 kRegion service
      in HmacSHA256 kService ''aws4_request'')"

definition SHA256Hex :: "string \<Rightarrow> string" where
  "SHA256Hex d = hex_encode (sha256 d)"

definition HexEncode :: "string \<Rightarrow> string" where
  "HexEncode b = hex_encode b"

definition SignaturesEqual :: "string \<Rightarrow> string \<Rightarrow> bool" where
  "SignaturesEqual expected actual \<longleftrightarrow> expected = actual"

section \<open>Requests\<close>

text \<open>
  What the package reads of an \<^verbatim>\<open>http.Request\<close>: the decoded path, the path as \<^verbatim>\<open>EscapedPath\<close> gives it, the
  raw query, the host, the headers, and the body as \<^verbatim>\<open>io.ReadAll\<close> returns it.
\<close>

record sig_req =
  qMethod :: string
  qPath :: string
  qEscapedPath :: string
  qRawQuery :: string
  qHost :: string
  qHeader :: header
  qBody :: "string res"

definition header_values :: "header \<Rightarrow> string \<Rightarrow> string list" where
  "header_values h k = (case map_of h (CanonicalHeaderKey k) of Some vs \<Rightarrow> vs | None \<Rightarrow> [])"

definition Cut :: "char \<Rightarrow> string \<Rightarrow> string \<times> string" where
  "Cut c s = (takeWhile (\<lambda>x. x \<noteq> c) s, drop 1 (dropWhile (\<lambda>x. x \<noteq> c) s))"

text \<open>\<^verbatim>\<open>url.QueryUnescape\<close>: as for paths, and a plus sign is a space.\<close>

fun QueryUnescape :: "string \<Rightarrow> string option" where
  "QueryUnescape [] = Some []"
| "QueryUnescape (c # s) =
     (if c = CHR ''%'' then
        (case s of
           a # b # t \<Rightarrow>
             (case (unhex_digit a, unhex_digit b) of
                (Some x, Some y) \<Rightarrow> map_option (Cons (byte (16 * x + y))) (QueryUnescape t)
              | _ \<Rightarrow> None)
         | _ \<Rightarrow> None)
      else map_option (Cons (if c = CHR ''+'' then CHR '' '' else c)) (QueryUnescape s))"

text \<open>
  \<^verbatim>\<open>URL.Query()\<close>: the pairs of the query in their order; malformed ones are dropped. The map of
  the code groups them by key, which neither \<^verbatim>\<open>Has\<close>, \<^verbatim>\<open>Get\<close> nor a sorted listing can tell apart.
\<close>

definition parse_pair :: "string \<Rightarrow> (string \<times> string) option" where
  "parse_pair part =
     (if part = '''' \<or> CHR '';'' \<in> set part then None
      else case Cut (CHR ''='') part of (k, v) \<Rightarrow>
        (case (QueryUnescape k, QueryUnescape v) of (Some k', Some v') \<Rightarrow> Some (k', v') | _ \<Rightarrow> None))"

definition parse_query :: "string \<Rightarrow> (string \<times> string) list" where
  "parse_query raw = List.map_filter parse_pair (Split (CHR ''&'') raw)"

definition query_has :: "(string \<times> string) list \<Rightarrow> string \<Rightarrow> bool" where
  "query_has q k \<longleftrightarrow> k \<in> fst ` set q"

definition query_get :: "(string \<times> string) list \<Rightarrow> string \<Rightarrow> string" where
  "query_get q k = (case map_of q k of Some v \<Rightarrow> v | None \<Rightarrow> '''')"

section \<open>canonical.go\<close>

record ParsedSig =
  psAccessKeyID :: string
  psDate :: string
  psRegion :: string
  psService :: string
  psSignedHeaders :: "string list"
  psSignature :: string
  psIsPresigned :: bool

record RequestContext =
  ctxMethod :: string
  ctxPath :: string
  ctxRawQuery :: string
  ctxHost :: string
  ctxHeaders :: header
  ctxQuery :: "(string \<times> string) list"
  ctxIsPresigned :: bool
  ctxPayloadHashDeclared :: string

definition RequestContextFromHTTP :: "sig_req \<Rightarrow> RequestContext" where
  "RequestContextFromHTTP r =
     \<lparr>ctxMethod = qMethod r, ctxPath = qPath r, ctxRawQuery = qRawQuery r,
      ctxHost = (if qHost r = '''' then header_get (qHeader r) ''Host'' else qHost r),
      ctxHeaders = qHeader r, ctxQuery = parse_query (qRawQuery r),
      ctxIsPresigned = query_has (parse_query (qRawQuery r)) ''X-Amz-Algorithm'',
      ctxPayloadHashDeclared = header_get (qHeader r) ''x-amz-content-sha256''\<rparr>"

definition CanonicalURI :: "string \<Rightarrow> string" where
  "CanonicalURI path =
     (let decoded = (case PathUnescape path of None \<Rightarrow> path | Some d \<Rightarrow> d);
          decoded = (if decoded = '''' then ''/'' else decoded)
      in Join (map UriEncodeStrict (Split (CHR ''/'') decoded)) ''/'')"

definition decodeQueryComponent :: "string \<Rightarrow> string" where
  "decodeQueryComponent s = (case QueryUnescape s of None \<Rightarrow> s | Some d \<Rightarrow> d)"

text \<open>\<^verbatim>\<open>sort.Slice\<close> by key, then value; pairs that compare equal are equal.\<close>

definition sort_pairs :: "(string \<times> string) list \<Rightarrow> (string \<times> string) list" where
  "sort_pairs ps = sort_key fst (sort_key snd ps)"

definition join_pairs :: "(string \<times> string) list \<Rightarrow> string" where
  "join_pairs ps = Join (map (\<lambda>(k, v). k @ ''='' @ v) ps) ''&''"

definition raw_pairs :: "string \<Rightarrow> (string \<times> string) list" where
  "raw_pairs raw =
     map (\<lambda>part. case Cut (CHR ''='') part of (k, v) \<Rightarrow>
            (UriEncodeStrict (decodeQueryComponent k), UriEncodeStrict (decodeQueryComponent v)))
       (filter (\<lambda>part. part \<noteq> '''') (Split (CHR ''&'') raw))"

definition CanonicalQueryString :: "RequestContext \<Rightarrow> string" where
  "CanonicalQueryString ctx =
     join_pairs (sort_pairs
       (if ctxIsPresigned ctx
        then map (\<lambda>(k, v). (UriEncodeStrict k, UriEncodeStrict v))
               (filter (\<lambda>(k, v). k \<noteq> ''X-Amz-Signature'') (ctxQuery ctx))
        else raw_pairs (ctxRawQuery ctx)))"

definition header_line :: "RequestContext \<Rightarrow> string \<Rightarrow> string" where
  "header_line ctx name =
     (let name = ToLower (TrimSpace name);
          value = (if name = ''host'' then ctxHost ctx
                   else Join (map (\<lambda>v. CollapseSpaces (TrimSpace v)) (header_values (ctxHeaders ctx) name)) '','')
      in name @ '':'' @ value @ newline)"

definition CanonicalHeaders :: "RequestContext \<Rightarrow> string list \<Rightarrow> string" where
  "CanonicalHeaders ctx signedHeaders = concat (map (header_line ctx) signedHeaders)"

definition PayloadHash :: "RequestContext \<Rightarrow> string" where
  "PayloadHash ctx = (if ctxPayloadHashDeclared ctx = '''' then ''UNSIGNED-PAYLOAD'' else ctxPayloadHashDeclared ctx)"

definition BuildCanonicalRequest :: "RequestContext \<Rightarrow> ParsedSig \<Rightarrow> string" where
  "BuildCanonicalRequest ctx parsed =
     Join [ToUpper (ctxMethod ctx), CanonicalURI (ctxPath ctx), CanonicalQueryString ctx,
           CanonicalHeaders ctx (psSignedHeaders parsed), Join (psSignedHeaders parsed) '';'', PayloadHash ctx] newline"

definition RequestTimestamp :: "RequestContext \<Rightarrow> string \<Rightarrow> string" where
  "RequestTimestamp ctx date =
     (let ts = TrimSpace (header_get (ctxHeaders ctx) ''x-amz-date'');
          ts = (if ts = '''' then TrimSpace (query_get (ctxQuery ctx) ''X-Amz-Date'') else ts)
      in if ts = '''' \<and> length date = 8 then date @ ''T000000Z'' else ts)"

definition BuildStringToSign :: "RequestContext \<Rightarrow> ParsedSig \<Rightarrow> string \<Rightarrow> string" where
  "BuildStringToSign ctx parsed canonicalRequest =
     Join [''AWS4-HMAC-SHA256'', RequestTimestamp ctx (psDate parsed),
           psDate parsed @ ''/'' @ psRegion parsed @ ''/'' @ psService parsed @ ''/aws4_request'',
           SHA256Hex canonicalRequest] newline"

definition hexDecodeSignature :: "string \<Rightarrow> string option" where
  "hexDecodeSignature sig = hex_decode (ToLower (TrimSpace sig))"

definition signaturesMatch :: "string \<Rightarrow> string \<Rightarrow> bool" where
  "signaturesMatch expected actual =
     (case (hexDecodeSignature expected, hexDecodeSignature actual) of
        (Some x, Some y) \<Rightarrow> x = y
      | _ \<Rightarrow> False)"

definition expected_signature :: "string \<Rightarrow> ParsedSig \<Rightarrow> RequestContext \<Rightarrow> string" where
  "expected_signature secretAccessKey parsed ctx =
     HexEncode (HmacSHA256 (DeriveSigningKey secretAccessKey (psDate parsed) (psRegion parsed) (psService parsed))
       (BuildStringToSign ctx parsed (BuildCanonicalRequest ctx parsed)))"

definition VerifySignature :: "string \<Rightarrow> ParsedSig \<Rightarrow> RequestContext \<Rightarrow> bool \<times> string \<times> string" where
  "VerifySignature secretAccessKey parsed ctx =
     (let expected = expected_signature secretAccessKey parsed ctx
      in (signaturesMatch expected (psSignature parsed), expected, BuildCanonicalRequest ctx parsed))"

section \<open>parser.go\<close>

datatype auth_error = AuthError string string int | StoreError goerr

definition bad_scope :: auth_error where
  "bad_scope = AuthError ''InvalidAccessKeyId'' ''Invalid credential scope.'' 403"

definition parseCredential :: "string \<Rightarrow> string list \<Rightarrow> string \<Rightarrow> bool \<Rightarrow> auth_error + ParsedSig" where
  "parseCredential credential signedHeaders signature presigned =
     (let segments = Split (CHR ''/'') credential in
      if length segments < 5 then Inl bad_scope
      else Inr \<lparr>psAccessKeyID = segments ! 0, psDate = segments ! 1, psRegion = segments ! 2, psService = segments ! 3,
                psSignedHeaders = signedHeaders, psSignature = signature, psIsPresigned = presigned\<rparr>)"

text \<open>The three values the loop over the parts of the header collects, the last occurrence winning.\<close>

fun auth_parts :: "string list \<Rightarrow> string \<times> string \<times> string \<Rightarrow> string \<times> string \<times> string" where
  "auth_parts [] acc = acc"
| "auth_parts (p # ps) (credential, signedHeaders, signature) =
     (let part = TrimSpace p in
      auth_parts ps
        (if HasPrefix part ''Credential='' then (TrimPrefix part ''Credential='', signedHeaders, signature)
         else if HasPrefix part ''SignedHeaders='' then (credential, TrimPrefix part ''SignedHeaders='', signature)
         else if HasPrefix part ''Signature='' then (credential, signedHeaders, TrimPrefix part ''Signature='')
         else (credential, signedHeaders, signature)))"

definition parseAuthHeader :: "string \<Rightarrow> auth_error + ParsedSig" where
  "parseAuthHeader value =
     (case auth_parts (Split (CHR '','') value) ('''', '''', '''') of
        (credential, signedHeaders, signature) \<Rightarrow>
          if credential = '''' \<or> signedHeaders = '''' \<or> signature = ''''
          then Inl (AuthError ''InvalidArgument'' ''Malformed Authorization header.'' 400)
          else parseCredential credential (Split (CHR '';'') signedHeaders) signature False)"

definition parseQuerySig :: "sig_req \<Rightarrow> auth_error + ParsedSig" where
  "parseQuerySig r =
     (let q = parse_query (qRawQuery r);
          credential = query_get q ''X-Amz-Credential'';
          signedHeaders = query_get q ''X-Amz-SignedHeaders'';
          signature = query_get q ''X-Amz-Signature''
      in if credential = '''' \<or> signedHeaders = '''' \<or> signature = ''''
         then Inl (AuthError ''InvalidArgument'' ''Missing presigned URL parameters.'' 400)
         else parseCredential credential (Split (CHR '';'') signedHeaders) signature True)"

definition ParseSigV4 :: "sig_req \<Rightarrow> auth_error + ParsedSig option" where
  "ParseSigV4 r =
     (if query_has (parse_query (qRawQuery r)) ''X-Amz-Algorithm'' then map_sum (\<lambda>e. e) Some (parseQuerySig r)
      else let auth = header_get (qHeader r) ''Authorization'' in
        if auth = '''' then Inr None
        else if \<not> HasPrefix (ToUpper auth) ''AWS4-HMAC-SHA256 ''
        then Inl (AuthError ''InvalidArgument'' ''Only AWS4-HMAC-SHA256 is supported.'' 400)
        else map_sum (\<lambda>e. e) Some (parseAuthHeader (drop (length ''AWS4-HMAC-SHA256 '') auth)))"

end
