(* ===== verification/Verifier.thy ===== *)
theory Verifier
  imports Auth
begin

text \<open>
  \<^verbatim>\<open>verifier.go\<close>, \<^verbatim>\<open>middleware.go\<close>, \<^verbatim>\<open>signrequest.go\<close> and \<^verbatim>\<open>presign.go\<close>: checking requests, and the two
  ways to sign them.
\<close>

section \<open>Dates\<close>

text \<open>The day number of a civil date, and the days of a month.\<close>

definition day_number :: "int \<Rightarrow> int \<Rightarrow> int \<Rightarrow> int" where
  "day_number y m d =
     (let y = (if m \<le> 2 then y - 1 else y);
          era = y div 400;
          yoe = y - era * 400;
          mp = (m + 9) mod 12;
          doy = (153 * mp + 2) div 5 + d - 1
      in era * 146097 + yoe * 365 + yoe div 4 - yoe div 100 + doy - 719468)"

definition leap :: "int \<Rightarrow> bool" where
  "leap y \<longleftrightarrow> y mod 4 = 0 \<and> (y mod 100 \<noteq> 0 \<or> y mod 400 = 0)"

definition days_in :: "int \<Rightarrow> int \<Rightarrow> int" where
  "days_in y m = (if m = 2 then (if leap y then 29 else 28) else if m \<in> {4, 6, 9, 11} then 30 else 31)"

definition take_num :: "nat \<Rightarrow> string \<Rightarrow> (int \<times> string) option" where
  "take_num n s = (if n \<le> length s \<and> list_all is_digit (take n s) then Some (digits_val (take n s), drop n s) else None)"

text \<open>
  A fraction right after the seconds is accepted although the layout has none; of more than nine digits
  the first nine count.
\<close>

definition take_fraction :: "string \<Rightarrow> int \<times> string" where
  "take_fraction s =
     (case s of
        p # c # t \<Rightarrow>
          if (p = CHR ''.'' \<or> p = CHR '','') \<and> is_digit c
          then let ds = takeWhile is_digit (c # t); ds9 = take 9 ds
               in (digits_val ds9 * 10 ^ (9 - length ds9), dropWhile is_digit (c # t))
          else (0, s)
      | _ \<Rightarrow> (0, s))"

text \<open>\<^verbatim>\<open>time.Parse("20060102T150405Z", _)\<close>; None is the error.\<close>

definition parse_amz_date :: "string \<Rightarrow> time option" where
  "parse_amz_date s =
     Option.bind (take_num 4 s) (\<lambda>(y, s).
     Option.bind (take_num 2 s) (\<lambda>(mo, s).
     Option.bind (take_num 2 s) (\<lambda>(d, s).
     if \<not> HasPrefix s ''T'' then None else
     Option.bind (take_num 2 (drop 1 s)) (\<lambda>(h, s).
     Option.bind (take_num 2 s) (\<lambda>(mi, s).
     Option.bind (take_num 2 s) (\<lambda>(sec, s).
     case take_fraction s of (ns, s) \<Rightarrow>
       if s = ''Z'' \<and> 1 \<le> mo \<and> mo \<le> 12 \<and> 1 \<le> d \<and> d \<le> days_in y mo \<and> h < 24 \<and> mi < 60 \<and> sec < 60
       then Some ((day_number y mo d * 86400 + h * 3600 + mi * 60 + sec) * 10 ^ 9 + ns)
       else None))))))"

text \<open>\<^verbatim>\<open>ts.Format("20060102")\<close> and \<^verbatim>\<open>ts.Format("20060102T150405Z")\<close>.\<close>

definition amz_day :: "time \<Rightarrow> string" where
  "amz_day t = (case civil (t div 10 ^ 9 div 86400) of (y, m, d) \<Rightarrow> pad_digits 4 y @ pad_digits 2 m @ pad_digits 2 d)"

definition amz_date :: "time \<Rightarrow> string" where
  "amz_date t =
     (let sod = t div 10 ^ 9 mod 86400
      in amz_day t @ ''T'' @ pad_digits 2 (sod div 3600) @ pad_digits 2 (sod div 60 mod 60) @ pad_digits 2 (sod mod 60) @ ''Z'')"

section \<open>verifier.go\<close>

text \<open>The store hands out rows of the credentials table (\<open>GetCredential\<close>).\<close>

text \<open>\<^verbatim>\<open>now.Sub(t)\<close> saturates at the bounds of a 64-bit duration.\<close>

definition time_Sub :: "time \<Rightarrow> time \<Rightarrow> int" where
  "time_Sub t u = (if in_i64 (t - u) then t - u else if t < u then - (2 ^ 63) else 2 ^ 63 - 1)"

definition clockSkew :: int where
  "clockSkew = 15 * 60 * 10 ^ 9"

fun parse_int_loop :: "string \<Rightarrow> int \<Rightarrow> int option" where
  "parse_int_loop [] n = Some n"
| "parse_int_loop (c # s) n =
     (if \<not> is_digit c then None else parse_int_loop s (i64 (n * 10 + (of_char c - 48))))"

definition parseInt :: "string \<Rightarrow> int option" where
  "parseInt s = parse_int_loop s 0"

definition isTimestampFresh :: "time \<Rightarrow> sig_req \<Rightarrow> bool" where
  "isTimestampFresh now r =
     (let q = parse_query (qRawQuery r);
          raw = TrimSpace (header_get (qHeader r) ''x-amz-date'');
          raw = (if raw = '''' then TrimSpace (query_get q ''X-Amz-Date'') else raw)
      in case parse_amz_date raw of
           None \<Rightarrow> False
         | Some signingTime \<Rightarrow>
             if query_has q ''X-Amz-Expires'' then
               (case parseInt (query_get q ''X-Amz-Expires'') of
                  None \<Rightarrow> False
                | Some expiresSec \<Rightarrow>
                    expiresSec \<ge> 0 \<and> signingTime \<le> now \<and> now \<le> signingTime + i64 (expiresSec * 10 ^ 9))
             else let diff = time_Sub now signingTime;
                      diff = (if diff < 0 then i64 (- diff) else diff)
                  in diff \<le> clockSkew)"

definition verifyPayloadHash :: "sig_req \<Rightarrow> RequestContext \<Rightarrow> auth_error option" where
  "verifyPayloadHash r ctx =
     (let declared = TrimSpace (ctxPayloadHashDeclared ctx) in
      if declared = '''' \<or> ToLower declared = ToLower ''UNSIGNED-PAYLOAD'' \<or> HasPrefix (ToUpper declared) ''STREAMING-'' then None
      else case qBody r of
        Inl e \<Rightarrow> Some (StoreError e)
      | Inr body \<Rightarrow>
          if ToLower declared \<noteq> ToLower (SHA256Hex body)
          then Some (AuthError ''SignatureDoesNotMatch'' ''The payload hash does not match x-amz-content-sha256.'' 400)
          else None)"

definition no_credentials :: auth_error where
  "no_credentials = AuthError ''AccessDenied'' ''No credentials provided.'' 403"

definition unknown_key :: auth_error where
  "unknown_key = AuthError ''InvalidAccessKeyId'' ''The AWS access key Id you provided does not exist.'' 403"

definition request_expired :: auth_error where
  "request_expired = AuthError ''RequestExpired'' ''Request has expired. Check your system clock.'' 403"

definition bad_signature :: auth_error where
  "bad_signature = AuthError ''SignatureDoesNotMatch''
     ''The request signature we calculated does not match the signature you provided.'' 403"

definition VerifyRequest :: "(string \<Rightarrow> Credential option res) \<Rightarrow> time \<Rightarrow> sig_req \<Rightarrow> auth_error + Credential" where
  "VerifyRequest store now r =
     (case ParseSigV4 r of
        Inl e \<Rightarrow> Inl e
      | Inr None \<Rightarrow> Inl no_credentials
      | Inr (Some parsed) \<Rightarrow>
          (case store (psAccessKeyID parsed) of
             Inl e \<Rightarrow> Inl (StoreError e)
           | Inr None \<Rightarrow> Inl unknown_key
           | Inr (Some cred) \<Rightarrow>
               let reqCtx = RequestContextFromHTTP r in
               if \<not> isTimestampFresh now r then Inl request_expired
               else if \<not> fst (VerifySignature (SecretAccessKey cred) parsed reqCtx) then Inl bad_signature
               else (case verifyPayloadHash r reqCtx of Some e \<Rightarrow> Inl e | None \<Rightarrow> Inr cred)))"

section \<open>middleware.go\<close>

text \<open>The middleware's decision: an error response, or the request goes on, with a credential when it was verified.\<close>

definition auth_response :: "auth_error \<Rightarrow> http_resp" where
  "auth_response e =
     (case e of AuthError c m status \<Rightarrow> WriteError c m status
      | StoreError _ \<Rightarrow> WriteError ''InternalError'' ''An internal error occurred.'' 500)"

definition SanitizeAccessKeyID :: "string \<Rightarrow> string" where
  "SanitizeAccessKeyID keyID = filter (\<lambda>c. c \<noteq> CHR 0x0D \<and> c \<noteq> CHR 0x0A) keyID"

definition Middleware_Handler ::
  "(string \<Rightarrow> Credential option res) \<Rightarrow> string \<Rightarrow> time \<Rightarrow> sig_req \<Rightarrow> http_resp + Credential option" where
  "Middleware_Handler store internalToken now r =
     (if DefaultSkip (qPath r) then Inr None
      else if IsInternalRequest \<lparr>rqMethod = qMethod r, rqPath = qEscapedPath r, rqHeader = qHeader r, rqBody = Src []\<rparr> internalToken
      then Inr None
      else case VerifyRequest store now r of
        Inl e \<Rightarrow> Inl (auth_response e)
      | Inr cred \<Rightarrow> Inr (Some cred))"

section \<open>signrequest.go\<close>

text \<open>\<open>urlHost\<close> is the host of an absolute URL, or localhost.\<close>

definition buildCanonicalQueryFromRaw :: "string \<Rightarrow> string" where
  "buildCanonicalQueryFromRaw query =
     (let query = TrimPrefix query ''?'' in
      if query = '''' then '''' else join_pairs (sort_pairs (raw_pairs query)))"

definition SignRequestWithTime :: "sig_req \<Rightarrow> string \<Rightarrow> string \<Rightarrow> time \<Rightarrow> string \<Rightarrow> string \<Rightarrow> sig_req" where
  "SignRequestWithTime req accessKeyID secretAccessKey ts body urlHost =
     (let payloadHash = (if body \<noteq> '''' then hex_encode (sha256 body) else ''UNSIGNED-PAYLOAD'');
          date = amz_day ts;
          amzDate = amz_date ts;
          host = (if qHost req \<noteq> '''' then qHost req else header_get (qHeader req) ''Host'');
          host = (if host = '''' then urlHost else host);
          h = header_set ''x-amz-content-sha256'' payloadHash (header_set ''x-amz-date'' amzDate (header_set ''Host'' host (qHeader req)));
          signedHeaders = ''host;x-amz-content-sha256;x-amz-date'';
          rawPath = (if qEscapedPath req = '''' then ''/'' else qEscapedPath req);
          canonicalHeaders = ''host:'' @ host @ newline @ ''x-amz-content-sha256:'' @ payloadHash @ newline @
            ''x-amz-date:'' @ amzDate @ newline;
          canonicalRequest = Join [ToUpper (qMethod req), CanonicalURI rawPath, buildCanonicalQueryFromRaw (qRawQuery req),
            canonicalHeaders, signedHeaders, payloadHash] newline;
          scope = date @ ''/us-east-1/s3/aws4_request'';
          stringToSign = Join [''AWS4-HMAC-SHA256'', amzDate, scope, SHA256Hex canonicalRequest] newline;
          signature = HexEncode (HmacSHA256 (DeriveSigningKey secretAccessKey date ''us-east-1'' ''s3'') stringToSign)
      in req\<lparr>qHost := host, qHeader := header_set ''Authorization''
           (''AWS4-HMAC-SHA256 Credential='' @ accessKeyID @ ''/'' @ scope @ '', SignedHeaders='' @ signedHeaders @ '', Signature='' @ signature) h\<rparr>)"

section \<open>presign.go\<close>

record PresignOptions =
  poBaseURL :: string
  poBucket :: string
  poKey :: string
  poAccessKeyID :: string
  poSecretAccessKey :: string
  poExpiresSeconds :: int
  poRegion :: string
  poMethod :: string

definition presign_region :: "PresignOptions \<Rightarrow> string" where
  "presign_region opts = (if poRegion opts = '''' then ''us-east-1'' else poRegion opts)"

definition presign_method :: "PresignOptions \<Rightarrow> string" where
  "presign_method opts = (let m = ToUpper (poMethod opts) in if m = '''' then ''GET'' else m)"

definition presign_expires :: "PresignOptions \<Rightarrow> int" where
  "presign_expires opts = (if poExpiresSeconds opts \<le> 0 then 3600 else poExpiresSeconds opts)"

definition presign_uri :: "PresignOptions \<Rightarrow> string" where
  "presign_uri opts =
     ''/'' @ UriEncodeStrict (poBucket opts) @
     (if poKey opts \<noteq> '''' then concat (map (\<lambda>seg. ''/'' @ UriEncodeStrict seg) (Split (CHR ''/'') (poKey opts))) else '''')"

text \<open>The parameters, in the order of their names.\<close>

definition presign_params :: "PresignOptions \<Rightarrow> time \<Rightarrow> (string \<times> string) list" where
  "presign_params opts now =
     [(''X-Amz-Algorithm'', ''AWS4-HMAC-SHA256''),
      (''X-Amz-Credential'', poAccessKeyID opts @ ''/'' @ amz_day now @ ''/'' @ presign_region opts @ ''/s3/aws4_request''),
      (''X-Amz-Date'', amz_date now),
      (''X-Amz-Expires'', FormatInt (presign_expires opts)),
      (''X-Amz-SignedHeaders'', ''host'')]"

definition presign_query :: "PresignOptions \<Rightarrow> time \<Rightarrow> string" where
  "presign_query opts now = join_pairs (map (\<lambda>(k, v). (UriEncodeStrict k, UriEncodeStrict v)) (presign_params opts now))"

definition presign_signature :: "PresignOptions \<Rightarrow> time \<Rightarrow> string \<Rightarrow> string" where
  "presign_signature opts now host =
     (let date = amz_day now;
          canonicalRequest = Join [presign_method opts, presign_uri opts, presign_query opts now,
            ''host:'' @ host @ newline, ''host'', ''UNSIGNED-PAYLOAD''] newline;
          stringToSign = Join [''AWS4-HMAC-SHA256'', amz_date now, date @ ''/'' @ presign_region opts @ ''/s3/aws4_request'',
            SHA256Hex canonicalRequest] newline
      in HexEncode (HmacSHA256 (DeriveSigningKey (poSecretAccessKey opts) date (presign_region opts) ''s3'') stringToSign))"

text \<open>The base URL is parsed by \<^verbatim>\<open>net/url\<close>; its host, or the error, is an argument.\<close>

definition GeneratePresignedURL :: "(string \<Rightarrow> string res) \<Rightarrow> PresignOptions \<Rightarrow> time \<Rightarrow> string res" where
  "GeneratePresignedURL url_host opts now =
     (let base = TrimRight (poBaseURL opts) (CHR ''/'') in
      case url_host base of
        Inl e \<Rightarrow> Inl e
      | Inr host \<Rightarrow>
          Inr (base @ presign_uri opts @ ''?'' @ presign_query opts now @ ''&X-Amz-Signature='' @ presign_signature opts now host))"

end
