(* ===== verification/Cluster.thy ===== *)
theory Cluster
  imports Go_Hash "HOL-Library.Product_Lexorder"
begin

text \<open>
  \<^verbatim>\<open>internal/cluster/{node,membership,placement}.go\<close>: static membership, kept sorted by node
  ID, and rendezvous placement of an object on the nodes with the highest scores. The
  optimised computation of \<^verbatim>\<open>Locate\<close> (indices into a ranked array) is related to a
  reference definition (the first RF nodes in rank order), from which determinism,
  distinctness and minimal movement follow.
\<close>

section \<open>Model\<close>

record Node =
  nID :: string
  nAddress :: string
  nStatus :: string

definition NodeStatusActive :: string where
  "NodeStatusActive = ''active''"

record StaticMembership =
  localID :: string
  nodes :: "Node list"
  byID :: "string \<rightharpoonup> Node"

subsection \<open>Membership\<close>

text \<open>The entry the loop stores: a missing status defaults to active.\<close>

definition normal_node :: "Node \<Rightarrow> Node" where
  "normal_node n =
     \<lparr>nID = nID n, nAddress = nAddress n,
      nStatus = (if nStatus n = [] then NodeStatusActive else nStatus n)\<rparr>"

text \<open>
  One pass of the validation loop of \<^verbatim>\<open>NewStaticMembership\<close>: \<open>m\<close> is the map built so
  far. The second component lists the map's values; the Go code enumerates them in an
  unspecified order and then sorts.
\<close>

fun index_nodes :: "(string \<rightharpoonup> Node) \<Rightarrow> Node list \<Rightarrow> ((string \<rightharpoonup> Node) \<times> Node list) res" where
  "index_nodes m [] = Inr (m, [])"
| "index_nodes m (n # ns) =
     (if nID n = [] then Inl (Other ''cluster node missing id'')
      else if nAddress n = [] then Inl (Other (''cluster node missing address: '' @ nID n))
      else if m (nID n) \<noteq> None then Inl (Other (''duplicate cluster node id '' @ nID n))
      else
        (case index_nodes (m(nID n \<mapsto> normal_node n)) ns of
           Inl e \<Rightarrow> Inl e
         | Inr (m', vals) \<Rightarrow> Inr (m', normal_node n # vals)))"

definition NewStaticMembership :: "string \<Rightarrow> Node list \<Rightarrow> StaticMembership res" where
  "NewStaticMembership lid ns =
     (if ns = [] then Inl (Other ''cluster membership cannot be empty'')
      else case index_nodes Map.empty ns of
        Inl e \<Rightarrow> Inl e
      | Inr (m, vals) \<Rightarrow>
          if m lid = None then Inl (Other (''local node id not found in cluster membership: '' @ lid))
          else Inr \<lparr>localID = lid, nodes = sort_key nID vals, byID = m\<rparr>)"

definition LocalNodeID :: "StaticMembership \<Rightarrow> string" where
  "LocalNodeID m = localID m"

definition GetNode :: "StaticMembership \<Rightarrow> string \<Rightarrow> Node option" where
  "GetNode m i = byID m i"

definition ListNodes :: "StaticMembership \<Rightarrow> Node list" where
  "ListNodes m = nodes m"

definition ContainsNode :: "StaticMembership \<Rightarrow> string \<Rightarrow> bool" where
  "ContainsNode m i \<longleftrightarrow> byID m i \<noteq> None"

definition Len :: "StaticMembership \<Rightarrow> int" where
  "Len m = int (length (nodes m))"

subsection \<open>Placement\<close>

record PlacementResult =
  Primary :: Node
  Replicas :: "Node list"

definition ReplicaSet :: "PlacementResult \<Rightarrow> Node list" where
  "ReplicaSet p = Primary p # Replicas p"

record RendezvousPlacer =
  membership :: StaticMembership
  replicationFactor :: int

definition NewRendezvousPlacer :: "StaticMembership \<Rightarrow> int \<Rightarrow> RendezvousPlacer" where
  "NewRendezvousPlacer m rf = \<lparr>membership = m, replicationFactor = (if rf \<le> 0 then 1 else rf)\<rparr>"

definition ReplicationFactor :: "RendezvousPlacer \<Rightarrow> int" where
  "ReplicationFactor p = replicationFactor p"

definition placementObjectKey :: "string \<Rightarrow> string \<Rightarrow> string" where
  "placementObjectKey bucket key = bucket @ ''/'' @ key"

text \<open>The first eight bytes of the digest as a big-endian \<^verbatim>\<open>uint64\<close>.\<close>

definition rendezvousScore :: "string \<Rightarrow> string \<Rightarrow> int" where
  "rendezvousScore objectKey nodeID =
     foldl (\<lambda>n c. 256 * n + of_char c) 0 (take 8 (sha256 (objectKey @ '':'' @ nodeID)))"

record scored =
  idx :: nat
  score :: int
  sID :: string

text \<open>
  \<^verbatim>\<open>sort.Slice\<close> with the comparator "higher score first, then smaller ID": the comparator
  is the strict order of the key below.
\<close>

definition rank_key :: "scored \<Rightarrow> int \<times> string" where
  "rank_key s = (- score s, sID s)"

definition Locate :: "RendezvousPlacer \<Rightarrow> string \<Rightarrow> string \<Rightarrow> PlacementResult res" where
  "Locate p bucket key =
     (let ns = ListNodes (membership p); rf = replicationFactor p in
      if ns = [] then Inl ErrEmptyCluster
      else if rf > int (length ns) then Inl ErrReplicationFactorTooLarge
      else
        (let objectKey = placementObjectKey bucket key;
             ranked = sort_key rank_key
               (map (\<lambda>i. \<lparr>idx = i, score = rendezvousScore objectKey (nID (ns ! i)), sID = nID (ns ! i)\<rparr>)
                  [0..<length ns]);
             primary = ns ! idx (ranked ! 0);
             replicas = map (\<lambda>i. ns ! idx (ranked ! i)) [1..<nat rf]
         in Inr \<lparr>Primary = primary, Replicas = replicas\<rparr>))"

section \<open>Specification\<close>

text \<open>A node's rank for an object, and the reference definition: the RF best-ranked nodes.\<close>

definition node_rank :: "string \<Rightarrow> string \<Rightarrow> Node \<Rightarrow> int \<times> string" where
  "node_rank bucket key n = (- rendezvousScore (placementObjectKey bucket key) (nID n), nID n)"

definition best_nodes :: "nat \<Rightarrow> string \<Rightarrow> string \<Rightarrow> Node list \<Rightarrow> Node list" where
  "best_nodes k bucket key ns = take k (sort_key (node_rank bucket key) ns)"

definition members_ok :: "StaticMembership \<Rightarrow> bool" where
  "members_ok m \<longleftrightarrow> nodes m \<noteq> [] \<and> distinct (map nID (nodes m)) \<and> sorted (map nID (nodes m))
     \<and> (\<forall>i. byID m i = map_of (map (\<lambda>n. (nID n, n)) (nodes m)) i)
     \<and> localID m \<in> nID ` set (nodes m)"

section \<open>Membership facts\<close>

lemma nID_normal_node [simp]: "nID (normal_node n) = nID n"
  by (simp add: normal_node_def)

lemma index_nodes_Inr_iff:
  "index_nodes m ns = Inr (m', vals) \<longleftrightarrow>
     (\<forall>n \<in> set ns. nID n \<noteq> [] \<and> nAddress n \<noteq> []) \<and> distinct (map nID ns)
     \<and> (\<forall>n \<in> set ns. m (nID n) = None)
     \<and> vals = map normal_node ns \<and> m' = m ++ map_of (rev (map (\<lambda>n. (nID n, n)) vals))"
proof (induction m ns arbitrary: m' vals rule: index_nodes.induct)
  case (1 m)
  then show ?case by auto
next
  case (2 m n ns)
  show ?case
  proof (cases "nID n = [] \<or> nAddress n = [] \<or> m (nID n) \<noteq> None")
    case True
    then show ?thesis by auto
  next
    case False
    let ?M = "m(nID n \<mapsto> normal_node n)"
    have IH: "index_nodes ?M ns = Inr (m', vs) \<longleftrightarrow>
        (\<forall>n \<in> set ns. nID n \<noteq> [] \<and> nAddress n \<noteq> []) \<and> distinct (map nID ns)
        \<and> (\<forall>k \<in> set ns. ?M (nID k) = None) \<and> vs = map normal_node ns
        \<and> m' = ?M ++ map_of (rev (map (\<lambda>n. (nID n, n)) vs))" for m' vs
      using False by (intro "2.IH") auto
    have M: "?M i = None \<longleftrightarrow> i \<noteq> nID n \<and> m i = None" for i by simp
    from False have "index_nodes m (n # ns) = Inr (m', vals) \<longleftrightarrow>
        (\<exists>vs. index_nodes (m(nID n \<mapsto> normal_node n)) ns = Inr (m', vs) \<and> vals = normal_node n # vs)"
      by (auto split: sum.splits)
    also have "\<dots> \<longleftrightarrow> (\<forall>n \<in> set ns. nID n \<noteq> [] \<and> nAddress n \<noteq> []) \<and> distinct (map nID ns)
        \<and> (\<forall>k \<in> set ns. nID k \<noteq> nID n \<and> m (nID k) = None)
        \<and> vals = normal_node n # map normal_node ns
        \<and> m' = m(nID n \<mapsto> normal_node n) ++ map_of (rev (map (\<lambda>n. (nID n, n)) (map normal_node ns)))"
      unfolding IH M by blast
    also have "\<dots> \<longleftrightarrow> (\<forall>k \<in> set (n # ns). nID k \<noteq> [] \<and> nAddress k \<noteq> []) \<and> distinct (map nID (n # ns))
        \<and> (\<forall>k \<in> set (n # ns). m (nID k) = None) \<and> vals = map normal_node (n # ns)
        \<and> m' = m ++ map_of (rev (map (\<lambda>n. (nID n, n)) vals))"
      using False by (auto simp: rev_image_eqI)
    finally show ?thesis .
  qed
qed

lemma map_of_distinct_perm:
  "distinct (map fst xs) \<Longrightarrow> set xs = set ys \<Longrightarrow> distinct (map fst ys) \<Longrightarrow> map_of xs = map_of ys"
proof
  fix k
  assume "distinct (map fst xs)" "set xs = set ys" "distinct (map fst ys)"
  then have "map_of xs k = Some v \<longleftrightarrow> map_of ys k = Some v" for v
    by simp
  then show "map_of xs k = map_of ys k" by (metis not_Some_eq)
qed

lemma map_of_nodes_sort:
  assumes "distinct (map nID vals)"
  shows "map_of (rev (map (\<lambda>n. (nID n, n)) vals)) = map_of (map (\<lambda>n. (nID n, n)) (sort_key nID vals))"
proof (rule map_of_distinct_perm)
  have fst_nodes: "map fst (map (\<lambda>n. (nID n, n)) ns) = map nID ns" for ns by simp
  show "distinct (map fst (rev (map (\<lambda>n. (nID n, n)) vals)))"
    using assms by (simp only: rev_map [symmetric] distinct_rev fst_nodes)
  show "distinct (map fst (map (\<lambda>n. (nID n, n)) (sort_key nID vals)))"
    using assms by (simp add: comp_def distinct_map)
qed simp

text \<open>
  The reference for construction: membership succeeds exactly on non-empty, well-formed,
  duplicate-free node lists that contain the local node; the result is the sorted list.
\<close>

lemma NewStaticMembership_Inr_iff:
  "NewStaticMembership lid ns = Inr m \<longleftrightarrow>
     ns \<noteq> [] \<and> (\<forall>n \<in> set ns. nID n \<noteq> [] \<and> nAddress n \<noteq> []) \<and> distinct (map nID ns)
     \<and> lid \<in> nID ` set ns
     \<and> m = \<lparr>localID = lid, nodes = sort_key nID (map normal_node ns),
            byID = map_of (rev (map (\<lambda>n. (nID n, n)) (map normal_node ns)))\<rparr>"
proof -
  have dom: "map_of (rev (map (\<lambda>n. (nID n, n)) (map normal_node ns))) lid \<noteq> None \<longleftrightarrow> lid \<in> nID ` set ns"
    by (simp only: map_of_eq_None_iff) (auto simp: image_image)
  show ?thesis
  proof (cases "index_nodes Map.empty ns")
    case (Inl e)
    then have "\<not> ((\<forall>n \<in> set ns. nID n \<noteq> [] \<and> nAddress n \<noteq> []) \<and> distinct (map nID ns))"
      using index_nodes_Inr_iff [of Map.empty ns] by auto
    with Inl show ?thesis by (auto simp: NewStaticMembership_def)
  next
    case (Inr p)
    obtain m' vals where p: "p = (m', vals)" by (cases p)
    with Inr index_nodes_Inr_iff [of Map.empty ns m' vals]
    have "(\<forall>n \<in> set ns. nID n \<noteq> [] \<and> nAddress n \<noteq> [])" "distinct (map nID ns)"
      "vals = map normal_node ns" "m' = map_of (rev (map (\<lambda>n. (nID n, n)) (map normal_node ns)))"
      by auto
    with Inr p dom show ?thesis by (auto simp: NewStaticMembership_def split: if_splits)
  qed
qed

lemma NewStaticMembership_members_ok:
  assumes "NewStaticMembership lid ns = Inr m"
  shows "members_ok m"
proof -
  let ?vals = "map normal_node ns"
  from assms have d: "distinct (map nID ns)" and lid: "lid \<in> nID ` set ns"
    and m: "m = \<lparr>localID = lid, nodes = sort_key nID ?vals,
            byID = map_of (rev (map (\<lambda>n. (nID n, n)) ?vals))\<rparr>" and ne: "ns \<noteq> []"
    by (auto simp only: NewStaticMembership_Inr_iff)
  have dv: "distinct (map nID ?vals)" using d by (simp add: comp_def)
  have vals: "set (nodes m) = set ?vals" using m by simp
  then have "nodes m \<noteq> []" using ne by (metis map_is_Nil_conv set_empty)
  moreover have "localID m \<in> nID ` set (nodes m)"
    using vals lid m by (simp add: image_image)
  moreover have "distinct (map nID (nodes m))" and "sorted (map nID (nodes m))"
    using dv m by (simp_all add: distinct_map del: map_map set_map)
  moreover have "byID m = map_of (map (\<lambda>n. (nID n, n)) (nodes m))"
    using map_of_nodes_sort [OF dv] m by simp
  ultimately show ?thesis by (simp add: members_ok_def)
qed

section \<open>Placement facts\<close>

lemma insort_key_map: "insort_key f (g x) (map g xs) = map g (insort_key (\<lambda>x. f (g x)) x xs)"
  by (induction xs) auto

lemma sort_key_map: "sort_key f (map g xs) = map g (sort_key (\<lambda>x. f (g x)) xs)"
  by (induction xs) (auto simp: insort_key_map)

lemma sort_key_inj_unique:
  assumes "inj_on f (set xs)" and "distinct xs" and "distinct ys" and "set xs = set ys"
  shows "sort_key f xs = sort_key f ys"
  using assms by (intro map_sorted_distinct_set_unique [of f]) (auto simp: distinct_map)

text \<open>\<^verbatim>\<open>Locate\<close> computes the reference placement, and fails in exactly two cases.\<close>

lemma Locate_eq:
  assumes "0 < replicationFactor p"
  shows "Locate p bucket key =
    (let ns = ListNodes (membership p); k = nat (replicationFactor p) in
     if ns = [] then Inl ErrEmptyCluster
     else if k > length ns then Inl ErrReplicationFactorTooLarge
     else Inr \<lparr>Primary = hd (best_nodes k bucket key ns), Replicas = tl (best_nodes k bucket key ns)\<rparr>)"
proof (cases "ListNodes (membership p) = [] \<or> nat (replicationFactor p) > length (ListNodes (membership p))")
  case True
  then show ?thesis using assms by (auto simp: Locate_def Let_def)
next
  case False
  define ns where "ns = ListNodes (membership p)"
  define k where "k = nat (replicationFactor p)"
  define mk where "mk = (\<lambda>i. \<lparr>idx = i, score = rendezvousScore (placementObjectKey bucket key) (nID (ns ! i)),
      sID = nID (ns ! i)\<rparr>)"
  define ranked where "ranked = sort_key rank_key (map mk [0..<length ns])"
  have rank: "rank_key (mk i) = node_rank bucket key (ns ! i)" for i
    by (simp add: mk_def rank_key_def node_rank_def)
  have "map (\<lambda>s. ns ! idx s) ranked = map ((!) ns) (sort_key (\<lambda>i. rank_key (mk i)) [0..<length ns])"
    unfolding ranked_def sort_key_map by (simp add: mk_def)
  also have "\<dots> = sort_key (node_rank bucket key) (map ((!) ns) [0..<length ns])"
    by (simp add: rank sort_key_map)
  finally have sorted: "map (\<lambda>s. ns ! idx s) ranked = sort_key (node_rank bucket key) ns"
    by (simp add: map_nth)
  have len: "length ranked = length ns" by (simp add: ranked_def)
  have k: "0 < k" "k \<le> length ranked" using False assms len by (auto simp: k_def ns_def)
  have nth: "ns ! idx (ranked ! i) = best_nodes k bucket key ns ! i" if "i < k" for i
    using that k by (simp add: best_nodes_def flip: sorted)
  have lb: "length (best_nodes k bucket key ns) = k"
    using k len by (simp add: best_nodes_def)
  then obtain b bs where b: "best_nodes k bucket key ns = b # bs"
    using k by (cases "best_nodes k bucket key ns") auto
  have "map (\<lambda>i. ns ! idx (ranked ! i)) [1..<k] = bs"
    using lb b nth by (intro nth_equalityI) (auto simp: nth_Cons')
  moreover have "ns ! idx (ranked ! 0) = b" using nth [of 0] b k by simp
  ultimately show ?thesis
    using False assms b unfolding Locate_def Let_def ns_def [symmetric] k_def [symmetric]
      mk_def [symmetric] ranked_def [symmetric] by (auto simp: k_def)
qed

lemma Locate_Inr:
  assumes "Locate p bucket key = Inr pr" and "0 < replicationFactor p"
  shows "ReplicaSet pr = best_nodes (nat (replicationFactor p)) bucket key (ListNodes (membership p))"
    and "nat (replicationFactor p) \<le> length (ListNodes (membership p))"
proof -
  let ?B = "best_nodes (nat (replicationFactor p)) bucket key (ListNodes (membership p))"
  have "pr = \<lparr>Primary = hd ?B, Replicas = tl ?B\<rparr>" "ListNodes (membership p) \<noteq> []"
    and le: "nat (replicationFactor p) \<le> length (ListNodes (membership p))"
    using assms by (auto simp: Locate_eq Let_def split: if_splits)
  moreover have "length ?B = nat (replicationFactor p)"
    using le by (simp add: best_nodes_def)
  then have "?B \<noteq> []" using assms(2) by auto
  ultimately show "ReplicaSet pr = ?B" by (simp add: ReplicaSet_def)
  show "nat (replicationFactor p) \<le> length (ListNodes (membership p))" by (rule le)
qed

lemma node_rank_inj: "distinct (map nID ns) \<Longrightarrow> inj_on (node_rank bucket key) (set ns)"
  by (auto simp: node_rank_def distinct_map inj_on_def)

lemma best_nodes_facts:
  assumes "k \<le> length ns" and "distinct (map nID ns)"
  shows "length (best_nodes k bucket key ns) = k"
    and "distinct (map nID (best_nodes k bucket key ns))"
    and "set (best_nodes k bucket key ns) \<subseteq> set ns"
    and "sorted (map (node_rank bucket key) (best_nodes k bucket key ns))"
    and "\<And>x y. x \<in> set (best_nodes k bucket key ns) \<Longrightarrow> y \<in> set ns - set (best_nodes k bucket key ns) \<Longrightarrow>
           node_rank bucket key x \<le> node_rank bucket key y"
proof -
  let ?s = "sort_key (node_rank bucket key) ns"
  have split: "?s = best_nodes k bucket key ns @ drop k ?s" by (simp add: best_nodes_def)
  have sorted: "sorted (map (node_rank bucket key) (best_nodes k bucket key ns @ drop k ?s))"
    by (simp flip: split)
  have ds: "distinct (map nID ?s)" using assms(2) by (simp add: distinct_map)
  show "length (best_nodes k bucket key ns) = k" using assms by (simp add: best_nodes_def)
  show "distinct (map nID (best_nodes k bucket key ns))"
    using ds by (simp add: best_nodes_def flip: take_map)
  show sub: "set (best_nodes k bucket key ns) \<subseteq> set ns"
    using set_take_subset [of k ?s] by (simp add: best_nodes_def)
  show "sorted (map (node_rank bucket key) (best_nodes k bucket key ns))"
    using sorted by (simp add: sorted_append)
  fix x y
  assume x: "x \<in> set (best_nodes k bucket key ns)" and y: "y \<in> set ns - set (best_nodes k bucket key ns)"
  have "set ns = set (best_nodes k bucket key ns @ drop k ?s)" by (simp flip: split)
  with y have "y \<in> set (drop k ?s)" by auto
  then show "node_rank bucket key x \<le> node_rank bucket key y"
    using sorted x by (auto simp: sorted_append)
qed

lemma take_insort_key_subset: "set (take k (insort_key f x xs)) \<subseteq> insert x (set (take k xs))"
proof (induction xs arbitrary: k)
  case Nil
  then show ?case by (cases k) auto
next
  case (Cons y xs)
  have "set (take (k - 1) (y # xs)) \<subseteq> set (take k (y # xs))"
    by (rule set_take_subset_set_take) simp
  with Cons.IH [of "k - 1"] show ?case by (cases k) auto
qed

lemma Locate_total:
  assumes "members_ok m" and "1 \<le> rf" and "rf \<le> Len m"
  shows "\<exists>pr. Locate (NewRendezvousPlacer m rf) bucket key = Inr pr"
  using assms
  by (auto simp: Locate_eq Let_def ListNodes_def NewRendezvousPlacer_def members_ok_def Len_def)

section \<open>Properties\<close>

text \<open>
  C24: on a membership the server accepts, with 1 to n as replication factor, placement
  succeeds and returns exactly RF nodes with pairwise different IDs, all of them members;
  they come in rank order (highest score first, ties by ID), and every chosen node ranks
  at least as high as every node left out.
\<close>

theorem locate_replica_set:
  assumes "NewStaticMembership lid ns = Inr m" and "1 \<le> rf" and "rf \<le> Len m"
  shows "\<exists>pr. Locate (NewRendezvousPlacer m rf) bucket key = Inr pr
    \<and> length (ReplicaSet pr) = nat rf
    \<and> distinct (map nID (ReplicaSet pr))
    \<and> set (ReplicaSet pr) \<subseteq> set (ListNodes m)
    \<and> sorted (map (node_rank bucket key) (ReplicaSet pr))
    \<and> (\<forall>x \<in> set (ReplicaSet pr). \<forall>y \<in> set (ListNodes m) - set (ReplicaSet pr).
         node_rank bucket key x \<le> node_rank bucket key y)"
proof -
  let ?p = "NewRendezvousPlacer m rf"
  have rf: "replicationFactor ?p = rf" "membership ?p = m" "0 < rf"
    using assms by (simp_all add: NewRendezvousPlacer_def)
  have ok: "nodes m \<noteq> []" "distinct (map nID (nodes m))"
    using NewStaticMembership_members_ok [OF assms(1)] by (simp_all add: members_ok_def)
  have k: "nat rf \<le> length (nodes m)" using assms by (simp add: Len_def)
  obtain pr where pr: "Locate ?p bucket key = Inr pr"
    using Locate_total NewStaticMembership_members_ok assms by blast
  with Locate_Inr(1) [OF pr] rf have "ReplicaSet pr = best_nodes (nat rf) bucket key (nodes m)"
    by (simp add: ListNodes_def)
  with pr best_nodes_facts [OF k ok(2), where bucket = bucket and key = key] show ?thesis
    by (auto simp: ListNodes_def)
qed

theorem locate_replica_set_witness:
  "\<exists>m pr. NewStaticMembership ''b'' [\<lparr>nID = ''b'', nAddress = ''h2'', nStatus = []\<rparr>,
      \<lparr>nID = ''a'', nAddress = ''h1'', nStatus = []\<rparr>] = Inr m
    \<and> Locate (NewRendezvousPlacer m 2) ''bkt'' ''k'' = Inr pr \<and> length (ReplicaSet pr) = 2"
proof -
  let ?ns = "[\<lparr>nID = ''b'', nAddress = ''h2'', nStatus = []\<rparr>, \<lparr>nID = ''a'', nAddress = ''h1'', nStatus = []\<rparr>]"
  obtain m where m: "NewStaticMembership ''b'' ?ns = Inr m" and "length (nodes m) = 2"
    by (simp add: NewStaticMembership_def)
  then have "1 \<le> (2 :: int)" "2 \<le> Len m" by (simp_all add: Len_def)
  from locate_replica_set [OF m this] m show ?thesis by fastforce
qed

text \<open>
  The order in which the nodes are listed in the configuration changes neither the
  outcome of building the membership nor any placement.
\<close>

lemma placement_order_independent:
  assumes "mset ns' = mset ns" and "NewStaticMembership lid ns = Inr m"
  shows "\<exists>m'. NewStaticMembership lid ns' = Inr m' \<and> ListNodes m' = ListNodes m
    \<and> (\<forall>rf bucket key. Locate (NewRendezvousPlacer m' rf) bucket key
                        = Locate (NewRendezvousPlacer m rf) bucket key)"
proof -
  have set: "set ns' = set ns" using assms(1) by (metis set_mset_mset)
  have "ns' \<noteq> []" "distinct (map nID ns')"
    using assms by (auto simp: NewStaticMembership_Inr_iff dest: mset_eq_imp_distinct_iff
      simp flip: mset_zero_iff) (metis mset_eq_imp_distinct_iff mset_map)
  with assms(2) set obtain m' where m': "NewStaticMembership lid ns' = Inr m'"
    and n': "nodes m' = sort_key nID (map normal_node ns')"
    by (simp add: NewStaticMembership_Inr_iff)
  have n: "nodes m = sort_key nID (map normal_node ns)"
    using assms(2) by (simp add: NewStaticMembership_Inr_iff)
  have ok: "distinct (map nID (nodes m))" "distinct (map nID (nodes m'))"
    "sorted (map nID (nodes m))" "sorted (map nID (nodes m'))"
    using NewStaticMembership_members_ok m' assms(2) by (auto simp: members_ok_def)
  have "set (nodes m') = set (nodes m)" using n n' set by simp
  then have "nodes m' = nodes m"
    using ok by (intro map_sorted_distinct_set_unique [of nID]) (auto simp: distinct_map)
  with m' show ?thesis
    by (simp add: ListNodes_def Locate_def NewRendezvousPlacer_def)
qed

lemma placement_order_independent_example:
  "\<exists>m. NewStaticMembership ''a'' [\<lparr>nID = ''b'', nAddress = ''h2'', nStatus = []\<rparr>,
      \<lparr>nID = ''a'', nAddress = ''h1'', nStatus = []\<rparr>] = Inr m"
proof -
  let ?a = "\<lparr>nID = ''a'', nAddress = ''h1'', nStatus = []\<rparr>"
  let ?b = "\<lparr>nID = ''b'', nAddress = ''h2'', nStatus = []\<rparr>"
  obtain m where "NewStaticMembership ''a'' [?a, ?b] = Inr m"
    by (simp add: NewStaticMembership_def)
  from placement_order_independent [OF _ this, of "[?b, ?a]"] show ?thesis
    by auto
qed

text \<open>
  C34: minimal movement. When a node is added to the membership, an object's new replica
  set contains no node beyond the old replica set and the added node; in particular the
  primary stays or becomes the added node.
\<close>

theorem placement_minimal_movement:
  assumes "NewStaticMembership lid ns = Inr m" and "NewStaticMembership lid (n # ns) = Inr m'"
    and "Locate (NewRendezvousPlacer m rf) bucket key = Inr pr"
    and "Locate (NewRendezvousPlacer m' rf) bucket key = Inr pr'"
  shows "set (ReplicaSet pr') \<subseteq> insert (normal_node n) (set (ReplicaSet pr))
    \<and> (Primary pr' = normal_node n \<or> Primary pr' = Primary pr)"
proof -
  let ?rank = "node_rank bucket key" and ?k = "nat (if rf \<le> 0 then 1 else rf)"
  have pos: "0 < replicationFactor (NewRendezvousPlacer x rf)" for x
    by (simp add: NewRendezvousPlacer_def)
  have ok: "distinct (map nID (nodes m))" "distinct (map nID (nodes m'))"
    using NewStaticMembership_members_ok assms(1,2) by (auto simp: members_ok_def)
  have set': "set (nodes m') = insert (normal_node n) (set (nodes m))"
    and fresh: "nID n \<notin> nID ` set (nodes m)"
    using assms(1,2) by (auto simp: NewStaticMembership_Inr_iff image_image set_insort_key)
  from fresh have "normal_node n \<notin> set (nodes m)" by (metis imageI nID_normal_node)
  then have "sort_key ?rank (nodes m') = sort_key ?rank (normal_node n # nodes m)"
    using ok set' node_rank_inj [OF ok(2)]
    by (intro sort_key_inj_unique) (auto simp: distinct_map)
  then have B: "ReplicaSet pr' = take ?k (insort_key ?rank (normal_node n) (sort_key ?rank (nodes m)))"
    and A: "ReplicaSet pr = take ?k (sort_key ?rank (nodes m))"
    using Locate_Inr(1) [OF assms(3) pos] Locate_Inr(1) [OF assms(4) pos]
    by (simp_all add: best_nodes_def NewRendezvousPlacer_def ListNodes_def)
  have "set (ReplicaSet pr') \<subseteq> insert (normal_node n) (set (ReplicaSet pr))"
    unfolding A B by (rule take_insort_key_subset)
  moreover obtain j where "?k = Suc j" by (cases ?k) (auto split: if_splits)
  with A B have "Primary pr' = normal_node n \<or> Primary pr' = Primary pr"
    by (cases "sort_key ?rank (nodes m)") (auto simp: ReplicaSet_def split: if_splits)
  ultimately show ?thesis by simp
qed

theorem placement_minimal_movement_witness:
  "\<exists>m m' pr pr'. Locate (NewRendezvousPlacer m 1) ''bkt'' ''k'' = Inr pr
     \<and> Locate (NewRendezvousPlacer m' 1) ''bkt'' ''k'' = Inr pr'
     \<and> (nID (Primary pr') = ''b'' \<or> Primary pr' = Primary pr)"
proof -
  let ?a = "\<lparr>nID = ''a'', nAddress = ''h1'', nStatus = []\<rparr>"
  let ?b = "\<lparr>nID = ''b'', nAddress = ''h2'', nStatus = []\<rparr>"
  obtain m where m: "NewStaticMembership ''a'' [?a] = Inr m" "1 \<le> Len m"
    by (simp add: NewStaticMembership_def Len_def)
  obtain m' where m': "NewStaticMembership ''a'' [?b, ?a] = Inr m'" "1 \<le> Len m'"
    by (simp add: NewStaticMembership_def Len_def)
  obtain pr pr' where "Locate (NewRendezvousPlacer m 1) ''bkt'' ''k'' = Inr pr"
    "Locate (NewRendezvousPlacer m' 1) ''bkt'' ''k'' = Inr pr'"
    using Locate_total NewStaticMembership_members_ok m m' by (metis order_refl)
  with placement_minimal_movement [OF m(1) m'(1) this] show ?thesis
    by (fastforce simp: normal_node_def)
qed

end
