(* ===== verification/Replicator.thy ===== *)
theory Replicator
  imports Http Cluster Quorum ObjectProps
begin

text \<open>
  \<^verbatim>\<open>internal/replication/replicator.go\<close>, \<^verbatim>\<open>state.go\<close>, \<^verbatim>\<open>errors.go\<close> and \<^verbatim>\<open>fault.go\<close>: the
  HTTP calls between nodes, over a cluster of node states.

  The world is the state of every node by its ID, with each node's service, token and base URL.
  What the network does to a request is a value of the environment: it may be delivered, never
  arrive, or be carried out while the reply is lost. The body reaches the peer in the chunks the
  environment chooses, and the parallel calls of one operation run in the order it chooses
  (each touches another node's state). A request with a path that is not clean is redirected by the peer, and the
  client follows with a GET for another path; what comes of that is left to the environment (\<open>nFollow\<close>).
\<close>

section \<open>The cluster\<close>

record world =
  wNodes :: "string \<Rightarrow> node_state"
  wSvc :: "string \<Rightarrow> Service"
  wToken :: "string \<Rightarrow> string"
  wHost :: "string \<Rightarrow> string option"

datatype fate = Delivered | Unreachable | ReplyLost

record net =
  nFate :: "string \<Rightarrow> string \<Rightarrow> fate"
  nEnv :: "string \<Rightarrow> string \<Rightarrow> env"
  nChunk :: "string \<Rightarrow> chunk list"
  nSched :: "Node list \<Rightarrow> Node list"
  nInject :: "(string \<Rightarrow> string \<Rightarrow> goerr option) option"
  nFollow :: "string \<Rightarrow> http_req \<Rightarrow> world \<Rightarrow> world \<times> http_resp res"

definition injectFault :: "net \<Rightarrow> string \<Rightarrow> string \<Rightarrow> goerr option" where
  "injectFault net nodeID operation =
     (case nInject net of None \<Rightarrow> None | Some fn \<Rightarrow> fn nodeID operation)"

definition set_node :: "string \<Rightarrow> node_state \<Rightarrow> world \<Rightarrow> world" where
  "set_node i st w = w\<lparr>wNodes := (wNodes w)(i := st)\<rparr>"

text \<open>\<^verbatim>\<open>client.Do\<close>: a header name that is no token is refused before sending.\<close>

definition client_do :: "net \<Rightarrow> string \<Rightarrow> string \<Rightarrow> http_req \<Rightarrow> world \<Rightarrow> world \<times> http_resp res" where
  "client_do net operation base r w =
     (if \<not> list_all (\<lambda>(k, vs). k \<noteq> '''' \<and> list_all token_char k) (rqHeader r)
      then (w, Inl (Other ''net/http: invalid header field name''))
      else case wHost w base of
        None \<Rightarrow> (w, Inl (Other ''dial''))
      | Some i \<Rightarrow>
          if nFate net operation i = Unreachable then (w, Inl (Other ''dial''))
          else if \<not> mux_clean (rqPath r) then nFollow net i r w
          else (case serve_replica (wSvc w i) (wToken w i) (nEnv net i operation) r (wNodes w i) of
                  (st, resp) \<Rightarrow>
                    (set_node i st w,
                     if nFate net operation i = ReplyLost then Inl (Other ''EOF'') else Inr resp)))"

section \<open>state.go and errors.go\<close>

record ReplicaState =
  rNodeID :: string
  rFound :: bool
  rVersion :: int
  rETag :: string
  rSize :: int
  rContentType :: string
  rDeleted :: bool
  rCustomMetadata :: custom_md

definition zero_state :: ReplicaState where
  "zero_state = \<lparr>rNodeID = '''', rFound = False, rVersion = 0, rETag = '''', rSize = 0, rContentType = '''',
     rDeleted = False, rCustomMetadata = []\<rparr>"

fun pick_newest :: "ReplicaState list \<Rightarrow> ReplicaState \<times> bool \<Rightarrow> ReplicaState \<times> bool" where
  "pick_newest [] acc = acc"
| "pick_newest (s # ss) (best, ok) =
     (if \<not> rFound s then pick_newest ss (best, ok)
      else if \<not> ok \<or> rVersion s > rVersion best then pick_newest ss (s, True)
      else pick_newest ss (best, ok))"

definition PickNewestState :: "ReplicaState list \<Rightarrow> ReplicaState \<times> bool" where
  "PickNewestState states = pick_newest states (zero_state, False)"

record ReplicaError =
  reNodeID :: string
  reErr :: goerr

record WriteAckResult =
  waAcks :: int
  waSuccess :: "string list"
  waFailures :: "ReplicaError list"

section \<open>replicator.go\<close>

record Replicator =
  rpInternalToken :: string

definition NewReplicator :: "string \<Rightarrow> Replicator" where
  "NewReplicator internalToken = \<lparr>rpInternalToken = internalToken\<rparr>"

text \<open>The input of a replica write; the body is opened, as often as needed, from the state at that time.\<close>

record ReplicatePutInput =
  piBucket :: string
  piKey :: string
  piVersion :: int
  piExpectedETag :: string
  piContentType :: string
  piCustomMetadata :: custom_md
  piSize :: int
  piOpenBody :: "world \<Rightarrow> string res"

definition no_token :: goerr where
  "no_token = Other ''cluster internal token not configured''"

definition put_headers :: "Replicator \<Rightarrow> ReplicatePutInput \<Rightarrow> header" where
  "put_headers r inp =
     (let h = header_set InternalTokenHeader (rpInternalToken r) [];
          h = header_set InternalOperationHeader OpReplicatePut h;
          h = header_set InternalObjectVersion (FormatInt (piVersion inp)) h;
          h = header_set InternalExpectedETag (piExpectedETag inp) h;
          h = (if piContentType inp \<noteq> '''' then header_set ''Content-Type'' (piContentType inp) h else h)
      in fold (\<lambda>(k, v) h. header_set (''x-amz-meta-'' @ k) v h) (piCustomMetadata inp) h)"

definition putToNode :: "net \<Rightarrow> Replicator \<Rightarrow> Node \<Rightarrow> ReplicatePutInput \<Rightarrow> world \<Rightarrow> world \<times> goerr option" where
  "putToNode net r node inp w =
     (case injectFault net (nID node) ''put'' of
        Some e \<Rightarrow> (w, Some e)
      | None \<Rightarrow>
          if rpInternalToken r = '''' then (w, Some no_token)
          else (case piOpenBody inp w of
             Inl e \<Rightarrow> (w, Some e)
           | Inr body \<Rightarrow>
               (case client_do net ''put'' (nodeBaseURL (nAddress node))
                       \<lparr>rqMethod = ''PUT'', rqPath = object_target (piBucket inp) (piKey inp),
                        rqHeader = put_headers r inp, rqBody = Src (nChunk net body)\<rparr> w of
                  (w', Inl e) \<Rightarrow> (w', Some e)
                | (w', Inr resp) \<Rightarrow>
                    (w', if rsStatus resp \<noteq> 200 then Some (Other (''status '' @ FormatInt (rsStatus resp))) else None))))"

text \<open>One goroutine per replica; each adds its outcome to the result under the mutex.\<close>

fun replicate_each :: "(Node \<Rightarrow> world \<Rightarrow> world \<times> goerr option) \<Rightarrow> Node list \<Rightarrow> world \<times> WriteAckResult \<Rightarrow> world \<times> WriteAckResult" where
  "replicate_each send [] acc = acc"
| "replicate_each send (n # ns) (w, result) =
     (case send n w of
        (w', Some e) \<Rightarrow>
          replicate_each send ns (w', result\<lparr>waFailures := waFailures result @ [\<lparr>reNodeID = nID n, reErr = e\<rparr>]\<rparr>)
      | (w', None) \<Rightarrow>
          replicate_each send ns (w', result\<lparr>waSuccess := waSuccess result @ [nID n], waAcks := waAcks result + 1\<rparr>))"

definition empty_result :: WriteAckResult where
  "empty_result = \<lparr>waAcks = 0, waSuccess = [], waFailures = []\<rparr>"

definition ReplicatePut :: "net \<Rightarrow> Replicator \<Rightarrow> Node list \<Rightarrow> ReplicatePutInput \<Rightarrow> world \<Rightarrow> world \<times> WriteAckResult" where
  "ReplicatePut net r replicas inp w =
     (if replicas = [] then (w, empty_result)
      else replicate_each (\<lambda>n. putToNode net r n inp) (nSched net replicas) (w, empty_result))"

definition delete_headers :: "Replicator \<Rightarrow> int \<Rightarrow> header" where
  "delete_headers r version =
     header_set InternalObjectVersion (FormatInt version)
       (header_set InternalOperationHeader OpReplicateDelete (header_set InternalTokenHeader (rpInternalToken r) []))"

definition deleteOnNode :: "net \<Rightarrow> Replicator \<Rightarrow> Node \<Rightarrow> string \<Rightarrow> string \<Rightarrow> int \<Rightarrow> world \<Rightarrow> world \<times> goerr option" where
  "deleteOnNode net r node bucket key version w =
     (case injectFault net (nID node) ''delete'' of
        Some e \<Rightarrow> (w, Some e)
      | None \<Rightarrow>
          if rpInternalToken r = '''' then (w, Some no_token)
          else (case client_do net ''delete'' (nodeBaseURL (nAddress node))
                       \<lparr>rqMethod = ''DELETE'', rqPath = object_target bucket key,
                        rqHeader = delete_headers r version, rqBody = Src []\<rparr> w of
                  (w', Inl e) \<Rightarrow> (w', Some e)
                | (w', Inr resp) \<Rightarrow>
                    (w', if rsStatus resp \<noteq> 204 then Some (Other (''status '' @ FormatInt (rsStatus resp))) else None)))"

definition ReplicateDelete ::
  "net \<Rightarrow> Replicator \<Rightarrow> Node list \<Rightarrow> string \<Rightarrow> string \<Rightarrow> int \<Rightarrow> world \<Rightarrow> world \<times> WriteAckResult" where
  "ReplicateDelete net r replicas bucket key version w =
     (if replicas = [] then (w, empty_result)
      else replicate_each (\<lambda>n. deleteOnNode net r n bucket key version) (nSched net replicas) (w, empty_result))"

text \<open>\<^verbatim>\<open>v, _ := strconv.ParseInt(s, 10, 64)\<close>: 0 for no number, the nearest bound for one out of range.\<close>

definition ParseInt_value :: "string \<Rightarrow> int" where
  "ParseInt_value s =
     (let neg = HasPrefix s ''-'';
          body = (if neg \<or> HasPrefix s ''+'' then tl s else s);
          v = (if neg then - digits_val body else digits_val body)
      in if body \<noteq> [] \<and> list_all is_digit body then max (- (2 ^ 63)) (min (2 ^ 63 - 1) v) else 0)"

definition extractMetaHeaders :: "header \<Rightarrow> custom_md" where
  "extractMetaHeaders h =
     map (\<lambda>(k, vals). (TrimPrefix (ToLower k) meta_prefix, hd vals))
       (filter (\<lambda>(k, vals). HasPrefix (ToLower k) meta_prefix \<and> vals \<noteq> []) h)"

definition op_headers :: "Replicator \<Rightarrow> string \<Rightarrow> header" where
  "op_headers r operation =
     header_set InternalOperationHeader operation (header_set InternalTokenHeader (rpInternalToken r) [])"

text \<open>A HEAD or GET request leaves every node as it is, so only the answer is kept.\<close>

definition headOnNode :: "net \<Rightarrow> Replicator \<Rightarrow> string \<Rightarrow> string \<Rightarrow> world \<Rightarrow> Node \<Rightarrow> ReplicaState" where
  "headOnNode net r bucket key w node =
     (let state = zero_state\<lparr>rNodeID := nID node\<rparr> in
      if injectFault net (nID node) ''head'' \<noteq> None then state
      else if rpInternalToken r = '''' then state
      else case snd (client_do net ''head'' (nodeBaseURL (nAddress node))
               \<lparr>rqMethod = ''HEAD'', rqPath = object_target bucket key,
                rqHeader = op_headers r OpReplicateHead, rqBody = Src []\<rparr> w) of
        Inl e \<Rightarrow> state
      | Inr resp \<Rightarrow>
          if rsStatus resp \<noteq> 200 then state
          else let h = rsHeader resp; v = header_get h InternalObjectVersion
               in state\<lparr>rFound := True,
                   rVersion := (if v \<noteq> '''' then ParseInt_value v else 0),
                   rETag := Trim (header_get h ''ETag'') (CHR 0x22),
                   rSize := ParseInt_value (header_get h ''Content-Length''),
                   rContentType := header_get h ''Content-Type'',
                   rDeleted := (header_get h InternalObjectDeleted = ''true''),
                   rCustomMetadata := extractMetaHeaders h\<rparr>)"

definition FetchReplicaStates :: "net \<Rightarrow> Replicator \<Rightarrow> Node list \<Rightarrow> string \<Rightarrow> string \<Rightarrow> world \<Rightarrow> ReplicaState list" where
  "FetchReplicaStates net r ns bucket key w = map (headOnNode net r bucket key w) ns"

definition StreamFromNode :: "net \<Rightarrow> Replicator \<Rightarrow> Node \<Rightarrow> string \<Rightarrow> string \<Rightarrow> world \<Rightarrow> (string \<times> int \<times> string) res" where
  "StreamFromNode net r node bucket key w =
     (case injectFault net (nID node) ''get'' of
        Some e \<Rightarrow> Inl e
      | None \<Rightarrow>
          if rpInternalToken r = '''' then Inl no_token
          else (case snd (client_do net ''get'' (nodeBaseURL (nAddress node))
                       \<lparr>rqMethod = ''GET'', rqPath = object_target bucket key,
                        rqHeader = op_headers r OpReplicateGet, rqBody = Src []\<rparr> w) of
             Inl e \<Rightarrow> Inl e
           | Inr resp \<Rightarrow>
               if rsStatus resp \<noteq> 200 then Inl (Other (''status '' @ FormatInt (rsStatus resp)))
               else Inr (rsBody resp, ParseInt_value (header_get (rsHeader resp) ''Content-Length''),
                         Trim (header_get (rsHeader resp) ''ETag'') (CHR 0x22))))"

end
