(* ===== verification/ReplicatorProps.thy ===== *)
theory ReplicatorProps
  imports Replicator
begin

text \<open>
  What a call of the replicator does to the cluster: it applies one replica operation on the state of
  the addressed node, or nothing; it reports success only when the peer's object service
  accepted the operation.
\<close>

section \<open>Headers\<close>

lemma canonical_internal [simp]:
  "CanonicalHeaderKey InternalTokenHeader = ''X-Objex-Internal-Token''"
  "CanonicalHeaderKey InternalOperationHeader = ''X-Objex-Internal-Operation''"
  "CanonicalHeaderKey InternalObjectVersion = ''X-Objex-Object-Version''"
  "CanonicalHeaderKey InternalExpectedETag = ''X-Objex-Expected-Etag''"
  "CanonicalHeaderKey InternalObjectDeleted = ''X-Objex-Object-Deleted''"
  "CanonicalHeaderKey ''Content-Type'' = ''Content-Type''"
  "CanonicalHeaderKey ''Content-Length'' = ''Content-Length''"
  "CanonicalHeaderKey ''ETag'' = ''Etag''"
  by code_simp+

text \<open>A metadata header is never one of the headers of the protocol.\<close>

lemma lower_char_cases: "lower_char c = d \<Longrightarrow> c = d \<or> CHR ''A'' \<le> c \<and> c = char_of (of_char d - 32 :: nat)"
proof (cases "CHR ''A'' \<le> c \<and> c \<le> CHR ''Z''")
  case True
  assume "lower_char c = d"
  then have d: "d = char_of (of_char c + 32 :: nat)" using True by (simp add: lower_char_def)
  have "(of_char c :: nat) \<le> 90" using True by (simp add: less_eq_char_def)
  then have "(of_char d :: nat) = of_char c + 32" unfolding d by simp
  with True show ?thesis by simp
qed (simp add: lower_char_def)

lemma char_of_XA: "char_of (88 :: nat) = CHR ''X''" "char_of (65 :: nat) = CHR ''A''"
  by code_simp+

lemma lower_upper_char:
  "lower_char c = CHR ''x'' \<Longrightarrow> c = CHR ''x'' \<or> c = CHR ''X''"
  "lower_char c = CHR ''a'' \<Longrightarrow> c = CHR ''a'' \<or> c = CHR ''A''"
  "lower_char c = CHR ''-'' \<Longrightarrow> c = CHR ''-''"
  using lower_char_cases [of c] by (auto simp: less_eq_char_def char_of_XA)

lemma meta_key_shape:
  assumes "HasPrefix (ToLower k) meta_prefix"
  shows "\<exists>a b s. CanonicalHeaderKey k = a # CHR ''-'' # b # s \<and> (a = CHR ''x'' \<or> a = CHR ''X'') \<and> (b = CHR ''a'' \<or> b = CHR ''A'')"
proof -
  from assms obtain t where t: "ToLower k = meta_prefix @ t" by (auto simp: HasPrefix_iff)
  then obtain a h b s where k: "k = a # h # b # s" "lower_char a = CHR ''x''" "lower_char h = CHR ''-''" "lower_char b = CHR ''a''"
    by (auto simp: ToLower_def meta_prefix_def map_eq_Cons_conv)
  have "upper_char (CHR ''x'') = CHR ''X''" "upper_char (CHR ''X'') = CHR ''X''" "upper_char (CHR ''a'') = CHR ''A''"
    "upper_char (CHR ''A'') = CHR ''A''" "lower_char (CHR ''-'') = CHR ''-''"
    by (simp_all add: upper_char_def lower_char_def less_eq_char_def char_of_XA)
  then show ?thesis
    using lower_upper_char(1) [OF k(2)] lower_upper_char(2) [OF k(4)] lower_upper_char(3) [OF k(3)]
    by (auto simp: CanonicalHeaderKey_def k(1))
qed

definition protocol_key :: "string \<Rightarrow> bool" where
  "protocol_key k \<longleftrightarrow> k \<in> {''X-Objex-Internal-Token'', ''X-Objex-Internal-Operation'', ''X-Objex-Object-Version'',
     ''X-Objex-Expected-Etag'', ''X-Objex-Object-Deleted'', ''Content-Type'', ''Content-Length'', ''Etag''}"

lemma meta_not_protocol: "HasPrefix (ToLower k) meta_prefix \<Longrightarrow> protocol_key p \<Longrightarrow> p \<noteq> CanonicalHeaderKey k"
  using meta_key_shape [of k] by (auto simp: protocol_key_def)

lemma ToLower_meta_prefix: "HasPrefix (ToLower (''x-amz-meta-'' @ k)) meta_prefix"
proof -
  have "ToLower ''x-amz-meta-'' = meta_prefix" by code_simp
  then have "ToLower (''x-amz-meta-'' @ k) = meta_prefix @ ToLower k" by (metis ToLower_def map_append)
  then show ?thesis by simp
qed

lemma header_get_meta:
  assumes "\<And>k v. (k, v) \<in> set m \<Longrightarrow> P k \<Longrightarrow> HasPrefix (ToLower (f k)) meta_prefix" "protocol_key (CanonicalHeaderKey p)"
  shows "header_get (fold (\<lambda>(k, v) h. if P k then header_set (f k) v h else h) m h) p = header_get h p"
  using assms(1)
proof (induction m arbitrary: h)
  case (Cons kv m)
  obtain k v where kv: "kv = (k, v)" by (cases kv)
  have "P k \<Longrightarrow> header_get (header_set (f k) v h) p = header_get h p"
    using meta_not_protocol [OF Cons.prems [of k v] assms(2)] kv by (simp add: header_get_set)
  with Cons.IH [of "if P k then header_set (f k) v h else h"] Cons.prems kv show ?case by (cases "P k") auto
qed simp

lemma put_headers_get [simp]:
  "header_get (put_headers r inp) InternalTokenHeader = rpInternalToken r"
  "header_get (put_headers r inp) InternalOperationHeader = OpReplicatePut"
  "header_get (put_headers r inp) InternalObjectVersion = FormatInt (piVersion inp)"
  "header_get (put_headers r inp) InternalExpectedETag = piExpectedETag inp"
  "header_get (put_headers r inp) ''Content-Type'' = piContentType inp"
  using header_get_meta [of "piCustomMetadata inp" "\<lambda>_. True" "\<lambda>k. ''x-amz-meta-'' @ k"] ToLower_meta_prefix
  by (auto simp: put_headers_def Let_def header_get_set protocol_key_def)

lemma op_headers_get [simp]:
  "header_get (op_headers r p) InternalTokenHeader = rpInternalToken r"
  "header_get (op_headers r p) InternalOperationHeader = p"
  by (simp_all add: op_headers_def header_get_set)

lemma delete_headers_get [simp]:
  "header_get (delete_headers r v) InternalTokenHeader = rpInternalToken r"
  "header_get (delete_headers r v) InternalOperationHeader = OpReplicateDelete"
  "header_get (delete_headers r v) InternalObjectVersion = FormatInt v"
  by (simp_all add: delete_headers_def header_get_set)

section \<open>Errors never look like success\<close>

text \<open>
  An error that is answered with a failure status. Every error of the model's own code is of
  this kind; those the environment supplies (the request body, the working directory) are too,
  since they are no errors of the object service.
\<close>

fun err_ok :: "goerr \<Rightarrow> bool" where
  "err_ok (ObjErr c m n) \<longleftrightarrow> 400 \<le> n"
| "err_ok e \<longleftrightarrow> True"

fun end_ok :: "rerr option \<Rightarrow> bool" where
  "end_ok (Some (RErr e)) \<longleftrightarrow> err_ok e"
| "end_ok e \<longleftrightarrow> True"

fun calm :: "reader \<Rightarrow> bool" where
  "calm (Src cs) \<longleftrightarrow> list_all (\<lambda>(b, e). end_ok e) cs"
| "calm (LimitReader r limit n) \<longleftrightarrow> calm r"
| "calm (MD5Reader r h n err) \<longleftrightarrow> calm r \<and> end_ok err"

lemma err_ok_consts [simp]: "err_ok ctx_err" "err_ok write_err" "err_ok (sql_err l)" "err_ok (os_err l)" "err_ok unique_err" "err_ok foreign_err"
  by (simp_all add: ctx_err_def write_err_def sql_err_def os_err_def unique_err_def foreign_err_def)

lemma Read_calm: "Read p r = ((b, e), r') \<Longrightarrow> calm r \<Longrightarrow> calm r' \<and> end_ok e"
proof (induction p r arbitrary: b e r' rule: Read.induct)
  case (3 p r limit n)
  then show ?case by (auto simp: Let_def split: if_splits prod.splits option.splits rerr.splits)
next
  case (4 p r h n err)
  then show ?case by (auto simp: md5_note_def split: prod.splits)
qed (auto split: if_splits)

lemma copy_loop_calm: "copy_loop io r out = ((o', e), r') \<Longrightarrow> calm r \<Longrightarrow> calm r' \<and> (\<forall>x. e = Some x \<longrightarrow> err_ok x)"
proof (induction io r out arbitrary: o' e r' rule: copy_loop.induct)
  case (1 io r out)
  obtain b re r1 where R: "Read buf_size r = ((b, re), r1)" by (metis surj_pair)
  from Read_calm [OF R "1.prems"(2)] have c: "calm r1" "end_ok re" by auto
  from "1.prems" R c "1.IH" [OF _ R [symmetric] refl] show ?case
    by (subst (asm) copy_loop.simps) (auto simp: Let_def split: if_splits option.splits rerr.splits)
qed

lemma copyWithContext_calm:
  "copyWithContext io r = ((out, e), r') \<Longrightarrow> calm r \<Longrightarrow> calm r' \<and> (\<forall>x. e = Some x \<longrightarrow> err_ok x)"
  unfolding copyWithContext_def by (rule copy_loop_calm)

lemma Err_calm: "calm r \<Longrightarrow> Err r = Some x \<Longrightarrow> err_ok x"
  by (cases r) (auto split: option.splits rerr.splits)

lemma body_calm [simp]: "calm (NewMD5Reader (limit_body s body)) \<longleftrightarrow> calm body"
  by (simp add: NewMD5Reader_def limit_body_def newLimitReader_def)

definition wd_ok :: "fs_env \<Rightarrow> bool" where
  "wd_ok env \<longleftrightarrow> (\<forall>e. fs_wd env = Inl e \<longrightarrow> err_ok e)"

lemma Resolve_err_ok: "wd_ok env \<Longrightarrow> ResolveBlobPath (fs_wd env) base b k = Inl e \<Longrightarrow> err_ok e"
  by (auto simp: ResolveBlobPath_def AssertWithinBase_def Abs_def wd_ok_def Let_def split: sum.splits if_splits)

lemma writeToTmp_calm:
  "writeToTmp env t body fs = (fs', r, body') \<Longrightarrow> calm body \<Longrightarrow> calm body' \<and> (\<forall>x. r = Inl x \<longrightarrow> err_ok x)"
  by (auto simp: writeToTmp_def Let_def dest: copyWithContext_calm split: if_splits prod.splits option.splits)

lemma Put_calm:
  assumes "Put s env b k body fs = (fs', r, body')" "calm body" "wd_ok env"
  shows "calm body' \<and> (\<forall>x. r = Inl x \<longrightarrow> err_ok x)"
  using assms Resolve_err_ok [OF assms(3)]
  by (auto simp: Put_def uniqueTmpPath_def Let_def dest!: writeToTmp_calm split: if_splits prod.splits sum.splits)

lemma PutObject_err_ok: "PutObject e obj db = (db', Inl x) \<Longrightarrow> err_ok x"
  by (auto simp: PutObject_def BucketExists_def write_object_def insert_object_def Let_def
      split: if_splits sum.splits option.splits prod.splits)

lemma PutTombstone_err_ok: "PutTombstone e b k v db = (db', Inl x) \<Longrightarrow> err_ok x"
  by (auto simp: PutTombstone_def BucketExists_def insert_object_def Let_def split: if_splits sum.splits option.splits prod.splits)

lemma PutReplica_err_ok:
  assumes "PutReplica s env inp st = (st', Inl x)" "calm (riBody inp)" "wd_ok (eFs env)"
  shows "err_ok x"
proof -
  obtain fs r body where P: "Put (svBlob s) (eFs env) (riBucketName inp) (riKey inp)
      (NewMD5Reader (limit_body s (riBody inp))) (sFs st) = (fs, r, body)" by (metis prod_cases3)
  have c: "calm body" "r = Inl e \<Longrightarrow> err_ok e" for e using Put_calm [OF P] assms(2,3) by auto
  show ?thesis
    using assms(1) P c(2) Err_calm [OF c(1)]
    by (auto simp: PutReplica_def BucketExists_def newErr_def noSuchBucket_def replica_decision_def stale_write_def
        version_conflict_def Let_def dest: PutObject_err_ok split: if_splits sum.splits option.splits prod.splits)
qed

lemma PutTombstoneReplica_err_ok: "PutTombstoneReplica s env b k v st = (st', Inl x) \<Longrightarrow> err_ok x"
  by (auto simp: PutTombstoneReplica_def newErr_def tombstone_decision_def stale_delete_def tombstone_conflict_def Let_def
      dest: PutTombstone_err_ok split: if_splits option.splits prod.splits)

lemma writeError_failure: "err_ok e \<Longrightarrow> 400 \<le> rsStatus (writeError e)"
  by (cases e) (simp_all add: writeError_def WriteError_def)

section \<open>Serving a replica request\<close>

text \<open>Objects whose replica requests reach them: see \<open>replica_target_exact\<close>.\<close>

definition routed :: "string \<Rightarrow> string \<Rightarrow> bool" where
  "routed b k \<longleftrightarrow> BucketNameError b = '''' \<and> k \<noteq> '''' \<and> CHR ''%'' \<notin> set k \<and> \<not> reserved_path b k \<and>
     mux_clean (object_target b k)"

lemma not_skipped:
  assumes "routed b k"
  shows "\<not> DefaultSkip (''/'' @ b @ ''/'' @ k)"
proof -
  have b: "CHR ''/'' \<notin> set b" using assms valid_bucket_chars by (simp add: routed_def)
  have "CHR ''/'' \<in> set (tl (''/'' @ b @ ''/'' @ k))" by simp
  moreover have "CHR ''/'' \<notin> set (tl ''/health'')" "CHR ''/'' \<notin> set (tl ''/metrics'')" "CHR ''/'' \<notin> set (tl ''/cluster'')"
    by simp_all
  ultimately have "''/'' @ b @ ''/'' @ k \<noteq> ''/health''" "''/'' @ b @ ''/'' @ k \<noteq> ''/metrics''" "''/'' @ b @ ''/'' @ k \<noteq> ''/cluster''"
    by metis+
  moreover have "''/'' @ b @ ''/'' @ k = CHR ''/'' # a @ CHR ''/'' # t \<longleftrightarrow> b = a \<and> k = t" if "CHR ''/'' \<notin> set a" for a t
    using slash_split [OF b that] by simp
  from this [of "''health''" "''live''"] this [of "''health''" "''ready''"] this [of "''debug''" "''placement''"]
  have "''/'' @ b @ ''/'' @ k \<noteq> ''/health/live''" "''/'' @ b @ ''/'' @ k \<noteq> ''/health/ready''" "''/'' @ b @ ''/'' @ k \<noteq> ''/debug/placement''"
    using assms by (auto simp: routed_def reserved_path_def)
  ultimately show ?thesis by (simp add: DefaultSkip_def)
qed

lemma serve_routed:
  assumes "routed b k" "rqPath r = object_target b k"
  shows "serve_replica s token env r st =
     (if \<not> IsInternalRequest r token then (st, WriteError ''AccessDenied'' ''No credentials provided.'' 403)
      else if rqMethod r = ''PUT'' \<and> IsReplicatePut r token then putReplica s env r b k st
      else if rqMethod r = ''DELETE'' \<and> IsReplicateDelete r token then deleteReplica s env r b k st
      else if rqMethod r = ''HEAD'' \<and> IsReplicateHead r token then (st, headReplica env b k st)
      else if rqMethod r = ''GET'' \<and> IsReplicateGet r token then (st, getReplica s env b k st)
      else (st, plain_response 405))"
proof -
  have b: "CHR ''/'' \<notin> set b" "CHR ''%'' \<notin> set b" using assms(1) valid_bucket_chars by (simp_all add: routed_def)
  have "ServeHTTP_route m (''/'' @ b @ ''/'' @ k) = RouteObject b k" for m
    using object_route [OF b, of m k] PathUnescape_plain [of k] assms(1) by (simp add: routed_def)
  with assms not_skipped [OF assms(1)] object_target_decoded [of b k] show ?thesis
    by (simp add: serve_replica_def routed_def del: append_Cons append_Nil)
qed

text \<open>The operation a request carries to the peer.\<close>

definition carried_put :: "net \<Rightarrow> ReplicatePutInput \<Rightarrow> header \<Rightarrow> string \<Rightarrow> PutReplicaInput" where
  "carried_put net inp h body = \<lparr>riBucketName = piBucket inp, riKey = piKey inp, riVersion = piVersion inp,
     riExpectedETag = piExpectedETag inp, riContentType = piContentType inp,
     riCustomMetadata = extractCustomMetadata h, riBody = Src (nChunk net body)\<rparr>"

lemma internal_ops_distinct [simp]:
  "OpReplicatePut \<noteq> OpReplicateDelete" "OpReplicatePut \<noteq> OpReplicateHead" "OpReplicatePut \<noteq> OpReplicateGet"
  "OpReplicateDelete \<noteq> OpReplicatePut" "OpReplicateDelete \<noteq> OpReplicateHead" "OpReplicateDelete \<noteq> OpReplicateGet"
  "OpReplicateHead \<noteq> OpReplicatePut" "OpReplicateHead \<noteq> OpReplicateDelete" "OpReplicateHead \<noteq> OpReplicateGet"
  "OpReplicateGet \<noteq> OpReplicatePut" "OpReplicateGet \<noteq> OpReplicateDelete" "OpReplicateGet \<noteq> OpReplicateHead"
  by (simp_all add: OpReplicatePut_def OpReplicateDelete_def OpReplicateHead_def OpReplicateGet_def)

lemma internal_operation: "IsInternalRequest r t \<Longrightarrow> InternalOperation r t = header_get (rqHeader r) InternalOperationHeader"
  by (simp add: InternalOperation_def)

lemmas internal_op_defs = IsReplicatePut_def IsReplicateDelete_def IsReplicateHead_def IsReplicateGet_def

lemma WriteError_status [simp]: "rsStatus (WriteError c m st) = st" "rsStatus (plain_response n) = n"
  by (simp_all add: WriteError_def plain_response_def)

section \<open>Acknowledged operations are held\<close>

text \<open>A node holds an operation: its row has the operation's version and, for a write, its ETag.\<close>

definition holds :: "node_state \<Rightarrow> replica_op \<Rightarrow> bool" where
  "holds st op \<longleftrightarrow> (\<exists>row. row_of st (op_key op) = Some row \<and> oVersion row = op_version op \<and>
     (case op of RPut inp \<Rightarrow> \<not> oDeleted row \<and> oETag row = riExpectedETag inp | RDel b k v \<Rightarrow> oDeleted row))"

lemma PutReplica_Inr:
  assumes "PutReplica s env inp st = (st', Inr ())"
  obtains (dup) ex where "row_of st (op_key (RPut inp)) = Some ex" "st' = st" "oVersion ex = riVersion inp" "\<not> oDeleted ex"
      "oETag ex = riExpectedETag inp"
  | (written) obj where "PutObject (eDb env) obj (sDb st) = (sDb st', Inr ())" "okey obj = op_key (RPut inp)"
      "oVersion obj = riVersion inp" "oETag obj = riExpectedETag inp" "\<not> oDeleted obj"
proof (cases "replica_decision inp (obj_at (sDb st) (riBucketName inp) (riKey inp))")
  case (Some r)
  with assms have "st' = st" "r = Inr ()"
    by (auto simp: PutReplica_def BucketExists_def Let_def split: if_splits)
  with Some show thesis
    by (auto simp: replica_decision_def row_of_def split: option.splits if_splits intro: dup)
next
  case None
  obtain fs pr hasher where P: "Put (svBlob s) (eFs env) (riBucketName inp) (riKey inp)
      (NewMD5Reader (limit_body s (riBody inp))) (sFs st) = (fs, pr, hasher)" by (metis prod_cases3)
  with None assms obtain res where res: "pr = Inr res" "Err hasher = None" "ETag hasher = riExpectedETag inp"
    by (auto simp: PutReplica_def BucketExists_def Let_def split: if_splits option.splits sum.splits prod.splits)
  define obj where "obj = zero_object\<lparr>oBucketName := riBucketName inp, oKey := riKey inp, oSize := pSize res,
    oContentType := (if riContentType inp = '''' then octet_stream else riContentType inp), oETag := riExpectedETag inp,
    oStoragePath := pPath res, oCustomMetadata := riCustomMetadata inp, oVersion := riVersion inp,
    oReplicationStatus := ''replicated''\<rparr>"
  have "PutObject (eDb env) obj (sDb st) = (sDb st', Inr ())"
    using assms None P res
    by (auto simp: PutReplica_def BucketExists_def Let_def obj_def split: if_splits option.splits sum.splits prod.splits)
  then show thesis by (rule written) (simp_all add: obj_def zero_object_def okey_def)
qed

lemma apply_op_holds:
  assumes "apply_op s env op st = (st', Inr ())" "op_version op \<noteq> 0"
  shows "holds st' op"
proof (cases op)
  case (RPut inp)
  with assms(1) have "PutReplica s env inp st = (st', Inr ())" by simp
  then show ?thesis
  proof (cases rule: PutReplica_Inr)
    case (dup ex)
    then show ?thesis by (simp add: holds_def RPut)
  next
    case (written obj)
    from written(1) obtain row where "obj_at (sDb st') (oBucketName obj) (oKey obj) = Some row" "oETag row = oETag obj"
      "oDeleted row = oDeleted obj" "oVersion obj \<noteq> 0 \<Longrightarrow> oVersion row = oVersion obj" by (rule PutObject_at) blast
    with written assms(2) show ?thesis by (auto simp: holds_def RPut row_of_def okey_def)
  qed
next
  case (RDel b k v)
  with assms(1) have D: "PutTombstoneReplica s env b k v st = (st', Inr ())" by simp
  show ?thesis
  proof (cases "tombstone_decision v (obj_at (sDb st) b k)")
    case (Some r)
    with D have "st' = st" "r = Inr ()" by (auto simp: PutTombstoneReplica_def split: if_splits)
    with Some show ?thesis
      by (auto simp: tombstone_decision_def holds_def RDel row_of_def split: option.splits if_splits)
  next
    case None
    with D have "PutTombstone (eDb env) b k v (sDb st) = (sDb st', Inr ())"
      by (auto simp: PutTombstoneReplica_def Let_def split: if_splits option.splits prod.splits)
    from PutTombstone_at [OF this] show ?thesis by (auto simp: holds_def RDel row_of_def)
  qed
qed

section \<open>The effect of a call\<close>

definition net_ok :: "net \<Rightarrow> bool" where
  "net_ok net \<longleftrightarrow> (\<forall>d. calm (Src (nChunk net d))) \<and> (\<forall>i l. wd_ok (eFs (nEnv net i l)))"

lemma set_node_same [simp]: "set_node i (wNodes w i) w = w"
  by (simp add: set_node_def)

lemma set_node_simps [simp]:
  "wNodes (set_node i st w) j = (if j = i then st else wNodes w j)" "wSvc (set_node i st w) = wSvc w"
  "wToken (set_node i st w) = wToken w" "wHost (set_node i st w) = wHost w"
  by (simp_all add: set_node_def)

text \<open>
  One operation on one node: what a call does to the world. Either nothing, and it reports an
  error, or the operation is applied on the node, and success is reported only if the node accepted it.
\<close>

definition op_effect :: "replica_op \<Rightarrow> string \<Rightarrow> world \<Rightarrow> world \<Rightarrow> goerr option \<Rightarrow> bool" where
  "op_effect op i w w' err \<longleftrightarrow>
     w' = w \<and> err \<noteq> None \<or>
     (\<exists>env st' res. apply_op (wSvc w i) env op (wNodes w i) = (st', res) \<and> w' = set_node i st' w \<and> (err = None \<longrightarrow> res = Inr ()))"

lemma op_effectI:
  "apply_op (wSvc w i) env op (wNodes w i) = (st', res) \<Longrightarrow> w' = set_node i st' w \<Longrightarrow> (err = None \<Longrightarrow> res = Inr ()) \<Longrightarrow>
   op_effect op i w w' err"
  by (auto simp: op_effect_def)

lemma putReplica_handled:
  assumes "header_get (rqHeader r) InternalObjectVersion = FormatInt v" "in_i64 v"
    "putReplica s env r b k st = (st', resp)" "calm (rqBody r)" "wd_ok (eFs env)"
  shows "st' = st \<and> rsStatus resp \<noteq> 200 \<or>
    (\<exists>res. PutReplica s env \<lparr>riBucketName = b, riKey = k, riVersion = v, riExpectedETag = header_get (rqHeader r) InternalExpectedETag,
         riContentType = header_get (rqHeader r) ''Content-Type'', riCustomMetadata = extractCustomMetadata (rqHeader r),
         riBody = rqBody r\<rparr> st = (st', res) \<and> 1 \<le> v \<and> (rsStatus resp = 200 \<longrightarrow> res = Inr ()))"
proof (cases "1 \<le> v \<and> header_get (rqHeader r) InternalExpectedETag \<noteq> ''''")
  case True
  let ?inp = "\<lparr>riBucketName = b, riKey = k, riVersion = v, riExpectedETag = header_get (rqHeader r) InternalExpectedETag,
         riContentType = header_get (rqHeader r) ''Content-Type'', riCustomMetadata = extractCustomMetadata (rqHeader r),
         riBody = rqBody r\<rparr>"
  obtain st1 res where P: "PutReplica s env ?inp st = (st1, res)" by (metis surj_pair)
  have "resp = (case res of Inl e \<Rightarrow> writeError e | Inr _ \<Rightarrow> plain_response 200) \<and> st' = st1"
    using assms(1-3) True P by (auto simp: putReplica_def Let_def split: sum.splits)
  moreover have "res = Inl e \<Longrightarrow> 400 \<le> rsStatus (writeError e)" for e
    using PutReplica_err_ok [of s env ?inp st st1 e] P assms(4,5) writeError_failure by simp
  ultimately show ?thesis using P True by (cases res) auto
next
  case False
  with assms(1-3) show ?thesis by (auto simp: putReplica_def Let_def split: if_splits)
qed

lemma deleteReplica_handled:
  assumes "header_get (rqHeader r) InternalObjectVersion = FormatInt v" "in_i64 v"
    "deleteReplica s env r b k st = (st', resp)"
  shows "st' = st \<and> rsStatus resp \<noteq> 204 \<or>
    (\<exists>res. PutTombstoneReplica s env b k v st = (st', res) \<and> 1 \<le> v \<and> (rsStatus resp = 204 \<longrightarrow> res = Inr ()))"
proof (cases "1 \<le> v")
  case True
  obtain st1 res where P: "PutTombstoneReplica s env b k v st = (st1, res)" by (metis surj_pair)
  have "resp = (case res of Inl e \<Rightarrow> writeError e | Inr _ \<Rightarrow> plain_response 204) \<and> st' = st1"
    using assms True P by (auto simp: deleteReplica_def split: sum.splits)
  moreover have "res = Inl e \<Longrightarrow> 400 \<le> rsStatus (writeError e)" for e
    using PutTombstoneReplica_err_ok [of s env b k v st st1 e] P writeError_failure by simp
  ultimately show ?thesis using P True by (cases res) auto
next
  case False
  with assms show ?thesis by (auto simp: deleteReplica_def)
qed

lemma client_do_cases:
  assumes "client_do net l base r w = (w', res)" "wHost w base = Some i" "mux_clean (rqPath r)"
  obtains (none) e where "w' = w" "res = Inl e"
  | (served) st' resp where "serve_replica (wSvc w i) (wToken w i) (nEnv net i l) r (wNodes w i) = (st', resp)"
      "w' = set_node i st' w" "res = Inr resp \<or> (\<exists>e. res = Inl e)"
proof (cases "\<not> list_all (\<lambda>(k, vs). k \<noteq> '''' \<and> list_all token_char k) (rqHeader r) \<or> nFate net l i = Unreachable")
  case True
  with assms have "w' = w" "\<exists>e. res = Inl e" by (auto simp: client_do_def split: if_splits)
  then show thesis using none by blast
next
  case False
  obtain st' resp where "serve_replica (wSvc w i) (wToken w i) (nEnv net i l) r (wNodes w i) = (st', resp)" by (metis surj_pair)
  with False assms show thesis by (intro served [of st' resp]) (auto simp: client_do_def)
qed

lemma putToNode_effect:
  assumes "putToNode net r node inp w = (w', err)" "routed (piBucket inp) (piKey inp)" "in_i64 (piVersion inp)"
    "wHost w (nodeBaseURL (nAddress node)) = Some i" "net_ok net"
  shows "\<exists>rin. op_effect (RPut rin) i w w' err \<and> op_key (RPut rin) = (piBucket inp, piKey inp) \<and>
    riVersion rin = piVersion inp \<and> riExpectedETag rin = piExpectedETag inp \<and> (err = None \<longrightarrow> 1 \<le> piVersion inp)"
proof (cases "w' = w \<and> err \<noteq> None")
  case True
  define rin where "rin = \<lparr>riBucketName = piBucket inp, riKey = piKey inp, riVersion = piVersion inp,
      riExpectedETag = piExpectedETag inp, riContentType = '''', riCustomMetadata = [], riBody = Src []\<rparr>"
  have "op_effect (RPut rin) i w w' err" using True by (simp add: op_effect_def)
  with True show ?thesis by (intro exI [of _ rin]) (auto simp: rin_def)
next
  case False
  with assms(1) obtain body res where b: "piOpenBody inp w = Inr body"
    and C: "client_do net ''put'' (nodeBaseURL (nAddress node)) \<lparr>rqMethod = ''PUT'', rqPath = object_target (piBucket inp) (piKey inp),
        rqHeader = put_headers r inp, rqBody = Src (nChunk net body)\<rparr> w = (w', res)" (is "client_do net _ _ ?r w = _")
    and e: "err = None \<longrightarrow> (\<exists>resp. res = Inr resp \<and> rsStatus resp = 200)"
    by (auto simp: putToNode_def split: option.splits if_splits sum.splits prod.splits)
  let ?rin = "\<lparr>riBucketName = piBucket inp, riKey = piKey inp, riVersion = piVersion inp, riExpectedETag = piExpectedETag inp,
      riContentType = piContentType inp, riCustomMetadata = extractCustomMetadata (put_headers r inp), riBody = Src (nChunk net body)\<rparr>"
  have nk: "calm (Src (nChunk net body))" "wd_ok (eFs (nEnv net i ''put''))" using assms(5) by (simp_all add: net_ok_def)
  have "mux_clean (rqPath ?r)" using assms(2) by (simp add: routed_def)
  with C assms(4) show ?thesis
  proof (cases rule: client_do_cases)
    case none
    with e False show ?thesis by auto
  next
    case (served st' resp)
    have er: "err = None \<longrightarrow> rsStatus resp = 200" using e served(3) by auto
    show ?thesis
    proof (cases "IsInternalRequest ?r (wToken w i)")
      case True
      then have op: "IsReplicatePut ?r (wToken w i)" by (simp add: IsReplicatePut_def internal_operation)
      have P: "putReplica (wSvc w i) (nEnv net i ''put'') ?r (piBucket inp) (piKey inp) (wNodes w i) = (st', resp)"
        using serve_routed [OF assms(2), of ?r] served(1) True op by simp
      from putReplica_handled [OF _ assms(3) this] nk
      have "st' = wNodes w i \<and> rsStatus resp \<noteq> 200 \<or> (\<exists>res. PutReplica (wSvc w i) (nEnv net i ''put'') ?rin (wNodes w i) = (st', res) \<and>
          1 \<le> piVersion inp \<and> (rsStatus resp = 200 \<longrightarrow> res = Inr ()))" by simp
      then show ?thesis
      proof
        assume "st' = wNodes w i \<and> rsStatus resp \<noteq> 200"
        with False served(2) er show ?thesis by auto
      next
        assume "\<exists>res. PutReplica (wSvc w i) (nEnv net i ''put'') ?rin (wNodes w i) = (st', res) \<and>
          1 \<le> piVersion inp \<and> (rsStatus resp = 200 \<longrightarrow> res = Inr ())"
        then obtain res where "apply_op (wSvc w i) (nEnv net i ''put'') (RPut ?rin) (wNodes w i) = (st', res)"
          "1 \<le> piVersion inp" "rsStatus resp = 200 \<longrightarrow> res = Inr ()" by auto
        with served(2) er show ?thesis by (intro exI [of _ ?rin]) (auto intro: op_effectI)
      qed
    next
      case notint: False
      then have "st' = wNodes w i" "rsStatus resp = 403"
        using serve_routed [OF assms(2), of ?r] served(1) by (auto simp: WriteError_def)
      with False served(2) er show ?thesis by auto
    qed
  qed
qed

lemma deleteOnNode_effect:
  assumes "deleteOnNode net r node b k v w = (w', err)" "routed b k" "in_i64 v" "wHost w (nodeBaseURL (nAddress node)) = Some i"
  shows "op_effect (RDel b k v) i w w' err \<and> (err = None \<longrightarrow> 1 \<le> v)"
proof (cases "w' = w \<and> err \<noteq> None")
  case False
  with assms(1) obtain res where C: "client_do net ''delete'' (nodeBaseURL (nAddress node)) \<lparr>rqMethod = ''DELETE'', rqPath = object_target b k,
        rqHeader = delete_headers r v, rqBody = Src []\<rparr> w = (w', res)" (is "client_do net _ _ ?r w = _")
    and e: "err = None \<longrightarrow> (\<exists>resp. res = Inr resp \<and> rsStatus resp = 204)"
    by (auto simp: deleteOnNode_def split: option.splits if_splits sum.splits prod.splits)
  have "mux_clean (rqPath ?r)" using assms(2) by (simp add: routed_def)
  with C assms(4) show ?thesis
  proof (cases rule: client_do_cases)
    case none
    with e False show ?thesis by auto
  next
    case (served st' resp)
    have er: "err = None \<longrightarrow> rsStatus resp = 204" using e served(3) by auto
    show ?thesis
    proof (cases "IsInternalRequest ?r (wToken w i)")
      case True
      then have op: "IsReplicateDelete ?r (wToken w i)" "\<not> IsReplicatePut ?r (wToken w i)"
        by (simp_all add: IsReplicateDelete_def IsReplicatePut_def internal_operation)
      have P: "deleteReplica (wSvc w i) (nEnv net i ''delete'') ?r b k (wNodes w i) = (st', resp)"
        using serve_routed [OF assms(2), of ?r] served(1) True op by simp
      from deleteReplica_handled [OF _ assms(3) this] False served(2) er show ?thesis
        by (auto intro: op_effectI)
    next
      case notint: False
      then have "st' = wNodes w i" "rsStatus resp = 403"
        using serve_routed [OF assms(2), of ?r] served(1) by (auto simp: WriteError_def)
      with False served(2) er show ?thesis by auto
    qed
  qed
qed (auto simp: op_effect_def)

section \<open>Asking a node\<close>

text \<open>What the code relies on for the rows it sends in headers: 64-bit versions and ETags without quotes.\<close>

definition row_ok :: "Object \<Rightarrow> bool" where
  "row_ok row \<longleftrightarrow> in_i64 (oVersion row) \<and> CHR 0x22 \<notin> set (oETag row)"

definition rows_ok :: "node_state \<Rightarrow> string \<times> string \<Rightarrow> bool" where
  "rows_ok st bk \<longleftrightarrow> (\<forall>row. row_of st bk = Some row \<longrightarrow> row_ok row)"

lemma ParseInt_value_FormatInt [simp]: "in_i64 v \<Longrightarrow> ParseInt_value (FormatInt v) = v"
proof (cases "v < 0")
  case True
  assume "in_i64 v"
  with True dec_digits_facts [of "nat (- v)"] show ?thesis
    by (simp add: ParseInt_value_def FormatInt_def Let_def in_i64_def)
next
  case False
  assume "in_i64 v"
  with False dec_digits_facts [of "nat v"] dec_digits_sign [of "nat v"] show ?thesis
    by (simp add: ParseInt_value_def FormatInt_def Let_def in_i64_def)
qed

lemma Trim_dquote:
  assumes "CHR 0x22 \<notin> set s"
  shows "Trim (dquote s) (CHR 0x22) = s"
proof (cases "s = []")
  case True
  then show ?thesis by (simp add: Trim_def TrimRight_def dquote_def)
next
  case False
  have "hd s \<noteq> CHR 0x22" "last s \<noteq> CHR 0x22" using False assms hd_in_set last_in_set by force+
  then have d: "dropWhile (\<lambda>x. x = CHR 0x22) s = s" "dropWhile (\<lambda>x. x = CHR 0x22) (rev s) = rev s"
    using False by (simp_all add: dropWhile_eq_self_iff hd_rev)
  have "dropWhile (\<lambda>x. x = CHR 0x22) (s @ [CHR 0x22]) = s @ [CHR 0x22]"
    using False \<open>hd s \<noteq> CHR 0x22\<close> by (cases s) auto
  then show ?thesis by (simp add: Trim_def TrimRight_def dquote_def d)
qed

lemma header_get_custom:
  "protocol_key (CanonicalHeaderKey p) \<Longrightarrow> header_get (setCustomMetadata m h) p = header_get h p"
  using header_get_meta [of m "\<lambda>k. HasPrefix (ToLower k) meta_prefix" "\<lambda>k. k"] by (simp add: setCustomMetadata_def)

text \<open>The state of a node's row as a replica state.\<close>

definition row_state :: "string \<Rightarrow> Object \<Rightarrow> ReplicaState \<Rightarrow> bool" where
  "row_state i row rs \<longleftrightarrow> rNodeID rs = i \<and> rFound rs \<and> rVersion rs = oVersion row \<and> rETag rs = oETag row \<and> rDeleted rs = oDeleted row"

lemma headOnNode_NodeID [simp]: "rNodeID (headOnNode net r b k w node) = nID node"
  by (auto simp: headOnNode_def Let_def split: sum.splits)

lemma headReplica_200:
  assumes "rsStatus (headReplica env b k st) = 200"
  obtains row where "row_of st (b, k) = Some row"
    "headReplica env b k st = \<lparr>rsStatus = 200, rsHeader = setCustomMetadata (oCustomMetadata row)
       (if oDeleted row then header_set InternalObjectDeleted ''true''
            (header_set ''Content-Type'' (oContentType row) (header_set ''Content-Length'' (FormatInt (oSize row))
              (header_set ''ETag'' (dquote (oETag row)) (header_set InternalObjectVersion (FormatInt (oVersion row)) []))))
        else header_set ''Content-Type'' (oContentType row) (header_set ''Content-Length'' (FormatInt (oSize row))
              (header_set ''ETag'' (dquote (oETag row)) (header_set InternalObjectVersion (FormatInt (oVersion row)) [])))), rsBody = '''', rsSecond = None\<rparr>"
proof -
  have s: "rsStatus (writeError (sql_err l)) = 500" for l by (simp add: writeError_def sql_err_def)
  from assms obtain row where "row_of st (b, k) = Some row" "\<not> db_fails (eDb env) ''object.get''"
    by (auto simp: headReplica_def LocalReplicaState_def GetObject_def row_of_def s Let_def split: if_splits option.splits)
  with that show thesis by (simp add: headReplica_def LocalReplicaState_def GetObject_def row_of_def Let_def)
qed

lemma headOnNode_state:
  assumes "routed b k" "wHost w (nodeBaseURL (nAddress node)) = Some i" "rows_ok (wNodes w i) (b, k)"
    "rFound (headOnNode net r b k w node)"
  shows "\<exists>row. row_of (wNodes w i) (b, k) = Some row \<and> row_state (nID node) row (headOnNode net r b k w node)"
proof -
  let ?r = "\<lparr>rqMethod = ''HEAD'', rqPath = object_target b k, rqHeader = op_headers r OpReplicateHead, rqBody = Src []\<rparr>"
  from assms(4) obtain resp where C: "snd (client_do net ''head'' (nodeBaseURL (nAddress node)) ?r w) = Inr resp"
    and s: "rsStatus resp = 200" and t: "injectFault net (nID node) ''head'' = None" "rpInternalToken r \<noteq> ''''"
    by (auto simp: headOnNode_def zero_state_def Let_def split: if_splits sum.splits)
  then obtain w' where C': "client_do net ''head'' (nodeBaseURL (nAddress node)) ?r w = (w', Inr resp)"
    by (metis prod.collapse)
  have "mux_clean (rqPath ?r)" using assms(1) by (simp add: routed_def)
  with C' assms(2) obtain st' where S: "serve_replica (wSvc w i) (wToken w i) (nEnv net i ''head'') ?r (wNodes w i) = (st', resp)"
    by (cases rule: client_do_cases) auto
  have int: "IsInternalRequest ?r (wToken w i)"
    using serve_routed [OF assms(1), of ?r] S s by (auto simp: WriteError_def split: if_splits)
  then have op: "IsReplicateHead ?r (wToken w i)" "\<not> IsReplicatePut ?r (wToken w i)"
    by (simp_all add: internal_op_defs internal_operation)
  have H: "headReplica (nEnv net i ''head'') b k (wNodes w i) = resp"
    using serve_routed [OF assms(1), of ?r] S int op by auto
  with s obtain row where row: "row_of (wNodes w i) (b, k) = Some row" and h: "rsHeader resp =
      setCustomMetadata (oCustomMetadata row)
       (if oDeleted row then header_set InternalObjectDeleted ''true''
            (header_set ''Content-Type'' (oContentType row) (header_set ''Content-Length'' (FormatInt (oSize row))
              (header_set ''ETag'' (dquote (oETag row)) (header_set InternalObjectVersion (FormatInt (oVersion row)) []))))
        else header_set ''Content-Type'' (oContentType row) (header_set ''Content-Length'' (FormatInt (oSize row))
              (header_set ''ETag'' (dquote (oETag row)) (header_set InternalObjectVersion (FormatInt (oVersion row)) []))))"
    by (metis headReplica_200 http_resp.select_convs(2))
  have "row_ok row" using assms(3) row by (auto simp: rows_ok_def)
  then have "header_get (rsHeader resp) InternalObjectVersion = FormatInt (oVersion row)" "in_i64 (oVersion row)"
    "Trim (header_get (rsHeader resp) ''ETag'') (CHR 0x22) = oETag row"
    "header_get (rsHeader resp) InternalObjectDeleted = ''true'' \<longleftrightarrow> oDeleted row"
    by (auto simp: h header_get_custom protocol_key_def header_get_set row_ok_def Trim_dquote)
  with row t C s show ?thesis by (auto simp: headOnNode_def row_state_def zero_state_def Let_def)
qed

end
