(* ===== verification/Coordinator.thy ===== *)
theory Coordinator
  imports ReplicatorProps
begin

text \<open>
  \<^verbatim>\<open>internal/replication/coordinator.go\<close>: quorum reads and writes on the cluster. The coordinator acts on the
  state of its own node and, through the replicator, on its peers. Each call on the local node
  has its own environment (clock, randomness, faults), chosen by a label; logging and metrics are
  left out. Whether the service, the metadata store, the placer and the replicator are
  configured is part of the record.
\<close>

section \<open>The coordinator\<close>

record Coordinator =
  cLocalNodeID :: string
  cMembership :: "StaticMembership option"
  cPlacer :: "RendezvousPlacer option"
  cSvc :: bool
  cMeta :: bool
  cReplicator :: "Replicator option"
  cQuorum :: Config

definition NewCoordinator ::
  "string \<Rightarrow> StaticMembership option \<Rightarrow> RendezvousPlacer option \<Rightarrow> bool \<Rightarrow> bool \<Rightarrow> Replicator option \<Rightarrow> Config \<Rightarrow> Coordinator" where
  "NewCoordinator localNodeID members placer svc meta replicator q =
     \<lparr>cLocalNodeID = localNodeID, cMembership = members, cPlacer = placer, cSvc = svc, cMeta = meta,
      cReplicator = replicator, cQuorum = q\<rparr>"

definition Enabled_coord :: "Coordinator \<Rightarrow> bool" where
  "Enabled_coord c \<longleftrightarrow>
     (case cPlacer c of None \<Rightarrow> False | Some p \<Rightarrow> cReplicator c \<noteq> None \<and> ReplicationFactor p > 1)"

definition not_configured :: goerr where
  "not_configured = Other ''coordinator not configured''"

text \<open>The local node: its state, its service, and the environment of a local call.\<close>

definition here :: "Coordinator \<Rightarrow> world \<Rightarrow> node_state" where
  "here c w = wNodes w (cLocalNodeID c)"

definition my_svc :: "Coordinator \<Rightarrow> world \<Rightarrow> Service" where
  "my_svc c w = wSvc w (cLocalNodeID c)"

definition my_env :: "net \<Rightarrow> Coordinator \<Rightarrow> string \<Rightarrow> env" where
  "my_env net c l = nEnv net (cLocalNodeID c) l"

definition set_here :: "Coordinator \<Rightarrow> node_state \<Rightarrow> world \<Rightarrow> world" where
  "set_here c st w = set_node (cLocalNodeID c) st w"

definition the_placer :: "Coordinator \<Rightarrow> RendezvousPlacer" where
  "the_placer c = the (cPlacer c)"

definition the_replicator :: "Coordinator \<Rightarrow> Replicator" where
  "the_replicator c = the (cReplicator c)"

section \<open>Hints\<close>

definition new_hint ::
  "HintKind \<Rightarrow> string \<Rightarrow> string \<Rightarrow> string \<Rightarrow> int \<Rightarrow> string \<Rightarrow> string \<Rightarrow> custom_md \<Rightarrow> string \<Rightarrow> time \<Rightarrow> ReplicationHint" where
  "new_hint kind targetNode bucket key version etag contentType custom sourceNode now =
     \<lparr>hID = '''', hTargetNode = targetNode, hBucketName = bucket, hKey = key, hVersion = version, hETag = etag,
      hKind = kind, hContentType = contentType, hCustomMetadata = custom, hSourceNode = sourceNode, hSourcePath = '''',
      hAttempts = 0, hNextAttemptAt = now, hStatus = ''pending'', hLastError = '''', hCreatedAt = zero_time\<rparr>"

definition enqueueHint ::
  "net \<Rightarrow> Coordinator \<Rightarrow> HintKind \<Rightarrow> string \<Rightarrow> string \<Rightarrow> string \<Rightarrow> int \<Rightarrow> string \<Rightarrow> string \<Rightarrow> custom_md \<Rightarrow> string \<Rightarrow>
   world \<Rightarrow> world \<times> unit res" where
  "enqueueHint net c kind targetNode bucket key version etag contentType custom sourceNode w =
     (if \<not> cMeta c then (w, Inr ())
      else let env = my_env net c (''hint:'' @ targetNode @ ''/'' @ bucket @ ''/'' @ key);
               hint = new_hint kind targetNode bucket key version etag contentType custom sourceNode (db_now (eDb env))
      in case (if (kind = HintKindPut \<or> kind = HintKindRepair) \<and> sourceNode = cLocalNodeID c
               then (case StageHintPayload (my_svc c w) env bucket key version targetNode (here c w) of
                       (st, Inl e) \<Rightarrow> (st, hint)
                     | (st, Inr (path, _)) \<Rightarrow> (st, hint\<lparr>hSourcePath := path\<rparr>))
               else (here c w, hint)) of
           (st, hint) \<Rightarrow>
             (case CreateHint (eDb env) hint (sDb st) of
                (db, r) \<Rightarrow> (set_here c (st\<lparr>sDb := db\<rparr>) w, r)))"

text \<open>The loop over the failed replicas; an error of \<^verbatim>\<open>enqueueHint\<close> is logged.\<close>

definition enqueue_failures ::
  "net \<Rightarrow> Coordinator \<Rightarrow> HintKind \<Rightarrow> string \<Rightarrow> string \<Rightarrow> int \<Rightarrow> string \<Rightarrow> string \<Rightarrow> custom_md \<Rightarrow> ReplicaError list \<Rightarrow> world \<Rightarrow> world" where
  "enqueue_failures net c kind bucket key version etag contentType custom failures w =
     fold (\<lambda>f w. fst (enqueueHint net c kind (reNodeID f) bucket key version etag contentType custom (cLocalNodeID c) w)) failures w"

section \<open>Writes\<close>

text \<open>What remains after the replicas have been asked: the quorum check, hints, and the status.\<close>

definition finish_put ::
  "net \<Rightarrow> Coordinator \<Rightarrow> PutObjectInput \<Rightarrow> int \<Rightarrow> string \<Rightarrow> world \<times> WriteAckResult \<Rightarrow> world \<times> string res" where
  "finish_put net c inp version etag wr =
     (case wr of (w, remote) \<Rightarrow>
        if \<not> WriteSatisfied (cQuorum c) (1 + waAcks remote) then (w, Inl (NewReplicationError ErrQuorumNotMet))
        else let w = enqueue_failures net c HintKindPut (inBucketName inp) (inKey inp) version etag (inContentType inp)
                       (inCustomMetadata inp) (waFailures remote) w
             in (set_here c (fst (SetReplicationStatus (my_env net c ''status'') (inBucketName inp) (inKey inp) ''replicated'' (here c w))) w,
                 Inr etag))"

definition PutObject_coord :: "net \<Rightarrow> Coordinator \<Rightarrow> PutObjectInput \<Rightarrow> world \<Rightarrow> world \<times> string res" where
  "PutObject_coord net c inp w =
     (let env = my_env net c ''local''; s = my_svc c w in
      if \<not> cSvc c then (w, Inl not_configured)
      else if \<not> Enabled_coord c then
        (case PutObject_svc s env inp (here c w) of (st, r) \<Rightarrow> (set_here c st w, r))
      else case Locate (the_placer c) (inBucketName inp) (inKey inp) of
        Inl e \<Rightarrow> (w, Inl e)
      | Inr placement \<Rightarrow>
          if nID (Primary placement) \<noteq> cLocalNodeID c then (w, Inl ErrNotPrimary)
          else (case NextObjectVersion env (inBucketName inp) (inKey inp) (here c w) of
             Inl e \<Rightarrow> (w, Inl e)
           | Inr version \<Rightarrow>
               (case PutObjectWithVersion s env inp version ''partial'' (here c w) of
                  (st, Inl e) \<Rightarrow> (set_here c st w, Inl e)
                | (st, Inr etag) \<Rightarrow>
                    let w = set_here c st w in
                    if Replicas placement = [] then finish_put net c inp version etag (w, empty_result)
                    else (case OpenStoredObject s env (inBucketName inp) (inKey inp) st of
                       Inl e \<Rightarrow> (w, Inl e)
                     | Inr (_, sz) \<Rightarrow>
                         finish_put net c inp version etag
                           (ReplicatePut net (the_replicator c) (Replicas placement)
                              \<lparr>piBucket = inBucketName inp, piKey = inKey inp, piVersion = version, piExpectedETag = etag,
                               piContentType = inContentType inp, piCustomMetadata = inCustomMetadata inp, piSize = sz,
                               piOpenBody = (\<lambda>w. case OpenStoredObject s env (inBucketName inp) (inKey inp) (here c w) of
                                               Inl e \<Rightarrow> Inl e | Inr (rc, _) \<Rightarrow> Inr rc)\<rparr> w)))))"

definition finish_delete :: "net \<Rightarrow> Coordinator \<Rightarrow> string \<Rightarrow> string \<Rightarrow> int \<Rightarrow> world \<times> WriteAckResult \<Rightarrow> world \<times> unit res" where
  "finish_delete net c bucket key version wr =
     (case wr of (w, remote) \<Rightarrow>
        if \<not> WriteSatisfied (cQuorum c) (1 + waAcks remote) then (w, Inl (NewReplicationError ErrQuorumNotMet))
        else (enqueue_failures net c HintKindTombstone bucket key version '''' '''' [] (waFailures remote) w, Inr ()))"

definition DeleteObject_coord :: "net \<Rightarrow> Coordinator \<Rightarrow> string \<Rightarrow> string \<Rightarrow> world \<Rightarrow> world \<times> unit res" where
  "DeleteObject_coord net c bucket key w =
     (let env = my_env net c ''local''; s = my_svc c w in
      if \<not> cSvc c then (w, Inl not_configured)
      else if \<not> Enabled_coord c then
        (case DeleteObject_svc s env bucket key (here c w) of (st, r) \<Rightarrow> (set_here c st w, r))
      else case Locate (the_placer c) bucket key of
        Inl e \<Rightarrow> (w, Inl e)
      | Inr placement \<Rightarrow>
          if nID (Primary placement) \<noteq> cLocalNodeID c then (w, Inl ErrNotPrimary)
          else (case GetObjectMetadata env bucket key (here c w) of
             Inl (ObjErr CodeNoSuchKey m n) \<Rightarrow> (w, Inr ())
           | Inl e \<Rightarrow> (w, Inl e)
           | Inr existing \<Rightarrow>
               (case NextObjectVersion env bucket key (here c w) of
                  Inl e \<Rightarrow> (w, Inl e)
                | Inr version \<Rightarrow>
                    (case PutTombstone_svc s env bucket key version (here c w) of
                       (st, Inl e) \<Rightarrow> (set_here c st w, Inl e)
                     | (st, Inr _) \<Rightarrow>
                         finish_delete net c bucket key version
                           (if Replicas placement = [] then (set_here c st w, empty_result)
                            else ReplicateDelete net (the_replicator c) (Replicas placement) bucket key version (set_here c st w))))))"

section \<open>Reads\<close>

definition localReplicaState :: "net \<Rightarrow> Coordinator \<Rightarrow> string \<Rightarrow> string \<Rightarrow> world \<Rightarrow> ReplicaState" where
  "localReplicaState net c bucket key w =
     (case LocalReplicaState (my_env net c ''local'') bucket key (here c w) of
        Inr (Some obj) \<Rightarrow>
          \<lparr>rNodeID = cLocalNodeID c, rFound = True, rVersion = oVersion obj, rETag = oETag obj, rSize = oSize obj,
           rContentType = oContentType obj, rDeleted = oDeleted obj, rCustomMetadata = oCustomMetadata obj\<rparr>
      | _ \<Rightarrow> zero_state\<lparr>rNodeID := cLocalNodeID c\<rparr>)"

definition collectReplicaStates :: "net \<Rightarrow> Coordinator \<Rightarrow> Node list \<Rightarrow> string \<Rightarrow> string \<Rightarrow> world \<Rightarrow> ReplicaState list" where
  "collectReplicaStates net c ns bucket key w =
     (let locals = map (\<lambda>n. localReplicaState net c bucket key w) (filter (\<lambda>n. nID n = cLocalNodeID c) ns);
          remotes = filter (\<lambda>n. nID n \<noteq> cLocalNodeID c) ns
      in locals @ (if remotes \<noteq> [] then FetchReplicaStates net (the_replicator c) remotes bucket key w else []))"

definition quorumRead :: "net \<Rightarrow> Coordinator \<Rightarrow> Node list \<Rightarrow> string \<Rightarrow> string \<Rightarrow> world \<Rightarrow> (ReplicaState \<times> ReplicaState list) res" where
  "quorumRead net c ns bucket key w =
     (let states = collectReplicaStates net c ns bucket key w;
          found = filter rFound states
      in if \<not> ReadSatisfied (cQuorum c) (int (length found)) then Inl (NewQuorumReadError ErrQuorumNotMet)
         else case PickNewestState found of
           (winning, ok) \<Rightarrow> if \<not> ok then Inl (NewQuorumReadError ErrQuorumNotMet) else Inr (winning, states))"

definition needs_repair :: "ReplicaState \<Rightarrow> ReplicaState \<Rightarrow> bool" where
  "needs_repair winning s \<longleftrightarrow>
     \<not> (\<not> rFound s \<or> rNodeID s = rNodeID winning) \<and>
     \<not> (rVersion s \<ge> rVersion winning \<and> rETag s = rETag winning \<and> rDeleted s = rDeleted winning)"

definition scheduleReadRepair ::
  "net \<Rightarrow> Coordinator \<Rightarrow> string \<Rightarrow> string \<Rightarrow> ReplicaState \<Rightarrow> ReplicaState list \<Rightarrow> world \<Rightarrow> world" where
  "scheduleReadRepair net c bucket key winning states w =
     fold (\<lambda>s w. if \<not> needs_repair winning s then w
                 else fst (enqueueHint net c (if rDeleted winning then HintKindTombstone else HintKindRepair) (rNodeID s) bucket key
                        (rVersion winning) (rETag winning) (rContentType winning) (rCustomMetadata winning) (rNodeID winning) w))
       states w"

definition nodeByID :: "Coordinator \<Rightarrow> string \<Rightarrow> Node option" where
  "nodeByID c i = (case cMembership c of None \<Rightarrow> None | Some m \<Rightarrow> find (\<lambda>n. nID n = i) (ListNodes m))"

definition winning_body :: "net \<Rightarrow> Coordinator \<Rightarrow> ReplicaState \<Rightarrow> string \<Rightarrow> string \<Rightarrow> world \<Rightarrow> (string \<times> int) res" where
  "winning_body net c winning bucket key w =
     (if rNodeID winning = cLocalNodeID c then OpenStoredObject (my_svc c w) (my_env net c ''local'') bucket key (here c w)
      else case nodeByID c (rNodeID winning) of
        None \<Rightarrow> Inl (NewQuorumReadError (Other ''winning node unknown''))
      | Some node \<Rightarrow>
          (case StreamFromNode net (the_replicator c) node bucket key w of
             Inl e \<Rightarrow> Inl (NewQuorumReadError e)
           | Inr (rc, sz, _) \<Rightarrow> Inr (rc, sz)))"

definition GetObject_coord ::
  "net \<Rightarrow> Coordinator \<Rightarrow> string \<Rightarrow> string \<Rightarrow> bool \<Rightarrow> world \<Rightarrow> world \<times> GetObjectResult res" where
  "GetObject_coord net c bucket key verifyIntegrity w =
     (let env = my_env net c ''local'' in
      if \<not> cSvc c then (w, Inl not_configured)
      else if \<not> Enabled_coord c \<or> \<not> Enabled (cQuorum c)
      then (w, GetObject_svc (my_svc c w) env bucket key verifyIntegrity (here c w))
      else case Locate (the_placer c) bucket key of
        Inl e \<Rightarrow> (w, Inl e)
      | Inr placement \<Rightarrow>
          (case quorumRead net c (ReplicaSet placement) bucket key w of
             Inl e \<Rightarrow> (w, Inl e)
           | Inr (winning, responses) \<Rightarrow>
               if \<not> rFound winning \<or> rDeleted winning then (w, Inl NotFoundKey)
               else let w = scheduleReadRepair net c bucket key winning responses w in
                 (case winning_body net c winning bucket key w of
                    Inl e \<Rightarrow> (w, Inl e)
                  | Inr (body, sz) \<Rightarrow>
                      let obj = GetObjectMetadata env bucket key (here c w);
                          live = (case obj of Inr o' \<Rightarrow> if oDeleted o' then None else Some o' | Inl _ \<Rightarrow> None);
                          lastMod = (case live of Some o' \<Rightarrow> oUpdatedAt o' | None \<Rightarrow> db_now (eDb env));
                          contentType = (case live of Some o' \<Rightarrow> if rContentType winning = '''' then oContentType o' else rContentType winning
                                         | None \<Rightarrow> rContentType winning);
                          contentType = (if contentType = '''' then octet_stream else contentType)
                      in (w, Inr \<lparr>gBody = body, gSize = sz, gContentType = contentType, gETag = rETag winning,
                                  gLastModified = lastMod, gCustomMetadata = rCustomMetadata winning\<rparr>))))"

definition HeadObject_coord :: "net \<Rightarrow> Coordinator \<Rightarrow> string \<Rightarrow> string \<Rightarrow> world \<Rightarrow> world \<times> Object res" where
  "HeadObject_coord net c bucket key w =
     (if \<not> cSvc c then (w, Inl not_configured)
      else if \<not> Enabled_coord c \<or> \<not> Enabled (cQuorum c)
      then (w, HeadObject_svc (my_env net c ''local'') bucket key (here c w))
      else case Locate (the_placer c) bucket key of
        Inl e \<Rightarrow> (w, Inl e)
      | Inr placement \<Rightarrow>
          (case quorumRead net c (ReplicaSet placement) bucket key w of
             Inl e \<Rightarrow> (w, Inl e)
           | Inr (winning, responses) \<Rightarrow>
               if \<not> rFound winning \<or> rDeleted winning then (w, Inl NotFoundKey)
               else (scheduleReadRepair net c bucket key winning responses w,
                     Inr (zero_object\<lparr>oBucketName := bucket, oKey := key, oSize := rSize winning,
                            oContentType := rContentType winning, oETag := rETag winning, oVersion := rVersion winning,
                            oCustomMetadata := rCustomMetadata winning\<rparr>))))"

section \<open>Hint delivery\<close>

definition hint_input :: "ReplicationHint \<Rightarrow> int \<Rightarrow> (world \<Rightarrow> string res) \<Rightarrow> ReplicatePutInput" where
  "hint_input hint sz openBody =
     \<lparr>piBucket = hBucketName hint, piKey = hKey hint, piVersion = hVersion hint, piExpectedETag = hETag hint,
      piContentType = hContentType hint, piCustomMetadata = hCustomMetadata hint, piSize = sz, piOpenBody = openBody\<rparr>"

text \<open>
  The bytes come from the staged copy, from the local blob or from the source node; the size is known
  only for the staged copy, because the other two are opened after the input is built.
\<close>

definition DeliverHint :: "net \<Rightarrow> Coordinator \<Rightarrow> ReplicationHint \<Rightarrow> world \<Rightarrow> world \<times> goerr option" where
  "DeliverHint net c hint w =
     (let env = my_env net c ''local''; r = the_replicator c in
      case nodeByID c (hTargetNode hint) of
        None \<Rightarrow> (w, Some (Other (''unknown target node '' @ hTargetNode hint)))
      | Some target \<Rightarrow>
          if hKind hint = HintKindTombstone
          then deleteOnNode net r target (hBucketName hint) (hKey hint) (hVersion hint) w
          else (case nodeByID c (hSourceNode hint) of
             None \<Rightarrow> (w, Some (Other (''unknown source node '' @ hSourceNode hint)))
           | Some source \<Rightarrow>
               if hSourcePath hint \<noteq> '''' then
                 (case OpenStoragePath (my_svc c w) env (hSourcePath hint) (here c w) of
                    Inl e \<Rightarrow> (w, Some (Other ''open staged hint payload''))
                  | Inr (_, sz) \<Rightarrow>
                      putToNode net r target
                        (hint_input hint sz (\<lambda>w. case OpenStoragePath (my_svc c w) env (hSourcePath hint) (here c w) of
                           Inl e \<Rightarrow> Inl e | Inr (rc, _) \<Rightarrow> Inr rc)) w)
               else if hSourceNode hint = cLocalNodeID c then
                 putToNode net r target
                   (hint_input hint 0 (\<lambda>w. case OpenStoredObject (my_svc c w) env (hBucketName hint) (hKey hint) (here c w) of
                      Inl e \<Rightarrow> Inl e | Inr (rc, _) \<Rightarrow> Inr rc)) w
               else
                 putToNode net r target
                   (hint_input hint 0 (\<lambda>w. case StreamFromNode net r source (hBucketName hint) (hKey hint) w of
                      Inl e \<Rightarrow> Inl e | Inr (rc, _, _) \<Rightarrow> Inr rc)) w))"

definition CleanupHintPayload :: "net \<Rightarrow> Coordinator \<Rightarrow> string \<Rightarrow> world \<Rightarrow> world" where
  "CleanupHintPayload net c path w =
     (if \<not> cSvc c then w
      else set_here c (fst (RemoveStoragePath (my_svc c w) (my_env net c ''cleanup'') path (here c w))) w)"

section \<open>Healing\<close>

fun in_sync :: "ReplicaState \<Rightarrow> ReplicaState list \<Rightarrow> bool" where
  "in_sync winning [] \<longleftrightarrow> True"
| "in_sync winning (s # ss) \<longleftrightarrow>
     (if \<not> rFound s then False
      else if rVersion s < rVersion winning \<or> rVersion s = rVersion winning \<and> rETag s \<noteq> rETag winning then False
      else if rDeleted s \<noteq> rDeleted winning then False
      else in_sync winning ss)"

definition replicasInSync :: "ReplicaState \<Rightarrow> ReplicaState list \<Rightarrow> bool" where
  "replicasInSync winning states \<longleftrightarrow> in_sync winning states \<and> states \<noteq> []"

definition healObject :: "net \<Rightarrow> Coordinator \<Rightarrow> string \<Rightarrow> string \<Rightarrow> world \<Rightarrow> world \<times> goerr option" where
  "healObject net c bucket key w =
     (case Locate (the_placer c) bucket key of
        Inl e \<Rightarrow> (w, Some e)
      | Inr placement \<Rightarrow>
          if nID (Primary placement) \<noteq> cLocalNodeID c then (w, None)
          else (case GetObjectMetadata (my_env net c ''local'') bucket key (here c w) of
             Inl e \<Rightarrow> (w, None)
           | Inr obj \<Rightarrow>
               if oDeleted obj then (w, None)
               else let winning = localReplicaState net c bucket key w in
                 if \<not> rFound winning then (w, None)
                 else let states = collectReplicaStates net c (ReplicaSet placement) bucket key w;
                          w = scheduleReadRepair net c bucket key winning states w
                      in (if replicasInSync winning states
                          then set_here c (fst (SetReplicationStatus (my_env net c ''status'') bucket key ''replicated'' (here c w))) w
                          else w, None)))"

fun heal_all :: "net \<Rightarrow> Coordinator \<Rightarrow> Object list \<Rightarrow> world \<times> int \<Rightarrow> world \<times> int" where
  "heal_all net c [] acc = acc"
| "heal_all net c (obj # objs) (w, healed) =
     (case healObject net c (oBucketName obj) (oKey obj) w of
        (w', Some e) \<Rightarrow> heal_all net c objs (w', healed)
      | (w', None) \<Rightarrow> heal_all net c objs (w', healed + 1))"

definition HealPartialObjects :: "net \<Rightarrow> Coordinator \<Rightarrow> int \<Rightarrow> world \<Rightarrow> world \<times> int res" where
  "HealPartialObjects net c limit w =
     (if \<not> Enabled_coord c \<or> \<not> cMeta c then (w, Inr 0)
      else case ListObjectsByReplicationStatus (eDb (my_env net c ''heal'')) ''partial'' limit (sDb (here c w)) of
        Inl e \<Rightarrow> (w, Inl e)
      | Inr objects \<Rightarrow> (case heal_all net c objects (w, 0) of (w', healed) \<Rightarrow> (w', Inr healed)))"

end
