(* ===== verification/CoordinatorProps.thy ===== *)
theory CoordinatorProps
  imports Coordinator
begin

text \<open>
  What the coordinator guarantees on the cluster: an acknowledged write is held by a write quorum whatever
  the network did, a replica that missed it has a pending hint, and a quorum read sees the newest
  acknowledged version.
\<close>

section \<open>Sending an operation to many nodes\<close>

text \<open>
  The contract of sending one operation to a node, as both replica writes and replica deletes keep it:
  only that node's state changes, its row of the object is the old one or satisfies the
  operation, and a reported success means it does.
\<close>

locale sender =
  fixes send :: "Node \<Rightarrow> world \<Rightarrow> world \<times> goerr option"
    and host :: "string \<Rightarrow> string option"
    and members :: "Node set"
    and done_at :: "node_state \<Rightarrow> bool"
    and bk :: "string \<times> string"
  assumes send_effect: "n \<in> members \<Longrightarrow> wHost w = host \<Longrightarrow> send n w = (w', e) \<Longrightarrow>
      \<exists>st'. w' = set_node (nID n) st' w \<and> (e = None \<longrightarrow> done_at st') \<and>
        (done_at st' \<or> row_of st' bk = row_of (wNodes w (nID n)) bk)"
begin

lemma each_acks:
  assumes "set ns \<subseteq> members" "distinct (map nID ns)" "wHost w = host" "replicate_each send ns (w, res) = (w', res')"
  shows "\<exists>S F. waSuccess res' = waSuccess res @ S \<and> waAcks res' = waAcks res + int (length S) \<and>
     map reNodeID (waFailures res') = map reNodeID (waFailures res) @ F \<and> mset S + mset F = mset (map nID ns) \<and>
     (\<forall>i \<in> set S. done_at (wNodes w' i)) \<and>
     (\<forall>i. done_at (wNodes w' i) \<and> i \<in> nID ` set ns \<or> row_of (wNodes w' i) bk = row_of (wNodes w i) bk) \<and>
     (\<forall>i. i \<notin> nID ` set ns \<longrightarrow> wNodes w' i = wNodes w i) \<and>
     wHost w' = wHost w \<and> wSvc w' = wSvc w"
  using assms
proof (induction ns arbitrary: w res)
  case (Cons n ns)
  obtain w1 e where s: "send n w = (w1, e)" by (metis surj_pair)
  obtain st1 where w1: "w1 = set_node (nID n) st1 w" "e = None \<longrightarrow> done_at st1"
    "done_at st1 \<or> row_of st1 bk = row_of (wNodes w (nID n)) bk"
    using send_effect [OF _ Cons.prems(3) s] Cons.prems(1) by auto
  define res1 where "res1 = (case e of Some x \<Rightarrow> res\<lparr>waFailures := waFailures res @ [\<lparr>reNodeID = nID n, reErr = x\<rparr>]\<rparr>
    | None \<Rightarrow> res\<lparr>waSuccess := waSuccess res @ [nID n], waAcks := waAcks res + 1\<rparr>)"
  have r: "replicate_each send ns (w1, res1) = (w', res')"
    using Cons.prems(4) s by (cases e) (simp_all add: res1_def)
  have host1: "wHost w1 = host" using w1(1) Cons.prems(3) by simp
  obtain S F where IH: "waSuccess res' = waSuccess res1 @ S" "waAcks res' = waAcks res1 + int (length S)"
      "map reNodeID (waFailures res') = map reNodeID (waFailures res1) @ F" "mset S + mset F = mset (map nID ns)"
      "\<forall>i \<in> set S. done_at (wNodes w' i)"
      "\<And>i. done_at (wNodes w' i) \<and> i \<in> nID ` set ns \<or> row_of (wNodes w' i) bk = row_of (wNodes w1 i) bk"
      "\<forall>i. i \<notin> nID ` set ns \<longrightarrow> wNodes w' i = wNodes w1 i" "wHost w' = wHost w1" "wSvc w' = wSvc w1"
    using Cons.IH [OF _ _ host1 r] Cons.prems(1,2) by auto
  have n: "wNodes w' (nID n) = st1" using IH(7) Cons.prems(2) w1(1) by simp
  have rows: "done_at (wNodes w' i) \<and> i \<in> nID ` set (n # ns) \<or> row_of (wNodes w' i) bk = row_of (wNodes w i) bk" for i
    using IH(6) [of i] w1(1,3) n by (cases "i = nID n") auto
  show ?case
  proof (cases e)
    case None
    then show ?thesis using IH n rows w1
      by (intro exI [of _ "nID n # S"] exI [of _ F]) (auto simp: res1_def)
  next
    case (Some x)
    then show ?thesis using IH n rows w1
      by (intro exI [of _ S] exI [of _ "nID n # F"]) (auto simp: res1_def)
  qed
qed simp

lemma each_token:
  "set ns \<subseteq> members \<Longrightarrow> wHost w = host \<Longrightarrow> replicate_each send ns (w, res) = (w', res') \<Longrightarrow> wToken w' = wToken w"
proof (induction ns arbitrary: w res)
  case (Cons n ns)
  obtain w1 e where s: "send n w = (w1, e)" by (metis surj_pair)
  obtain st1 where w1: "w1 = set_node (nID n) st1 w" using send_effect [OF _ Cons.prems(2) s] Cons.prems(1) by auto
  obtain res1 where "replicate_each send ns (w1, res1) = (w', res')"
    using Cons.prems(3) s by (cases e) simp_all
  with Cons.IH [of w1 res1] Cons.prems(1,2) w1 show ?case by simp
qed simp

end

section \<open>The cluster the coordinator runs in\<close>

text \<open>Every member is reachable under its own address, and the IDs are distinct.\<close>

definition cluster_ok :: "RendezvousPlacer \<Rightarrow> world \<Rightarrow> bool" where
  "cluster_ok p w \<longleftrightarrow> distinct (map nID (ListNodes (membership p))) \<and>
     (\<forall>n \<in> set (ListNodes (membership p)). wHost w (nodeBaseURL (nAddress n)) = Some (nID n))"

lemma placement_facts:
  assumes "Locate p b k = Inr pl" "cluster_ok p w" "0 < replicationFactor p"
  shows "distinct (map nID (ReplicaSet pl))" "set (ReplicaSet pl) \<subseteq> set (ListNodes (membership p))"
    "int (length (ReplicaSet pl)) = replicationFactor p"
  using Locate_Inr [OF assms(1,3)] best_nodes_facts [of "nat (replicationFactor p)" "ListNodes (membership p)"] assms(2,3)
  by (auto simp: cluster_ok_def)

text \<open>A live row of a version with an ETag, and a tombstone of a version.\<close>

definition live_at :: "node_state \<Rightarrow> string \<times> string \<Rightarrow> int \<Rightarrow> string \<Rightarrow> bool" where
  "live_at st bk v etag \<longleftrightarrow> (\<exists>row. row_of st bk = Some row \<and> oVersion row = v \<and> oETag row = etag \<and> \<not> oDeleted row)"

definition dead_at :: "node_state \<Rightarrow> string \<times> string \<Rightarrow> int \<Rightarrow> bool" where
  "dead_at st bk v \<longleftrightarrow> (\<exists>row. row_of st bk = Some row \<and> oVersion row = v \<and> oDeleted row)"

lemma apply_op_Inl: "apply_op s env op st = (st', Inl e) \<Longrightarrow> sDb st' = sDb st"
proof (cases op)
  case (RPut inp)
  assume "apply_op s env op st = (st', Inl e)"
  then have "PutReplica s env inp st = (st', Inl e)" using RPut by simp
  then show ?thesis by (cases rule: PutReplica_cases) auto
next
  case (RDel b k v)
  assume "apply_op s env op st = (st', Inl e)"
  then have "PutTombstoneReplica s env b k v st = (st', Inl e)" using RDel by simp
  then show ?thesis by (cases rule: PutTombstoneReplica_cases) auto
qed

lemma op_effect_node:
  assumes "op_effect op i w w' e" "op_version op \<noteq> 0"
  shows "\<exists>st'. w' = set_node i st' w \<and> (e = None \<longrightarrow> holds st' op) \<and> (holds st' op \<or> row_of st' bk = row_of (wNodes w i) bk)"
  using assms(1) unfolding op_effect_def
proof (elim disjE conjE exE)
  assume "w' = w" "e \<noteq> None"
  then show ?thesis by (intro exI [of _ "wNodes w i"]) auto
next
  fix env st' res
  assume a: "apply_op (wSvc w i) env op (wNodes w i) = (st', res)" "w' = set_node i st' w" "e = None \<longrightarrow> res = Inr ()"
  show ?thesis
  proof (cases res)
    case (Inl x)
    with a apply_op_Inl [of "wSvc w i" env op "wNodes w i" st' x] show ?thesis by (intro exI [of _ st']) (auto simp: row_of_def)
  next
    case (Inr u)
    with a apply_op_holds [OF _ assms(2), of "wSvc w i" env "wNodes w i" st'] show ?thesis by auto
  qed
qed

text \<open>The peers a call can reach: the address leads to the node, and the operation is one a peer can carry out.\<close>

definition put_peers :: "net \<Rightarrow> ReplicatePutInput \<Rightarrow> (string \<Rightarrow> string option) \<Rightarrow> Node set" where
  "put_peers net inp host = {n. host (nodeBaseURL (nAddress n)) = Some (nID n) \<and> routed (piBucket inp) (piKey inp) \<and>
     in_i64 (piVersion inp) \<and> piVersion inp \<noteq> 0 \<and> net_ok net}"

definition delete_peers :: "string \<Rightarrow> string \<Rightarrow> int \<Rightarrow> (string \<Rightarrow> string option) \<Rightarrow> Node set" where
  "delete_peers b k v host = {n. host (nodeBaseURL (nAddress n)) = Some (nID n) \<and> routed b k \<and> in_i64 v \<and> v \<noteq> 0}"

interpretation replica_put: sender "\<lambda>n. putToNode net r n inp" host "put_peers net inp host"
    "\<lambda>st. live_at st (piBucket inp, piKey inp) (piVersion inp) (piExpectedETag inp)" "(piBucket inp, piKey inp)"
  for net r inp host
proof
  fix n w w' e
  assume a: "n \<in> put_peers net inp host" "wHost w = host" "putToNode net r n inp w = (w', e)"
  then have h: "wHost w (nodeBaseURL (nAddress n)) = Some (nID n)" "routed (piBucket inp) (piKey inp)" "in_i64 (piVersion inp)"
    "piVersion inp \<noteq> 0" "net_ok net" by (auto simp: put_peers_def)
  from putToNode_effect [OF a(3) h(2,3,1,5)] obtain rin where
    rin: "op_effect (RPut rin) (nID n) w w' e" "op_key (RPut rin) = (piBucket inp, piKey inp)" "riVersion rin = piVersion inp"
      "riExpectedETag rin = piExpectedETag inp" by blast
  have "holds st (RPut rin) \<Longrightarrow> live_at st (piBucket inp, piKey inp) (piVersion inp) (piExpectedETag inp)" for st
    using rin by (auto simp: holds_def live_at_def)
  with op_effect_node [OF rin(1), of "(piBucket inp, piKey inp)"] rin(3) h(4)
  show "\<exists>st'. w' = set_node (nID n) st' w \<and> (e = None \<longrightarrow> live_at st' (piBucket inp, piKey inp) (piVersion inp) (piExpectedETag inp)) \<and>
      (live_at st' (piBucket inp, piKey inp) (piVersion inp) (piExpectedETag inp) \<or>
       row_of st' (piBucket inp, piKey inp) = row_of (wNodes w (nID n)) (piBucket inp, piKey inp))" by auto
qed

interpretation replica_delete: sender "\<lambda>n. deleteOnNode net r n b k v" host "delete_peers b k v host"
    "\<lambda>st. dead_at st (b, k) v" "(b, k)"
  for net r b k v host
proof
  fix n w w' e
  assume a: "n \<in> delete_peers b k v host" "wHost w = host" "deleteOnNode net r n b k v w = (w', e)"
  then have h: "wHost w (nodeBaseURL (nAddress n)) = Some (nID n)" "routed b k" "in_i64 v" "v \<noteq> 0"
    by (auto simp: delete_peers_def)
  from deleteOnNode_effect [OF a(3) h(2,3,1)] have e: "op_effect (RDel b k v) (nID n) w w' e" by blast
  have "holds st (RDel b k v) \<Longrightarrow> dead_at st (b, k) v" for st by (auto simp: holds_def dead_at_def)
  with op_effect_node [OF e, of "(b, k)"] h(4)
  show "\<exists>st'. w' = set_node (nID n) st' w \<and> (e = None \<longrightarrow> dead_at st' (b, k) v) \<and>
      (dead_at st' (b, k) v \<or> row_of st' (b, k) = row_of (wNodes w (nID n)) (b, k))" by auto
qed

section \<open>The local node\<close>

text \<open>What matters of a row for replication: version, ETag and the deletion mark.\<close>

definition core_of :: "node_state \<Rightarrow> string \<times> string \<Rightarrow> (int \<times> string \<times> bool) option" where
  "core_of st bk = map_option (\<lambda>r. (oVersion r, oETag r, oDeleted r)) (row_of st bk)"

lemma live_at_core: "live_at st bk v etag \<longleftrightarrow> core_of st bk = Some (v, etag, False)"
  by (auto simp: live_at_def core_of_def)

lemma dead_at_core: "dead_at st bk v \<longleftrightarrow> (\<exists>etag. core_of st bk = Some (v, etag, True))"
  by (auto simp: dead_at_def core_of_def)

lemma core_of_row: "row_of st' bk = row_of st bk \<Longrightarrow> core_of st' bk = core_of st bk"
  by (simp add: core_of_def)

lemma PutObjectWithVersion_Inr:
  assumes "PutObjectWithVersion s env inp version status st = (st', Inr etag)" "version \<noteq> 0"
  shows "live_at st' (inBucketName inp, inKey inp) version etag"
proof -
  obtain fs pr hasher where P: "Put (svBlob s) (eFs env) (inBucketName inp) (inKey inp)
      (NewMD5Reader (limit_body s (inBody inp))) (sFs st) = (fs, pr, hasher)" by (metis prod_cases3)
  with assms(1) obtain res where res: "pr = Inr res" "Err hasher = None" "etag = ETag hasher"
    by (auto simp: PutObjectWithVersion_def BucketExists_def Let_def split: if_splits option.splits sum.splits prod.splits)
  define obj where "obj = zero_object\<lparr>oBucketName := inBucketName inp, oKey := inKey inp, oSize := pSize res,
    oContentType := (if inContentType inp = '''' then octet_stream else inContentType inp), oETag := etag,
    oStoragePath := pPath res, oCustomMetadata := inCustomMetadata inp, oVersion := version, oReplicationStatus := status\<rparr>"
  have "PutObject (eDb env) obj (sDb st) = (sDb st', Inr ())"
    using assms(1) P res
    by (auto simp: PutObjectWithVersion_def BucketExists_def Let_def obj_def split: if_splits option.splits sum.splits prod.splits)
  then obtain row where "obj_at (sDb st') (oBucketName obj) (oKey obj) = Some row" "oETag row = oETag obj"
    "oDeleted row = oDeleted obj" "oVersion obj \<noteq> 0 \<Longrightarrow> oVersion row = oVersion obj" by (rule PutObject_at) blast
  then show ?thesis using assms(2) by (simp add: live_at_def row_of_def obj_def zero_object_def)
qed

lemma CreateHint_objects: "CreateHint e h db = (db', r) \<Longrightarrow> db_objects db' = db_objects db"
  by (auto simp: CreateHint_def Let_def split: if_splits)

lemma StageHintPayload_db: "StageHintPayload s env b k v t st = (st', r) \<Longrightarrow> sDb st' = sDb st"
  by (auto simp: StageHintPayload_def split: sum.splits if_splits prod.splits)

text \<open>The one row of the hints table an enqueued hint adds or renews; no object row changes.\<close>

lemma enqueueHint_cases:
  assumes "enqueueHint net c kind t b k v etag ct md src w = (w', r)"
  obtains (none) "w' = w" "\<not> cMeta c"
  | (created) st hint where "w' = set_here c st w" "db_objects (sDb st) = db_objects (sDb (here c w))"
      "CreateHint (eDb (my_env net c (''hint:'' @ t @ ''/'' @ b @ ''/'' @ k))) hint (sDb (here c w)) = (sDb st, r)"
      "hkey hint = (t, b, k, v, kind)" "hETag hint = etag" "hStatus hint = ''pending''" "hID hint = ''''" "cMeta c"
proof (cases "cMeta c")
  case False
  with assms none show thesis by (simp add: enqueueHint_def)
next
  case True
  define env where "env = my_env net c (''hint:'' @ t @ ''/'' @ b @ ''/'' @ k)"
  define h0 where "h0 = new_hint kind t b k v etag ct md src (db_now (eDb env))"
  obtain st h where sh: "(if (kind = HintKindPut \<or> kind = HintKindRepair) \<and> src = cLocalNodeID c
     then (case StageHintPayload (my_svc c w) env b k v t (here c w) of
             (st, Inl e) \<Rightarrow> (st, h0) | (st, Inr (path, _)) \<Rightarrow> (st, h0\<lparr>hSourcePath := path\<rparr>))
     else (here c w, h0)) = (st, h)" by (rule prod.exhaust)
  have db: "sDb st = sDb (here c w)" using sh
    by (auto split: if_splits prod.splits sum.splits dest: StageHintPayload_db)
  have h: "hkey h = (t, b, k, v, kind)" "hETag h = etag" "hStatus h = ''pending''" "hID h = ''''"
    using sh by (auto simp: hkey_def h0_def new_hint_def split: if_splits prod.splits sum.splits)
  obtain db' r' where C: "CreateHint (eDb env) h (sDb st) = (db', r')" by (metis surj_pair)
  have "(w', r) = (case (st, h) of (st, h) \<Rightarrow> (case CreateHint (eDb env) h (sDb st) of (db, r) \<Rightarrow> (set_here c (st\<lparr>sDb := db\<rparr>) w, r)))"
    unfolding sh [symmetric] assms [symmetric]
    by (simp only: enqueueHint_def Let_def env_def h0_def True not_True_eq_False if_False simp_thms)
  then have w': "w' = set_here c (st\<lparr>sDb := db'\<rparr>) w" "r = r'" by (simp_all add: C)
  show thesis
    using created [OF w'(1) _ _ h True] C w'(2) db CreateHint_objects [OF C] by (simp add: env_def)
qed

lemma set_here_simps [simp]:
  "wNodes (set_here c st w) i = (if i = cLocalNodeID c then st else wNodes w i)" "wHost (set_here c st w) = wHost w"
  "wSvc (set_here c st w) = wSvc w" "here c (set_here c st w) = st" "my_svc c (set_here c st w) = my_svc c w"
  by (simp_all add: set_here_def here_def my_svc_def)

lemma row_of_objects: "db_objects (sDb st') = db_objects (sDb st) \<Longrightarrow> row_of st' = row_of st"
  by (simp add: row_of_def obj_at_def fun_eq_iff)

lemma enqueueHint_rows:
  assumes "enqueueHint net c kind t b k v etag ct md src w = (w', r)"
  shows "row_of (wNodes w' i) = row_of (wNodes w i) \<and> (i \<noteq> cLocalNodeID c \<longrightarrow> wNodes w' i = wNodes w i) \<and>
     wHost w' = wHost w \<and> wSvc w' = wSvc w"
  using assms
proof (cases rule: enqueueHint_cases)
  case (created st hint)
  have "row_of st = row_of (here c w)" by (rule row_of_objects [OF created(2)])
  with created(1) show ?thesis by (simp add: here_def)
qed simp

lemma enqueue_failures_rows:
  "row_of (wNodes (enqueue_failures net c kind b k v etag ct md fs w) i) = row_of (wNodes w i) \<and>
   (i \<noteq> cLocalNodeID c \<longrightarrow> wNodes (enqueue_failures net c kind b k v etag ct md fs w) i = wNodes w i) \<and>
   wHost (enqueue_failures net c kind b k v etag ct md fs w) = wHost w \<and>
   wSvc (enqueue_failures net c kind b k v etag ct md fs w) = wSvc w"
proof (induction fs arbitrary: w)
  case (Cons f fs)
  obtain w1 r where "enqueueHint net c kind (reNodeID f) b k v etag ct md (cLocalNodeID c) w = (w1, r)" by (metis surj_pair)
  with enqueueHint_rows [OF this] Cons [of w1] show ?case by (simp add: enqueue_failures_def)
qed (simp add: enqueue_failures_def)

lemma SetReplicationStatus_core: "core_of (fst (SetReplicationStatus env b k status st)) bk = core_of st bk"
proof -
  have "map_option (\<lambda>r. (oVersion r, oETag r, oDeleted r)) (row_at okey (update_rows P (\<lambda>r. r\<lparr>oReplicationStatus := s, oUpdatedAt := t\<rparr>) rows) x) =
      map_option (\<lambda>r. (oVersion r, oETag r, oDeleted r)) (row_at okey rows x)" if "\<And>r. P r \<longleftrightarrow> okey r = y" for P s t rows x y
    by (induction rows) (auto simp: row_at_def update_rows_def okey_def)
  then show ?thesis
    by (auto simp: SetReplicationStatus_def UpdateReplicationStatus_def core_of_def row_of_def obj_at_def)
qed

section \<open>Coordinated writes\<close>

definition fair_sched :: "net \<Rightarrow> bool" where
  "fair_sched net \<longleftrightarrow> (\<forall>ns. mset (nSched net ns) = mset ns)"

lemma finish_put_Inr:
  assumes "finish_put net c inp v etag (w, remote) = (w', Inr e)"
  shows "e = etag \<and> WriteSatisfied (cQuorum c) (1 + waAcks remote) \<and> (\<forall>i bk. core_of (wNodes w' i) bk = core_of (wNodes w i) bk) \<and>
     wHost w' = wHost w"
proof -
  let ?w = "enqueue_failures net c HintKindPut (inBucketName inp) (inKey inp) v etag (inContentType inp) (inCustomMetadata inp) (waFailures remote) w"
  let ?st = "fst (SetReplicationStatus (my_env net c ''status'') (inBucketName inp) (inKey inp) ''replicated'' (here c ?w))"
  have f: "e = etag" "WriteSatisfied (cQuorum c) (1 + waAcks remote)" "w' = set_here c ?st ?w"
    using assms by (auto simp: finish_put_def Let_def split: if_splits)
  have "core_of (wNodes w' i) bk = core_of (wNodes w i) bk" for i bk
  proof -
    have "core_of (wNodes ?w i) bk = core_of (wNodes w i) bk"
      using enqueue_failures_rows [of net c HintKindPut "inBucketName inp" "inKey inp" v etag "inContentType inp" "inCustomMetadata inp" "waFailures remote" w i]
      by (intro core_of_row) simp
    moreover have "core_of ?st bk = core_of (wNodes ?w (cLocalNodeID c)) bk"
      by (simp add: SetReplicationStatus_core) (simp add: here_def)
    ultimately show ?thesis unfolding f(3) by auto
  qed
  moreover have "wHost w' = wHost w" unfolding f(3) by (simp add: enqueue_failures_rows)
  ultimately show ?thesis using f by blast
qed

lemma ReplicatePut_acks:
  assumes "ReplicatePut net r replicas inp w = (w', remote)" "set replicas \<subseteq> put_peers net inp (wHost w)" "distinct (map nID replicas)"
    "fair_sched net"
  shows "\<exists>S F. waAcks remote = int (length S) \<and> map reNodeID (waFailures remote) = F \<and> mset S + mset F = mset (map nID replicas) \<and>
     (\<forall>i \<in> set S. live_at (wNodes w' i) (piBucket inp, piKey inp) (piVersion inp) (piExpectedETag inp)) \<and>
     (\<forall>i. live_at (wNodes w' i) (piBucket inp, piKey inp) (piVersion inp) (piExpectedETag inp) \<and> i \<in> nID ` set replicas \<or>
        row_of (wNodes w' i) (piBucket inp, piKey inp) = row_of (wNodes w i) (piBucket inp, piKey inp)) \<and>
     (\<forall>i. i \<notin> nID ` set replicas \<longrightarrow> wNodes w' i = wNodes w i) \<and> wHost w' = wHost w \<and> wSvc w' = wSvc w"
proof (cases "replicas = []")
  case True
  with assms(1) show ?thesis by (auto simp: ReplicatePut_def empty_result_def)
next
  case False
  let ?ns = "nSched net replicas"
  have m: "mset ?ns = mset replicas" using assms(4) by (simp add: fair_sched_def)
  then have s: "set ?ns = set replicas" by (rule mset_eq_setD)
  have mn: "mset (map nID ?ns) = mset (map nID replicas)" using m by simp
  then have "distinct (map nID ?ns)" using assms(3) by (metis mset_eq_imp_distinct_iff)
  from replica_put.each_acks [OF _ this refl, of net inp w r empty_result w' remote] assms(1,2) False s mn
  show ?thesis by (auto simp: ReplicatePut_def empty_result_def)
qed

text \<open>The next version of a key on the primary, when its row has a proper one.\<close>

definition version_room :: "node_state \<Rightarrow> string \<times> string \<Rightarrow> bool" where
  "version_room st bk \<longleftrightarrow> (\<forall>row. row_of st bk = Some row \<longrightarrow> 0 \<le> oVersion row \<and> oVersion row < 2 ^ 63 - 1)"

definition next_version :: "node_state \<Rightarrow> string \<times> string \<Rightarrow> int" where
  "next_version st bk = (case row_of st bk of None \<Rightarrow> 1 | Some row \<Rightarrow> oVersion row + 1)"

lemma NextObjectVersion_Inr:
  assumes "NextObjectVersion env b k st = Inr v" "version_room st (b, k)"
  shows "v = next_version st (b, k)" "1 \<le> v" "in_i64 v"
  using assms by (auto simp: NextObjectVersion_def GetObject_def version_room_def next_version_def row_of_def in_i64_def sql_err_def
      split: if_splits option.splits)

lemma PutObject_coord_Inr:
  assumes "PutObject_coord net c inp w = (w', Inr etag)" "Enabled_coord c" "cPlacer c = Some p" "cluster_ok p w"
    "routed (inBucketName inp) (inKey inp)" "net_ok net" "fair_sched net"
    "version_room (here c w) (inBucketName inp, inKey inp)"
  defines "bk \<equiv> (inBucketName inp, inKey inp)"
  defines "v \<equiv> next_version (here c w) bk"
  shows "\<exists>pl S F w1 w2 remote. Locate p (inBucketName inp) (inKey inp) = Inr pl \<and> nID (Primary pl) = cLocalNodeID c \<and>
     WriteSatisfied (cQuorum c) (1 + int (length S)) \<and> mset S + mset F = mset (map nID (Replicas pl)) \<and>
     live_at (wNodes w' (cLocalNodeID c)) bk v etag \<and> (\<forall>i \<in> set S. live_at (wNodes w' i) bk v etag) \<and>
     (\<forall>i. i \<noteq> cLocalNodeID c \<longrightarrow> live_at (wNodes w' i) bk v etag \<and> i \<in> nID ` set (Replicas pl) \<or> core_of (wNodes w' i) bk = core_of (wNodes w i) bk) \<and>
     PutObjectWithVersion (my_svc c w) (my_env net c ''local'') inp v ''partial'' (here c w) = (here c w1, Inr etag) \<and>
     here c w2 = here c w1 \<and> map reNodeID (waFailures remote) = F \<and> finish_put net c inp v etag (w2, remote) = (w', Inr etag) \<and>
     wHost w' = wHost w"
proof -
  let ?env = "my_env net c ''local''" and ?s = "my_svc c w" and ?b = "inBucketName inp" and ?k = "inKey inp"
  have tp: "the_placer c = p" using assms(3) by (simp add: the_placer_def)
  have rf: "0 < replicationFactor p" using assms(2,3) by (simp add: Enabled_coord_def ReplicationFactor_def)
  from assms(1,2) obtain pl where pl: "Locate p ?b ?k = Inr pl" "nID (Primary pl) = cLocalNodeID c"
    by (auto simp: PutObject_coord_def tp Let_def split: if_splits sum.splits)
  from assms(1,2) pl obtain v' where nv: "NextObjectVersion ?env ?b ?k (here c w) = Inr v'"
    by (auto simp: PutObject_coord_def tp Let_def split: if_splits sum.splits)
  have v: "v' = v" "1 \<le> v" "in_i64 v" using NextObjectVersion_Inr [OF nv assms(8)] by (simp_all add: v_def bk_def)
  obtain st rr where P: "PutObjectWithVersion ?s ?env inp v ''partial'' (here c w) = (st, rr)" by (rule prod.exhaust)
  obtain et where rr: "rr = Inr et" using assms(1,2) pl nv v(1) P
    by (cases rr) (auto simp: PutObject_coord_def tp Let_def split: if_splits)
  note L = PutObjectWithVersion_Inr [OF P [unfolded rr]]
  let ?w1 = "set_here c st w"
  note placed = placement_facts [OF pl(1) assms(4) rf]
  have nl: "cLocalNodeID c \<notin> nID ` set (Replicas pl)" "distinct (map nID (Replicas pl))"
    using placed(1) pl(2) by (auto simp: ReplicaSet_def)
  have "\<exists>w2 remote inp'. finish_put net c inp v et (w2, remote) = (w', Inr etag) \<and>
      ReplicatePut net (the_replicator c) (Replicas pl) inp' ?w1 = (w2, remote) \<and>
      piBucket inp' = ?b \<and> piKey inp' = ?k \<and> piVersion inp' = v \<and> piExpectedETag inp' = et"
  proof (cases "Replicas pl = []")
    case True
    let ?i = "\<lparr>piBucket = ?b, piKey = ?k, piVersion = v, piExpectedETag = et, piContentType = '''', piCustomMetadata = [], piSize = 0,
        piOpenBody = (\<lambda>w. Inr '''')\<rparr>"
    show ?thesis using assms(1,2) pl nv v(1) P rr True
      by (intro exI [of _ ?w1] exI [of _ empty_result] exI [of _ ?i])
         (auto simp: PutObject_coord_def tp Let_def ReplicatePut_def split: if_splits)
  next
    case False
    with assms(1,2) pl nv v(1) P rr obtain inp' where i: "finish_put net c inp v et (ReplicatePut net (the_replicator c) (Replicas pl) inp' ?w1) = (w', Inr etag)"
      "piBucket inp' = ?b" "piKey inp' = ?k" "piVersion inp' = v" "piExpectedETag inp' = et"
      by (auto simp: PutObject_coord_def tp Let_def split: if_splits sum.splits)
    obtain w2 remote where "ReplicatePut net (the_replicator c) (Replicas pl) inp' ?w1 = (w2, remote)" by (rule prod.exhaust)
    with i show ?thesis by metis
  qed
  then obtain w2 remote inp' where f: "finish_put net c inp v et (w2, remote) = (w', Inr etag)"
    and R: "ReplicatePut net (the_replicator c) (Replicas pl) inp' ?w1 = (w2, remote)"
    and i: "piBucket inp' = ?b" "piKey inp' = ?k" "piVersion inp' = v" "piExpectedETag inp' = et" by blast
  have peers: "set (Replicas pl) \<subseteq> put_peers net inp' (wHost ?w1)"
    using placed(2) assms(4-6) v i by (auto simp: put_peers_def cluster_ok_def ReplicaSet_def)
  obtain S F where SF: "waAcks remote = int (length S)" "map reNodeID (waFailures remote) = F" "mset S + mset F = mset (map nID (Replicas pl))"
    "\<forall>j \<in> set S. live_at (wNodes w2 j) bk v et"
    "\<forall>j. live_at (wNodes w2 j) bk v et \<and> j \<in> nID ` set (Replicas pl) \<or> row_of (wNodes w2 j) bk = row_of (wNodes ?w1 j) bk"
    "\<forall>j. j \<notin> nID ` set (Replicas pl) \<longrightarrow> wNodes w2 j = wNodes ?w1 j" "wHost w2 = wHost w"
    using ReplicatePut_acks [OF R peers nl(2) assms(7)] unfolding i bk_def set_here_simps(2) by blast
  note F = finish_put_Inr [OF f]
  have cb: "core_of (wNodes w' j) bk = core_of (wNodes w2 j) bk" for j using F unfolding bk_def by simp
  then have core: "live_at (wNodes w' j) bk v et \<longleftrightarrow> live_at (wNodes w2 j) bk v et" for j
    unfolding live_at_core by simp
  have loc: "wNodes w2 (cLocalNodeID c) = st" using SF(6) nl(1) by simp
  moreover have "live_at st bk v et" using L v(2) by (simp add: bk_def)
  ultimately have "live_at (wNodes w' (cLocalNodeID c)) bk v etag" using F by (simp add: core)
  moreover have "\<forall>j. j \<noteq> cLocalNodeID c \<longrightarrow> live_at (wNodes w' j) bk v etag \<and> j \<in> nID ` set (Replicas pl) \<or> core_of (wNodes w' j) bk = core_of (wNodes w j) bk"
  proof (intro allI impI)
    fix j
    assume j: "j \<noteq> cLocalNodeID c"
    have "row_of (wNodes w2 j) bk = row_of (wNodes w j) bk \<Longrightarrow> core_of (wNodes w' j) bk = core_of (wNodes w j) bk"
      using cb [of j] core_of_row [of "wNodes w2 j" bk "wNodes w j"] by simp
    with SF(5) j F show "live_at (wNodes w' j) bk v etag \<and> j \<in> nID ` set (Replicas pl) \<or> core_of (wNodes w' j) bk = core_of (wNodes w j) bk"
      by (auto simp: core)
  qed
  moreover have "here c w2 = here c ?w1" using loc by (simp add: here_def)
  moreover have e: "etag = et" using F by blast
  have "WriteSatisfied (cQuorum c) (1 + int (length S))" using F SF(1) by simp
  moreover have "\<forall>j \<in> set S. live_at (wNodes w' j) bk v etag" using SF(4) e by (simp add: core)
  moreover have "PutObjectWithVersion ?s ?env inp v ''partial'' (here c w) = (here c ?w1, Inr etag)" using P rr e by simp
  moreover have "wHost w' = wHost w" using F SF(7) by simp
  moreover have "finish_put net c inp v etag (w2, remote) = (w', Inr etag)" using f e by simp
  ultimately show ?thesis using pl SF(2,3)
    by (intro exI [of _ pl] exI [of _ S] exI [of _ F] exI [of _ ?w1] exI [of _ w2] exI [of _ remote] conjI) assumption+
qed

section \<open>Quorum reads\<close>

lemma pick_newest_best:
  assumes "pick_newest ss (best, ok) = (best', ok')" "ok \<longrightarrow> rFound best"
  shows "(ok' \<longleftrightarrow> ok \<or> (\<exists>s \<in> set ss. rFound s)) \<and> (ok' \<longrightarrow> rFound best' \<and> (best' \<in> set ss \<or> ok \<and> best' = best) \<and>
     (\<forall>s \<in> set ss. rFound s \<longrightarrow> rVersion s \<le> rVersion best') \<and> (ok \<longrightarrow> rVersion best \<le> rVersion best'))"
  using assms
proof (induction ss arbitrary: best ok)
  case (Cons s ss)
  show ?case
  proof (cases "rFound s \<and> (\<not> ok \<or> rVersion s > rVersion best)")
    case True
    with Cons.prems Cons.IH [of s True] show ?thesis by fastforce
  next
    case False
    with Cons.prems Cons.IH [of best ok] show ?thesis by (auto split: if_splits)
  qed
qed auto

lemma PickNewestState_True:
  assumes "PickNewestState ss = (best, True)"
  shows "best \<in> set ss" "rFound best" "\<And>s. s \<in> set ss \<Longrightarrow> rFound s \<Longrightarrow> rVersion s \<le> rVersion best"
  using pick_newest_best [OF assms [unfolded PickNewestState_def]] by auto

text \<open>The states collected are those of the replicas' rows, one per replica.\<close>

lemma localReplicaState_found:
  assumes "rFound (localReplicaState net c b k w)"
  shows "core_of (here c w) (b, k) = Some (rVersion (localReplicaState net c b k w), rETag (localReplicaState net c b k w),
      rDeleted (localReplicaState net c b k w))"
  using assms by (auto simp: localReplicaState_def LocalReplicaState_def GetObject_def core_of_def row_of_def zero_state_def
      split: sum.splits option.splits if_splits)

lemma localReplicaState_ID [simp]: "rNodeID (localReplicaState net c b k w) = cLocalNodeID c"
  by (auto simp: localReplicaState_def split: sum.splits option.splits)

lemma collected_IDs: "mset (map rNodeID (collectReplicaStates net c ns b k w)) = mset (map nID ns)"
proof -
  have "map rNodeID (collectReplicaStates net c ns b k w) =
      map nID (filter (\<lambda>n. nID n = cLocalNodeID c) ns) @ map nID (filter (\<lambda>n. nID n \<noteq> cLocalNodeID c) ns)"
    by (auto simp: collectReplicaStates_def FetchReplicaStates_def Let_def)
  also have "mset \<dots> = mset (map nID ns)" by (induction ns) auto
  finally show ?thesis .
qed

lemma collected_core:
  assumes "cluster_ok p w" "routed b k" "set ns \<subseteq> set (ListNodes (membership p))" "\<forall>i. rows_ok (wNodes w i) (b, k)"
    "rs \<in> set (collectReplicaStates net c ns b k w)" "rFound rs"
  shows "core_of (wNodes w (rNodeID rs)) (b, k) = Some (rVersion rs, rETag rs, rDeleted rs)"
proof -
  consider "rs = localReplicaState net c b k w" | n where "n \<in> set ns" "rs = headOnNode net (the_replicator c) b k w n"
    using assms(5) by (auto simp: collectReplicaStates_def FetchReplicaStates_def Let_def split: if_splits)
  then show ?thesis
  proof cases
    case 1
    then show ?thesis using localReplicaState_found assms(6) by (simp add: here_def)
  next
    case (2 n)
    then have "wHost w (nodeBaseURL (nAddress n)) = Some (nID n)" using assms(1,3) by (auto simp: cluster_ok_def)
    from headOnNode_state [OF assms(2) this, of net "the_replicator c"] 2 assms(4,6) show ?thesis
      by (auto simp: row_state_def core_of_def)
  qed
qed

lemma quorumRead_Inr:
  assumes "quorumRead net c ns b k w = Inr (winning, states)" "cluster_ok p w" "routed b k"
    "set ns \<subseteq> set (ListNodes (membership p))" "distinct (map nID ns)" "\<forall>i. rows_ok (wNodes w i) (b, k)"
  shows "\<exists>B. B \<subseteq> nID ` set ns \<and> ReadSatisfied (cQuorum c) (int (card B)) \<and> rNodeID winning \<in> B \<and> rFound winning \<and>
     core_of (wNodes w (rNodeID winning)) (b, k) = Some (rVersion winning, rETag winning, rDeleted winning) \<and>
     (\<forall>i \<in> B. \<exists>v e d. core_of (wNodes w i) (b, k) = Some (v, e, d) \<and> v \<le> rVersion winning)"
proof -
  let ?states = "collectReplicaStates net c ns b k w"
  let ?found = "filter rFound ?states"
  have q: "ReadSatisfied (cQuorum c) (int (length ?found))" "PickNewestState ?found = (winning, True)" "states = ?states"
    using assms(1) by (auto simp: quorumRead_def Let_def split: if_splits prod.splits)
  note best = PickNewestState_True [OF q(2)]
  let ?B = "rNodeID ` set ?found"
  have ids: "mset (map rNodeID ?states) = mset (map nID ns)" by (rule collected_IDs)
  then have d: "distinct (map rNodeID ?states)" using assms(5) by (metis mset_eq_imp_distinct_iff)
  have "distinct (map rNodeID ?found)" using d by (rule distinct_filter_key)
  then have "card ?B = length ?found" by (metis distinct_card length_map set_map)
  moreover have "?B \<subseteq> nID ` set ns"
    using mset_eq_setD [OF ids] by auto
  moreover have "core_of (wNodes w (rNodeID rs)) (b, k) = Some (rVersion rs, rETag rs, rDeleted rs)" if "rs \<in> set ?found" for rs
    using collected_core [OF assms(2-4,6)] that by auto
  ultimately show ?thesis using q(1) best by (intro exI [of _ ?B]) fastforce
qed

section \<open>An acknowledged write\<close>

text \<open>The replicas of an object that hold a version.\<close>

definition holders :: "PlacementResult \<Rightarrow> world \<Rightarrow> string \<times> string \<Rightarrow> int \<Rightarrow> string \<Rightarrow> string set" where
  "holders pl w bk v etag = {i \<in> nID ` set (ReplicaSet pl). live_at (wNodes w i) bk v etag}"

lemma acked_holders:
  assumes "mset S + mset F = mset (map nID (Replicas pl))" "distinct (map nID (ReplicaSet pl))"
    "live_at (wNodes w (nID (Primary pl))) bk v etag" "\<forall>i \<in> set S. live_at (wNodes w i) bk v etag"
  shows "1 + length S \<le> card (holders pl w bk v etag)"
proof -
  have "mset S \<subseteq># mset (map nID (Replicas pl))" using assms(1) by (metis mset_subset_eq_add_left)
  then have S: "set S \<subseteq> nID ` set (Replicas pl)" "distinct S"
  proof -
    show "set S \<subseteq> nID ` set (Replicas pl)"
      using set_mset_mono [OF \<open>mset S \<subseteq># mset (map nID (Replicas pl))\<close>] by simp
    show "distinct S" using \<open>mset S \<subseteq># mset (map nID (Replicas pl))\<close> assms(2)
      by (metis ReplicaSet_def distinct.simps(2) list.simps(9) mset_eq_imp_distinct_iff mset_append distinct_append
          assms(1))
  qed
  have "insert (nID (Primary pl)) (set S) \<subseteq> holders pl w bk v etag"
    using S(1) assms(3,4) by (auto simp: holders_def ReplicaSet_def)
  moreover have "finite (holders pl w bk v etag)" by (simp add: holders_def)
  moreover have "card (insert (nID (Primary pl)) (set S)) = 1 + length S"
    using S assms(2) by (subst card_insert_disjoint) (auto simp: ReplicaSet_def distinct_card)
  ultimately show ?thesis by (metis card_mono)
qed

text \<open>ETags the service computes hold no quote, so they survive the headers.\<close>

lemma set_hex_encode_quote: "CHR 0x22 \<notin> set (hex_encode d)"
  using set_hex_encode [of d] by auto

lemma ETag_no_quote: "CHR 0x22 \<notin> set (ETag r)"
  by (cases r) (simp_all add: set_hex_encode_quote)

lemma PutObjectWithVersion_no_quote:
  "PutObjectWithVersion s env inp version status st = (st', Inr etag) \<Longrightarrow> CHR 0x22 \<notin> set etag"
  by (auto simp: PutObjectWithVersion_def Let_def ETag_no_quote split: if_splits option.splits sum.splits prod.splits)

lemma rows_ok_core:
  "rows_ok st bk \<longleftrightarrow> (\<forall>v e d. core_of st bk = Some (v, e, d) \<longrightarrow> in_i64 v \<and> CHR 0x22 \<notin> set e)"
  by (auto simp: rows_ok_def row_ok_def core_of_def)

text \<open>
  A quorum read of a state in which a write quorum holds the newest version returns that version: the
  read quorum meets the write quorum, and the newest state wins.
\<close>

lemma quorumRead_newest:
  assumes "quorumRead net c (ReplicaSet pl) b k w = Inr (winning, states)" "cluster_ok p w" "routed b k"
    "set (ReplicaSet pl) \<subseteq> set (ListNodes (membership p))" "distinct (map nID (ReplicaSet pl))"
    "\<forall>i. rows_ok (wNodes w i) (b, k)" "Validate (cQuorum c) = None" "N (cQuorum c) = int (length (ReplicaSet pl))"
    "A \<subseteq> nID ` set (ReplicaSet pl)" "WriteSatisfied (cQuorum c) (int (card A))"
    "\<forall>i \<in> A. core_of (wNodes w i) (b, k) = Some (v, e, d)"
    "\<forall>i v' e' d'. core_of (wNodes w i) (b, k) = Some (v', e', d') \<longrightarrow> v' < v \<or> (v', e', d') = (v, e, d)"
  shows "rFound winning \<and> rVersion winning = v \<and> rETag winning = e \<and> rDeleted winning = d"
proof -
  obtain B where B: "B \<subseteq> nID ` set (ReplicaSet pl)" "ReadSatisfied (cQuorum c) (int (card B))" "rFound winning"
    "core_of (wNodes w (rNodeID winning)) (b, k) = Some (rVersion winning, rETag winning, rDeleted winning)"
    "\<forall>i \<in> B. \<exists>v e d. core_of (wNodes w i) (b, k) = Some (v, e, d) \<and> v \<le> rVersion winning"
    using quorumRead_Inr [OF assms(1-6)] by blast
  have "card (nID ` set (ReplicaSet pl)) = length (ReplicaSet pl)"
    using assms(5) by (metis distinct_card length_map set_map)
  then have "A \<inter> B \<noteq> {}"
    using quorums.sets_intersect [OF assms(7), of "nID ` set (ReplicaSet pl)" A B] assms(8-10) B(1,2) by simp
  then have "v \<le> rVersion winning" using assms(11) B(5) by fastforce
  with B(3,4) assms(12) show ?thesis by fastforce
qed

text \<open>
  C3: a write the coordinator acknowledges is durable on a write quorum. Whatever the network did to each
  replica call (delivered, lost, or carried out with the reply lost), in whatever order they ran and
  whatever faults the nodes had: when PutObject returns an ETag, at least W nodes of the
  object's replica set, the primary among them, hold the object's next version with that
  ETag, and every other node's row of the object is that one or the one it had.
\<close>

theorem quorum_put_durable:
  assumes "PutObject_coord net c inp w = (w', Inr etag)" "Enabled_coord c" "cPlacer c = Some p" "cluster_ok p w"
    "routed (inBucketName inp) (inKey inp)" "net_ok net" "fair_sched net"
    "version_room (here c w) (inBucketName inp, inKey inp)"
  defines "bk \<equiv> (inBucketName inp, inKey inp)"
  defines "v \<equiv> next_version (here c w) bk"
  shows "\<exists>pl. Locate p (inBucketName inp) (inKey inp) = Inr pl \<and> nID (Primary pl) = cLocalNodeID c \<and>
     W (cQuorum c) \<le> int (card (holders pl w' bk v etag)) \<and> cLocalNodeID c \<in> holders pl w' bk v etag \<and>
     (\<forall>i. i \<notin> holders pl w' bk v etag \<longrightarrow> core_of (wNodes w' i) bk = core_of (wNodes w i) bk)"
proof -
  have rf: "0 < replicationFactor p" using assms(2,3) by (simp add: Enabled_coord_def ReplicationFactor_def)
  obtain pl S F where pl: "Locate p (inBucketName inp) (inKey inp) = Inr pl" "nID (Primary pl) = cLocalNodeID c"
    and S: "WriteSatisfied (cQuorum c) (1 + int (length S))" "mset S + mset F = mset (map nID (Replicas pl))"
      "live_at (wNodes w' (cLocalNodeID c)) bk v etag" "\<forall>i \<in> set S. live_at (wNodes w' i) bk v etag"
    and o: "\<And>i. i \<noteq> cLocalNodeID c \<Longrightarrow> live_at (wNodes w' i) bk v etag \<and> i \<in> nID ` set (Replicas pl) \<or> core_of (wNodes w' i) bk = core_of (wNodes w i) bk"
    using PutObject_coord_Inr [OF assms(1-8)] unfolding bk_def v_def by blast
  have "1 + length S \<le> card (holders pl w' bk v etag)"
    using acked_holders [OF S(2) placement_facts(1) [OF pl(1) assms(4) rf]] S(3,4) pl(2) by simp
  then have "W (cQuorum c) \<le> int (card (holders pl w' bk v etag))" using S(1) by (simp add: WriteSatisfied_def)
  moreover have "cLocalNodeID c \<in> holders pl w' bk v etag" using S(3) pl(2) by (simp add: holders_def ReplicaSet_def)
  moreover have "core_of (wNodes w' i) bk = core_of (wNodes w i) bk" if "i \<notin> holders pl w' bk v etag" for i
    using o [of i] that S(3) pl(2) by (cases "i = cLocalNodeID c") (auto simp: holders_def ReplicaSet_def)
  ultimately show ?thesis using pl by blast
qed

text \<open>
  The two reads a coordinator offers, without exception: too few answers are the quorum error, and otherwise the
  winner of the quorum read is what they report. GetObject still has to open the winner's bytes.
\<close>

definition answers :: "net \<Rightarrow> Coordinator \<Rightarrow> PlacementResult \<Rightarrow> string \<Rightarrow> string \<Rightarrow> world \<Rightarrow> ReplicaState list" where
  "answers net c pl b k w = filter rFound (collectReplicaStates net c (ReplicaSet pl) b k w)"

lemma quorumRead_total:
  assumes "Validate (cQuorum c) = None"
  shows "if int (length (answers net c pl b k w)) < R (cQuorum c)
    then quorumRead net c (ReplicaSet pl) b k w = Inl (NewQuorumReadError ErrQuorumNotMet)
    else \<exists>x \<in> set (answers net c pl b k w). \<exists>states. quorumRead net c (ReplicaSet pl) b k w = Inr (x, states)"
proof (cases "int (length (answers net c pl b k w)) < R (cQuorum c)")
  case True
  then show ?thesis by (simp add: quorumRead_def answers_def ReadSatisfied_def Let_def)
next
  case False
  have "1 \<le> R (cQuorum c)" using assms by (auto simp: Validate_def split: if_splits)
  with False have ne: "answers net c pl b k w \<noteq> []" by auto
  obtain x ok where p: "PickNewestState (answers net c pl b k w) = (x, ok)" by fastforce
  have "\<forall>s \<in> set (answers net c pl b k w). rFound s" by (simp add: answers_def)
  with ne pick_newest_best [OF p [unfolded PickNewestState_def]] have "ok" by (metis list.set_intros(1) neq_Nil_conv)
  then have "x \<in> set (answers net c pl b k w)" using PickNewestState_True(1) [of "answers net c pl b k w" x] p by simp
  moreover have "quorumRead net c (ReplicaSet pl) b k w = Inr (x, collectReplicaStates net c (ReplicaSet pl) b k w)"
    using False p \<open>ok\<close> by (simp add: quorumRead_def answers_def ReadSatisfied_def Let_def)
  ultimately show ?thesis using False by auto
qed

lemma HeadObject_coord_winner:
  assumes "HeadObject_coord net c b k w = (w', r)" "Enabled_coord c" "Enabled (cQuorum c)" "cPlacer c = Some p" "Locate p b k = Inr pl" "cSvc c"
    "quorumRead net c (ReplicaSet pl) b k w = Inr (x, states)" "rFound x" "\<not> rDeleted x"
  shows "\<exists>obj. r = Inr obj \<and> oVersion obj = rVersion x \<and> oETag obj = rETag x \<and> oSize obj = rSize x"
  using assms by (auto simp: HeadObject_coord_def the_placer_def zero_object_def)

lemma GetObject_coord_winner:
  assumes "GetObject_coord net c b k verify w = (w', r)" "Enabled_coord c" "Enabled (cQuorum c)" "cPlacer c = Some p" "Locate p b k = Inr pl" "cSvc c"
    "quorumRead net c (ReplicaSet pl) b k w = Inr (x, states)" "rFound x" "\<not> rDeleted x"
  shows "case winning_body net c x b k w' of
      Inl e \<Rightarrow> r = Inl e
    | Inr (body, sz) \<Rightarrow> \<exists>g. r = Inr g \<and> gETag g = rETag x \<and> gBody g = body \<and> gSize g = sz"
  using assms by (auto simp: GetObject_coord_def the_placer_def Let_def split: sum.splits prod.splits)

lemma coord_reads_unmet:
  assumes "Enabled_coord c" "Enabled (cQuorum c)" "cPlacer c = Some p" "Locate p b k = Inr pl" "cSvc c"
    "quorumRead net c (ReplicaSet pl) b k w = Inl e"
  shows "GetObject_coord net c b k verify w = (w, Inl e)" "HeadObject_coord net c b k w = (w, Inl e)"
  using assms by (simp_all add: GetObject_coord_def HeadObject_coord_def the_placer_def)

text \<open>A miss comes from the body only when the reading node does not find its own blob file.\<close>

lemma winning_body_miss:
  assumes "winning_body net c x b k w = Inl NotFoundKey"
  shows "rNodeID x = cLocalNodeID c \<and> OpenStoredObject (my_svc c w) (my_env net c ''local'') b k (here c w) = Inl NotFoundKey"
  using assms
  by (auto simp: winning_body_def NewQuorumReadError_def NotFoundKey_def newErr_def split: if_splits sum.splits option.splits)

text \<open>
  The outcome of the two reads when they have seen a version: it is that of one of the answers, and only its bytes may still
  be missing.
\<close>

definition sees_version ::
  "net \<Rightarrow> Coordinator \<Rightarrow> ReplicaState list \<Rightarrow> string \<Rightarrow> string \<Rightarrow> int \<Rightarrow> string \<Rightarrow> world \<Rightarrow> GetObjectResult res \<Rightarrow> Object res \<Rightarrow> bool" where
  "sees_version net c found b k v etag w get head \<longleftrightarrow>
     (\<exists>x \<in> set found. rVersion x = v \<and> rETag x = etag \<and> \<not> rDeleted x \<and>
        (\<exists>obj. head = Inr obj \<and> oVersion obj = v \<and> oETag obj = etag \<and> oSize obj = rSize x) \<and>
        (case winning_body net c x b k w of
           Inl e \<Rightarrow> get = Inl e
         | Inr (body, sz) \<Rightarrow> \<exists>g. get = Inr g \<and> gETag g = etag \<and> gBody g = body \<and> gSize g = sz) \<and>
        (get = Inl NotFoundKey \<longrightarrow> rNodeID x = cLocalNodeID c \<and>
           OpenStoredObject (my_svc c w) (my_env net c ''local'') b k (here c w) = Inl NotFoundKey))"

lemma sees_version_facts:
  assumes "sees_version net c found b k v etag w get head"
  shows "\<exists>obj. head = Inr obj \<and> oVersion obj = v \<and> oETag obj = etag" "get = Inr g \<Longrightarrow> gETag g = etag"
proof -
  from assms obtain x obj where x: "head = Inr obj" "oVersion obj = v" "oETag obj = etag"
    "case winning_body net c x b k w of Inl e \<Rightarrow> get = Inl e
       | Inr (body, sz) \<Rightarrow> \<exists>g. get = Inr g \<and> gETag g = etag \<and> gBody g = body \<and> gSize g = sz"
    unfolding sees_version_def by blast
  then show "\<exists>obj. head = Inr obj \<and> oVersion obj = v \<and> oETag obj = etag" by blast
  show "gETag g = etag" if "get = Inr g" using x(4) that by (cases "winning_body net c x b k w") auto
qed

text \<open>
  What a node's row may be before a write: known to the protocol, and older than the version the primary
  assigns.
\<close>

definition older_rows :: "world \<Rightarrow> string \<times> string \<Rightarrow> int \<Rightarrow> bool" where
  "older_rows w bk v \<longleftrightarrow> (\<forall>i. rows_ok (wNodes w i) bk \<and> (\<forall>v' e d. core_of (wNodes w i) bk = Some (v', e, d) \<longrightarrow> v' < v))"

text \<open>After a write the rows are the new one or old ones.\<close>

lemma written_rows:
  assumes "older_rows w bk v" "\<forall>i. core_of (wNodes w' i) bk = Some (v, etag, False) \<or> core_of (wNodes w' i) bk = core_of (wNodes w i) bk"
    "in_i64 v" "CHR 0x22 \<notin> set etag"
  shows "\<forall>i. rows_ok (wNodes w' i) bk"
    "\<forall>i v' e' d'. core_of (wNodes w' i) bk = Some (v', e', d') \<longrightarrow> v' < v \<or> (v', e', d') = (v, etag, False)"
proof -
  have old: "rows_ok (wNodes w i) bk" "core_of (wNodes w i) bk = Some (v', e, d) \<Longrightarrow> v' < v" for i v' e d
    using assms(1) unfolding older_rows_def by blast+
  have "rows_ok (wNodes w' i) bk" for i
    using spec [OF assms(2), of i] old(1) [of i] assms(3,4) by (auto simp: rows_ok_core)
  then show "\<forall>i. rows_ok (wNodes w' i) bk" by blast
  have "v' < v \<or> (v', e', d') = (v, etag, False)" if "core_of (wNodes w' i) bk = Some (v', e', d')" for i v' e' d'
    using that spec [OF assms(2), of i] old(2) [of i v' e' d'] by auto
  then show "\<forall>i v' e' d'. core_of (wNodes w' i) bk = Some (v', e', d') \<longrightarrow> v' < v \<or> (v', e', d') = (v, etag, False)" by blast
qed

lemma cluster_ok_host: "wHost w' = wHost w \<Longrightarrow> cluster_ok p w' = cluster_ok p w"
  by (simp add: cluster_ok_def)

text \<open>
  C2: read after write. A coordinator acknowledges a write, and no replica held a version as new as the one the primary assigned
  (\<open>older_rows\<close>: the primary's row is the newest, which holds for writes and deletes through the primary, and fails after
  CopyObject has reset the primary's version). Then every later read by any coordinator with the same placement and quorum
  configuration (one that passes validation, for the placement's replication factor) is decided by
  that write, whatever the networks of the two operations did. If fewer than R replicas answer, the read is refused with the
  quorum error. Otherwise it has seen the write: HeadObject returns its version and ETag; GetObject returns its ETag
  with the bytes of a replica that holds this version, or the error of opening these bytes. In no case is an older
  version returned, and GetObject answers "no such key" only if the reading node is itself that
  replica and does not find its blob file. Assumed besides: members have distinct IDs and are found under their addresses, the key is
  one that replica requests reach (no percent sign, no reserved or unclean path), every replica is called once in some order, and the
  version of the primary's row is not negative and below the largest int64.
\<close>

theorem read_after_write:
  assumes "PutObject_coord net c inp w = (w', Inr etag)" "Enabled_coord c" "cPlacer c = Some p" "cluster_ok p w"
    "routed (inBucketName inp) (inKey inp)" "net_ok net" "fair_sched net"
    "version_room (here c w) (inBucketName inp, inKey inp)"
    "older_rows w (inBucketName inp, inKey inp) (next_version (here c w) (inBucketName inp, inKey inp))"
    "Validate (cQuorum c) = None" "N (cQuorum c) = replicationFactor p"
    "Enabled_coord c2" "cPlacer c2 = Some p" "cQuorum c2 = cQuorum c" "cSvc c2"
  defines "b \<equiv> inBucketName inp" and "k \<equiv> inKey inp"
  shows "\<exists>pl. Locate p b k = Inr pl \<and>
    (\<forall>verify w3 r w4 r'. GetObject_coord net2 c2 b k verify w' = (w3, r) \<longrightarrow> HeadObject_coord net2 c2 b k w' = (w4, r') \<longrightarrow>
      (if int (length (answers net2 c2 pl b k w')) < R (cQuorum c)
       then r = Inl (NewQuorumReadError ErrQuorumNotMet) \<and> r' = Inl (NewQuorumReadError ErrQuorumNotMet)
       else sees_version net2 c2 (answers net2 c2 pl b k w') b k (next_version (here c w) (b, k)) etag w3 r r'))"
proof -
  note assms = assms [folded b_def k_def]
  define v where "v = next_version (here c w) (b, k)"
  have rf: "0 < replicationFactor p" "Enabled (cQuorum c2)"
    using assms(2,3,11,14) by (simp_all add: Enabled_coord_def ReplicationFactor_def Enabled_def)
  obtain pl S F w1 where pl: "Locate p b k = Inr pl" "nID (Primary pl) = cLocalNodeID c"
    and S: "WriteSatisfied (cQuorum c) (1 + int (length S))" "mset S + mset F = mset (map nID (Replicas pl))"
      "live_at (wNodes w' (cLocalNodeID c)) (b, k) v etag" "\<forall>i \<in> set S. live_at (wNodes w' i) (b, k) v etag"
    and o: "\<And>i. i \<noteq> cLocalNodeID c \<Longrightarrow> live_at (wNodes w' i) (b, k) v etag \<or> core_of (wNodes w' i) (b, k) = core_of (wNodes w i) (b, k)"
    and P: "PutObjectWithVersion (my_svc c w) (my_env net c ''local'') inp v ''partial'' (here c w) = (here c w1, Inr etag)"
    and host: "wHost w' = wHost w"
    using PutObject_coord_Inr [OF assms(1-8) [unfolded b_def k_def]] unfolding v_def b_def k_def by blast
  note placed = placement_facts [OF pl(1) assms(4) rf(1)]
  have v: "in_i64 v" using assms(8) by (auto simp: v_def next_version_def version_room_def in_i64_def split: option.splits)
  have cores: "\<forall>i. core_of (wNodes w' i) (b, k) = Some (v, etag, False) \<or> core_of (wNodes w' i) (b, k) = core_of (wNodes w i) (b, k)"
  proof
    show "core_of (wNodes w' i) (b, k) = Some (v, etag, False) \<or> core_of (wNodes w' i) (b, k) = core_of (wNodes w i) (b, k)" for i
      using o [of i] S(3) by (cases "i = cLocalNodeID c") (simp_all add: live_at_core)
  qed
  note ok = written_rows(1) [OF assms(9) [folded v_def] cores v PutObjectWithVersion_no_quote [OF P]]
    and new = written_rows(2) [OF assms(9) [folded v_def] cores v PutObjectWithVersion_no_quote [OF P]]
  let ?A = "holders pl w' (b, k) v etag"
  have "1 + length S \<le> card ?A" using acked_holders [OF S(2) placed(1)] S(3,4) pl(2) by simp
  then have A: "WriteSatisfied (cQuorum c2) (int (card ?A))" using S(1) assms(14) by (simp add: WriteSatisfied_def)
  have A': "?A \<subseteq> nID ` set (ReplicaSet pl)" "\<forall>i \<in> ?A. core_of (wNodes w' i) (b, k) = Some (v, etag, False)"
    by (auto simp: holders_def live_at_core)
  have ck: "cluster_ok p w'" using assms(4) cluster_ok_host [OF host] by simp
  have q: "Validate (cQuorum c2) = None" "N (cQuorum c2) = int (length (ReplicaSet pl))"
    unfolding assms(14) using assms(10,11) placed(3) by simp_all
  have win: "rFound x \<and> rVersion x = v \<and> rETag x = etag \<and> \<not> rDeleted x"
    if "quorumRead net2 c2 (ReplicaSet pl) b k w' = Inr (x, states)" for x states
    using quorumRead_newest [OF that ck assms(5) placed(2,1) ok q A'(1) A A'(2) new] by simp
  note coord = assms(12) rf(2) assms(13) pl(1) assms(15)
  have "if int (length (answers net2 c2 pl b k w')) < R (cQuorum c)
       then r = Inl (NewQuorumReadError ErrQuorumNotMet) \<and> r' = Inl (NewQuorumReadError ErrQuorumNotMet)
       else sees_version net2 c2 (answers net2 c2 pl b k w') b k v etag w3 r r'"
    if g: "GetObject_coord net2 c2 b k verify w' = (w3, r)" and h: "HeadObject_coord net2 c2 b k w' = (w4, r')" for verify w3 r w4 r'
  proof (cases "int (length (answers net2 c2 pl b k w')) < R (cQuorum c)")
    case True
    with quorumRead_total [OF q(1)] have "quorumRead net2 c2 (ReplicaSet pl) b k w' = Inl (NewQuorumReadError ErrQuorumNotMet)"
      unfolding assms(14) by metis
    from coord_reads_unmet [OF coord this] g h True show ?thesis by simp
  next
    case False
    with quorumRead_total [OF q(1)] obtain x states where x: "x \<in> set (answers net2 c2 pl b k w')"
      "quorumRead net2 c2 (ReplicaSet pl) b k w' = Inr (x, states)" unfolding assms(14) by metis
    note xw = win [OF x(2)]
    note G = GetObject_coord_winner [OF g coord x(2)] and H = HeadObject_coord_winner [OF h coord x(2)]
    have "winning_body net2 c2 x b k w3 = Inl NotFoundKey" if "r = Inl NotFoundKey"
      using G xw that by (auto split: sum.splits)
    then show ?thesis using False x(1) xw G H winning_body_miss [of net2 c2 x b k w3] by (auto simp: sees_version_def)
  qed
  then show ?thesis using pl(1) unfolding v_def by blast
qed

end
