(* ===== verification/ClusterLive.thy ===== *)
theory ClusterLive
  imports CoordinatorProps
begin

text \<open>
  Progress of the cluster: on a healthy network every peer accepts a replica write, so a coordinated
  write succeeds, reaches every replica and is read back.
\<close>

section \<open>A peer accepts a replica write\<close>

definition replica_object :: "Service \<Rightarrow> PutReplicaInput \<Rightarrow> string \<Rightarrow> Object" where
  "replica_object s inp d =
     zero_object\<lparr>oBucketName := riBucketName inp, oKey := riKey inp, oSize := int (length d),
       oContentType := (if riContentType inp = '''' then octet_stream else riContentType inp),
       oETag := hex_encode (md5 d), oStoragePath := blob_path s (riBucketName inp) (riKey inp),
       oCustomMetadata := riCustomMetadata inp, oVersion := riVersion inp, oReplicationStatus := ''replicated''\<rparr>"

lemma replica_object_simps [simp]:
  "oBucketName (replica_object s inp d) = riBucketName inp" "oKey (replica_object s inp d) = riKey inp"
  "oETag (replica_object s inp d) = hex_encode (md5 d)" "oVersion (replica_object s inp d) = riVersion inp"
  "oID (replica_object s inp d) = ''''" "\<not> oDeleted (replica_object s inp d)" "oContentType (replica_object s inp d) \<noteq> ''''"
  by (simp_all add: replica_object_def zero_object_def)

lemma PutReplica_ok:
  assumes h: "healthy s env" and b: "BucketNameError (riBucketName inp) = ''''" and k: "KeyError (riKey inp) = ''''"
    and bk: "bucket_at (sDb st) (riBucketName inp) \<noteq> None" and body: "riBody inp = Src cs" "accepted s cs"
    and f: "fresh_id env (sDb st) (riBucketName inp) (riKey inp)" and e: "riExpectedETag inp = hex_encode (md5 (stream_data cs))"
    and old: "\<forall>row. obj_at (sDb st) (riBucketName inp) (riKey inp) = Some row \<longrightarrow> oVersion row < riVersion inp"
  shows "\<exists>st'. PutReplica s env inp st = (st', Inr ()) \<and> stored s env (replica_object s inp (stream_data cs)) (stream_data cs) st st'"
proof -
  let ?b = "riBucketName inp" and ?k = "riKey inp" and ?d = "stream_data cs"
  let ?obj = "replica_object s inp ?d"
  obtain fs' r where P: "Put (svBlob s) (eFs env) ?b ?k (NewMD5Reader (limit_body s (Src cs))) (sFs st) =
       (fs', Inr \<lparr>pPath = blob_path s ?b ?k, pSize = int (length ?d)\<rparr>, r)"
    "ETag r = hex_encode (md5 ?d)" "Err r = None" "data_at fs' (blob_path s ?b ?k) = Some ?d"
    "\<forall>q. q \<noteq> tmp_name (eFs env) (blob_path s ?b ?k) \<longrightarrow> q \<noteq> blob_path s ?b ?k \<longrightarrow> data_at fs' q = data_at (sFs st) q"
    using Put_accepted [OF h b body(2), of ?k "sFs st"] by blast
  have q: "db_quiet (eDb env)" using h by (simp add: healthy_def)
  have "\<exists>db'. PutObject (eDb env) ?obj (sDb st) = (db', Inr ()) \<and>
      stored s env ?obj ?d st (st\<lparr>sFs := fs', sDb := db'\<rparr>)"
    by (rule store_object [OF q])
       (use KeyError_nonempty [OF k] valid_bucket_nonempty [OF b] bk f P(4,5) in simp_all)
  then obtain db' where D: "PutObject (eDb env) ?obj (sDb st) = (db', Inr ())"
    "stored s env ?obj ?d st (st\<lparr>sFs := fs', sDb := db'\<rparr>)" by blast
  have "replica_decision inp (obj_at (sDb st) ?b ?k) = None"
    using old by (auto simp: replica_decision_def split: option.splits)
  then have "PutReplica s env inp st = (st\<lparr>sFs := fs', sDb := db'\<rparr>, Inr ())"
    using k bk body(1) P(1-3) D(1) q e
    by (auto simp: PutReplica_def BucketExists_def replica_object_def Let_def)
  with D(2) show ?thesis by blast
qed

section \<open>Header names of a replica write\<close>

lemma token_char_case: "token_char c \<Longrightarrow> token_char (upper_char c) \<and> token_char (lower_char c)"
proof -
  assume t: "token_char c"
  have "token_char (upper_char c)"
  proof (cases "CHR ''a'' \<le> c \<and> c \<le> CHR ''z''")
    case True
    then have "97 \<le> (of_char c :: nat)" "(of_char c :: nat) \<le> 122" by (simp_all add: less_eq_char_def)
    then have "65 \<le> (of_char c - 32 :: nat)" "(of_char c - 32 :: nat) \<le> 90" by simp_all
    then show ?thesis using True by (simp add: upper_char_def token_char_def is_alnum_def in_span_def less_eq_char_def)
  qed (use t in \<open>auto simp: upper_char_def\<close>)
  moreover have "token_char (lower_char c)"
  proof (cases "CHR ''A'' \<le> c \<and> c \<le> CHR ''Z''")
    case True
    then have "65 \<le> (of_char c :: nat)" "(of_char c :: nat) \<le> 90" by (simp_all add: less_eq_char_def)
    then show ?thesis using True by (simp add: lower_char_def token_char_def is_alnum_def in_span_def less_eq_char_def)
  qed (use t in \<open>auto simp: lower_char_def\<close>)
  ultimately show ?thesis ..
qed

lemma canonical_token: "list_all token_char k \<Longrightarrow> list_all token_char (canonical up k)"
  by (induction k arbitrary: up) (auto simp: token_char_case)

definition valid_names :: "header \<Rightarrow> bool" where
  "valid_names h \<longleftrightarrow> list_all (\<lambda>(k, vs). k \<noteq> '''' \<and> list_all token_char k) h"

lemma canonical_nonempty [simp]: "canonical up k = [] \<longleftrightarrow> k = []"
  by (cases k) auto

lemma update_keys: "(k, vs) \<in> set (AList.update a x h) \<Longrightarrow> k = a \<or> (\<exists>vs. (k, vs) \<in> set h)"
  by (induction h) (auto split: if_splits)

lemma valid_names_set:
  assumes "valid_names h" "k \<noteq> ''''" "list_all token_char k"
  shows "valid_names (header_set k v h)"
proof -
  have "CanonicalHeaderKey k = canonical True k" using assms(3) by (simp add: CanonicalHeaderKey_def)
  then have c: "CanonicalHeaderKey k \<noteq> '''' \<and> list_all token_char (CanonicalHeaderKey k)"
    using assms(2,3) canonical_token by simp
  have h: "a \<noteq> '''' \<and> list_all token_char a" if "(a, vs) \<in> set h" for a vs
    using assms(1) that by (auto simp: valid_names_def list_all_iff)
  have "a \<noteq> '''' \<and> list_all token_char a" if "(a, vs) \<in> set (header_set k v h)" for a vs
  proof -
    from that have "a = CanonicalHeaderKey k \<or> (\<exists>vs. (a, vs) \<in> set h)" unfolding header_set_def by (rule update_keys)
    with c h show ?thesis by auto
  qed
  then show ?thesis unfolding valid_names_def by (intro list_all_iff [THEN iffD2] ballI) auto
qed

lemma protocol_names: "list_all token_char InternalTokenHeader" "list_all token_char InternalOperationHeader"
  "list_all token_char InternalObjectVersion" "list_all token_char InternalExpectedETag" "list_all token_char ''Content-Type''"
  "list_all token_char ''x-amz-meta-''" "InternalTokenHeader \<noteq> ''''" "InternalOperationHeader \<noteq> ''''"
  "InternalObjectVersion \<noteq> ''''" "InternalExpectedETag \<noteq> ''''"
  by code_simp+

lemma valid_names_fold:
  "valid_names h \<Longrightarrow> \<forall>(k, v) \<in> set m. list_all token_char k \<Longrightarrow> valid_names (fold (\<lambda>(k, v) h. header_set (''x-amz-meta-'' @ k) v h) m h)"
proof (induction m arbitrary: h)
  case (Cons kv m)
  obtain k v where kv: "kv = (k, v)" by (cases kv)
  have "list_all token_char (''x-amz-meta-'' @ k)"
    unfolding list_all_append using protocol_names(6) Cons.prems(2) kv by simp
  then have "valid_names (header_set (''x-amz-meta-'' @ k) v h)" using Cons.prems(1) by (intro valid_names_set) simp_all
  with Cons.IH Cons.prems(2) show ?case by (simp add: kv del: append_Cons append_Nil)
qed simp

lemma put_headers_names:
  assumes "\<forall>(k, v) \<in> set (piCustomMetadata inp). list_all token_char k"
  shows "valid_names (put_headers r inp)"
proof -
  have "valid_names []" by (simp add: valid_names_def)
  then have b: "valid_names (header_set InternalExpectedETag e (header_set InternalObjectVersion v
      (header_set InternalOperationHeader a (header_set InternalTokenHeader t []))))" for e v a t
    by (intro valid_names_set protocol_names)
  then have "valid_names (header_set ''Content-Type'' ct (header_set InternalExpectedETag e (header_set InternalObjectVersion v
      (header_set InternalOperationHeader a (header_set InternalTokenHeader t [])))))" for ct e v a t
    by (rule valid_names_set [OF _ _ protocol_names(5)]) simp
  with b show ?thesis unfolding put_headers_def Let_def by (intro valid_names_fold assms) simp
qed

text \<open>
  A peer that can take a replica write of given bytes: reachable, with the same token, healthy, knowing
  the bucket, with a free row ID and an older version if any; the body can be opened on the local node, and
  reaches the peer complete and within its limit.
\<close>

definition peer_ready :: "net \<Rightarrow> string \<Rightarrow> string \<Rightarrow> string \<Rightarrow> int \<Rightarrow> string \<Rightarrow> world \<Rightarrow> string \<Rightarrow> bool" where
  "peer_ready net tok b k v d w i \<longleftrightarrow>
     (let env = nEnv net i ''put''; st = wNodes w i; s = wSvc w i in
      injectFault net i ''put'' = None \<and> tok \<noteq> '''' \<and> wToken w i = tok \<and> nFate net ''put'' i = Delivered \<and> healthy s env \<and>
      bucket_at (sDb st) b \<noteq> None \<and> fresh_id env (sDb st) b k \<and> (\<forall>row. row_of st (b, k) = Some row \<longrightarrow> oVersion row < v) \<and>
      accepted s (nChunk net d) \<and> stream_data (nChunk net d) = d)"

definition ready_put :: "net \<Rightarrow> Replicator \<Rightarrow> ReplicatePutInput \<Rightarrow> string \<Rightarrow> string \<Rightarrow> Node \<Rightarrow> world \<Rightarrow> bool" where
  "ready_put net r inp here_id d n w \<longleftrightarrow>
     peer_ready net (rpInternalToken r) (piBucket inp) (piKey inp) (piVersion inp) d w (nID n) \<and> nID n \<noteq> here_id \<and>
     piExpectedETag inp = hex_encode (md5 d) \<and> 1 \<le> piVersion inp \<and> KeyError (piKey inp) = '''' \<and>
     (\<forall>(k, v) \<in> set (piCustomMetadata inp). list_all token_char k) \<and>
     (\<forall>w'. wNodes w' here_id = wNodes w here_id \<and> wSvc w' = wSvc w \<longrightarrow> piOpenBody inp w' = Inr d)"

lemma ready_put_other:
  "ready_put net r inp h d m w \<Longrightarrow> ready_put net r inp h d n w \<Longrightarrow> nID m \<noteq> nID n \<Longrightarrow> ready_put net r inp h d m (set_node (nID n) st w)"
  by (auto simp: ready_put_def peer_ready_def Let_def)

lemma putToNode_ready:
  assumes "ready_put net r inp h d n w" "n \<in> put_peers net inp (wHost w)"
  shows "\<exists>w'. putToNode net r n inp w = (w', None)"
proof -
  let ?i = "nID n"
  let ?env = "nEnv net ?i ''put''" and ?s = "wSvc w ?i" and ?st = "wNodes w ?i"
  let ?r = "\<lparr>rqMethod = ''PUT'', rqPath = object_target (piBucket inp) (piKey inp), rqHeader = put_headers r inp, rqBody = Src (nChunk net d)\<rparr>"
  let ?rin = "\<lparr>riBucketName = piBucket inp, riKey = piKey inp, riVersion = piVersion inp, riExpectedETag = piExpectedETag inp,
      riContentType = piContentType inp, riCustomMetadata = extractCustomMetadata (put_headers r inp), riBody = Src (nChunk net d)\<rparr>"
  have p: "wHost w (nodeBaseURL (nAddress n)) = Some ?i" "routed (piBucket inp) (piKey inp)" "in_i64 (piVersion inp)"
    using assms(2) by (simp_all add: put_peers_def)
  have b: "BucketNameError (piBucket inp) = ''''" using p(2) by (simp add: routed_def)
  note R = assms(1) [unfolded ready_put_def peer_ready_def Let_def]
  obtain st' where P: "PutReplica ?s ?env ?rin ?st = (st', Inr ())"
    using PutReplica_ok [of ?s ?env ?rin ?st "nChunk net d"] R b by (auto simp: row_of_def)
  have i: "IsInternalRequest ?r (wToken w ?i)" using R by (simp add: IsInternalRequest_def)
  then have o: "IsReplicatePut ?r (wToken w ?i)" by (simp add: IsReplicatePut_def internal_operation)
  have "hex_encode (md5 d) \<noteq> ''''"
    using length_hex_encode [of "md5 d"] by (metis length_md5 list.size(3) mult_eq_0_iff zero_neq_numeral)
  then have "putReplica ?s ?env ?r (piBucket inp) (piKey inp) ?st = (st', plain_response 200)"
    using P R p(3) by (simp add: putReplica_def Let_def)
  then have "serve_replica ?s (wToken w ?i) ?env ?r ?st = (st', plain_response 200)"
    using serve_routed [OF p(2), of ?r] i o by simp
  moreover have "valid_names (put_headers r inp)" using put_headers_names R by blast
  ultimately have "client_do net ''put'' (nodeBaseURL (nAddress n)) ?r w = (set_node ?i st' w, Inr (plain_response 200))"
    using p(1,2) R by (simp add: client_do_def valid_names_def routed_def)
  moreover have "piOpenBody inp w = Inr d" using R by blast
  ultimately show ?thesis using R by (simp add: putToNode_def)
qed

section \<open>Every peer acknowledges\<close>

text \<open>
  A sender whose calls succeed on peers that are ready, where a call on one peer leaves the others ready:
  the whole batch is acknowledged.
\<close>

locale ready_sender = sender +
  fixes ready :: "Node \<Rightarrow> world \<Rightarrow> bool"
  assumes ready_ok: "n \<in> members \<Longrightarrow> wHost w = host \<Longrightarrow> ready n w \<Longrightarrow> \<exists>w'. send n w = (w', None)"
    and ready_stays: "ready m w \<Longrightarrow> ready n w \<Longrightarrow> nID m \<noteq> nID n \<Longrightarrow> ready m (set_node (nID n) st w)"
begin

lemma each_succeeds:
  assumes "set ns \<subseteq> members" "distinct (map nID ns)" "wHost w = host" "\<forall>n \<in> set ns. ready n w"
    "replicate_each send ns (w, res) = (w', res')"
  shows "waFailures res' = waFailures res \<and> waAcks res' = waAcks res + int (length ns)"
  using assms
proof (induction ns arbitrary: w res)
  case (Cons n ns)
  obtain w1 where s: "send n w = (w1, None)" using ready_ok Cons.prems(1,3,4) by fastforce
  then obtain st1 where w1: "w1 = set_node (nID n) st1 w" using send_effect [OF _ Cons.prems(3)] Cons.prems(1) by fastforce
  have "\<forall>m \<in> set ns. ready m w1"
  proof
    fix m
    assume m: "m \<in> set ns"
    then have "nID m \<in> nID ` set ns" by simp
    then have "nID m \<noteq> nID n" using Cons.prems(2) by auto
    with m show "ready m w1" using ready_stays [of m w n st1] Cons.prems(4) w1 by simp
  qed
  with Cons.IH [of w1 "res\<lparr>waSuccess := waSuccess res @ [nID n], waAcks := waAcks res + 1\<rparr>"] Cons.prems s w1 show ?case by simp
qed simp

end

interpretation live_put: ready_sender "\<lambda>n. putToNode net r n inp" host "put_peers net inp host"
    "\<lambda>st. live_at st (piBucket inp, piKey inp) (piVersion inp) (piExpectedETag inp)" "(piBucket inp, piKey inp)"
    "ready_put net r inp h d"
  for net r inp host h d
proof
  show "\<exists>w'. putToNode net r n inp w = (w', None)" if "n \<in> put_peers net inp host" "wHost w = host" "ready_put net r inp h d n w" for n w
    using putToNode_ready [OF that(3)] that(1,2) by simp
qed (rule ready_put_other)

lemma ReplicatePut_succeeds:
  assumes "ReplicatePut net r replicas inp w = (w', remote)" "set replicas \<subseteq> put_peers net inp (wHost w)" "distinct (map nID replicas)"
    "fair_sched net" "\<forall>n \<in> set replicas. ready_put net r inp h d n w"
  shows "waFailures remote = [] \<and> waAcks remote = int (length replicas)"
proof (cases "replicas = []")
  case True
  with assms(1) show ?thesis by (auto simp: ReplicatePut_def empty_result_def)
next
  case False
  let ?ns = "nSched net replicas"
  have m: "mset ?ns = mset replicas" using assms(4) by (simp add: fair_sched_def)
  then have s: "set ?ns = set replicas" "length ?ns = length replicas" by (rule mset_eq_setD, metis mset_eq_length)
  have "mset (map nID ?ns) = mset (map nID replicas)" using m by simp
  then have "distinct (map nID ?ns)" using assms(3) by (metis mset_eq_imp_distinct_iff)
  from live_put.each_succeeds [OF _ this refl, of net inp w r h d empty_result w' remote] assms(1,2,5) False s
  show ?thesis by (simp add: ReplicatePut_def empty_result_def)
qed

section \<open>Writing to a healthy cluster\<close>

definition write_ready :: "net \<Rightarrow> Coordinator \<Rightarrow> RendezvousPlacer \<Rightarrow> PlacementResult \<Rightarrow> PutObjectInput \<Rightarrow> chunk list \<Rightarrow> world \<Rightarrow> bool" where
  "write_ready net c p pl inp cs w \<longleftrightarrow>
     (let b = inBucketName inp; k = inKey inp; st = here c w; env = my_env net c ''local'' in
      cSvc c \<and> Enabled_coord c \<and> cPlacer c = Some p \<and> cluster_ok p w \<and> net_ok net \<and> fair_sched net \<and>
      Locate p b k = Inr pl \<and> nID (Primary pl) = cLocalNodeID c \<and> routed b k \<and> KeyError k = '''' \<and>
      healthy (my_svc c w) env \<and> bucket_at (sDb st) b \<noteq> None \<and> fresh_id env (sDb st) b k \<and> version_room st (b, k) \<and>
      inBody inp = Src cs \<and> accepted (my_svc c w) cs \<and> (\<forall>(m, v) \<in> set (inCustomMetadata inp). list_all token_char m) \<and>
      W (cQuorum c) \<le> replicationFactor p \<and>
      (\<forall>n \<in> set (Replicas pl). peer_ready net (rpInternalToken (the_replicator c)) b k (next_version st (b, k)) (stream_data cs) w (nID n)))"

lemma NextObjectVersion_quiet:
  "db_quiet (eDb env) \<Longrightarrow> version_room st (b, k) \<Longrightarrow> NextObjectVersion env b k st = Inr (next_version st (b, k))"
  by (auto simp: NextObjectVersion_def GetObject_def version_room_def next_version_def row_of_def in_i64_def split: option.splits)

lemma next_version_room: "version_room st bk \<Longrightarrow> 1 \<le> next_version st bk \<and> in_i64 (next_version st bk)"
  by (auto simp: version_room_def next_version_def in_i64_def split: option.splits)

lemma SetReplicationStatus_rest:
  "sFs (fst (SetReplicationStatus env b k status st)) = sFs st" "db_hints (sDb (fst (SetReplicationStatus env b k status st))) = db_hints (sDb st)"
  by (auto simp: SetReplicationStatus_def UpdateReplicationStatus_def)



lemma finish_put_ok:
  "waFailures remote = [] \<Longrightarrow> WriteSatisfied (cQuorum c) (1 + waAcks remote) \<Longrightarrow>
   finish_put net c inp v etag (w, remote) =
     (set_here c (fst (SetReplicationStatus (my_env net c ''status'') (inBucketName inp) (inKey inp) ''replicated'' (here c w))) w, Inr etag)"
  by (simp add: finish_put_def enqueue_failures_def)

lemma live_at_status [simp]: "live_at (fst (SetReplicationStatus env b k status st)) bk v etag \<longleftrightarrow> live_at st bk v etag"
  by (simp add: live_at_core SetReplicationStatus_core)

lemma put_reaches_all:
  assumes "write_ready net c p pl inp cs w"
  defines "b \<equiv> inBucketName inp" and "k \<equiv> inKey inp" and "etag \<equiv> hex_encode (md5 (stream_data cs))"
  shows "\<exists>w'. PutObject_coord net c inp w = (w', Inr etag) \<and>
     (\<forall>n \<in> set (ReplicaSet pl). live_at (wNodes w' (nID n)) (b, k) (next_version (here c w) (b, k)) etag) \<and>
     data_at (sFs (here c w')) (blob_path (my_svc c w) b k) = Some (stream_data cs) \<and>
     wHost w' = wHost w \<and> wSvc w' = wSvc w \<and> wToken w' = wToken w"
proof -
  let ?env = "my_env net c ''local''" and ?s = "my_svc c w" and ?d = "stream_data cs" and ?v = "next_version (here c w) (b, k)"
  note R = assms(1) [unfolded write_ready_def Let_def, folded b_def k_def]
  have en: "Enabled_coord c" "cPlacer c = Some p" using R by blast+
  have tp: "the_placer c = p" using en by (simp add: the_placer_def)
  have rf: "0 < replicationFactor p" using en by (simp add: Enabled_coord_def ReplicationFactor_def)
  have v: "1 \<le> ?v" "in_i64 ?v" using next_version_room R by simp_all
  have bn: "BucketNameError b = ''''" using R by (simp add: routed_def)
  have q: "db_quiet (eDb ?env)" "fs_faults (eFs ?env) = []" "base_ok (basePath (svBlob ?s))" using R by (auto simp: healthy_def quiet_def)
  obtain st where P: "PutObjectWithVersion ?s ?env inp ?v ''partial'' (here c w) = (st, Inr etag)"
    and S: "stored ?s ?env (input_object ?s inp ?d ?v ''partial'') ?d (here c w) st"
    using PutObjectWithVersion_ok [of ?s ?env inp "here c w" cs ?v "''partial''"] R bn unfolding b_def k_def etag_def by auto
  have d: "data_at (sFs st) (blob_path ?s b k) = Some ?d" using S unfolding stored_def b_def k_def by simp
  then have G: "OpenStoredObject ?s ?env b k st = Inr (?d, int (length ?d))"
    using Get_data [OF q(2) healthy_resolve [OF q(3) bn], of k "sFs st"] by (simp add: OpenStoredObject_def)
  define inp' where "inp' = \<lparr>piBucket = b, piKey = k, piVersion = ?v, piExpectedETag = etag,
      piContentType = inContentType inp, piCustomMetadata = inCustomMetadata inp, piSize = int (length ?d),
      piOpenBody = (\<lambda>w. case OpenStoredObject ?s ?env b k (here c w) of Inl e \<Rightarrow> Inl e | Inr (rc, _) \<Rightarrow> Inr rc)\<rparr>"
  let ?w1 = "set_here c st w"
  obtain w2 remote where RP: "ReplicatePut net (the_replicator c) (Replicas pl) inp' ?w1 = (w2, remote)" by (rule prod.exhaust)
  have "Locate p b k = Inr pl" "cluster_ok p w" using R by blast+
  note placed = placement_facts [OF this rf]
  have nl: "cLocalNodeID c \<notin> nID ` set (Replicas pl)" "distinct (map nID (Replicas pl))"
    using placed(1) R by (auto simp: ReplicaSet_def)
  have peers: "set (Replicas pl) \<subseteq> put_peers net inp' (wHost ?w1)"
    using placed(2) R v by (auto simp: put_peers_def cluster_ok_def ReplicaSet_def inp'_def)
  have ready: "ready_put net (the_replicator c) inp' (cLocalNodeID c) ?d n ?w1" if "n \<in> set (Replicas pl)" for n
  proof -
    have "nID n \<in> nID ` set (Replicas pl)" using that by simp
    then have "nID n \<noteq> cLocalNodeID c" using nl(1) by metis
    moreover from this have "peer_ready net (rpInternalToken (the_replicator c)) b k ?v ?d ?w1 (nID n)"
      using R that by (simp add: peer_ready_def set_here_def)
    moreover have "here c w' = st" if "wNodes w' (cLocalNodeID c) = st" for w' using that by (simp add: here_def)
    ultimately show ?thesis using R G v by (simp add: ready_put_def inp'_def etag_def)
  qed
  have fs: "fair_sched net" using R by blast
  have acks: "waFailures remote = []" "waAcks remote = int (length (Replicas pl))"
    using ReplicatePut_succeeds [OF RP peers nl(2) fs, of "cLocalNodeID c" ?d] ready by blast+
  obtain S F where SF: "waAcks remote = int (length S)" "map reNodeID (waFailures remote) = F"
    "mset S + mset F = mset (map nID (Replicas pl))" "\<forall>i \<in> set S. live_at (wNodes w2 i) (b, k) ?v etag"
    "\<forall>i. i \<notin> nID ` set (Replicas pl) \<longrightarrow> wNodes w2 i = wNodes ?w1 i" "wHost w2 = wHost ?w1" "wSvc w2 = wSvc ?w1"
    using ReplicatePut_acks [OF RP peers nl(2) fs] unfolding inp'_def by auto
  then have all: "\<forall>n \<in> set (Replicas pl). live_at (wNodes w2 (nID n)) (b, k) ?v etag"
    using acks(1) by (metis empty_neutral(2) image_eqI list.simps(8) mset.simps(1) mset_eq_setD set_map)
  have loc: "here c w2 = st" using SF(5) nl(1) by (simp add: here_def)
  have C: "PutObject_coord net c inp w = finish_put net c inp ?v etag (w2, remote)"
  proof (cases "Replicas pl = []")
    case True
    then have "(w2, remote) = (?w1, empty_result)" using RP by (simp add: ReplicatePut_def)
    with True R P NextObjectVersion_quiet [OF q(1), of "here c w" b k] show ?thesis
      by (simp add: PutObject_coord_def tp Let_def flip: b_def k_def)
  next
    case False
    with R P G RP NextObjectVersion_quiet [OF q(1), of "here c w" b k] show ?thesis
      by (simp add: PutObject_coord_def tp Let_def inp'_def flip: b_def k_def)
  qed
  have "1 + waAcks remote = replicationFactor p" using acks(2) placed(3) by (simp add: ReplicaSet_def)
  then have "WriteSatisfied (cQuorum c) (1 + waAcks remote)" using R by (simp add: WriteSatisfied_def)
  note F = finish_put_ok [OF acks(1) this, of net inp ?v etag w2]
  have "live_at st (b, k) ?v etag" using PutObjectWithVersion_Inr [OF P] v unfolding b_def k_def by simp
  then have "\<forall>n \<in> set (ReplicaSet pl). live_at (wNodes (fst (finish_put net c inp ?v etag (w2, remote))) (nID n)) (b, k) ?v etag"
    unfolding F using all loc R by (simp add: ReplicaSet_def)
  moreover have "wToken w2 = wToken w"
    using RP replica_put.each_token [of "nSched net (Replicas pl)" net inp' "wHost ?w1" ?w1 "the_replicator c" empty_result w2 remote] peers fs
    by (auto simp: ReplicatePut_def fair_sched_def set_here_def set_node_def dest: mset_eq_setD split: if_splits)
  ultimately show ?thesis using C F SF(6,7) d loc
    by (simp add: SetReplicationStatus_rest) (simp add: set_here_def)
qed

section \<open>Reading from a healthy cluster\<close>

definition head_ready :: "net \<Rightarrow> string \<Rightarrow> world \<Rightarrow> string \<Rightarrow> bool" where
  "head_ready net tok w i \<longleftrightarrow> injectFault net i ''head'' = None \<and> tok \<noteq> '''' \<and> wToken w i = tok \<and> nFate net ''head'' i = Delivered \<and>
     \<not> db_fails (eDb (nEnv net i ''head'')) ''object.get''"

lemma op_headers_names: "valid_names (op_headers r p)"
proof -
  have "valid_names []" by (simp add: valid_names_def)
  then show ?thesis unfolding op_headers_def by (intro valid_names_set protocol_names)
qed

lemma headOnNode_found:
  assumes "routed b k" "wHost w (nodeBaseURL (nAddress n)) = Some (nID n)" "head_ready net (rpInternalToken r) w (nID n)"
    "row_of (wNodes w (nID n)) (b, k) = Some row"
  shows "rFound (headOnNode net r b k w n)"
proof -
  let ?r = "\<lparr>rqMethod = ''HEAD'', rqPath = object_target b k, rqHeader = op_headers r OpReplicateHead, rqBody = Src []\<rparr>"
  note H = assms(3) [unfolded head_ready_def]
  have i: "IsInternalRequest ?r (wToken w (nID n))" using H by (simp add: IsInternalRequest_def)
  then have o: "IsReplicateHead ?r (wToken w (nID n))" "\<not> IsReplicatePut ?r (wToken w (nID n))"
    by (simp_all add: internal_op_defs internal_operation)
  have "serve_replica (wSvc w (nID n)) (wToken w (nID n)) (nEnv net (nID n) ''head'') ?r (wNodes w (nID n)) =
      (wNodes w (nID n), headReplica (nEnv net (nID n) ''head'') b k (wNodes w (nID n)))"
    using serve_routed [OF assms(1), of ?r] i o by simp
  moreover have "rsStatus (headReplica (nEnv net (nID n) ''head'') b k (wNodes w (nID n))) = 200"
    using assms(4) H by (simp add: headReplica_def LocalReplicaState_def GetObject_def row_of_def Let_def)
  ultimately show ?thesis using assms(1,2) H op_headers_names [of r OpReplicateHead]
    by (simp add: headOnNode_def client_do_def valid_names_def routed_def Let_def)
qed

lemma pick_newest_first: "\<forall>s \<in> set ss. rVersion s \<le> rVersion best \<Longrightarrow> pick_newest ss (best, True) = (best, True)"
  by (induction ss) (simp_all add: not_less)

text \<open>When every replica answers with the same version, the local state wins and nothing is repaired.\<close>

lemma quorumRead_agreed:
  assumes "routed b k" "cluster_ok p w" "set (ReplicaSet pl) \<subseteq> set (ListNodes (membership p))" "distinct (map nID (ReplicaSet pl))"
    "nID (Primary pl) = cLocalNodeID c" "R (cQuorum c) \<le> int (length (ReplicaSet pl))"
    "\<forall>n \<in> set (ReplicaSet pl). live_at (wNodes w (nID n)) (b, k) v etag" "in_i64 v" "CHR 0x22 \<notin> set etag"
    "\<forall>n \<in> set (Replicas pl). head_ready net (rpInternalToken (the_replicator c)) w (nID n)"
    "\<not> db_fails (eDb (my_env net c ''local'')) ''object.get''"
  shows "\<exists>winning states. quorumRead net c (ReplicaSet pl) b k w = Inr (winning, states) \<and> winning = localReplicaState net c b k w \<and>
     rFound winning \<and> rVersion winning = v \<and> rETag winning = etag \<and> \<not> rDeleted winning \<and> (\<forall>s \<in> set states. \<not> needs_repair winning s)"
proof -
  let ?l = "localReplicaState net c b k w" and ?rs = "map (headOnNode net (the_replicator c) b k w) (Replicas pl)"
  let ?good = "\<lambda>s. rFound s \<and> rVersion s = v \<and> rETag s = etag \<and> \<not> rDeleted s"
  have nl: "filter (\<lambda>n. nID n = cLocalNodeID c) (Replicas pl) = []" "filter (\<lambda>n. nID n \<noteq> cLocalNodeID c) (Replicas pl) = Replicas pl"
    using assms(4,5) by (force simp: ReplicaSet_def filter_empty_conv filter_id_conv)+
  have st: "collectReplicaStates net c (ReplicaSet pl) b k w = ?l # ?rs"
    using assms(5) nl by (simp add: collectReplicaStates_def FetchReplicaStates_def ReplicaSet_def Let_def)
  have l: "?good ?l"
    using assms(5,7,11) by (auto simp: localReplicaState_def LocalReplicaState_def GetObject_def live_at_def row_of_def here_def ReplicaSet_def)
  have rs: "?good (headOnNode net (the_replicator c) b k w n)" if n: "n \<in> set (Replicas pl)" for n
  proof -
    have n': "n \<in> set (ReplicaSet pl)" using n by (simp add: ReplicaSet_def)
    then have h: "wHost w (nodeBaseURL (nAddress n)) = Some (nID n)" using assms(2,3) by (auto simp: cluster_ok_def)
    from n' assms(7) obtain row where row: "row_of (wNodes w (nID n)) (b, k) = Some row" "oVersion row = v" "oETag row = etag" "\<not> oDeleted row"
      by (auto simp: live_at_def)
    then have "rows_ok (wNodes w (nID n)) (b, k)" using assms(8,9) by (simp add: rows_ok_def row_ok_def)
    from headOnNode_state [OF assms(1) h this] headOnNode_found [OF assms(1) h _ row(1)] n assms(10) row show ?thesis
      by (auto simp: row_state_def)
  qed
  have f: "filter rFound (?l # ?rs) = ?l # ?rs" using l rs by (auto simp: filter_id_conv)
  have "PickNewestState (?l # ?rs) = (?l, True)"
    unfolding PickNewestState_def using l rs pick_newest_first [of ?rs ?l] by simp
  then have "quorumRead net c (ReplicaSet pl) b k w = Inr (?l, ?l # ?rs)"
    unfolding quorumRead_def st Let_def f using assms(6) by (simp add: ReadSatisfied_def ReplicaSet_def)
  moreover have "\<forall>s \<in> set (?l # ?rs). \<not> needs_repair ?l s" using l rs by (auto simp: needs_repair_def)
  ultimately show ?thesis using l by blast
qed

text \<open>
  C8: progress. On a healthy cluster (the network delivers, every replica knows the bucket, has the shared
  token, a free row ID and an older version at most) a write at the primary is acknowledged with the MD5 of the
  body, and afterwards every replica of the placement holds the new version under that ETag.
\<close>

theorem healthy_put_reaches_all:
  assumes "write_ready net c p pl inp cs w"
  shows "\<exists>w'. PutObject_coord net c inp w = (w', Inr (hex_encode (md5 (stream_data cs)))) \<and>
     (\<forall>n \<in> set (ReplicaSet pl). live_at (wNodes w' (nID n)) (inBucketName inp, inKey inp)
        (next_version (here c w) (inBucketName inp, inKey inp)) (hex_encode (md5 (stream_data cs))))"
  using put_reaches_all [OF assms] by blast

text \<open>
  C9: coordinated round trip. On a healthy cluster whose quorum configuration passes validation for the
  placement's replication factor, a GetObject after the write returns exactly the bytes written, their
  length and their MD5, and the read leaves the cluster as it is.
\<close>

theorem coordinated_roundtrip:
  assumes "write_ready net c p pl inp cs w" "Validate (cQuorum c) = None" "N (cQuorum c) = replicationFactor p"
    "\<forall>n \<in> set (Replicas pl). head_ready net (rpInternalToken (the_replicator c)) w (nID n)"
  shows "\<exists>w' g. PutObject_coord net c inp w = (w', Inr (hex_encode (md5 (stream_data cs)))) \<and>
     GetObject_coord net c (inBucketName inp) (inKey inp) verify w' = (w', Inr g) \<and> gBody g = stream_data cs \<and>
     gSize g = int (length (stream_data cs)) \<and> gETag g = hex_encode (md5 (stream_data cs))"
proof -
  let ?b = "inBucketName inp" and ?k = "inKey inp" and ?d = "stream_data cs" and ?env = "my_env net c ''local''"
  let ?v = "next_version (here c w) (?b, ?k)" and ?etag = "hex_encode (md5 (stream_data cs))"
  note R = assms(1) [unfolded write_ready_def Let_def]
  have en: "Enabled_coord c" "cPlacer c = Some p" "Locate p ?b ?k = Inr pl" "cluster_ok p w" "routed ?b ?k" using R by blast+
  have rf: "0 < replicationFactor p" "Enabled (cQuorum c)"
    using en(1,2) assms(3) by (simp_all add: Enabled_coord_def ReplicationFactor_def Enabled_def)
  note placed = placement_facts [OF en(3,4) rf(1)]
  obtain w' where P: "PutObject_coord net c inp w = (w', Inr ?etag)"
    and L: "\<forall>n \<in> set (ReplicaSet pl). live_at (wNodes w' (nID n)) (?b, ?k) ?v ?etag"
    and D: "data_at (sFs (here c w')) (blob_path (my_svc c w) ?b ?k) = Some ?d"
    and same: "wHost w' = wHost w" "wSvc w' = wSvc w" "wToken w' = wToken w"
    using put_reaches_all [OF assms(1)] by blast
  have h: "healthy (my_svc c w) ?env" "nID (Primary pl) = cLocalNodeID c" "version_room (here c w) (?b, ?k)" using R by blast+
  have q: "\<not> db_fails (eDb ?env) ''object.get''" "fs_faults (eFs ?env) = []" "base_ok (basePath (svBlob (my_svc c w)))"
    using h(1) by (auto simp: healthy_def quiet_def)
  have ck: "cluster_ok p w'" using en(4) cluster_ok_host [OF same(1)] by simp
  have rq: "R (cQuorum c) \<le> int (length (ReplicaSet pl))" using assms(2,3) placed(3) by (simp add: Validate_None_iff)
  have hr: "\<forall>n \<in> set (Replicas pl). head_ready net (rpInternalToken (the_replicator c)) w' (nID n)"
    using assms(4) same(3) by (simp add: head_ready_def)
  obtain x states where Q: "quorumRead net c (ReplicaSet pl) ?b ?k w' = Inr (x, states)" "x = localReplicaState net c ?b ?k w'"
      "rFound x" "rETag x = ?etag" "\<not> rDeleted x" "\<forall>s \<in> set states. \<not> needs_repair x s"
    using quorumRead_agreed [OF en(5) ck placed(2,1) h(2) rq L _ set_hex_encode_quote hr q(1)] next_version_room [OF h(3)] by blast
  have "scheduleReadRepair net c ?b ?k x states w' = w'"
    using Q(6) unfolding scheduleReadRepair_def by (induction states) simp_all
  moreover have "rNodeID x = cLocalNodeID c" using Q(2) by simp
  moreover have "OpenStoredObject (my_svc c w') ?env ?b ?k (here c w') = Inr (?d, int (length ?d))"
    using Get_data [OF q(2) healthy_resolve [OF q(3)], of ?b ?k "sFs (here c w')"] D en(5) same(2)
    by (simp add: OpenStoredObject_def my_svc_def routed_def)
  ultimately have "\<exists>g. GetObject_coord net c ?b ?k verify w' = (w', Inr g) \<and> gBody g = ?d \<and> gSize g = int (length ?d) \<and> gETag g = ?etag"
    using R en rf(2) Q(1,3-5) by (simp add: GetObject_coord_def winning_body_def the_placer_def Let_def)
  with P show ?thesis by blast
qed

section \<open>A cluster of two nodes\<close>

definition label_env :: "string \<Rightarrow> env" where
  "label_env l = example_node_env\<lparr>eDb := \<lparr>db_now = 0, db_rand = l, db_faults = []\<rparr>\<rparr>"

lemma label_env_facts: "healthy example_service (label_env l)" "wd_ok (eFs (label_env l))" "fresh_id (label_env l) (sDb example_node) b k"
  "db_quiet (eDb (label_env l))" "newID (eDb (label_env l)) = hex_encode l"
  using example_healthy
  by (simp_all add: label_env_def healthy_def wd_ok_def example_node_env_def example_env_def fresh_id_def example_node_def empty_db_def
      db_quiet_def newID_def)

definition example_net :: net where
  "example_net = \<lparr>nFate = (\<lambda>_ _. Delivered), nEnv = (\<lambda>_ l. label_env l), nChunk = (\<lambda>d. [(d, None)]), nSched = (\<lambda>ns. ns), nInject = None,
     nFollow = (\<lambda>_ _ w. (w, Inl (Other ''redirect'')))\<rparr>"

definition example_world :: world where
  "example_world = \<lparr>wNodes = (\<lambda>_. example_node), wSvc = (\<lambda>_. example_service), wToken = (\<lambda>_. ''t''),
     wHost = (\<lambda>u. if u = ''http://h1'' then Some ''a'' else if u = ''http://h2'' then Some ''b'' else None)\<rparr>"

definition example_members :: StaticMembership where
  "example_members = \<lparr>localID = ''a'', nodes = [\<lparr>nID = ''a'', nAddress = ''h1'', nStatus = ''active''\<rparr>, \<lparr>nID = ''b'', nAddress = ''h2'', nStatus = ''active''\<rparr>],
     byID = [''a'' \<mapsto> \<lparr>nID = ''a'', nAddress = ''h1'', nStatus = ''active''\<rparr>, ''b'' \<mapsto> \<lparr>nID = ''b'', nAddress = ''h2'', nStatus = ''active''\<rparr>]\<rparr>"

definition example_placer :: RendezvousPlacer where
  "example_placer = NewRendezvousPlacer example_members 2"

definition example_coordinator :: "string \<Rightarrow> Coordinator" where
  "example_coordinator i = NewCoordinator i (Some example_members) (Some example_placer) True True (Some (NewReplicator ''t'')) \<lparr>N = 2, W = 2, R = 1\<rparr>"

lemma example_members_new:
  "NewStaticMembership ''a'' [\<lparr>nID = ''b'', nAddress = ''h2'', nStatus = []\<rparr>, \<lparr>nID = ''a'', nAddress = ''h1'', nStatus = []\<rparr>] =
     Inr example_members"
  by (simp add: NewStaticMembership_def example_members_def normal_node_def NodeStatusActive_def fun_upd_twist)

lemma example_placement: "\<exists>pl. Locate example_placer ''abc'' ''k'' = Inr pl"
  unfolding example_placer_def
  by (rule Locate_total) (use NewStaticMembership_members_ok [OF example_members_new] in \<open>simp_all add: Len_def example_members_def\<close>)

lemma example_addresses: "nodeBaseURL ''h1'' = ''http://h1''" "nodeBaseURL ''h2'' = ''http://h2''" "routed ''abc'' ''k''" "KeyError ''k'' = ''''"
  by code_simp+

lemma example_coordinator_simps [simp]:
  "cSvc (example_coordinator i)" "cPlacer (example_coordinator i) = Some example_placer" "cLocalNodeID (example_coordinator i) = i"
  "Enabled_coord (example_coordinator i)" "cQuorum (example_coordinator i) = \<lparr>N = 2, W = 2, R = 1\<rparr>" "replicationFactor example_placer = 2"
  "rpInternalToken (the_replicator (example_coordinator i)) = ''t''"
  by (simp_all add: example_coordinator_def NewCoordinator_def Enabled_coord_def ReplicationFactor_def example_placer_def
      NewRendezvousPlacer_def the_replicator_def NewReplicator_def)

lemma example_net_ok: "net_ok example_net" "fair_sched example_net" "cluster_ok example_placer example_world"
  using example_addresses(1,2)
  by (simp_all add: net_ok_def fair_sched_def example_net_def label_env_facts cluster_ok_def
      example_placer_def NewRendezvousPlacer_def example_members_def ListNodes_def example_world_def)

lemma example_empty [simp]: "row_of example_node bk = None" "here c example_world = example_node" "my_svc c example_world = example_service"
  "my_env example_net c l = label_env l"
  by (cases bk)
     (simp_all add: row_of_def obj_at_def row_at_def example_node_def empty_db_def here_def example_world_def my_svc_def my_env_def example_net_def)

lemma example_peer_ready: "peer_ready example_net ''t'' ''abc'' ''k'' 1 ''hello'' example_world i"
proof -
  have "accepted example_service [(''hello'', None)]" by code_simp
  then show ?thesis using example_facts(3)
    by (simp add: peer_ready_def example_net_def injectFault_def example_world_def label_env_facts)
qed

lemma example_write_ready:
  assumes "Locate example_placer ''abc'' ''k'' = Inr pl"
  shows "write_ready example_net (example_coordinator (nID (Primary pl))) example_placer pl example_input [(''hel'', None), (''lo'', None)] example_world"
proof -
  have "next_version example_node (''abc'', ''k'') = 1" "version_room example_node (''abc'', ''k'')"
    "stream_data [(''hel'', None), (''lo'', None)] = ''hello''"
    by (simp_all add: next_version_def version_room_def)
  with assms example_net_ok example_addresses(3,4) label_env_facts example_facts(3,4) example_peer_ready show ?thesis
    by (simp add: write_ready_def example_input_def)
qed

lemma example_valid: "Validate \<lparr>N = 2, W = 2, R = 1\<rparr> = None"
  by code_simp

theorem healthy_put_reaches_all_witness:
  "\<exists>pl w'. Locate example_placer ''abc'' ''k'' = Inr pl \<and>
     PutObject_coord example_net (example_coordinator (nID (Primary pl))) example_input example_world = (w', Inr (hex_encode (md5 ''hello''))) \<and>
     (\<forall>n \<in> set (ReplicaSet pl). live_at (wNodes w' (nID n)) (''abc'', ''k'') 1 (hex_encode (md5 ''hello'')))"
proof -
  obtain pl where pl: "Locate example_placer ''abc'' ''k'' = Inr pl" using example_placement by blast
  have "next_version example_node (''abc'', ''k'') = 1" "stream_data [(''hel'', None), (''lo'', None)] = ''hello''"
    by (simp_all add: next_version_def)
  with healthy_put_reaches_all [OF example_write_ready [OF pl]] pl show ?thesis by (auto simp: example_input_def)
qed

theorem coordinated_roundtrip_witness:
  "\<exists>c w' g. PutObject_coord example_net c example_input example_world = (w', Inr (hex_encode (md5 ''hello''))) \<and>
     GetObject_coord example_net c ''abc'' ''k'' False w' = (w', Inr g) \<and> gBody g = ''hello''"
proof -
  obtain pl where pl: "Locate example_placer ''abc'' ''k'' = Inr pl" using example_placement by blast
  have "head_ready example_net ''t'' example_world i" for i
    by (simp add: head_ready_def example_net_def injectFault_def example_world_def label_env_def db_fails_def)
  moreover have "stream_data [(''hel'', None), (''lo'', None)] = ''hello''" by (simp add:)
  ultimately show ?thesis using coordinated_roundtrip [OF example_write_ready [OF pl], where verify = False] example_valid
    by (auto simp: example_input_def)
qed

text \<open>The same cluster, for the guarantees that hold on any network.\<close>

lemma example_run:
  "\<exists>pl w'. Locate example_placer ''abc'' ''k'' = Inr pl \<and>
     PutObject_coord example_net (example_coordinator (nID (Primary pl))) example_input example_world = (w', Inr (hex_encode (md5 ''hello'')))"
proof -
  obtain pl where pl: "Locate example_placer ''abc'' ''k'' = Inr pl" using example_placement by blast
  with put_reaches_all [OF example_write_ready [OF pl]] show ?thesis by auto
qed

lemma example_input_facts:
  "inBucketName example_input = ''abc''" "inKey example_input = ''k''" "version_room example_node bk" "older_rows example_world bk v"
  "next_version example_node bk = 1"
  by (simp_all add: example_input_def version_room_def older_rows_def rows_ok_def core_of_def example_world_def next_version_def)

theorem quorum_put_durable_witness:
  "\<exists>c w' pl. PutObject_coord example_net c example_input example_world = (w', Inr (hex_encode (md5 ''hello''))) \<and>
     2 \<le> card (holders pl w' (''abc'', ''k'') 1 (hex_encode (md5 ''hello'')))"
proof -
  obtain pl :: PlacementResult and w' where P: "PutObject_coord example_net (example_coordinator (nID (Primary pl))) example_input example_world =
      (w', Inr (hex_encode (md5 ''hello'')))" using example_run by blast
  show ?thesis
    using quorum_put_durable [OF P _ _ example_net_ok(3) _ example_net_ok(1,2)] example_input_facts example_addresses(3) P
    by fastforce
qed

theorem read_after_write_witness:
  "\<exists>c w'. PutObject_coord example_net c example_input example_world = (w', Inr (hex_encode (md5 ''hello''))) \<and>
     (\<forall>i net2 v w3 g. GetObject_coord net2 (example_coordinator i) ''abc'' ''k'' v w' = (w3, Inr g) \<longrightarrow> gETag g = hex_encode (md5 ''hello'')) \<and>
     (\<forall>i net2. case snd (HeadObject_coord net2 (example_coordinator i) ''abc'' ''k'' w') of
        Inl e \<Rightarrow> e = NewQuorumReadError ErrQuorumNotMet
      | Inr obj \<Rightarrow> oVersion obj = 1 \<and> oETag obj = hex_encode (md5 ''hello''))"
proof -
  obtain pl :: PlacementResult and w' where P: "PutObject_coord example_net (example_coordinator (nID (Primary pl))) example_input example_world =
      (w', Inr (hex_encode (md5 ''hello'')))" using example_run by blast
  have "(\<forall>g. r = Inr g \<longrightarrow> gETag g = hex_encode (md5 ''hello'')) \<and>
     (case r' of Inl e \<Rightarrow> e = NewQuorumReadError ErrQuorumNotMet | Inr obj \<Rightarrow> oVersion obj = 1 \<and> oETag obj = hex_encode (md5 ''hello''))"
    if "GetObject_coord net2 (example_coordinator i) ''abc'' ''k'' v w' = (w3, r)"
      "HeadObject_coord net2 (example_coordinator i) ''abc'' ''k'' w' = (w4, r')" for i net2 v w3 r w4 r'
  proof -
    from read_after_write [OF P _ _ example_net_ok(3) _ example_net_ok(1,2), where ?c2.0 = "example_coordinator i" and ?net2.0 = net2]
      example_input_facts example_addresses(3) example_valid that
    have "r = Inl (NewQuorumReadError ErrQuorumNotMet) \<and> r' = Inl (NewQuorumReadError ErrQuorumNotMet) \<or>
      (\<exists>found. sees_version net2 (example_coordinator i) found ''abc'' ''k'' 1 (hex_encode (md5 ''hello'')) w3 r r')" by (auto split: if_splits) blast+
    then show ?thesis
    proof (elim disjE exE)
      fix found
      assume s: "sees_version net2 (example_coordinator i) found ''abc'' ''k'' 1 (hex_encode (md5 ''hello'')) w3 r r'"
      from sees_version_facts(1) [OF s] sees_version_facts(2) [OF s] show ?thesis by auto
    qed simp
  qed
  note main = this
  have "gETag g = hex_encode (md5 ''hello'')" if "GetObject_coord net2 (example_coordinator i) ''abc'' ''k'' v w' = (w3, Inr g)" for i net2 v w3 g
    using main [OF that prod.collapse [symmetric]] by simp
  moreover have "case snd (HeadObject_coord net2 (example_coordinator i) ''abc'' ''k'' w') of
      Inl e \<Rightarrow> e = NewQuorumReadError ErrQuorumNotMet | Inr obj \<Rightarrow> oVersion obj = 1 \<and> oETag obj = hex_encode (md5 ''hello'')" for i net2
    using main [where v = False, OF prod.collapse [symmetric] prod.collapse [symmetric], of net2 i] by (rule conjunct2)
  ultimately show ?thesis using P by blast
qed

end
