(* ===== verification/Workers.thy ===== *)
theory Workers
  imports ClusterLive
begin

text \<open>
  \<^verbatim>\<open>internal/replication/hints_worker.go\<close> and \<^verbatim>\<open>healing.go\<close>: the background delivery of hints and the
  healing scan, one round each (the ticker loops only repeat them). Each hint of a round is
  delivered over a network of its own, chosen by the hint's ID; the clock of a failed
  attempt is that of its environment.
\<close>

section \<open>Backoff\<close>

text \<open>Durations are nanoseconds.\<close>

definition hintInitialBackoff :: int where "hintInitialBackoff = 1000000000"
definition hintMaxBackoff :: int where "hintMaxBackoff = 300 * 1000000000"
definition hintBatchSize :: int where "hintBatchSize = 50"
definition defaultHealingBatch :: int where "defaultHealingBatch = 50"

text \<open>The remaining rounds of the loop, and the delay so far.\<close>

fun backoff :: "nat \<Rightarrow> int \<Rightarrow> int" where
  "backoff 0 delay = delay"
| "backoff (Suc n) delay =
     (let delay = i64 (delay * 2) in if delay > hintMaxBackoff then hintMaxBackoff else backoff n delay)"

definition nextHintAttempt :: "time \<Rightarrow> int \<Rightarrow> time" where
  "nextHintAttempt now attempts = now + backoff (nat attempts) hintInitialBackoff"

section \<open>Delivering hints\<close>

text \<open>\<^verbatim>\<open>err.Error()\<close>.\<close>

fun error_text :: "goerr \<Rightarrow> string" where
  "error_text ErrBucketNotFound = ''bucket not found''"
| "error_text ErrBucketExists = ''bucket already exists''"
| "error_text ErrBucketNotEmpty = ''bucket not empty''"
| "error_text ErrObjectNotFound = ''object not found''"
| "error_text ErrNoSuchUpload = ''no such upload''"
| "error_text ErrInvalidArgument = ''invalid argument''"
| "error_text ErrNotFound = ''object not found''"
| "error_text (ErrPathEscape p) = ''path escapes storage root: '' @ p"
| "error_text ErrUploadTooLarge = ''upload exceeds maximum size''"
| "error_text ErrEmptyCluster = ''cluster has no nodes''"
| "error_text ErrReplicationFactorTooLarge = ''replication factor exceeds cluster size''"
| "error_text ErrNotPrimary = ''local node is not primary for object''"
| "error_text ErrQuorumNotMet = ''quorum not met''"
| "error_text (ObjErr c m n) = code_text c @ '': '' @ m"
| "error_text (Other s) = s"

definition deliver_one :: "net \<Rightarrow> Coordinator \<Rightarrow> ReplicationHint \<Rightarrow> world \<Rightarrow> world" where
  "deliver_one net c hint w =
     (let env = my_env net c ''record'' in
      case DeliverHint net c hint w of
        (w, None) \<Rightarrow>
          CleanupHintPayload net c (hSourcePath hint)
            (set_here c ((here c w)\<lparr>sDb := fst (MarkHintDelivered (eDb env) (hID hint) (sDb (here c w)))\<rparr>) w)
      | (w, Some e) \<Rightarrow>
          set_here c ((here c w)\<lparr>sDb := fst (RecordHintFailure (eDb env) (hID hint)
             (nextHintAttempt (db_now (eDb env)) (hAttempts hint)) (error_text e) (sDb (here c w)))\<rparr>) w)"

definition processDue :: "(string \<Rightarrow> net) \<Rightarrow> net \<Rightarrow> Coordinator \<Rightarrow> world \<Rightarrow> world" where
  "processDue nets net c w =
     (let env = my_env net c ''due'' in
      case ListDueHints (eDb env) (db_now (eDb env)) hintBatchSize (sDb (here c w)) of
        Inl e \<Rightarrow> w
      | Inr hints \<Rightarrow> fold (\<lambda>hint w. deliver_one (nets (hID hint)) c hint w) hints w)"

definition ProcessDueHintsOnce :: "(string \<Rightarrow> net) \<Rightarrow> net \<Rightarrow> Coordinator \<Rightarrow> world \<Rightarrow> world" where
  "ProcessDueHintsOnce nets net c w = processDue nets net c w"

section \<open>Healing and recovery\<close>

definition ScanOnce :: "net \<Rightarrow> Coordinator \<Rightarrow> world \<Rightarrow> world \<times> int" where
  "ScanOnce net c w =
     (case HealPartialObjects net c defaultHealingBatch w of
        (w, Inl e) \<Rightarrow> (w, 0)
      | (w, Inr n) \<Rightarrow> (w, n))"

text \<open>The two workers are optional.\<close>

definition OnPeerRecovered :: "(string \<Rightarrow> net) \<Rightarrow> net \<Rightarrow> Coordinator \<Rightarrow> string \<Rightarrow> bool \<Rightarrow> bool \<Rightarrow> world \<Rightarrow> world" where
  "OnPeerRecovered nets net c nodeID hints healing w =
     (if \<not> cMeta c then w
      else let w = set_here c ((here c w)\<lparr>sDb := fst (ResetHintsForTarget (eDb (my_env net c ''reset'')) nodeID (sDb (here c w)))\<rparr>) w;
               w = (if hints then ProcessDueHintsOnce nets net c w else w)
           in if healing then fst (ScanOnce net c w) else w)"

section \<open>The backoff is exponential and bounded\<close>

lemma backoff_closed:
  "hintInitialBackoff \<le> d \<Longrightarrow> d \<le> hintMaxBackoff \<Longrightarrow> backoff n d = min (d * 2 ^ n) hintMaxBackoff"
proof (induction n arbitrary: d)
  case (Suc n)
  have i: "i64 (d * 2) = d * 2"
    using Suc.prems by (simp add: in_i64_def hintMaxBackoff_def hintInitialBackoff_def)
  show ?case
  proof (cases "d * 2 > hintMaxBackoff")
    case True
    have "d * 2 * 1 \<le> d * 2 * 2 ^ n" using Suc.prems by (intro mult_left_mono) (simp_all add: hintInitialBackoff_def)
    with True i show ?thesis by (simp add: Let_def)
  next
    case False
    with Suc.IH [of "d * 2"] Suc.prems i show ?thesis by (simp add: Let_def mult.assoc hintInitialBackoff_def)
  qed
qed simp

text \<open>
  C6: the retry schedule of a hint. For every number of earlier attempts, the next attempt is at the current time plus
  two to that number of seconds, capped at five minutes: the loop computes this closed form without
  overflow, so no hint waits longer than five minutes for its next attempt or less than a second.
\<close>

theorem hint_backoff:
  "nextHintAttempt now attempts = now + min (1000000000 * 2 ^ nat attempts) (5 * 60 * 1000000000) \<and>
   now + 1000000000 \<le> nextHintAttempt now attempts \<and> nextHintAttempt now attempts \<le> now + 5 * 60 * 1000000000"
proof -
  have "(1000000000 :: int) * 1 \<le> 1000000000 * 2 ^ nat attempts" by (intro mult_left_mono) simp_all
  then show ?thesis
    using backoff_closed [of hintInitialBackoff "nat attempts"]
    by (simp add: nextHintAttempt_def hintInitialBackoff_def hintMaxBackoff_def)
qed

end
