(* ===== verification/PeerHealth.thy ===== *)
theory PeerHealth
  imports Cluster "HOL-Library.Sublist"
begin

text \<open>
  \<^verbatim>\<open>internal/cluster/peer_health.go\<close>: the in-memory reachability tracker and one probe round
  of the monitor. The tracker refines, peer by peer, a two-threshold machine
  (\<open>health\<close>); its steps are the relation \<open>tracker_step\<close>, and the counters stay below
  the thresholds in every reachable state.
\<close>

section \<open>Model\<close>

text \<open>
  The three maps are Go maps: reading an absent key gives \<^verbatim>\<open>false\<close> or 0.
\<close>

record PeerHealthTracker =
  pLocalID :: string
  reachable :: "string \<rightharpoonup> bool"
  failures :: "string \<rightharpoonup> int"
  successes :: "string \<rightharpoonup> int"

definition get_bool :: "(string \<rightharpoonup> bool) \<Rightarrow> string \<Rightarrow> bool" where
  "get_bool m k = (case m k of None \<Rightarrow> False | Some b \<Rightarrow> b)"

definition get_int :: "(string \<rightharpoonup> int) \<Rightarrow> string \<Rightarrow> int" where
  "get_int m k = (case m k of None \<Rightarrow> 0 | Some i \<Rightarrow> i)"

fun mark_peers :: "string \<Rightarrow> Node list \<Rightarrow> (string \<rightharpoonup> bool) \<Rightarrow> (string \<rightharpoonup> bool)" where
  "mark_peers lid [] m = m"
| "mark_peers lid (n # ns) m =
     mark_peers lid ns (if nID n = lid then m else m(nID n \<mapsto> True))"

definition NewPeerHealthTracker :: "StaticMembership \<Rightarrow> PeerHealthTracker" where
  "NewPeerHealthTracker m =
     \<lparr>pLocalID = LocalNodeID m, reachable = mark_peers (LocalNodeID m) (ListNodes m) Map.empty,
      failures = Map.empty, successes = Map.empty\<rparr>"

text \<open>A nil tracker (single-node mode) is \<open>None\<close>.\<close>

definition IsReachable :: "PeerHealthTracker option \<Rightarrow> string \<Rightarrow> bool" where
  "IsReachable ot nodeID =
     (case ot of None \<Rightarrow> True
      | Some t \<Rightarrow>
          if nodeID = pLocalID t then True
          else (case reachable t nodeID of None \<Rightarrow> True | Some r \<Rightarrow> r))"

definition Snapshot :: "PeerHealthTracker option \<Rightarrow> (string \<rightharpoonup> bool) option" where
  "Snapshot ot = map_option reachable ot"

definition recordSuccess :: "PeerHealthTracker \<Rightarrow> string \<Rightarrow> int \<Rightarrow> bool \<times> PeerHealthTracker" where
  "recordSuccess t nodeID recoverThreshold =
     (let t1 = t\<lparr>failures := (failures t)(nodeID \<mapsto> 0)\<rparr> in
      if \<not> get_bool (reachable t1) nodeID then
        (let n = get_int (successes t1) nodeID + 1;
             t2 = t1\<lparr>successes := (successes t1)(nodeID \<mapsto> n)\<rparr>
         in if n \<ge> recoverThreshold
            then (True, t2\<lparr>reachable := (reachable t2)(nodeID \<mapsto> True),
                           successes := (successes t2)(nodeID \<mapsto> 0)\<rparr>)
            else (False, t2))
      else (False, t1\<lparr>successes := (successes t1)(nodeID \<mapsto> 0)\<rparr>))"

definition recordFailure :: "PeerHealthTracker \<Rightarrow> string \<Rightarrow> int \<Rightarrow> bool \<times> PeerHealthTracker" where
  "recordFailure t nodeID failThreshold =
     (let t1 = t\<lparr>successes := (successes t)(nodeID \<mapsto> 0)\<rparr>;
          n = get_int (failures t1) nodeID + 1;
          t2 = t1\<lparr>failures := (failures t1)(nodeID \<mapsto> n)\<rparr>
      in if get_bool (reachable t1) nodeID then
           (if n \<ge> failThreshold
            then (True, t2\<lparr>reachable := (reachable t2)(nodeID \<mapsto> False),
                           failures := (failures t2)(nodeID \<mapsto> 0)\<rparr>)
            else (False, t2))
         else (False, t2))"

subsection \<open>The monitor\<close>

record PeerHealthMonitor =
  mMembership :: StaticMembership
  interval :: int
  timeout :: int
  failThreshold :: int
  recoverThreshold :: int

definition second :: int where
  "second = 1000000000"

definition NewPeerHealthMonitor :: "StaticMembership \<Rightarrow> int \<Rightarrow> int \<Rightarrow> int \<Rightarrow> int \<Rightarrow> PeerHealthMonitor" where
  "NewPeerHealthMonitor m cInterval cTimeout cFail cRecover =
     \<lparr>mMembership = m,
      interval = (if cInterval \<le> 0 then 5 * second else cInterval),
      timeout = (if cTimeout \<le> 0 then 2 * second else cTimeout),
      failThreshold = (if cFail \<le> 0 then 3 else cFail),
      recoverThreshold = (if cRecover \<le> 0 then 2 else cRecover)\<rparr>"

text \<open>
  What one HTTP probe of \<^verbatim>\<open>/health/live\<close> gives: the request cannot be built, the call
  fails, or a status arrives.
\<close>

datatype probe = RequestError | CallError | Status int

definition probe_ok :: "probe \<Rightarrow> bool" where
  "probe_ok pr \<longleftrightarrow> pr = Status 200"

text \<open>
  One probe round: every peer once, in membership order. The second component lists the
  peers whose \<^verbatim>\<open>onRecovered\<close> callback ran.
\<close>

fun probe_nodes :: "PeerHealthMonitor \<Rightarrow> (string \<Rightarrow> probe) \<Rightarrow> Node list \<Rightarrow> PeerHealthTracker
    \<Rightarrow> PeerHealthTracker \<times> string list" where
  "probe_nodes m net [] t = (t, [])"
| "probe_nodes m net (n # ns) t =
     (if nID n = LocalNodeID (mMembership m) then probe_nodes m net ns t
      else if probe_ok (net (nID n)) then
        (let (rec, t') = recordSuccess t (nID n) (recoverThreshold m);
             (t'', rs) = probe_nodes m net ns t'
         in (t'', if rec then nID n # rs else rs))
      else
        (let (down, t') = recordFailure t (nID n) (failThreshold m)
         in probe_nodes m net ns t'))"

definition probeOnce :: "PeerHealthMonitor \<Rightarrow> (string \<Rightarrow> probe) \<Rightarrow> PeerHealthTracker
    \<Rightarrow> PeerHealthTracker \<times> string list" where
  "probeOnce m net t = probe_nodes m net (ListNodes (mMembership m)) t"

section \<open>Abstract machine\<close>

text \<open>
  A peer is up with a run of failures, or down with a run of successes; it changes sides
  when the run reaches its threshold.
\<close>

datatype health = Up int | Down int

fun health_step :: "int \<Rightarrow> int \<Rightarrow> health \<Rightarrow> bool \<Rightarrow> health" where
  "health_step ft rt (Up f) True = Up 0"
| "health_step ft rt (Up f) False = (if f + 1 \<ge> ft then Down 0 else Up (f + 1))"
| "health_step ft rt (Down s) True = (if s + 1 \<ge> rt then Up 0 else Down (s + 1))"
| "health_step ft rt (Down s) False = Down 0"

fun health_run :: "int \<Rightarrow> int \<Rightarrow> health \<Rightarrow> bool list \<Rightarrow> health" where
  "health_run ft rt h [] = h"
| "health_run ft rt h (ok # oks) = health_run ft rt (health_step ft rt h ok) oks"

definition health_of :: "PeerHealthTracker \<Rightarrow> string \<Rightarrow> health" where
  "health_of t i = (if get_bool (reachable t) i then Up (get_int (failures t) i)
                    else Down (get_int (successes t) i))"

definition record_outcome :: "int \<Rightarrow> int \<Rightarrow> PeerHealthTracker \<Rightarrow> string \<Rightarrow> bool \<Rightarrow> bool \<times> PeerHealthTracker" where
  "record_outcome ft rt t i ok = (if ok then recordSuccess t i rt else recordFailure t i ft)"

inductive tracker_step :: "int \<Rightarrow> int \<Rightarrow> PeerHealthTracker \<Rightarrow> PeerHealthTracker \<Rightarrow> bool"
  for ft rt where
  success: "reachable t i \<noteq> None \<Longrightarrow> tracker_step ft rt t (snd (recordSuccess t i rt))"
| failure: "reachable t i \<noteq> None \<Longrightarrow> tracker_step ft rt t (snd (recordFailure t i ft))"

inductive tracker_reachable :: "StaticMembership \<Rightarrow> int \<Rightarrow> int \<Rightarrow> PeerHealthTracker \<Rightarrow> bool"
  for m ft rt where
  start: "tracker_reachable m ft rt (NewPeerHealthTracker m)"
| step: "tracker_reachable m ft rt t \<Longrightarrow> tracker_step ft rt t t' \<Longrightarrow> tracker_reachable m ft rt t'"

definition counters_ok :: "int \<Rightarrow> int \<Rightarrow> PeerHealthTracker \<Rightarrow> string \<Rightarrow> bool" where
  "counters_ok ft rt t i \<longleftrightarrow>
     (if get_bool (reachable t) i
      then 0 \<le> get_int (failures t) i \<and> get_int (failures t) i < ft \<and> get_int (successes t) i = 0
      else 0 \<le> get_int (successes t) i \<and> get_int (successes t) i < rt)"

section \<open>Facts\<close>

lemma get_upd [simp]:
  "get_bool (m(k \<mapsto> b)) i = (if i = k then b else get_bool m i)"
  "get_int (c(k \<mapsto> v)) i = (if i = k then v else get_int c i)"
  by (auto simp: get_bool_def get_int_def)

text \<open>Recording an outcome is one step of the abstract machine for that peer only.\<close>

lemma record_outcome_health:
  "health_of (snd (record_outcome ft rt t i ok)) j =
     (if j = i then health_step ft rt (health_of t i) ok else health_of t j)"
  by (auto simp: record_outcome_def recordSuccess_def recordFailure_def health_of_def Let_def)

text \<open>The reported transition is exactly a change of side.\<close>

lemma record_outcome_reports:
  "0 < ft \<Longrightarrow> 0 < rt \<Longrightarrow> fst (record_outcome ft rt t i ok) \<longleftrightarrow>
     get_bool (reachable (snd (record_outcome ft rt t i ok))) i \<noteq> get_bool (reachable t) i"
  by (auto simp: record_outcome_def recordSuccess_def recordFailure_def Let_def)

lemma dom_mark_peers: "dom (mark_peers lid ns m) = dom m \<union> (nID ` set ns - {lid})"
  by (induction ns arbitrary: m) auto

lemma mark_peers_Some: "mark_peers lid ns m i = Some b \<Longrightarrow> b \<or> m i = Some b"
  by (induction ns arbitrary: m) (fastforce split: if_splits)+

lemma tracker_step_dom: "tracker_step ft rt t t' \<Longrightarrow> dom (reachable t') = dom (reachable t)"
  by (induction rule: tracker_step.induct)
     (auto simp: recordSuccess_def recordFailure_def Let_def split: if_splits)

lemma record_counters_ok:
  assumes "0 < ft" and "0 < rt" and "counters_ok ft rt t j"
  shows "counters_ok ft rt (snd (record_outcome ft rt t i ok)) j"
  using assms
  by (auto simp: counters_ok_def record_outcome_def recordSuccess_def recordFailure_def Let_def)

lemma health_run_append: "health_run ft rt h (xs @ ys) = health_run ft rt (health_run ft rt h xs) ys"
  by (induction xs arbitrary: h) auto

lemma health_run_fails:
  "0 \<le> f \<Longrightarrow> f < ft \<Longrightarrow> health_run ft rt (Up f) (replicate k False) =
     (if f + int k < ft then Up (f + int k) else Down 0)"
proof (induction k arbitrary: f)
  case 0
  then show ?case by simp
next
  case (Suc k)
  have "health_run ft rt (Down 0) (replicate j False) = Down 0" for j
    by (induction j) auto
  with Suc show ?case by auto
qed

lemma health_run_down:
  "\<not> sublist (replicate rt True) (replicate s True @ oks) \<Longrightarrow>
     \<exists>s'. health_run ft (int rt) (Down (int s)) oks = Down s'"
proof (induction oks arbitrary: s)
  case Nil
  then show ?case by simp
next
  case (Cons ok oks)
  show ?case
  proof (cases ok)
    case True
    have eq: "replicate s True @ True # oks = replicate (Suc s) True @ oks"
      by (simp add: replicate_append_same)
    with Cons.prems True have no: "\<not> sublist (replicate rt True) (replicate (Suc s) True @ oks)"
      by simp
    have "Suc s < rt"
    proof (rule ccontr)
      assume "\<not> Suc s < rt"
      then have "replicate (Suc s) True = replicate rt True @ replicate (Suc s - rt) True"
        by (metis le_add_diff_inverse not_less replicate_add)
      with no show False by (metis append.assoc sublist_append_rightI)
    qed
    with Cons.IH [OF no] True show ?thesis by (auto simp: add.commute)
  next
    case False
    with Cons.prems have "\<not> sublist (replicate rt True) oks"
      by (metis append.assoc append_Cons append_Nil sublist_append_leftI sublist_order.order_trans)
    then have "\<not> sublist (replicate rt True) (replicate 0 True @ oks)" by simp
    from Cons.IH [OF this] False show ?thesis by simp
  qed
qed

text \<open>
  What a state says about the outcomes so far: an up peer with \<open>f\<close> failures ends in
  \<open>f\<close> failures; a down peer saw a full run of failures and no full run of
  successes since, and counts the successes at the end.
\<close>

fun explains :: "nat \<Rightarrow> nat \<Rightarrow> bool list \<Rightarrow> health \<Rightarrow> bool" where
  "explains ft rt oks (Up f) \<longleftrightarrow> 0 \<le> f \<and> f < int ft \<and> suffix (replicate (nat f) False) oks"
| "explains ft rt oks (Down s) \<longleftrightarrow> 0 \<le> s \<and> s < int rt \<and> (\<exists>a b. oks = a @ replicate ft False @ b
      \<and> \<not> sublist (replicate rt True) b \<and> suffix (replicate (nat s) True) b
      \<and> (\<forall>k. suffix (replicate k True) b \<longrightarrow> k \<le> nat s))"

lemma suffix_replicate_snoc:
  "suffix (replicate (Suc k) x) (xs @ [y]) \<longleftrightarrow> y = x \<and> suffix (replicate k x) xs"
  by (auto simp: suffix_def simp flip: replicate_append_same)

lemma explains_up_step:
  assumes "explains ft rt oks (Up f)" and "0 < ft" and "0 < rt"
  shows "explains ft rt (oks @ [ok]) (health_step (int ft) (int rt) (Up f) ok)"
proof -
  from assms have f: "0 \<le> f" "f < int ft" and sf: "suffix (replicate (nat f) False) oks" by auto
  have sf': "suffix (replicate (Suc (nat f)) False) (oks @ [False])"
    using sf by (simp add: suffix_replicate_snoc del: replicate_Suc suffix_snoc)
  consider "ok" | "\<not> ok" "f + 1 \<ge> int ft" | "\<not> ok" "f + 1 < int ft" by linarith
  then show ?thesis
  proof cases
    case 2
    then have "Suc (nat f) = ft" using f by simp
    with sf' obtain a where "oks @ [False] = a @ replicate ft False @ []"
      by (auto simp: suffix_def)
    moreover have "\<not> sublist (replicate rt True) []" using assms by (cases rt) auto
    ultimately show ?thesis
      using 2 assms by (force intro: exI [of _ a] exI [of _ "[]"])
  next
    case 3
    moreover have "nat (f + 1) = Suc (nat f)" using f by simp
    ultimately show ?thesis using f sf' by simp
  qed (use assms in simp)
qed

lemma explains_down_step:
  assumes "explains ft rt oks (Down s)" and "0 < ft" and "0 < rt"
  shows "explains ft rt (oks @ [ok]) (health_step (int ft) (int rt) (Down s) ok)"
proof -
  from assms obtain a b where s: "0 \<le> s" "s < int rt" and ab: "oks = a @ replicate ft False @ b"
    and no: "\<not> sublist (replicate rt True) b" and sb: "suffix (replicate (nat s) True) b"
    and mx: "\<forall>k. suffix (replicate k True) b \<longrightarrow> k \<le> nat s" by auto
  consider "ok" "s + 1 \<ge> int rt" | "ok" "s + 1 < int rt" | "\<not> ok" by linarith
  then show ?thesis
  proof cases
    case 2
    have mx': "k \<le> Suc (nat s)" if "suffix (replicate k True) (b @ [True])" for k
      using that mx by (cases k) (auto simp: suffix_replicate_snoc simp del: replicate_Suc suffix_snoc)
    then have "\<not> suffix (replicate rt True) (b @ [True])" using 2 s by fastforce
    then have "\<not> sublist (replicate rt True) (b @ [True])" using no by (auto simp: sublist_snoc)
    moreover have "nat (s + 1) = Suc (nat s)" using s by simp
    moreover have "suffix (replicate (Suc (nat s)) True) (b @ [True])"
      using sb by (simp add: suffix_replicate_snoc del: replicate_Suc suffix_snoc)
    ultimately have "explains ft rt (oks @ [True]) (Down (s + 1))"
      unfolding explains.simps using 2 s ab mx'
      by (intro conjI exI [of _ a] exI [of _ "b @ [True]"]) simp_all
    with 2 show ?thesis by simp
  next
    case 3
    have end0: "k \<le> nat 0" if "suffix (replicate k True) (b @ [False])" for k
      using that by (cases k) (auto simp: suffix_replicate_snoc simp del: replicate_Suc suffix_snoc)
    then have "\<not> suffix (replicate rt True) (b @ [False])" using assms(3) by fastforce
    then have "\<not> sublist (replicate rt True) (b @ [False])" using no by (simp add: sublist_snoc)
    with end0 have "explains ft rt (oks @ [False]) (Down 0)"
      unfolding explains.simps using ab assms(3)
      by (intro conjI exI [of _ a] exI [of _ "b @ [False]"]) simp_all
    with 3 show ?thesis by simp
  qed (use assms in simp)
qed

lemma health_run_explains:
  "0 < ft \<Longrightarrow> 0 < rt \<Longrightarrow> explains ft rt oks (health_run (int ft) (int rt) (Up 0) oks)"
proof (induction oks rule: rev_induct)
  case (snoc ok oks)
  then show ?case
    using explains_up_step explains_down_step
    by (cases "health_run (int ft) (int rt) (Up 0) oks") (simp_all add: health_run_append del: explains.simps)
qed simp

definition record_run :: "int \<Rightarrow> int \<Rightarrow> PeerHealthTracker \<Rightarrow> string \<Rightarrow> bool list \<Rightarrow> PeerHealthTracker" where
  "record_run ft rt t i oks = foldl (\<lambda>t ok. snd (record_outcome ft rt t i ok)) t oks"

lemma record_run_health: "health_of (record_run ft rt t i oks) i = health_run ft rt (health_of t i) oks"
  by (induction oks arbitrary: t) (simp_all add: record_run_def record_outcome_health)

lemma fresh_tracker_health:
  assumes "n \<in> set (ListNodes m)" and "nID n \<noteq> LocalNodeID m"
  shows "health_of (NewPeerHealthTracker m) (nID n) = Up 0"
proof -
  have "nID n \<in> dom (mark_peers (LocalNodeID m) (ListNodes m) Map.empty)"
    using assms by (simp add: dom_mark_peers)
  then obtain b where "mark_peers (LocalNodeID m) (ListNodes m) Map.empty (nID n) = Some b" by blast
  moreover from mark_peers_Some [OF this] have b by simp
  ultimately show ?thesis
    by (simp add: health_of_def NewPeerHealthTracker_def get_bool_def get_int_def)
qed

lemma record_outcome_frame:
  "pLocalID (snd (record_outcome ft rt t i ok)) = pLocalID t"
  "reachable t j \<noteq> None \<Longrightarrow> reachable (snd (record_outcome ft rt t i ok)) j \<noteq> None"
  by (auto simp: record_outcome_def recordSuccess_def recordFailure_def Let_def)

lemma pLocalID_record_run [simp]: "pLocalID (record_run ft rt t i oks) = pLocalID t"
  by (induction oks arbitrary: t) (simp_all add: record_run_def record_outcome_frame)

lemma IsReachable_health:
  "i \<noteq> pLocalID t \<Longrightarrow> reachable t i \<noteq> None \<Longrightarrow>
     IsReachable (Some t) i \<longleftrightarrow> (\<exists>f. health_of t i = Up f)"
  by (auto simp: IsReachable_def health_of_def get_bool_def)

lemma record_run_dom: "reachable t i \<noteq> None \<Longrightarrow> reachable (record_run ft rt t i oks) i \<noteq> None"
proof (induction oks arbitrary: t)
  case (Cons ok oks)
  from Cons.IH [OF record_outcome_frame(2) [OF Cons.prems]] show ?case
    by (simp add: record_run_def)
qed (simp add: record_run_def)

section \<open>Properties\<close>

text \<open>
  C35: after any sequence of probe outcomes for a peer, starting from the fresh tracker, the
  peer is reported unreachable exactly when the outcomes contain a run of
  \<^verbatim>\<open>failThreshold\<close> consecutive failures that is followed by no run of \<^verbatim>\<open>recoverThreshold\<close>
  consecutive successes.
\<close>

theorem peer_unreachable_iff:
  assumes "n \<in> set (ListNodes m)" and "nID n \<noteq> LocalNodeID m" and "0 < ft" and "0 < rt"
  shows "\<not> IsReachable (Some (record_run (int ft) (int rt) (NewPeerHealthTracker m) (nID n) oks)) (nID n)
    \<longleftrightarrow> (\<exists>a b. oks = a @ replicate ft False @ b \<and> \<not> sublist (replicate rt True) b)"
proof -
  let ?t = "record_run (int ft) (int rt) (NewPeerHealthTracker m) (nID n) oks"
  let ?h = "health_run (int ft) (int rt) (Up 0) oks"
  have "nID n \<in> dom (reachable (NewPeerHealthTracker m))"
    using assms by (simp add: NewPeerHealthTracker_def dom_mark_peers)
  then have "reachable ?t (nID n) \<noteq> None" by (intro record_run_dom) blast
  then have down: "\<not> IsReachable (Some ?t) (nID n) \<longleftrightarrow> (\<forall>f. ?h \<noteq> Up f)"
    using assms fresh_tracker_health [OF assms(1,2)]
    by (subst IsReachable_health) (auto simp: record_run_health NewPeerHealthTracker_def)
  have "\<exists>s. ?h = Down s" if "oks = a @ replicate ft False @ b" "\<not> sublist (replicate rt True) b" for a b
  proof -
    have "health_run (int ft) (int rt) h (replicate ft False) = Down 0" if "explains ft rt a h" for h
    proof (cases h)
      case (Up f)
      with that show ?thesis by (simp add: health_run_fails)
    next
      case (Down s)
      have "health_run (int ft) (int rt) (Down 0) (replicate j False) = Down 0" for j
        by (induction j) auto
      with Down assms(3) show ?thesis by (cases ft) auto
    qed
    with that health_run_down [of rt 0 b "int ft"] health_run_explains [OF assms(3,4), of a]
    show ?thesis by (simp add: health_run_append)
  qed
  moreover have "\<exists>a b. oks = a @ replicate ft False @ b \<and> \<not> sublist (replicate rt True) b"
    if "?h = Down s" for s
    using health_run_explains [OF assms(3,4), of oks] that by auto
  ultimately show ?thesis unfolding down by (metis health.distinct(1) health.exhaust)
qed

theorem peer_unreachable_iff_witness:
  "\<exists>m. \<not> IsReachable (Some (record_run 3 2 (NewPeerHealthTracker m) ''b'' [True, False, False, False, True])) ''b''"
proof -
  let ?b = "\<lparr>nID = ''b'', nAddress = ''h2'', nStatus = ''active''\<rparr>"
  let ?m = "\<lparr>localID = ''a'', nodes = [?b], byID = [''b'' \<mapsto> ?b]\<rparr>"
  have h: "?b \<in> set (ListNodes ?m)" "nID ?b \<noteq> LocalNodeID ?m" "0 < (3 :: nat)" "0 < (2 :: nat)"
    by (simp_all add: ListNodes_def LocalNodeID_def)
  have "[True, False, False, False, True] = [True] @ replicate 3 False @ [True]"
    and "\<not> sublist (replicate 2 True) [True]"
    by code_simp+
  with peer_unreachable_iff [OF h, of "[True, False, False, False, True]"]
  have "\<not> IsReachable (Some (record_run 3 2 (NewPeerHealthTracker ?m) (nID ?b) [True, False, False, False, True])) (nID ?b)"
    by (metis of_nat_numeral)
  then show ?thesis by auto
qed

text \<open>
  In every state the tracker can reach from its construction by recording outcomes of
  known peers, it tracks exactly the other members, and each peer's counters lie below
  their thresholds (so the comparisons with \<^verbatim>\<open>>=\<close> fire at equality, never late).
\<close>

lemma tracker_invariant:
  assumes "tracker_reachable m ft rt t" and "0 < ft" and "0 < rt"
  shows "dom (reachable t) = nID ` set (ListNodes m) - {LocalNodeID m} \<and> (\<forall>i. counters_ok ft rt t i)"
  using assms(1)
proof (induction rule: tracker_reachable.induct)
  case start
  have "counters_ok ft rt (NewPeerHealthTracker m) i" for i
    using assms(2,3) by (simp add: counters_ok_def NewPeerHealthTracker_def get_int_def)
  then show ?case by (simp add: NewPeerHealthTracker_def dom_mark_peers)
next
  case (step t t')
  from step.hyps(2) have "\<forall>i. counters_ok ft rt t' i"
  proof cases
    case (success i)
    with step.IH record_counters_ok [OF assms(2,3), of t _ i True] show ?thesis
      by (simp add: record_outcome_def)
  next
    case (failure i)
    with step.IH record_counters_ok [OF assms(2,3), of t _ i False] show ?thesis
      by (simp add: record_outcome_def)
  qed
  with step tracker_step_dom show ?case by simp
qed

lemma tracker_invariant_example:
  "\<exists>m t. tracker_reachable m 3 2 t \<and> dom (reachable t) = {''b''} \<and> get_int (failures t) ''b'' = 1"
proof -
  let ?b = "\<lparr>nID = ''b'', nAddress = ''h2'', nStatus = ''active''\<rparr>"
  let ?m = "\<lparr>localID = ''a'', nodes = [?b], byID = [''b'' \<mapsto> ?b]\<rparr>"
  let ?t = "snd (recordFailure (NewPeerHealthTracker ?m) ''b'' 3)"
  have r: "tracker_reachable ?m 3 2 ?t"
    by (rule tracker_reachable.step [OF tracker_reachable.start], rule tracker_step.failure)
       (simp add: NewPeerHealthTracker_def ListNodes_def LocalNodeID_def)
  have "get_int (failures ?t) ''b'' = 1"
    by (simp add: recordFailure_def NewPeerHealthTracker_def ListNodes_def LocalNodeID_def get_int_def
      get_bool_def Let_def)
  moreover have "dom (reachable ?t) = {''b''}"
    using tracker_invariant [OF r] by (simp add: ListNodes_def LocalNodeID_def)
  ultimately show ?thesis using r by blast
qed

end
