(* ===== verification/Handler.thy ===== *)
theory Handler
  imports S3Xml Verifier Workers ObjectMultipart PeerHealth
begin

text \<open>
  \<^verbatim>\<open>internal/api/handler.go\<close>, \<^verbatim>\<open>internal/api/cluster_forward.go\<close> and \<^verbatim>\<open>internal/cluster/proxy.go\<close>: the S3 front end
  of a node. A handler acts on the state of the whole cluster, because it may forward a request, create buckets on
  peers, or hand the object to the replication coordinator. What it reaches outside the node is gathered in the record
  \<open>outside\<close>: the network of the coordinator, the HTTP client of the proxy, where the copy of a
  peer's body to the client breaks off, if it does (\<open>xCut\<close>), and the decoders of \<^verbatim>\<open>encoding/xml\<close> and \<^verbatim>\<open>net/url\<close>. Logging and
  metrics are left out.
\<close>

section \<open>Requests\<close>

text \<open>
  A request behind the server: the decoded path and its escaped form, the raw query, the host, and the credential the
  middleware attached.
\<close>

record api_req =
  aMethod :: string
  aPath :: string
  aEscapedPath :: string
  aRawQuery :: string
  aHost :: string
  aHeader :: header
  aBody :: reader
  aCred :: "Credential option"

definition as_http :: "api_req \<Rightarrow> http_req" where
  "as_http r = \<lparr>rqMethod = aMethod r, rqPath = aPath r, rqHeader = aHeader r, rqBody = aBody r\<rparr>"

definition query :: "api_req \<Rightarrow> (string \<times> string) list" where
  "query r = parse_query (aRawQuery r)"

record outside =
  xNet :: net
  xCall :: "string \<Rightarrow> api_req \<Rightarrow> world \<Rightarrow> world \<times> http_resp res"
  xTokens :: "string \<Rightarrow> xml_tokens"
  xURLHost :: "string \<Rightarrow> string res"
  xNow :: time
  xCut :: "string \<Rightarrow> nat option"

text \<open>\<^verbatim>\<open>http.Error\<close>.\<close>

definition http_Error :: "string \<Rightarrow> int \<Rightarrow> http_resp" where
  "http_Error message status =
     \<lparr>rsStatus = status,
      rsHeader = header_set ''X-Content-Type-Options'' ''nosniff'' (header_set ''Content-Type'' ''text/plain; charset=utf-8'' []),
      rsBody = message @ newline, rsSecond = None\<rparr>"

definition method_not_allowed :: http_resp where
  "method_not_allowed = http_Error ''method not allowed'' 405"

text \<open>
  \<^verbatim>\<open>io.ReadAll(io.LimitReader(body, n))\<close>: a read error counts only when it comes with or before the last byte allowed.
\<close>

fun read_limited :: "nat \<Rightarrow> chunk list \<Rightarrow> string \<times> goerr option" where
  "read_limited n [] = ('''', None)"
| "read_limited n ((b, e) # cs) =
     (if n = 0 then ('''', None)
      else if length b > n then (take n b, None)
      else case e of
        None \<Rightarrow> (case read_limited (n - length b) cs of (rest, err) \<Rightarrow> (b @ rest, err))
      | Some EOF \<Rightarrow> (b, None)
      | Some (RErr err) \<Rightarrow> (b, Some err))"

text \<open>\<^verbatim>\<open>http.TimeFormat\<close>: Mon, 02 Jan 2006 15:04:05 GMT.\<close>

definition weekdays :: "string list" where
  "weekdays = [''Sun'', ''Mon'', ''Tue'', ''Wed'', ''Thu'', ''Fri'', ''Sat'']"

definition months_short :: "string list" where
  "months_short = [''Jan'', ''Feb'', ''Mar'', ''Apr'', ''May'', ''Jun'', ''Jul'', ''Aug'', ''Sep'', ''Oct'', ''Nov'', ''Dec'']"

definition http_time :: "time \<Rightarrow> string" where
  "http_time t =
     (let secs = t div 10 ^ 9; day = secs div 86400; sod = secs mod 86400
      in case civil day of (y, m, d) \<Rightarrow>
           weekdays ! nat ((day + 4) mod 7) @ '', '' @ pad_digits 2 d @ '' '' @ months_short ! nat (m - 1) @ '' '' @
           pad_digits 4 y @ '' '' @ pad_digits 2 (sod div 3600) @ '':'' @ pad_digits 2 (sod div 60 mod 60) @ '':'' @
           pad_digits 2 (sod mod 60) @ '' GMT'')"

section \<open>Ranges\<close>

definition parseRange :: "string \<Rightarrow> int \<Rightarrow> (int \<times> int) option" where
  "parseRange rangeHdr sz =
     (if \<not> HasPrefix rangeHdr ''bytes='' then None
      else let spec = TrimPrefix rangeHdr ''bytes='' in
      if Contains spec '','' then None
      else if HasPrefix spec ''-'' then
        (case ParseInt (TrimPrefix spec ''-'') of
           None \<Rightarrow> None
         | Some n \<Rightarrow> if n \<le> 0 then None else let n = (if n > sz then sz else n) in Some (sz - n, sz - 1))
      else case Split (CHR ''-'') spec of
        [a, b] \<Rightarrow>
          (case ParseInt a of
             None \<Rightarrow> None
           | Some start \<Rightarrow>
               if start < 0 then None
               else (case (if b = '''' then Some (sz - 1)
                           else case ParseInt b of None \<Rightarrow> None | Some e \<Rightarrow> if e < start then None else Some e) of
                  None \<Rightarrow> None
                | Some e \<Rightarrow>
                    if start \<ge> sz then None
                    else Some (start, if e \<ge> sz then sz - 1 else e)))
      | _ \<Rightarrow> None)"

definition fmtContentRange :: "int \<Rightarrow> int \<Rightarrow> int \<Rightarrow> string" where
  "fmtContentRange start e sz = ''bytes '' @ FormatInt start @ ''-'' @ FormatInt e @ ''/'' @ FormatInt sz"

text \<open>
  The headers set so far come first. The body is as long as the size says, so skipping to the start by seeking or by
  reading is the same, and copying \<open>length\<close> bytes gives the slice (none for a length of zero or less).
\<close>

definition serveWithRange :: "header \<Rightarrow> string \<Rightarrow> string \<Rightarrow> int \<Rightarrow> http_resp" where
  "serveWithRange h rangeHdr body sz =
     (if rangeHdr = '''' then \<lparr>rsStatus = 200, rsHeader = header_set ''Content-Length'' (FormatInt sz) h, rsBody = body, rsSecond = None\<rparr>
      else case parseRange rangeHdr sz of
        None \<Rightarrow>
          \<lparr>rsStatus = 416,
           rsHeader = header_set ''Content-Range'' (if sz = 0 then ''bytes */0'' else fmtContentRange 0 (sz - 1) sz) h, rsBody = '''', rsSecond = None\<rparr>
      | Some (start, e) \<Rightarrow>
          let len = e - start + 1 in
          \<lparr>rsStatus = 206,
           rsHeader = header_set ''Content-Range'' (fmtContentRange start e sz) (header_set ''Content-Length'' (FormatInt len) h),
           rsBody = take (nat len) (drop (nat start) body), rsSecond = None\<rparr>)"

section \<open>Parameters\<close>

definition parseCopySource :: "string \<Rightarrow> (string \<times> string) option" where
  "parseCopySource raw =
     (case PathUnescape (TrimSpace raw) of
        None \<Rightarrow> None
      | Some decoded \<Rightarrow>
          let decoded = TrimPrefix decoded ''/'' in
          (case Index decoded ''/'' of
             None \<Rightarrow> None
           | Some slash \<Rightarrow> if slash < 1 then None else Some (take slash decoded, drop (slash + 1) decoded)))"

text \<open>A string of 36 bytes: a byte that is no ASCII character fails every test, as its rune does.\<close>

definition isUploadID :: "string \<Rightarrow> bool" where
  "isUploadID i \<longleftrightarrow>
     length i = 36 \<and>
     list_all (\<lambda>(n, c). if n \<in> {8, 13, 18, 23} then c = CHR ''-''
                        else is_digit c \<or> CHR ''a'' \<le> c \<and> c \<le> CHR ''f'' \<or> CHR ''A'' \<le> c \<and> c \<le> CHR ''F'')
       (zip [0..<36] i)"

definition escapeKeyPath :: "string \<Rightarrow> string" where
  "escapeKeyPath key = Join (map PathEscape (Split (CHR ''/'') key)) ''/''"

text \<open>
  \<^verbatim>\<open>Decode\<close> into the structure of a completion request: the first element is the root and has to be called
  CompleteMultipartUpload; each Part child adds an entry; in a Part, the last PartNumber and ETag count (0 and the empty text
  without one), and a PartNumber that is no number is an error. Other children are skipped.
\<close>

definition decode_number :: "string \<Rightarrow> int res" where
  "decode_number s =
     (if s = '''' then Inr 0
      else case ParseInt (TrimSpace s) of None \<Rightarrow> Inl (Other ''strconv.ParseInt: invalid syntax'') | Some n \<Rightarrow> Inr n)"

function decode_part :: "xml_token list \<Rightarrow> goerr option \<Rightarrow> int \<times> string \<Rightarrow> ((int \<times> string) \<times> xml_token list) res" where
  "decode_part [] end' part = Inl (tokens_end end')"
| "decode_part (EndElement n # ts) end' part = Inr (part, ts)"
| "decode_part (CharData s # ts) end' part = decode_part ts end' part"
| "decode_part (OtherToken # ts) end' part = decode_part ts end' part"
| "decode_part (StartElement n # ts) end' part =
     (case decode_text 0 '''' ts of
        None \<Rightarrow> Inl (tokens_end end')
      | Some (txt, ts') \<Rightarrow>
          if n = ''PartNumber''
          then (case decode_number txt of Inl e \<Rightarrow> Inl e | Inr i \<Rightarrow> decode_part ts' end' (i, snd part))
          else decode_part ts' end' (if n = ''ETag'' then (fst part, txt) else part))"
  by pat_completeness auto
termination by (relation "measure (\<lambda>(ts, _, _). length ts)") (auto dest: decode_text_shorter)

lemma decode_part_shorter: "decode_part ts end' part = Inr (p, ts') \<Longrightarrow> length ts' < length ts"
  by (induction ts end' part rule: decode_part.induct)
     (fastforce split: option.splits sum.splits if_splits dest!: decode_text_shorter)+

function decode_parts :: "xml_token list \<Rightarrow> goerr option \<Rightarrow> (int \<times> string) list \<Rightarrow> (int \<times> string) list res" where
  "decode_parts [] end' ps = Inl (tokens_end end')"
| "decode_parts (EndElement n # ts) end' ps = Inr ps"
| "decode_parts (CharData s # ts) end' ps = decode_parts ts end' ps"
| "decode_parts (OtherToken # ts) end' ps = decode_parts ts end' ps"
| "decode_parts (StartElement n # ts) end' ps =
     (if n = ''Part''
      then (case decode_part ts end' (0, '''') of Inl e \<Rightarrow> Inl e | Inr (p, ts') \<Rightarrow> decode_parts ts' end' (ps @ [p]))
      else case decode_text 0 '''' ts of None \<Rightarrow> Inl (tokens_end end') | Some (_, ts') \<Rightarrow> decode_parts ts' end' ps)"
  by pat_completeness auto
termination
  by (relation "measure (\<lambda>(ts, _, _). length ts)") (auto dest: decode_text_shorter decode_part_shorter)

fun decode_root :: "xml_token list \<Rightarrow> goerr option \<Rightarrow> (int \<times> string) list res" where
  "decode_root [] end' = Inl (case end' of None \<Rightarrow> Other ''EOF'' | Some e \<Rightarrow> e)"
| "decode_root (StartElement n # ts) end' =
     (if n \<noteq> ''CompleteMultipartUpload''
      then Inl (Other (''expected element type <CompleteMultipartUpload> but have <'' @ n @ ''>''))
      else decode_parts ts end' [])"
| "decode_root (t # ts) end' = decode_root ts end'"

definition parseCompleteMultipartBody :: "outside \<Rightarrow> reader \<Rightarrow> CompletePart list res" where
  "parseCompleteMultipartBody x body =
     (let cs = source_of body; (ts, end') = xTokens x (stream_data cs)
      in case decode_root ts (case stream_end cs of EOF \<Rightarrow> end' | RErr e \<Rightarrow> Some e) of
        Inl e \<Rightarrow> Inl e
      | Inr doc \<Rightarrow>
          Inr (map (\<lambda>(n, e). \<lparr>cPartNumber = n, cETag = e\<rparr>) (filter (\<lambda>(n, e). \<not> (n < 1 \<or> e = '''')) doc)))"

lemma complete_body_example:
  "decode_root [OtherToken, StartElement ''CompleteMultipartUpload'', CharData '' '', StartElement ''Part'',
      StartElement ''ETag'', CharData ''e'', EndElement ''ETag'', StartElement ''PartNumber'', CharData '' 2 '', EndElement ''PartNumber'',
      EndElement ''Part'', StartElement ''x'', CharData ''y'', EndElement ''x'', EndElement ''CompleteMultipartUpload''] None = Inr [(2, ''e'')]"
  by code_simp

section \<open>The handler of a node\<close>

record PeerSync =
  syMembership :: StaticMembership
  syLocalID :: string
  syInternalToken :: string

definition NewPeerSync :: "StaticMembership \<Rightarrow> string \<Rightarrow> string \<Rightarrow> PeerSync" where
  "NewPeerSync members me internalToken =
     \<lparr>syMembership = members, syLocalID = me, syInternalToken = internalToken\<rparr>"

text \<open>A proxy is its token; \<open>hReadyCheck\<close> says whether a readiness probe is set.\<close>

record Handler =
  hPublicURL :: string
  hSigV4Region :: string
  hPresignDefaultExpiry :: int
  hPresignMaxExpiry :: int
  hLocalNodeID :: string
  hMembership :: "StaticMembership option"
  hPlacement :: "RendezvousPlacer option"
  hProxy :: "string option"
  hPeerSync :: "PeerSync option"
  hReplication :: "Coordinator option"
  hInternalToken :: string
  hPeerHealth :: "PeerHealthTracker option"
  hReadyCheck :: bool

definition NewHandlerWithConfig :: "Handler \<Rightarrow> Handler" where
  "NewHandlerWithConfig cfg =
     cfg\<lparr>hPublicURL := TrimRight (if hPublicURL cfg = '''' then ''http://localhost:9000'' else hPublicURL cfg) (CHR ''/''),
         hSigV4Region := (if hSigV4Region cfg = '''' then ''us-east-1'' else hSigV4Region cfg),
         hPresignDefaultExpiry := (if hPresignDefaultExpiry cfg \<le> 0 then 3600 else hPresignDefaultExpiry cfg),
         hPresignMaxExpiry := (if hPresignMaxExpiry cfg \<le> 0 then 604800 else hPresignMaxExpiry cfg),
         hReadyCheck := False\<rparr>"

definition SetPublicURL :: "string \<Rightarrow> Handler \<Rightarrow> Handler" where
  "SetPublicURL u h = (if u \<noteq> '''' then h\<lparr>hPublicURL := TrimRight u (CHR ''/'')\<rparr> else h)"

definition SetReadyCheck :: "Handler \<Rightarrow> Handler" where
  "SetReadyCheck h = h\<lparr>hReadyCheck := True\<rparr>"

text \<open>The service of the node, its state, and the environment of a call on it.\<close>

definition h_svc :: "Handler \<Rightarrow> world \<Rightarrow> Service" where
  "h_svc h w = wSvc w (hLocalNodeID h)"

definition h_st :: "Handler \<Rightarrow> world \<Rightarrow> node_state" where
  "h_st h w = wNodes w (hLocalNodeID h)"

definition h_env :: "outside \<Rightarrow> Handler \<Rightarrow> string \<Rightarrow> env" where
  "h_env x h l = nEnv (xNet x) (hLocalNodeID h) l"

definition h_set :: "Handler \<Rightarrow> node_state \<times> 'a \<Rightarrow> world \<Rightarrow> world \<times> 'a" where
  "h_set h sr w = (set_node (hLocalNodeID h) (fst sr) w, snd sr)"

definition replicated :: "Handler \<Rightarrow> Coordinator option" where
  "replicated h = (case hReplication h of None \<Rightarrow> None | Some c \<Rightarrow> if Enabled_coord c then Some c else None)"

section \<open>proxy.go\<close>

definition header_add :: "string \<Rightarrow> string \<Rightarrow> header \<Rightarrow> header" where
  "header_add k v h = AList.update (CanonicalHeaderKey k) (header_values h k @ [v]) h"

definition isHopByHopHeader :: "string \<Rightarrow> bool" where
  "isHopByHopHeader k \<longleftrightarrow>
     CanonicalHeaderKey k \<in> {''Connection'', ''Keep-Alive'', ''Proxy-Authenticate'', ''Proxy-Authorization'', ''Te'', ''Trailers'',
       ''Transfer-Encoding'', ''Upgrade''}"

definition copyHeader :: "header \<Rightarrow> header \<Rightarrow> header" where
  "copyHeader dst src =
     fold (\<lambda>(k, vv) dst. if isHopByHopHeader k then dst else fold (header_add k) vv dst) src dst"

text \<open>\<^verbatim>\<open>objectURLPath\<close>; the escaped path leads to the key on the peer as that of the replicator does.\<close>

definition objectURLPath :: "string \<Rightarrow> string" where
  "objectURLPath key = (if key = '''' then '''' else Join (map PathEscape (Split (CHR ''/'') key)) ''/'')"

text \<open>
  The target of a forwarded request is the DECODED path, parsed as a URL again: what follows a \<open>#\<close> is dropped, what
  follows a \<open>?\<close> is query, percent signs are decoded again, and a control character is an error.
\<close>

definition path_char :: "char \<Rightarrow> bool" where
  "path_char c \<longleftrightarrow> is_alnum c \<or> c \<in> set ''-_.~$&+,/:;=@''"

definition EscapedPath :: "string \<Rightarrow> string \<Rightarrow> string" where
  "EscapedPath raw path =
     (if list_all (\<lambda>c. path_char c \<or> c \<in> set (''!()*[]%'' @ [CHR 0x27])) raw then raw
      else concat (map (\<lambda>c. if path_char c then [c] else CHR ''%'' # hexUpper c) path))"

definition is_ctl :: "char \<Rightarrow> bool" where
  "is_ctl c \<longleftrightarrow> c < CHR '' '' \<or> c = CHR 0x7F"

definition parse_target :: "string \<Rightarrow> (string \<times> string \<times> string) res" where
  "parse_target target =
     (let u = fst (Cut (CHR ''#'') target); (p, q) = Cut (CHR ''?'') u in
      if list_ex is_ctl u then Inl (Other ''net/url: invalid control character in URL'')
      else case PathUnescape p of None \<Rightarrow> Inl (Other ''invalid URL escape'') | Some path \<Rightarrow> Inr (path, EscapedPath p path, q))"

definition no_cluster_token :: goerr where
  "no_cluster_token = Other ''cluster internal token not configured''"

definition forward_request :: "string \<Rightarrow> string \<Rightarrow> api_req \<Rightarrow> api_req res" where
  "forward_request token host r =
     (case parse_target (aPath r @ (if aRawQuery r \<noteq> '''' then ''?'' @ aRawQuery r else '''')) of
        Inl e \<Rightarrow> Inl e
      | Inr (path, escaped, q) \<Rightarrow>
          Inr \<lparr>aMethod = aMethod r, aPath = path, aEscapedPath = escaped, aRawQuery = q, aHost = host,
               aHeader = header_set InternalTokenHeader token (copyHeader [] (aHeader r)), aBody = aBody r, aCred = None\<rparr>)"

text \<open>
  What was written to the client, if anything, and the error. The connection to the peer may break while the body is copied, when the header
  and a part of the body have been sent.
\<close>

definition Forward :: "outside \<Rightarrow> string \<Rightarrow> api_req \<Rightarrow> string \<Rightarrow> world \<Rightarrow> world \<times> http_resp option \<times> goerr option" where
  "Forward x token r peerAddress w =
     (if token = '''' then (w, None, Some no_cluster_token)
      else case forward_request token peerAddress r of
        Inl e \<Rightarrow> (w, None, Some e)
      | Inr out \<Rightarrow>
          (case xCall x (nodeBaseURL peerAddress) out w of
             (w', Inl e) \<Rightarrow> (w', None, Some e)
           | (w', Inr resp) \<Rightarrow>
               let written = \<lparr>rsStatus = rsStatus resp, rsHeader = copyHeader [] (rsHeader resp), rsBody = rsBody resp, rsSecond = None\<rparr> in
               (case xCut x (nodeBaseURL peerAddress) of
                  None \<Rightarrow> (w', Some written, None)
                | Some n \<Rightarrow>
                    if n < length (rsBody resp)
                    then (w', Some (written\<lparr>rsBody := take n (rsBody resp)\<rparr>), Some (Other ''unexpected EOF''))
                    else (w', Some written, None))))"

definition internal_request :: "string \<Rightarrow> string \<Rightarrow> string \<Rightarrow> string \<Rightarrow> string \<Rightarrow> api_req" where
  "internal_request method path escaped host token =
     \<lparr>aMethod = method, aPath = path, aEscapedPath = escaped, aRawQuery = '''', aHost = host,
      aHeader = header_set InternalTokenHeader token [], aBody = Src [], aCred = None\<rparr>"

definition ForwardDelete :: "outside \<Rightarrow> string \<Rightarrow> string \<Rightarrow> string \<Rightarrow> string \<Rightarrow> world \<Rightarrow> world \<times> unit res" where
  "ForwardDelete x peerAddress bucket key internalToken w =
     (if internalToken = '''' then (w, Inl no_cluster_token)
      else let escaped = ''/'' @ PathEscape bucket @ ''/'' @ objectURLPath key in case PathUnescape escaped of
        None \<Rightarrow> (w, Inl (Other ''invalid URL escape''))
      | Some path \<Rightarrow>
          (case xCall x (nodeBaseURL peerAddress) (internal_request ''DELETE'' path escaped peerAddress internalToken) w of
             (w', Inl e) \<Rightarrow> (w', Inl (Other (''forward delete to '' @ peerAddress @ '': '' @ error_text e)))
           | (w', Inr resp) \<Rightarrow>
               (w', if rsStatus resp \<noteq> 204 then Inl (Other (''forward delete to '' @ peerAddress @ '': status '' @ FormatInt (rsStatus resp)))
                    else Inr ())))"

fun ensure_on :: "outside \<Rightarrow> PeerSync \<Rightarrow> string \<Rightarrow> string \<Rightarrow> Node list \<Rightarrow> world \<Rightarrow> world \<times> unit res" where
  "ensure_on x ps path escaped [] w = (w, Inr ())"
| "ensure_on x ps path escaped (node # ns) w =
     (if nID node = syLocalID ps then ensure_on x ps path escaped ns w
      else case xCall x (nodeBaseURL (nAddress node)) (internal_request ''PUT'' path escaped (nAddress node) (syInternalToken ps)) w of
        (w', Inl e) \<Rightarrow> (w', Inl (Other (''peer '' @ nID node @ '' bucket sync: '' @ error_text e)))
      | (w', Inr resp) \<Rightarrow>
          if rsStatus resp \<noteq> 200
          then (w', Inl (Other (''peer '' @ nID node @ '' bucket sync: status '' @ FormatInt (rsStatus resp))))
          else ensure_on x ps path escaped ns w')"

definition EnsureBucketOnPeers :: "outside \<Rightarrow> PeerSync \<Rightarrow> string \<Rightarrow> world \<Rightarrow> world \<times> unit res" where
  "EnsureBucketOnPeers x ps bucket w =
     (if syInternalToken ps = '''' then (w, Inl no_cluster_token)
      else case PathUnescape (''/'' @ PathEscape bucket) of
        None \<Rightarrow> (w, Inl (Other ''invalid URL escape''))
      | Some path \<Rightarrow> ensure_on x ps path (''/'' @ PathEscape bucket) (ListNodes (syMembership ps)) w)"

section \<open>cluster_forward.go\<close>

text \<open>
  An error page after the response was sent: its header is ignored, and its body is dropped if it does not fit into the
  length the response has declared.
\<close>

definition write_again :: "http_resp \<Rightarrow> http_resp \<Rightarrow> http_resp" where
  "write_again late sent =
     sent\<lparr>rsSecond := Some (rsStatus late,
       case ParseInt (header_get (rsHeader sent) ''Content-Length'') of
         Some n \<Rightarrow> if 0 \<le> n \<and> n < int (length (rsBody sent) + length (rsBody late)) then '''' else rsBody late
       | None \<Rightarrow> rsBody late)\<rparr>"

definition maybeForwardObject :: "outside \<Rightarrow> Handler \<Rightarrow> api_req \<Rightarrow> string \<Rightarrow> string \<Rightarrow> world \<Rightarrow> (world \<times> http_resp) option" where
  "maybeForwardObject x h r bucket key w =
     (if IsInternalRequest (as_http r) (hInternalToken h) then None
      else case (hProxy h, hPlacement h) of
        (Some token, Some placer) \<Rightarrow>
          if hLocalNodeID h = '''' then None
          else (case Locate placer bucket key of
             Inl e \<Rightarrow> Some (w, WriteError ''InternalError'' ''Placement calculation failed.'' 500)
           | Inr result \<Rightarrow>
               if nID (Primary result) = hLocalNodeID h then None
               else (case Forward x token r (nAddress (Primary result)) w of
                  (w', written, err) \<Rightarrow>
                    let late = WriteError ''InternalError'' ''Failed to forward request to primary node.'' 500 in
                    Some (w', case written of
                       None \<Rightarrow> late
                     | Some resp \<Rightarrow> if err = None then resp else write_again late resp)))
      | _ \<Rightarrow> None)"

section \<open>Buckets\<close>

definition listBuckets :: "outside \<Rightarrow> Handler \<Rightarrow> world \<Rightarrow> http_resp" where
  "listBuckets x h w =
     (case ListBuckets_svc (h_env x h ''local'') (h_st h w) of Inl e \<Rightarrow> writeError e | Inr buckets \<Rightarrow> WriteListBuckets buckets)"

text \<open>An error of the synchronization is only logged.\<close>

definition createBucket :: "outside \<Rightarrow> Handler \<Rightarrow> string \<Rightarrow> world \<Rightarrow> world \<times> http_resp" where
  "createBucket x h bucket w =
     (case h_set h (CreateBucket_svc (h_env x h ''local'') bucket (h_st h w)) w of
        (w, Inl e) \<Rightarrow> (w, writeError e)
      | (w, Inr _) \<Rightarrow>
          (case hPeerSync h of None \<Rightarrow> w | Some ps \<Rightarrow> fst (EnsureBucketOnPeers x ps bucket w), plain_response 200))"

definition headBucket :: "outside \<Rightarrow> Handler \<Rightarrow> string \<Rightarrow> world \<Rightarrow> http_resp" where
  "headBucket x h bucket w =
     (case HeadBucket_svc (h_env x h ''local'') bucket (h_st h w) of Inl e \<Rightarrow> writeError e | Inr _ \<Rightarrow> plain_response 200)"

definition deleteBucket :: "outside \<Rightarrow> Handler \<Rightarrow> string \<Rightarrow> world \<Rightarrow> world \<times> http_resp" where
  "deleteBucket x h bucket w =
     (case h_set h (DeleteBucket_svc (h_env x h ''local'') bucket (h_st h w)) w of
        (w, Inl e) \<Rightarrow> (w, writeError e)
      | (w, Inr _) \<Rightarrow> (w, plain_response 204))"

text \<open>The delete of one key of a batch; every key has its own environment.\<close>

definition deleteObjectKey :: "outside \<Rightarrow> Handler \<Rightarrow> api_req \<Rightarrow> string \<Rightarrow> string \<Rightarrow> world \<Rightarrow> world \<times> unit res" where
  "deleteObjectKey x h r bucket key w =
     (let here = (case replicated h of
                    Some c \<Rightarrow> DeleteObject_coord (xNet x) c bucket key w
                  | None \<Rightarrow> h_set h (DeleteObject_svc (h_svc h w) (h_env x h ''local'') bucket key (h_st h w)) w)
      in case (hProxy h, hPlacement h) of
        (Some token, Some placer) \<Rightarrow>
          if hLocalNodeID h \<noteq> '''' \<and> \<not> IsInternalRequest (as_http r) (hInternalToken h)
          then (case Locate placer bucket key of
             Inl e \<Rightarrow> (w, Inl e)
           | Inr result \<Rightarrow>
               if nID (Primary result) \<noteq> hLocalNodeID h
               then ForwardDelete x (nAddress (Primary result)) bucket key (hInternalToken h) w
               else here)
          else here
      | _ \<Rightarrow> here)"

definition delete_error :: "string \<Rightarrow> goerr \<Rightarrow> DeleteObjectError" where
  "delete_error key e =
     (case e of
        ObjErr c m _ \<Rightarrow> \<lparr>deKey = key, deCode = code_text c, deMessage = m\<rparr>
      | _ \<Rightarrow> \<lparr>deKey = key, deCode = code_text CodeInternalError, deMessage = error_text e\<rparr>)"

fun delete_each ::
  "(string \<Rightarrow> world \<Rightarrow> world \<times> unit res) \<Rightarrow> string list \<Rightarrow> world \<Rightarrow> world \<times> string list \<times> DeleteObjectError list" where
  "delete_each del [] w = (w, [], [])"
| "delete_each del (key # keys) w =
     (case del key w of
        (w, Inl e) \<Rightarrow> (case delete_each del keys w of (w, deleted, errs) \<Rightarrow> (w, deleted, delete_error key e # errs))
      | (w, Inr _) \<Rightarrow> (case delete_each del keys w of (w, deleted, errs) \<Rightarrow> (w, key # deleted, errs)))"

definition malformed_xml :: "string \<Rightarrow> http_resp" where
  "malformed_xml message = WriteError (code_text CodeMalformedXML) message 400"

definition deleteObjects :: "outside \<Rightarrow> Handler \<Rightarrow> api_req \<Rightarrow> string \<Rightarrow> world \<Rightarrow> world \<times> http_resp" where
  "deleteObjects x h r bucket w =
     (case HeadBucket_svc (h_env x h ''local'') bucket (h_st h w) of
        Inl e \<Rightarrow> (w, writeError e)
      | Inr _ \<Rightarrow>
          (case read_limited (2 ^ 21) (source_of (aBody r)) of
             (_, Some e) \<Rightarrow> (w, WriteError ''InternalError'' ''Failed to read request body.'' 500)
           | (body, None) \<Rightarrow>
               (case ParseDeleteObjectKeys (xTokens x) body of
                  Inl e \<Rightarrow> (w, malformed_xml ''The XML you provided was not well-formed.'')
                | Inr keys \<Rightarrow>
                    if keys = [] then (w, malformed_xml ''No keys specified.'')
                    else if length keys > MaxBatchDeleteKeys
                    then (w, malformed_xml ''The batch delete request may contain a maximum of 1000 keys.'')
                    else (case delete_each (deleteObjectKey x h r bucket) keys w of
                            (w, deleted, errs) \<Rightarrow> (w, WriteDeleteObjectsResult deleted errs)))))"

definition postBucket :: "outside \<Rightarrow> Handler \<Rightarrow> api_req \<Rightarrow> string \<Rightarrow> world \<Rightarrow> world \<times> http_resp" where
  "postBucket x h r bucket w =
     (if query_has (query r) ''delete'' then deleteObjects x h r bucket w else (w, method_not_allowed))"

definition unsupported :: "string list" where
  "unsupported = [''versioning'', ''lifecycle'', ''policy'', ''cors'', ''encryption'', ''tagging'', ''acl'']"

definition list_options :: "(string \<times> string) list \<Rightarrow> ListOptions" where
  "list_options q =
     \<lparr>lPrefix = query_get q ''prefix'', lDelimiter = query_get q ''delimiter'',
      lMaxKeys = (case ParseInt (query_get q ''max-keys'') of Some n \<Rightarrow> if n > 0 then n else 0 | None \<Rightarrow> 0),
      lContinuationToken = query_get q ''continuation-token'', lStartAfter = query_get q ''start-after''\<rparr>"

definition listObjects :: "outside \<Rightarrow> Handler \<Rightarrow> api_req \<Rightarrow> string \<Rightarrow> world \<Rightarrow> http_resp" where
  "listObjects x h r bucket w =
     (let q = query r; env = h_env x h ''local'' in
      if query_has q ''location'' then WriteBucketLocation
      else if query_has q ''uploads'' then
        (case ListMultipartUploads_svc env bucket (h_st h w) of
           Inl e \<Rightarrow> writeError e | Inr uploads \<Rightarrow> WriteListMultipartUploads bucket uploads)
      else if list_ex (query_has q) unsupported
      then WriteError ''NotImplemented'' ''This operation is not yet supported.'' 501
      else let opts = list_options q in
        (case ListObjects_svc env bucket opts (h_st h w) of
           Inl e \<Rightarrow> if e = slice_panic then aborted else writeError e
         | Inr result \<Rightarrow>
             WriteListObjects \<lparr>lpBucket = bucket, lpPrefix = lPrefix opts, lpDelimiter = lDelimiter opts,
               lpListType2 = (query_get q ''list-type'' = ''2''), lpContinuationToken = lContinuationToken opts,
               lpStartAfter = lStartAfter opts, lpResult = result\<rparr>))"

definition dispatchBucket :: "outside \<Rightarrow> Handler \<Rightarrow> api_req \<Rightarrow> string \<Rightarrow> world \<Rightarrow> world \<times> http_resp" where
  "dispatchBucket x h r bucket w =
     (if aMethod r = ''GET'' then (w, listObjects x h r bucket w)
      else if aMethod r = ''HEAD'' then (w, headBucket x h bucket w)
      else if aMethod r = ''PUT'' then createBucket x h bucket w
      else if aMethod r = ''DELETE'' then deleteBucket x h bucket w
      else if aMethod r = ''POST'' then postBucket x h r bucket w
      else (w, method_not_allowed))"

section \<open>Objects\<close>

definition no_upload_response :: http_resp where
  "no_upload_response = WriteError ''NoSuchUpload'' ''The specified upload does not exist.'' 404"

definition empty_key_response :: http_resp where
  "empty_key_response = WriteError ''InvalidArgument'' ''Object key must not be empty'' 400"

definition etag_response :: "string \<Rightarrow> http_resp" where
  "etag_response etag = \<lparr>rsStatus = 200, rsHeader = header_set ''ETag'' (dquote etag) [], rsBody = '''', rsSecond = None\<rparr>"

definition put_upload_part :: "outside \<Rightarrow> Handler \<Rightarrow> api_req \<Rightarrow> string \<Rightarrow> string \<Rightarrow> world \<Rightarrow> world \<times> http_resp" where
  "put_upload_part x h r bucket key w =
     (case ParseInt (query_get (query r) ''partNumber'') of
        None \<Rightarrow> (w, WriteError ''InvalidArgument'' ''Invalid part number.'' 400)
      | Some partNumber \<Rightarrow>
          if partNumber < 1 then (w, WriteError ''InvalidArgument'' ''Invalid part number.'' 400)
          else let uploadID = query_get (query r) ''uploadId'' in
            if \<not> isUploadID uploadID then (w, no_upload_response)
            else (case h_set h (UploadPart (h_svc h w) (h_env x h ''local'') bucket key uploadID partNumber (aBody r) (h_st h w)) w of
                    (w, Inl e) \<Rightarrow> (w, writeError e)
                  | (w, Inr etag) \<Rightarrow> (w, etag_response etag)))"

definition put_copy :: "outside \<Rightarrow> Handler \<Rightarrow> string \<Rightarrow> string \<Rightarrow> string \<Rightarrow> world \<Rightarrow> world \<times> http_resp" where
  "put_copy x h copySource bucket key w =
     (case parseCopySource copySource of
        None \<Rightarrow> (w, WriteError ''InvalidArgument'' ''Invalid x-amz-copy-source format.'' 400)
      | Some (srcBucket, srcKey) \<Rightarrow>
          (case h_set h (CopyObject (h_svc h w) (h_env x h ''local'') srcBucket srcKey bucket key (h_st h w)) w of
             (w, Inl e) \<Rightarrow> (w, writeError e)
           | (w, Inr etag) \<Rightarrow> (w, WriteCopyObjectResult etag (xNow x))))"

definition putObject :: "outside \<Rightarrow> Handler \<Rightarrow> api_req \<Rightarrow> string \<Rightarrow> string \<Rightarrow> world \<Rightarrow> world \<times> http_resp" where
  "putObject x h r bucket key w =
     (if key = '''' then (w, empty_key_response)
      else if query_has (query r) ''partNumber'' \<and> query_has (query r) ''uploadId'' then put_upload_part x h r bucket key w
      else if IsReplicatePut (as_http r) (hInternalToken h)
      then h_set h (putReplica (h_svc h w) (h_env x h ''put'') (as_http r) bucket key (h_st h w)) w
      else case maybeForwardObject x h r bucket key w of
        Some done \<Rightarrow> done
      | None \<Rightarrow>
          let copySource = header_get (aHeader r) ''x-amz-copy-source'' in
          if copySource \<noteq> '''' then put_copy x h copySource bucket key w
          else let inp = \<lparr>inBucketName = bucket, inKey = key, inContentType = header_get (aHeader r) ''Content-Type'',
                          inCustomMetadata = extractCustomMetadata (aHeader r), inBody = aBody r\<rparr>
            in case (case replicated h of
                       Some c \<Rightarrow> PutObject_coord (xNet x) c inp w
                     | None \<Rightarrow> h_set h (PutObject_svc (h_svc h w) (h_env x h ''local'') inp (h_st h w)) w) of
                 (w, Inl e) \<Rightarrow> (w, writeError e)
               | (w, Inr etag) \<Rightarrow> (w, etag_response etag))"

definition getObject :: "outside \<Rightarrow> Handler \<Rightarrow> api_req \<Rightarrow> string \<Rightarrow> string \<Rightarrow> world \<Rightarrow> world \<times> http_resp" where
  "getObject x h r bucket key w =
     (let uploadID = query_get (query r) ''uploadId'' in
      if uploadID \<noteq> '''' then
        (w, if \<not> isUploadID uploadID then no_upload_response
            else case ListParts (h_env x h ''local'') bucket key uploadID (h_st h w) of
              Inl e \<Rightarrow> writeError e | Inr parts \<Rightarrow> WriteListParts bucket key uploadID parts)
      else case maybeForwardObject x h r bucket key w of
        Some done \<Rightarrow> done
      | None \<Rightarrow>
          if IsReplicateGet (as_http r) (hInternalToken h) then (w, getReplica (h_svc h w) (h_env x h ''get'') bucket key (h_st h w))
          else let verify = header_get (aHeader r) ''x-objex-verify-integrity'' \<noteq> '''' in
            case (case replicated h of
                    Some c \<Rightarrow> GetObject_coord (xNet x) c bucket key verify w
                  | None \<Rightarrow> (w, GetObject_svc (h_svc h w) (h_env x h ''local'') bucket key verify (h_st h w))) of
              (w, Inl e) \<Rightarrow> (w, writeError e)
            | (w, Inr result) \<Rightarrow>
                let hd = setCustomMetadata (gCustomMetadata result) [];
                    hd = header_set ''ETag'' (dquote (gETag result)) hd;
                    hd = header_set ''Last-Modified'' (http_time (gLastModified result)) hd;
                    contentType = (if query_get (query r) ''download'' = ''true'' then octet_stream else gContentType result);
                    hd = header_set ''Content-Type'' contentType hd
                in (w, serveWithRange hd (header_get (aHeader r) ''Range'') (gBody result) (gSize result)))"

definition headObject :: "outside \<Rightarrow> Handler \<Rightarrow> api_req \<Rightarrow> string \<Rightarrow> string \<Rightarrow> world \<Rightarrow> world \<times> http_resp" where
  "headObject x h r bucket key w =
     (case maybeForwardObject x h r bucket key w of
        Some done \<Rightarrow> done
      | None \<Rightarrow>
          if IsReplicateHead (as_http r) (hInternalToken h) then (w, headReplica (h_env x h ''head'') bucket key (h_st h w))
          else case (case replicated h of
                       Some c \<Rightarrow> HeadObject_coord (xNet x) c bucket key w
                     | None \<Rightarrow> (w, HeadObject_svc (h_env x h ''local'') bucket key (h_st h w))) of
              (w, Inl e) \<Rightarrow> (w, writeError e)
            | (w, Inr obj) \<Rightarrow>
                let hd = header_set ''ETag'' (dquote (oETag obj)) [];
                    hd = header_set ''Content-Length'' (FormatInt (oSize obj)) hd;
                    hd = header_set ''Content-Type'' (oContentType obj) hd;
                    hd = header_set ''Last-Modified'' (http_time (oUpdatedAt obj)) hd
                in (w, \<lparr>rsStatus = 200, rsHeader = setCustomMetadata (oCustomMetadata obj) hd, rsBody = '''', rsSecond = None\<rparr>))"

definition deleteObject :: "outside \<Rightarrow> Handler \<Rightarrow> api_req \<Rightarrow> string \<Rightarrow> string \<Rightarrow> world \<Rightarrow> world \<times> http_resp" where
  "deleteObject x h r bucket key w =
     (let uploadID = query_get (query r) ''uploadId''; reply = (\<lambda>(w, res). (w, case res of Inl e \<Rightarrow> writeError e | Inr _ \<Rightarrow> plain_response 204)) in
      if uploadID \<noteq> '''' then
        (if \<not> isUploadID uploadID then (w, no_upload_response)
         else reply (h_set h (AbortMultipartUpload (h_svc h w) (h_env x h ''local'') bucket key uploadID (h_st h w)) w))
      else if IsReplicateDelete (as_http r) (hInternalToken h)
      then h_set h (deleteReplica (h_svc h w) (h_env x h ''delete'') (as_http r) bucket key (h_st h w)) w
      else case maybeForwardObject x h r bucket key w of
        Some done \<Rightarrow> done
      | None \<Rightarrow>
          reply (case replicated h of
                   Some c \<Rightarrow> DeleteObject_coord (xNet x) c bucket key w
                 | None \<Rightarrow> h_set h (DeleteObject_svc (h_svc h w) (h_env x h ''local'') bucket key (h_st h w)) w))"

definition postObject :: "outside \<Rightarrow> Handler \<Rightarrow> api_req \<Rightarrow> string \<Rightarrow> string \<Rightarrow> world \<Rightarrow> world \<times> http_resp" where
  "postObject x h r bucket key w =
     (if key = '''' then (w, empty_key_response)
      else if query_has (query r) ''uploads'' then
        (case h_set h (InitiateMultipartUpload (h_env x h ''local'') bucket key (header_get (aHeader r) ''Content-Type'') (h_st h w)) w of
           (w, Inl e) \<Rightarrow> (w, writeError e)
         | (w, Inr uploadID) \<Rightarrow> (w, WriteInitiateMultipartUpload bucket key uploadID))
      else let uploadID = query_get (query r) ''uploadId'' in
        if uploadID = '''' then (w, WriteError ''InvalidArgument'' ''Missing uploads or uploadId query parameter.'' 400)
        else if \<not> isUploadID uploadID then (w, no_upload_response)
        else case parseCompleteMultipartBody x (aBody r) of
          Inl e \<Rightarrow> (w, malformed_xml ''The XML you provided was not well-formed.'')
        | Inr parts \<Rightarrow>
            if parts = [] then (w, malformed_xml ''You must specify at least one part.'')
            else (case h_set h (CompleteMultipartUpload (h_svc h w) (h_env x h ''local'') bucket key uploadID parts (h_st h w)) w of
                    (w, Inl e) \<Rightarrow> (w, writeError e)
                  | (w, Inr etag) \<Rightarrow>
                      (w, WriteCompleteMultipartUpload bucket key
                            (hPublicURL h @ ''/'' @ PathEscape bucket @ ''/'' @ escapeKeyPath key) etag)))"

definition dispatchObject :: "outside \<Rightarrow> Handler \<Rightarrow> api_req \<Rightarrow> string \<Rightarrow> string \<Rightarrow> world \<Rightarrow> world \<times> http_resp" where
  "dispatchObject x h r bucket key w =
     (if aMethod r = ''PUT'' then putObject x h r bucket key w
      else if aMethod r = ''POST'' then postObject x h r bucket key w
      else if aMethod r = ''GET'' then getObject x h r bucket key w
      else if aMethod r = ''HEAD'' then headObject x h r bucket key w
      else if aMethod r = ''DELETE'' then deleteObject x h r bucket key w
      else (w, method_not_allowed))"

section \<open>Presigned URLs, cluster and health\<close>

definition presign_expiry :: "Handler \<Rightarrow> (string \<times> string) list \<Rightarrow> int" where
  "presign_expiry h q =
     (let expires = (case ParseInt (query_get q ''expires'') of
                       Some n \<Rightarrow> if n > 0 then n else hPresignDefaultExpiry h
                     | None \<Rightarrow> hPresignDefaultExpiry h);
          expires = (if expires > hPresignMaxExpiry h then hPresignMaxExpiry h else expires)
      in if expires < 1 then 1 else expires)"

text \<open>\<^verbatim>\<open>%q\<close> of a URL: quotation marks and backslashes are escaped; a URL holds no other byte that \<^verbatim>\<open>%q\<close> rewrites.\<close>

definition go_quote :: "string \<Rightarrow> string" where
  "go_quote s = dquote (concat (map (\<lambda>c. if c = CHR 0x22 \<or> c = CHR 0x5C then [CHR 0x5C, c] else [c]) s))"

definition json_response :: "string \<Rightarrow> http_resp" where
  "json_response body = \<lparr>rsStatus = 200, rsHeader = header_set ''Content-Type'' ''application/json'' [], rsBody = body, rsSecond = None\<rparr>"

definition presignObject :: "outside \<Rightarrow> Handler \<Rightarrow> api_req \<Rightarrow> http_resp" where
  "presignObject x h r =
     (case aCred r of
        None \<Rightarrow> WriteError ''AccessDenied'' ''No credentials provided.'' 403
      | Some cred \<Rightarrow>
          let trimmed = TrimPrefix (aPath r) ''/api/presign/'' in
          (case Index trimmed ''/'' of
             None \<Rightarrow> WriteError ''InvalidArgument'' ''Object key required.'' 400
           | Some slash \<Rightarrow>
               (case PathUnescape (take slash trimmed) of
                  None \<Rightarrow> WriteError ''InvalidArgument'' ''Invalid bucket path.'' 400
                | Some bucket \<Rightarrow>
                    (case PathUnescape (drop (slash + 1) trimmed) of
                       None \<Rightarrow> WriteError ''InvalidArgument'' ''Invalid object key path.'' 400
                     | Some key \<Rightarrow>
                         (case GeneratePresignedURL (xURLHost x)
                            \<lparr>poBaseURL = hPublicURL h, poBucket = bucket, poKey = key, poAccessKeyID = AccessKeyID cred,
                             poSecretAccessKey = SecretAccessKey cred, poExpiresSeconds = presign_expiry h (query r),
                             poRegion = hSigV4Region h,
                             poMethod = (if ToLower (query_get (query r) ''method'') = ToLower ''PUT'' then ''PUT'' else ''GET'')\<rparr> (xNow x) of
                            Inl e \<Rightarrow> WriteError ''InternalError'' ''An internal error occurred.'' 500
                          | Inr url \<Rightarrow> json_response (''{'' @ dquote ''url'' @ '':'' @ go_quote url @ ''}''))))))"

text \<open>\<^verbatim>\<open>encoding/json\<close> with HTML escaping: a string rune by rune.\<close>

definition json_u :: "nat \<Rightarrow> string" where
  "json_u n = [CHR 0x5C] @ ''u00'' @ hex_encode [char_of n]"

definition json_char :: "char \<Rightarrow> string" where
  "json_char c =
     (if c = CHR 0x22 \<or> c = CHR 0x5C then [CHR 0x5C, c]
      else if c = CHR 0x08 then [CHR 0x5C] @ ''b'' else if c = CHR 0x0C then [CHR 0x5C] @ ''f''
      else if c = CHR 0x0A then [CHR 0x5C] @ ''n'' else if c = CHR 0x0D then [CHR 0x5C] @ ''r''
      else if c = CHR 0x09 then [CHR 0x5C] @ ''t''
      else if c < CHR '' '' \<or> c = CHR ''<'' \<or> c = CHR ''>'' \<or> c = CHR ''&'' then json_u (of_char c) else [c])"

definition json_rune :: "string \<Rightarrow> string" where
  "json_rune r =
     (case r of [c] \<Rightarrow> json_char c
      | _ \<Rightarrow> if r = [CHR 0xE2, CHR 0x80, CHR 0xA8] then [CHR 0x5C] @ ''u2028''
             else if r = [CHR 0xE2, CHR 0x80, CHR 0xA9] then [CHR 0x5C] @ ''u2029'' else r)"

text \<open>The runes of a string for JSON: a byte that is no UTF-8 becomes the six characters of \<^verbatim>\<open>\ufffd\<close>.\<close>

function json_text :: "string \<Rightarrow> string" where
  "json_text s =
     (case s of [] \<Rightarrow> []
      | c # cs \<Rightarrow> if rune_width s = 0 then ([CHR 0x5C] @ ''ufffd'') @ json_text cs
                  else json_rune (take (rune_width s) s) @ json_text (drop (rune_width s) s))"
  by pat_completeness auto
termination by (relation "measure length") auto

declare json_text.simps [simp del]

definition json_string :: "string \<Rightarrow> string" where
  "json_string s = dquote (json_text s)"

definition json_field :: "string \<Rightarrow> string \<Rightarrow> string" where
  "json_field name v = dquote name @ '':'' @ v"

definition json_object :: "string list \<Rightarrow> string" where
  "json_object ms = ''{'' @ Join ms '','' @ ''}''"

definition json_list :: "string list \<Rightarrow> string" where
  "json_list xs = ''['' @ Join xs '','' @ '']''"

definition cluster_node_json :: "Handler \<Rightarrow> Node \<Rightarrow> string" where
  "cluster_node_json h n = json_object
     ([json_field ''id'' (json_string (nID n)), json_field ''address'' (json_string (nAddress n)),
       json_field ''status'' (json_string (nStatus n))] @
      (if hPeerHealth h \<noteq> None \<and> nID n \<noteq> hLocalNodeID h
       then [json_field ''reachable'' (if IsReachable (hPeerHealth h) (nID n) then ''true'' else ''false'')] else []))"

definition clusterInfo :: "Handler \<Rightarrow> http_resp" where
  "clusterInfo h =
     (case hMembership h of
        None \<Rightarrow> http_Error ''cluster not configured'' 404
      | Some m \<Rightarrow>
          json_response (json_object [json_field ''node_id'' (json_string (hLocalNodeID h)),
            json_field ''nodes'' (json_list (map (cluster_node_json h) (ListNodes m)))] @ newline))"

definition placementDebug :: "Handler \<Rightarrow> api_req \<Rightarrow> http_resp" where
  "placementDebug h r =
     (case hPlacement h of
        None \<Rightarrow> http_Error ''placement not configured'' 404
      | Some placer \<Rightarrow>
          let bucket = query_get (query r) ''bucket''; key = query_get (query r) ''key'' in
          if bucket = '''' \<or> key = '''' then http_Error ''bucket and key query parameters required'' 400
          else (case Locate placer bucket key of
             Inl e \<Rightarrow> http_Error (error_text e) 500
           | Inr result \<Rightarrow>
               json_response (json_object
                 ([json_field ''bucket'' (json_string bucket), json_field ''key'' (json_string key),
                   json_field ''primary'' (json_string (nID (Primary result)))] @
                  (if Replicas result = [] then []
                   else [json_field ''replicas'' (json_list (map (\<lambda>n. json_string (nID n)) (Replicas result)))])) @ newline)))"

definition healthReady :: "outside \<Rightarrow> Handler \<Rightarrow> http_resp" where
  "healthReady x h = plain_response (if hReadyCheck h \<and> db_fails (eDb (h_env x h ''local'')) ''ready'' then 503 else 200)"

section \<open>The front door\<close>

definition ServeHTTP :: "outside \<Rightarrow> Handler \<Rightarrow> api_req \<Rightarrow> world \<Rightarrow> world \<times> http_resp" where
  "ServeHTTP x h r w =
     (case ServeHTTP_route (aMethod r) (aPath r) of
        RouteLive \<Rightarrow> (w, plain_response 200)
      | RouteReady \<Rightarrow> (w, healthReady x h)
      | RouteCluster \<Rightarrow> (w, clusterInfo h)
      | RoutePlacement \<Rightarrow> (w, placementDebug h r)
      | RoutePresign \<Rightarrow> (w, presignObject x h r)
      | RouteListBuckets \<Rightarrow> (w, listBuckets x h w)
      | RouteBucket bucket \<Rightarrow> dispatchBucket x h r bucket w
      | RouteObject bucket key \<Rightarrow> dispatchObject x h r bucket key w
      | RouteNotAllowed \<Rightarrow> (w, method_not_allowed)
      | RouteBadBucket \<Rightarrow> (w, WriteError ''InvalidArgument'' ''Invalid bucket path.'' 400)
      | RouteBadKey \<Rightarrow> (w, WriteError ''InvalidArgument'' ''Invalid object key path.'' 400))"

text \<open>
  What \<^verbatim>\<open>main\<close> puts in front: the authentication middleware, then \<^verbatim>\<open>ServeMux\<close> with the metrics page. Reading the body for
  its hash leaves it in memory. A redirect's location is not modelled.
\<close>

definition read_body :: "chunk list \<Rightarrow> string res" where
  "read_body cs = (case stream_end cs of EOF \<Rightarrow> Inr (stream_data cs) | RErr e \<Rightarrow> Inl e)"

definition sig_of :: "api_req \<Rightarrow> sig_req" where
  "sig_of r = \<lparr>qMethod = aMethod r, qPath = aPath r, qEscapedPath = aEscapedPath r, qRawQuery = aRawQuery r, qHost = aHost r,
     qHeader = aHeader r, qBody = read_body (source_of (aBody r))\<rparr>"

definition hashed_body :: "api_req \<Rightarrow> bool" where
  "hashed_body r \<longleftrightarrow>
     (let declared = TrimSpace (header_get (aHeader r) ''x-amz-content-sha256'') in
      \<not> (declared = '''' \<or> ToLower declared = ToLower ''UNSIGNED-PAYLOAD'' \<or> HasPrefix (ToUpper declared) ''STREAMING-''))"

definition with_credential :: "api_req \<Rightarrow> Credential option \<Rightarrow> api_req" where
  "with_credential r cred =
     r\<lparr>aCred := cred, aBody := (if cred \<noteq> None \<and> hashed_body r then Src [(stream_data (source_of (aBody r)), None)] else aBody r)\<rparr>"

definition credential_store :: "outside \<Rightarrow> Handler \<Rightarrow> world \<Rightarrow> string \<Rightarrow> Credential option res" where
  "credential_store x h w accessKeyID = GetCredential (eDb (h_env x h ''auth'')) accessKeyID (sDb (h_st h w))"

text \<open>\<^verbatim>\<open>ServeMux\<close> compares the segments of a pattern with the unescaped segments of the path.\<close>

definition mux_metrics :: "string \<Rightarrow> bool" where
  "mux_metrics p \<longleftrightarrow> HasPrefix p ''/'' \<and> CHR ''/'' \<notin> set (tl p) \<and>
     (case PathUnescape (tl p) of None \<Rightarrow> tl p | Some segment \<Rightarrow> segment) = ''metrics''"

definition front :: "outside \<Rightarrow> Handler \<Rightarrow> api_req \<Rightarrow> world \<Rightarrow> world \<times> http_resp" where
  "front x h r w =
     (case Middleware_Handler (credential_store x h w) (hInternalToken h) (xNow x) (sig_of r) of
        Inl resp \<Rightarrow> (w, resp)
      | Inr cred \<Rightarrow>
          if aMethod r \<noteq> ''CONNECT'' \<and> \<not> mux_clean (aEscapedPath r) then (w, plain_response 301)
          else if mux_metrics (aEscapedPath r) then (w, plain_response 200)
          else ServeHTTP x h (with_credential r cred) w)"

text \<open>
  A call of one node to another over the network, to depth \<open>n\<close>: the peer's own calls go one level less deep.
\<close>

fun call_node :: "nat \<Rightarrow> (string \<Rightarrow> Handler) \<Rightarrow> outside \<Rightarrow> string \<Rightarrow> api_req \<Rightarrow> world \<Rightarrow> world \<times> http_resp res" where
  "call_node 0 hs x base r w = (w, Inl (Other ''out of fuel''))"
| "call_node (Suc n) hs x base r w =
     (case wHost w base of
        None \<Rightarrow> (w, Inl (Other ''dial''))
      | Some i \<Rightarrow>
          if nFate (xNet x) ''forward'' i = Unreachable then (w, Inl (Other ''dial''))
          else if \<not> mux_clean (aEscapedPath r) then nFollow (xNet x) i (as_http r) w
          else (case front (x\<lparr>xCall := call_node n hs x\<rparr>) (hs i) r w of
                  (w', resp) \<Rightarrow>
                    (w', if nFate (xNet x) ''forward'' i = ReplyLost \<or> rsStatus resp = 0 then Inl (Other ''EOF'') else Inr resp)))"

lemma http_time_example: "http_time 784111777000000000 = ''Sun, 06 Nov 1994 08:49:37 GMT''"
  by code_simp

end
