(* ===== verification/Jobs.thy ===== *)
theory Jobs
  imports MultipartProps
begin

text \<open>
  \<^verbatim>\<open>internal/jobs\<close>: the daily maintenance of a node (\<^verbatim>\<open>cleanup.go\<close>, \<^verbatim>\<open>integrity.go\<close>): removing blob files no row
  refers to, multipart uploads left behind, and checking the stored digests. The theorems say that maintenance never
  takes away the bytes of a stored object, and what the integrity check reports.
\<close>

section \<open>cleanup.go\<close>

definition abandonedMultipartAge :: int where
  "abandonedMultipartAge = 7 * 24 * 3600 * 10 ^ 9"

text \<open>
  \<^verbatim>\<open>RunAbandonedMultipart\<close>. The directories are listed by name, and each is looked at once more (label \<open>stat:\<close>);
  a removal that fails is logged.
\<close>

definition remove_abandoned :: "fs_env \<Rightarrow> int \<Rightarrow> string \<Rightarrow> string \<times> int \<Rightarrow> fs \<Rightarrow> fs" where
  "remove_abandoned env cutoff multipartRoot e fs =
     (if fails env (''stat:'' @ fst e) \<or> snd e > cutoff then fs
      else let dir = JoinPath [multipartRoot, base_name (fst e)] in
           if fails env (''rm:'' @ dir) then fs else os_removeall (fs_now env) dir fs)"

definition RunAbandonedMultipart :: "Service \<Rightarrow> env \<Rightarrow> node_state \<Rightarrow> node_state \<times> int res" where
  "RunAbandonedMultipart s env st =
     (let cutoff = db_now (eDb env) - abandonedMultipartAge in
      case DeleteAbandonedMultipartUploads (eDb env) cutoff (sDb st) of
        (db, Inl e) \<Rightarrow> (st\<lparr>sDb := db\<rparr>, Inl e)
      | (db, Inr deleted) \<Rightarrow>
          let st = st\<lparr>sDb := db\<rparr>; multipartRoot = JoinPath [basePath (svBlob s), ''_multipart''] in
          if fails (eFs env) ''readdir'' then (st, Inl (os_err ''readdir''))
          else (case read_dirs multipartRoot (sFs st) of
             None \<Rightarrow> (st, Inr deleted)
           | Some entries \<Rightarrow>
               (st\<lparr>sFs := fold (remove_abandoned (eFs env) cutoff multipartRoot) entries (sFs st)\<rparr>, Inr deleted)))"

text \<open>
  The walk of \<^verbatim>\<open>RunOrphanBlobs\<close> does not enter a directory called \<^verbatim>\<open>_multipart\<close> or \<^verbatim>\<open>_hints\<close>, wherever it is. A path that
  cannot be looked at (label \<open>walk:\<close>) is passed over.
\<close>

definition skipped_names :: "string list" where
  "skipped_names = [''_multipart'', ''_hints'']"

definition walk_skips :: "string \<Rightarrow> string \<Rightarrow> bool" where
  "walk_skips base p \<longleftrightarrow>
     list_ex (\<lambda>e. e \<in> set skipped_names) (base_name base # butlast (Split (CHR ''/'') (drop (Suc (length base)) p)))"

definition orphan :: "string \<Rightarrow> fs_env \<Rightarrow> string list \<Rightarrow> string \<Rightarrow> bool" where
  "orphan base env known p \<longleftrightarrow>
     \<not> fails env (''walk:'' @ p) \<and> \<not> walk_skips base p \<and> HasSuffix (base_name p) ''.blob'' \<and> p \<notin> set known"

text \<open>The callback of the walk on the files, in lexical order; the count is that of the files really removed.\<close>

fun remove_orphans :: "string \<Rightarrow> fs_env \<Rightarrow> string list \<Rightarrow> string list \<Rightarrow> fs \<times> int \<Rightarrow> fs \<times> int" where
  "remove_orphans base env known [] acc = acc"
| "remove_orphans base env known (p # ps) (fs, deleted) =
     (if orphan base env known p \<and> \<not> fails env (''rm:'' @ p)
      then remove_orphans base env known ps (os_remove (fs_now env) p fs, deleted + 1)
      else remove_orphans base env known ps (fs, deleted))"

definition known_paths :: "db_env \<Rightarrow> db \<Rightarrow> string list res" where
  "known_paths env db =
     (case AllObjectStoragePaths env db of
        Inl e \<Rightarrow> Inl e
      | Inr known \<Rightarrow> Inr (known @ (case ListHintProtectedStoragePaths env db of Inl e \<Rightarrow> [] | Inr hintPaths \<Rightarrow> hintPaths)))"

definition RunOrphanBlobs :: "Service \<Rightarrow> env \<Rightarrow> node_state \<Rightarrow> node_state \<times> int res" where
  "RunOrphanBlobs s env st =
     (case known_paths (eDb env) (sDb st) of
        Inl e \<Rightarrow> (st, Inl e)
      | Inr known \<Rightarrow>
          let base = basePath (svBlob s) in
          (case remove_orphans base (eFs env) known (walk_files base (sFs st)) (sFs st, 0) of
             (fs, deleted) \<Rightarrow> (st\<lparr>sFs := fs\<rparr>, Inr deleted)))"

section \<open>integrity.go\<close>

record IntegrityResult =
  irChecked :: int
  irCorrupted :: int
  irMissing :: int

definition no_result :: IntegrityResult where
  "no_result = \<lparr>irChecked = 0, irCorrupted = 0, irMissing = 0\<rparr>"

text \<open>\<^verbatim>\<open>strings.EqualFold\<close> with a hexadecimal digest is equality up to ASCII case.\<close>

fun verify_each :: "fs_env \<Rightarrow> fs \<Rightarrow> Object list \<Rightarrow> IntegrityResult \<Rightarrow> IntegrityResult \<times> goerr option" where
  "verify_each env fs [] result = (result, None)"
| "verify_each env fs (obj # objs) result =
     (if oStoragePath obj = '''' \<or> oETag obj = '''' then verify_each env fs objs result
      else if fails env (''ctx:'' @ oStoragePath obj) then (result, Some ctx_err)
      else if fails env (''open:'' @ oStoragePath obj) then (result, Some (os_err ''open''))
      else case data_at fs (oStoragePath obj) of
        None \<Rightarrow> verify_each env fs objs (result\<lparr>irMissing := irMissing result + 1\<rparr>)
      | Some d \<Rightarrow>
          if fails env (''read:'' @ oStoragePath obj) then (result, Some (os_err ''read''))
          else let actual = hex_encode (md5 d);
                   result = result\<lparr>irChecked := irChecked result + 1\<rparr>
               in verify_each env fs objs
                    (if ToLower actual \<noteq> ToLower (oETag obj) then result\<lparr>irCorrupted := irCorrupted result + 1\<rparr> else result))"

definition RunIntegrityVerify :: "env \<Rightarrow> node_state \<Rightarrow> IntegrityResult \<times> goerr option" where
  "RunIntegrityVerify env st =
     (case ListAllStoredObjects (eDb env) (sDb st) of
        Inl e \<Rightarrow> (no_result, Some e)
      | Inr objects \<Rightarrow> verify_each (eFs env) (sFs st) objects no_result)"

text \<open>One round, each job in an environment of its own; what the jobs report is logged.\<close>

definition runAll :: "Service \<Rightarrow> env \<Rightarrow> env \<Rightarrow> node_state \<Rightarrow> node_state" where
  "runAll s orphans abandoned st = fst (RunAbandonedMultipart s abandoned (fst (RunOrphanBlobs s orphans st)))"

section \<open>Orphans\<close>

lemma remove_orphans_file_at:
  "file_at (fst (remove_orphans base env known ps (fs, n))) q =
     (if q \<in> set ps \<and> orphan base env known q \<and> \<not> fails env (''rm:'' @ q) then None else file_at fs q)"
  by (induction ps arbitrary: fs n) auto

lemma remove_orphans_count:
  "snd (remove_orphans base env known ps (fs, n)) =
     n + int (length (filter (\<lambda>p. orphan base env known p \<and> \<not> fails env (''rm:'' @ p)) ps))"
  by (induction ps arbitrary: fs n) auto

lemma walk_files_set: "set (walk_files base fs) = {p. file_at fs p \<noteq> None \<and> under base p}"
  by (auto simp: walk_files_def file_at_def map_of_eq_None_iff)

text \<open>
  Orphan removal is exact. A run of the job leaves the database as it is and removes exactly the blob files under the
  storage root that lie outside the directories of uploads and hints and that no object row and no pending hint refers to,
  except those the operating system refuses to show or to remove; every other file stays as it was, and the
  reported number is the number of files removed.
\<close>

lemma orphan_cleanup_exact:
  assumes "RunOrphanBlobs s env st = (st', Inr n)" "\<not> db_fails (eDb env) ''hint.paths''"
  defines "gone \<equiv> {p. file_at (sFs st) p \<noteq> None \<and> under (basePath (svBlob s)) p \<and> \<not> walk_skips (basePath (svBlob s)) p \<and>
      HasSuffix (base_name p) ''.blob'' \<and> p \<notin> oStoragePath ` set (db_objects (sDb st)) \<and>
      p \<notin> {hSourcePath h | h. h \<in> set (db_hints (sDb st)) \<and> hStatus h = ''pending'' \<and> hSourcePath h \<noteq> ''''} \<and>
      \<not> fails (eFs env) (''walk:'' @ p) \<and> \<not> fails (eFs env) (''rm:'' @ p)}"
  shows "sDb st' = sDb st \<and> n = int (card gone) \<and> (\<forall>p. file_at (sFs st') p = (if p \<in> gone then None else file_at (sFs st) p))"
proof -
  let ?b = "basePath (svBlob s)" and ?e = "eFs env"
  let ?known = "map oStoragePath (db_objects (sDb st)) @
    map hSourcePath (filter (\<lambda>h. hStatus h = ''pending'' \<and> hSourcePath h \<noteq> '''') (db_hints (sDb st)))"
  let ?ps = "walk_files ?b (sFs st)" and ?P = "\<lambda>p. orphan ?b ?e ?known p \<and> \<not> fails ?e (''rm:'' @ p)"
  have "known_paths (eDb env) (sDb st) = Inr ?known"
    using assms(1,2) by (auto simp: RunOrphanBlobs_def known_paths_def AllObjectStoragePaths_def ListHintProtectedStoragePaths_def split: if_splits)
  then have st': "st' = st\<lparr>sFs := fst (remove_orphans ?b ?e ?known ?ps (sFs st, 0))\<rparr>"
    and n: "n = snd (remove_orphans ?b ?e ?known ?ps (sFs st, 0))"
    using assms(1) by (auto simp: RunOrphanBlobs_def Let_def split: prod.splits)
  have g: "gone = set (filter ?P ?ps)"
    unfolding set_filter walk_files_set gone_def by (auto simp: orphan_def)
  moreover have "distinct (filter ?P ?ps)" by (simp add: walk_files_def)
  ultimately have "n = int (card gone)" using n by (simp add: remove_orphans_count distinct_card del: set_filter)
  moreover have "file_at (sFs st') p = (if p \<in> gone then None else file_at (sFs st) p)" for p
    unfolding g by (simp add: st' remove_orphans_file_at)
  ultimately show ?thesis using st' by simp
qed

section \<open>Maintenance and readers\<close>

definition named_dirs :: "fs \<Rightarrow> bool" where
  "named_dirs fs \<longleftrightarrow> (\<forall>d \<in> fst ` set (fs_dirs fs). plain (base_name d))"

lemma remove_orphans_dirs: "map fst (fs_dirs (fst (remove_orphans base env known ps (fs, n)))) = map fst (fs_dirs fs)"
  by (induction ps arbitrary: fs n) (auto simp: os_remove_def touch_dir_def unset_file_def)

lemma RunOrphanBlobs_state:
  "fst (RunOrphanBlobs s env st) =
     (case known_paths (eDb env) (sDb st) of
        Inl e \<Rightarrow> st
      | Inr known \<Rightarrow>
          st\<lparr>sFs := fst (remove_orphans (basePath (svBlob s)) (eFs env) known (walk_files (basePath (svBlob s)) (sFs st)) (sFs st, 0))\<rparr>)"
  by (simp add: RunOrphanBlobs_def Let_def split: sum.split prod.split)

lemma RunOrphanBlobs_keeps:
  assumes "p \<in> oStoragePath ` set (db_objects (sDb st))"
  shows "file_at (sFs (fst (RunOrphanBlobs s env st))) p = file_at (sFs st) p"
proof -
  have "known_paths (eDb env) (sDb st) = Inr known \<Longrightarrow> p \<in> set known" for known
    using assms by (auto simp: known_paths_def AllObjectStoragePaths_def split: if_splits)
  then show ?thesis
    by (auto simp: RunOrphanBlobs_state orphan_def remove_orphans_file_at split: sum.splits)
qed

lemma removed_dirs_file_at:
  assumes "\<forall>x \<in> set ds. \<not> under (JoinPath [root, base_name (fst x)]) q"
  shows "file_at (fold (remove_abandoned env cutoff root) ds fs) q = file_at fs q"
  using assms by (induction ds arbitrary: fs) (auto simp: remove_abandoned_def file_at_removeall Let_def)

lemma RunAbandonedMultipart_keeps:
  fixes env :: env
  assumes "base_ok (basePath (svBlob s))" "BucketNameError b = ''''" "named_dirs (sFs st)"
  defines "st' \<equiv> fst (RunAbandonedMultipart s env st)"
  shows "file_at (sFs st') (blob_path s b k) = file_at (sFs st) (blob_path s b k)"
    "db_objects (sDb st') = db_objects (sDb st)" "db_buckets (sDb st') = db_buckets (sDb st)"
proof -
  let ?cut = "db_now (eDb env) - abandonedMultipartAge" and ?root = "JoinPath [basePath (svBlob s), ''_multipart'']"
  obtain db r where D: "DeleteAbandonedMultipartUploads (eDb env) ?cut (sDb st) = (db, r)" by fastforce
  from DeleteAbandoned_fst [OF this] have db: "db_objects db = db_objects (sDb st)" "db_buckets db = db_buckets (sDb st)"
    by (auto simp: delete_uploads_other)
  obtain es where es: "basePath (svBlob s) = abs_path es" "list_all plain es" "es \<noteq> []" using assms(1) by (rule base_ok_elems)
  have m: "plain ''_multipart''" by code_simp
  have root: "?root = abs_path (es @ [''_multipart''])" using JoinPath_below [OF es(2,3), of "[''_multipart'']"] m es(1) by simp
  have "\<not> under (JoinPath [?root, base_name p]) (blob_path s b k)" if "p \<in> fst ` set (fs_dirs (sFs st))" for p
  proof -
    have u: "plain (base_name p)" using assms(3) that by (auto simp: named_dirs_def)
    then have "JoinPath [?root, base_name p] = multipart_dir (svBlob s) (base_name p)"
      unfolding root part_path_elems(1) [OF es u] using JoinPath_below [of "es @ [''_multipart'']" "[base_name p]"] es(2) m by simp
    with blob_not_part(3) [OF assms(1,2) u] show ?thesis by simp
  qed
  then have "\<forall>x \<in> set ds. \<not> under (JoinPath [?root, base_name (fst x)]) (blob_path s b k)" if "read_dirs ?root (sFs st) = Some ds" for ds
    using that by (fastforce simp: read_dirs_def split: if_splits)
  then show "file_at (sFs st') (blob_path s b k) = file_at (sFs st) (blob_path s b k)"
    unfolding st'_def RunAbandonedMultipart_def Let_def D by (auto simp: removed_dirs_file_at split: sum.splits option.splits)
  show "db_objects (sDb st') = db_objects (sDb st)" "db_buckets (sDb st') = db_buckets (sDb st)"
    unfolding st'_def RunAbandonedMultipart_def Let_def D by (simp_all add: db split: sum.splits option.splits)
qed

text \<open>
  C23: maintenance is invisible to readers. Whatever the clock, the age of the files and the failures of a maintenance round, a
  GetObject of a valid bucket answers after it as it would have before, in every environment, with or
  without the integrity check, provided the row of the key names the key's own blob file.
\<close>

theorem maintenance_preserves_reads:
  assumes "base_ok (basePath (svBlob s))" "BucketNameError b = ''''" "named_dirs (sFs st)"
    "\<forall>row. obj_at (sDb st) b k = Some row \<longrightarrow> oStoragePath row = blob_path s b k"
  shows "GetObject_svc s env b k verify (runAll s orphans abandoned st) = GetObject_svc s env b k verify st"
proof -
  let ?st = "fst (RunOrphanBlobs s orphans st)" and ?st' = "runAll s orphans abandoned st"
  have o: "sDb ?st = sDb st" "map fst (fs_dirs (sFs ?st)) = map fst (fs_dirs (sFs st))"
    by (auto simp: RunOrphanBlobs_state remove_orphans_dirs split: sum.splits)
  have "named_dirs (sFs ?st)" using assms(3) o(2) unfolding named_dirs_def by (metis list.set_map)
  note A = RunAbandonedMultipart_keeps [OF assms(1,2) this, of abandoned, folded runAll_def]
  have db: "db_objects (sDb ?st') = db_objects (sDb st)" "db_buckets (sDb ?st') = db_buckets (sDb st)"
    using A(2,3) o(1) by simp_all
  then have rows: "BucketExists (eDb env) b (sDb ?st') = BucketExists (eDb env) b (sDb st)"
    "GetObject (eDb env) b k (sDb ?st') = GetObject (eDb env) b k (sDb st)"
    by (simp_all add: obj_at_def bucket_at_def BucketExists_def GetObject_def)
  show ?thesis
  proof (cases "obj_at (sDb st) b k")
    case None
    then have "\<exists>e. GetObject (eDb env) b k (sDb st) = Inl e" by (simp add: GetObject_def)
    then obtain e where e: "GetObject (eDb env) b k (sDb st) = Inl e" by blast
    show ?thesis unfolding GetObject_svc_def rows e sum.case by (rule refl)
  next
    case (Some row)
    then have "row \<in> set (db_objects (sDb st))" "oStoragePath row = blob_path s b k"
      using assms(4) by (auto simp: obj_at_def dest: row_at_Some)
    then have "file_at (sFs ?st) (blob_path s b k) = file_at (sFs st) (blob_path s b k)"
      by (intro RunOrphanBlobs_keeps) (metis imageI)
    with A(1) have get: "Get (svBlob s) (eFs env) b k (sFs ?st') = Get (svBlob s) (eFs env) b k (sFs st)"
      using healthy_resolve [OF assms(1,2)] by (simp add: Get_def)
    show ?thesis unfolding GetObject_svc_def rows get by (rule refl)
  qed
qed

definition example_kept_node :: node_state where
  "example_kept_node = \<lparr>
     sFs = \<lparr>fs_files = [(blob_path example_service ''abc'' ''k'', \<lparr>f_data = ''hello'', f_mtime = 0\<rparr>),
                        (''/data/x.blob'', \<lparr>f_data = ''lost'', f_mtime = 0\<rparr>)],
           fs_dirs = [(''/data/_multipart'', 0), (''/data/_multipart/u'', 0)]\<rparr>,
     sDb = (sDb example_node)\<lparr>db_objects := [example_source\<lparr>oStoragePath := blob_path example_service ''abc'' ''k''\<rparr>]\<rparr>\<rparr>"

lemma example_kept_facts:
  "bucket_at (sDb example_kept_node) ''abc'' \<noteq> None"
  "obj_at (sDb example_kept_node) ''abc'' ''k'' = Some (example_source\<lparr>oStoragePath := blob_path example_service ''abc'' ''k''\<rparr>)"
  "data_at (sFs example_kept_node) (blob_path example_service ''abc'' ''k'') = Some ''hello''" "named_dirs (sFs example_kept_node)"
proof -
  show "named_dirs (sFs example_kept_node)" by (auto simp: example_kept_node_def named_dirs_def base_name_def plain_def)
qed (simp_all add: example_kept_node_def example_source_def example_node_def zero_object_def obj_at_def row_at_def bucket_at_def
      okey_def data_at_def file_at_def)

theorem maintenance_preserves_reads_witness:
  "\<exists>g. GetObject_svc example_service example_node_env ''abc'' ''k'' False
     (runAll example_service example_node_env (example_node_env\<lparr>eDb := (eDb example_node_env)\<lparr>db_now := 10 ^ 18\<rparr>\<rparr>) example_kept_node) =
     Inr g \<and> gBody g = ''hello''"
proof -
  have "base_ok (basePath (svBlob example_service))" using example_healthy by (simp add: healthy_def)
  moreover have "GetObject_svc example_service example_node_env ''abc'' ''k'' False example_kept_node = Inr \<lparr>gBody = ''hello'', gSize = 5,
      gContentType = ''text/plain'', gETag = '''', gLastModified = zero_time, gCustomMetadata = []\<rparr>"
    using GetObject_svc_ok [OF example_healthy example_facts(1,2) example_kept_facts(1,2) _ example_kept_facts(3)]
    by (simp add: example_source_def zero_object_def)
  ultimately show ?thesis
    using maintenance_preserves_reads [OF _ example_facts(1) example_kept_facts(4), of example_service "''k''"] example_kept_facts(2) by simp
qed

lemma orphan_cleanup_exact_example:
  "\<exists>st'. RunOrphanBlobs example_service example_node_env example_kept_node = (st', Inr 1) \<and>
     file_at (sFs st') ''/data/x.blob'' = None"
proof -
  have f: "\<not> fails (eFs example_node_env) l" "\<not> db_fails (eDb example_node_env) l" for l
    using example_healthy by (auto simp: healthy_def quiet_def fails_def db_quiet_def db_fails_def)
  obtain st' n where R: "RunOrphanBlobs example_service example_node_env example_kept_node = (st', Inr n)"
  proof -
    have "known_paths (eDb example_node_env) (sDb example_kept_node) = Inr [blob_path example_service ''abc'' ''k'']"
      using f(2) by (simp add: known_paths_def AllObjectStoragePaths_def ListHintProtectedStoragePaths_def example_kept_node_def example_node_def empty_db_def)
    then have "\<exists>st' n. RunOrphanBlobs example_service example_node_env example_kept_node = (st', Inr n)"
      by (simp add: RunOrphanBlobs_def Let_def split: prod.split)
    then show ?thesis using that by blast
  qed
  let ?p = "''/data/x.blob''"
  have p: "{p. file_at (sFs example_kept_node) p \<noteq> None} = {blob_path example_service ''abc'' ''k'', ?p}"
    by (auto simp: example_kept_node_def file_at_def)
  have o: "oStoragePath ` set (db_objects (sDb example_kept_node)) = {blob_path example_service ''abc'' ''k''}" "db_hints (sDb example_kept_node) = []"
    by (simp_all add: example_kept_node_def example_node_def empty_db_def)
  have q: "\<not> walk_skips ''/data'' ?p" "HasSuffix (base_name ?p) ''.blob''" "under ''/data'' ?p" "basePath (svBlob example_service) = ''/data''"
    by code_simp+
  have "blob_path example_service ''abc'' ''k'' \<noteq> ?p" by (simp add: blob_path_def blob_elems_def Let_def q(4))
  have "{x. file_at (sFs example_kept_node) x \<noteq> None \<and> under ''/data'' x \<and> \<not> walk_skips ''/data'' x \<and> HasSuffix (base_name x) ''.blob'' \<and>
      x \<notin> {blob_path example_service ''abc'' ''k''}} = {?p}"
    using p q \<open>blob_path example_service ''abc'' ''k'' \<noteq> ?p\<close> by blast
  with orphan_cleanup_exact [OF R f(2)] show ?thesis using R by (simp add: f o q(4) cong: conj_cong) (use q p in blast)
qed

section \<open>What the integrity check reports\<close>

text \<open>
  Without failures, the check counts as checked the stored objects whose file exists, as missing the others, and as
  corrupted those whose ETag is not the MD5 of the file, whatever the case of its digits.
\<close>

lemma verify_each_exact:
  fixes fs :: fs
  assumes "fs_faults env = []" "\<forall>r \<in> set rows. oStoragePath r \<noteq> '''' \<and> oETag r \<noteq> ''''"
  defines "there \<equiv> filter (\<lambda>r. data_at fs (oStoragePath r) \<noteq> None) rows"
  shows "verify_each env fs rows result = (result\<lparr>irChecked := irChecked result + int (length there),
     irCorrupted := irCorrupted result + int (length (filter (\<lambda>r. ToLower (hex_encode (md5 (the (data_at fs (oStoragePath r))))) \<noteq> ToLower (oETag r)) there)),
     irMissing := irMissing result + int (length rows - length there)\<rparr>, None)"
  using assms(2) unfolding there_def
proof (induction rows arbitrary: result)
  case (Cons r rows)
  have "length (filter (\<lambda>r. data_at fs (oStoragePath r) \<noteq> None) rows) \<le> length rows" by (rule length_filter_le)
  then show ?case using Cons assms(1) by (auto simp: fails_def Let_def Suc_diff_le split: option.splits)
qed simp


end
