(* ===== verification/AmzDates.thy ===== *)
theory AmzDates
  imports Verifier
begin

text \<open>
  The dates of signatures: the civil date the code prints and parses is the day it came from, so that parsing a
  printed time gives the time back, without its fraction of a second.
\<close>

section \<open>The year of a day\<close>

text \<open>Days before year y of an era of 400 years (that starts in March), and the formula for the year of a day.\<close>

definition year_start :: "int \<Rightarrow> int" where
  "year_start y = (if y = 400 then 146097 else 365 * y + y div 4 - y div 100)"

definition scaled :: "int \<Rightarrow> int" where
  "scaled e = e - e div 1460 + e div 36524 - e div 146096"

lemma scaled_step: "0 \<le> e \<Longrightarrow> e < 146096 \<Longrightarrow> scaled e \<le> scaled (e + 1)"
proof -
  assume e: "0 \<le> e" "e < 146096"
  have "(e + 1) div 1460 \<le> (e + 1460) div 1460" "e div 36524 \<le> (e + 1) div 36524" by (auto intro: zdiv_mono1)
  then have "(e + 1) div 1460 \<le> e div 1460 + 1" "e div 36524 \<le> (e + 1) div 36524" by simp_all
  moreover have "e div 146096 = 0" using e by simp
  moreover have "(e + 1) div 146096 = (if e = 146095 then 1 else 0)" using e by simp
  moreover have "(e + 1) div 1460 = e div 1460" if "e = 146095" using that by simp
  ultimately show ?thesis unfolding scaled_def by (cases "e = 146095") auto
qed

lemma scaled_mono: "0 \<le> a \<Longrightarrow> a \<le> b \<Longrightarrow> b \<le> 146096 \<Longrightarrow> scaled a \<le> scaled b"
proof -
  assume a: "0 \<le> a" and b: "b \<le> 146096"
  have "b \<le> 146096 \<longrightarrow> scaled a \<le> scaled b" if "a \<le> b"
    using that
  proof (induction b rule: int_ge_induct)
    case (step i)
    with scaled_step [of i] a show ?case by auto
  qed simp
  with b show "a \<le> b \<Longrightarrow> ?thesis" by blast
qed

lemma year_ends:
  "\<forall>y \<in> set [0..399]. scaled (year_start y) div 365 = y \<and> scaled (year_start (y + 1) - 1) div 365 = y \<and>
     year_start (y + 1) - year_start y \<le> 366 \<and>
     (year_start (y + 1) - year_start y = 366 \<longrightarrow> leap (y + 1))"
  by code_simp

lemma year_end:
  assumes "0 \<le> y" "y \<le> 399"
  shows "scaled (year_start y) div 365 = y" "scaled (year_start (y + 1) - 1) div 365 = y"
    "year_start (y + 1) - year_start y \<le> 366" "year_start (y + 1) - year_start y = 366 \<Longrightarrow> leap (y + 1)"
  using year_ends assms by auto

lemma year_start_range: "0 \<le> y \<Longrightarrow> y \<le> 400 \<Longrightarrow> 0 \<le> year_start y \<and> year_start y \<le> 146097"
  unfolding year_start_def by (auto; presburger)

lemma year_of_day:
  assumes "0 \<le> e" "e \<le> 146096"
  defines "y \<equiv> scaled e div 365"
  shows "0 \<le> y" "y \<le> 399" "year_start y \<le> e" "e < year_start (y + 1)"
proof -
  have "scaled 0 \<le> scaled e" "scaled e \<le> scaled 146096" using assms by (auto intro!: scaled_mono)
  then have "0 \<le> scaled e" "scaled e div 365 \<le> scaled 146096 div 365"
    by (auto simp: zdiv_mono1) (simp add: scaled_def)
  then show y: "0 \<le> y" "y \<le> 399" by (simp_all add: y_def pos_imp_zdiv_nonneg_iff) (simp_all add: scaled_def)
  show "year_start y \<le> e"
  proof (rule ccontr)
    assume "\<not> ?thesis"
    moreover from this have "y \<noteq> 0" using assms by (auto simp: year_start_def)
    ultimately have "scaled e \<le> scaled (year_start (y - 1 + 1) - 1)"
      using assms(1) y year_start_range [of y] by (intro scaled_mono) auto
    then have "y \<le> scaled (year_start (y - 1 + 1) - 1) div 365" unfolding y_def by (rule zdiv_mono1) simp
    also have "\<dots> = y - 1" using y \<open>y \<noteq> 0\<close> by (intro year_end) auto
    finally show False by simp
  qed
  show "e < year_start (y + 1)"
  proof (rule ccontr)
    assume h: "\<not> ?thesis"
    then have "y \<noteq> 399" using assms(2) by (auto simp: year_start_def)
    with y have "y + 1 = scaled (year_start (y + 1)) div 365" by (intro year_end(1) [symmetric]) auto
    also have "\<dots> \<le> scaled e div 365"
      using h y assms(2) year_start_range [of "y + 1"] by (intro zdiv_mono1 scaled_mono) auto
    finally show False by (simp add: y_def)
  qed
qed

section \<open>Months\<close>

definition month_days :: "int \<Rightarrow> int" where
  "month_days mp = (if mp = 11 then 29 else if mp \<in> {1, 3, 6, 8} then 30 else 31)"

lemma months:
  "\<forall>doy \<in> set [0..365]. let mp = (5 * doy + 2) div 153; d = doy - (153 * mp + 2) div 5 + 1 in
     0 \<le> mp \<and> mp \<le> 11 \<and> 1 \<le> d \<and> d \<le> month_days mp \<and> (mp = 11 \<and> d = 29 \<longrightarrow> doy = 365)"
  by code_simp

lemma leap_era: "leap (y + era * 400) = leap y"
proof -
  have "(y + era * 100 * 4) mod 4 = y mod 4" "(y + era * 4 * 100) mod 100 = y mod 100" "(y + era * 400) mod 400 = y mod 400"
    by (rule mod_mult_self1)+
  then show ?thesis by (simp add: leap_def mult.commute)
qed

lemma civil_facts:
  assumes "civil day = (y, m, d)"
  shows "day_number y m d = day" "1 \<le> m" "m \<le> 12" "1 \<le> d" "d \<le> days_in y m"
proof -
  define z era where "z = day + 719468" and "era = z div 146097"
  define doe where "doe = z - era * 146097"
  define yoe where "yoe = scaled doe div 365"
  define doy where "doy = doe - (365 * yoe + yoe div 4 - yoe div 100)"
  define mp where "mp = (5 * doy + 2) div 153"
  have "doe = z mod 146097" by (simp add: doe_def era_def minus_div_mult_eq_mod)
  then have doe: "0 \<le> doe" "doe \<le> 146096" by auto
  note Y = year_of_day [OF doe, folded yoe_def]
  have ys: "year_start yoe = 365 * yoe + yoe div 4 - yoe div 100" using Y by (simp add: year_start_def)
  have doy: "0 \<le> doy" "doy \<le> 365" "doy = 365 \<Longrightarrow> leap (yoe + 1)"
    using Y year_end [OF Y(1,2)] by (auto simp: doy_def ys)
  then have M: "0 \<le> mp" "mp \<le> 11" "1 \<le> doy - (153 * mp + 2) div 5 + 1"
    "doy - (153 * mp + 2) div 5 + 1 \<le> month_days mp" "mp = 11 \<Longrightarrow> doy - (153 * mp + 2) div 5 + 1 = 29 \<Longrightarrow> doy = 365"
    using bspec [OF months, of doy] by (simp_all add: Let_def mp_def)
  have "civil day =
      (yoe + era * 400 + (if (if mp < 10 then mp + 3 else mp - 9) \<le> 2 then 1 else 0),
       (if mp < 10 then mp + 3 else mp - 9), doy - (153 * mp + 2) div 5 + 1)"
    unfolding civil_def Let_def z_def era_def doe_def yoe_def doy_def mp_def scaled_def by (rule refl)
  then have ymd: "m = (if mp < 10 then mp + 3 else mp - 9)" "d = doy - (153 * mp + 2) div 5 + 1"
    "y = yoe + era * 400 + (if m \<le> 2 then 1 else 0)"
    using assms by simp_all
  show "1 \<le> m" "m \<le> 12" "1 \<le> d" using ymd M by auto
  have m2: "m \<le> 2 \<longleftrightarrow> mp \<ge> 10" using ymd(1) M by auto
  have "(m + 9) mod 12 = mp" using ymd(1) M by auto
  moreover have "(if m \<le> 2 then y - 1 else y) = yoe + era * 400" using ymd(3) by auto
  moreover have "(yoe + era * 400) div 400 = era" using Y by simp
  ultimately have "day_number y m d = era * 146097 + yoe * 365 + yoe div 4 - yoe div 100 + doy - 719468"
    by (simp add: day_number_def Let_def ymd(2))
  also have "\<dots> = day" unfolding doy_def doe_def z_def by linarith
  finally show "day_number y m d = day" .
  show "d \<le> days_in y m"
  proof (cases "mp = 11")
    case True
    then have "m = 2" "y = yoe + 1 + era * 400" using ymd by auto
    then have "days_in y m = (if leap (yoe + 1) then 29 else 28)" by (simp add: days_in_def leap_era)
    moreover have "d \<le> 29" "d = 29 \<longrightarrow> doy = 365" using M(4,5) True unfolding ymd(2) by (simp_all add: month_days_def)
    ultimately show ?thesis using doy(3) by (cases "d = 29") auto
  next
    case False
    with M(1,2) have "mp = 0 \<or> mp = 1 \<or> mp = 2 \<or> mp = 3 \<or> mp = 4 \<or> mp = 5 \<or> mp = 6 \<or> mp = 7 \<or> mp = 8 \<or> mp = 9 \<or> mp = 10"
      by presburger
    with M(4) ymd(1,2) show ?thesis by (auto simp: month_days_def days_in_def)
  qed
qed

section \<open>Printing and parsing\<close>

lemma length_pad_digits [simp]: "length (pad_digits k n) = k"
  by (induction k arbitrary: n) auto

lemma digits_val_pad: "digits_val (pad_digits k n) = n mod 10 ^ k"
proof (induction k arbitrary: n)
  case (Suc k)
  have "nat (n mod 10) < 10" by (simp add: nat_less_iff)
  then have "digits_val (pad_digits (Suc k) n) = 10 * (n div 10 mod 10 ^ k) + n mod 10"
    using Suc [of "n div 10"] by (simp add: digits_val_def digit_char_facts)
  also have "\<dots> = n mod 10 ^ Suc k" by (simp add: zmod_zmult2_eq mult.commute)
  finally show ?case .
qed (simp add: digits_val_def)

lemma take_num_pad: "0 \<le> n \<Longrightarrow> n < 10 ^ k \<Longrightarrow> take_num k (pad_digits k n @ t) = Some (n, t)"
  by (simp add: take_num_def pad_digits_digits digits_val_pad)

lemma parse_fields:
  assumes "0 \<le> y" "y < 10 ^ 4" "0 \<le> mo" "mo < 10 ^ 2" "0 \<le> d" "d < 10 ^ 2"
    and "1 \<le> mo" "mo \<le> 12" "1 \<le> d" "d \<le> days_in y mo"
    and "0 \<le> h" "h < 24" "0 \<le> mi" "mi < 60" "0 \<le> sec" "sec < 60"
  shows "parse_amz_date (pad_digits 4 y @ pad_digits 2 mo @ pad_digits 2 d @ ''T'' @ pad_digits 2 h @ pad_digits 2 mi @ pad_digits 2 sec @ ''Z'') =
    Some ((day_number y mo d * 86400 + h * 3600 + mi * 60 + sec) * 10 ^ 9)"
proof -
  have p: "take_num 2 (pad_digits 2 h @ t) = Some (h, t)" "take_num 2 (pad_digits 2 mi @ t) = Some (mi, t)"
    "take_num 2 (pad_digits 2 sec @ t) = Some (sec, t)" for t
    using assms by (auto intro!: take_num_pad)
  show ?thesis
    unfolding parse_amz_date_def take_num_pad [OF assms(1,2)] Option.bind.simps prod.case
      take_num_pad [OF assms(3,4)] take_num_pad [OF assms(5,6)]
    using assms(7-) p by (simp add: take_fraction_def)
qed

definition printable_year :: "time \<Rightarrow> bool" where
  "printable_year t \<longleftrightarrow> (case civil (t div 10 ^ 9 div 86400) of (y, m, d) \<Rightarrow> 0 \<le> y \<and> y < 10000)"

definition whole_seconds :: "time \<Rightarrow> time" where
  "whole_seconds t = t div 10 ^ 9 * 10 ^ 9"

text \<open>The fields of a printed time: their ranges, and the time they make.\<close>

lemma time_fields:
  fixes t :: time
  assumes "printable_year t" "civil (t div 10 ^ 9 div 86400) = (y, m, d)"
  defines "sod \<equiv> t div 10 ^ 9 mod 86400"
  shows "0 \<le> y" "y < 10 ^ 4" "0 \<le> m" "m < 10 ^ 2" "0 \<le> d" "d < 10 ^ 2" "1 \<le> m" "m \<le> 12" "1 \<le> d" "d \<le> days_in y m"
    "0 \<le> sod div 3600" "sod div 3600 < 24" "0 \<le> sod div 60 mod 60" "sod div 60 mod 60 < 60" "0 \<le> sod mod 60" "sod mod 60 < 60"
    "(day_number y m d * 86400 + sod div 3600 * 3600 + sod div 60 mod 60 * 60 + sod mod 60) * 10 ^ 9 = whole_seconds t"
proof -
  note C = civil_facts [OF assms(2)]
  show "0 \<le> y" "y < 10 ^ 4" using assms(1,2) by (auto simp: printable_year_def)
  show "0 \<le> m" "m < 10 ^ 2" "0 \<le> d" "d < 10 ^ 2" "1 \<le> m" "m \<le> 12" "1 \<le> d" "d \<le> days_in y m"
    using C by (auto simp: days_in_def split: if_splits)
  have "0 \<le> sod" "sod < 86400" by (simp_all add: sod_def)
  then show "0 \<le> sod div 3600" "sod div 3600 < 24" "0 \<le> sod div 60 mod 60" "sod div 60 mod 60 < 60"
    "0 \<le> sod mod 60" "sod mod 60 < 60" by auto
  have "sod div 3600 = sod div 60 div 60" using zdiv_zmult2_eq [of 60 sod 60] by simp
  then have "sod div 3600 * 3600 + sod div 60 mod 60 * 60 + sod mod 60 = sod"
    using div_mult_mod_eq [of "sod div 60" 60] div_mult_mod_eq [of sod 60] by linarith
  then have "t div 10 ^ 9 = day_number y m d * 86400 + sod div 3600 * 3600 + sod div 60 mod 60 * 60 + sod mod 60"
    using C(1) div_mult_mod_eq [of "t div 10 ^ 9" 86400] unfolding sod_def by linarith
  then show "(day_number y m d * 86400 + sod div 3600 * 3600 + sod div 60 mod 60 * 60 + sod mod 60) * 10 ^ 9 = whole_seconds t"
    by (simp add: whole_seconds_def)
qed

lemma parse_amz_date_printed:
  assumes "printable_year t"
  shows "parse_amz_date (amz_date t) = Some (whole_seconds t)"
proof -
  obtain y m d where c: "civil (t div 10 ^ 9 div 86400) = (y, m, d)" by (rule prod_cases3)
  define sod where "sod = t div 10 ^ 9 mod 86400"
  note F = time_fields [OF assms c, folded sod_def]
  have "amz_date t = pad_digits 4 y @ pad_digits 2 m @ pad_digits 2 d @ ''T'' @ pad_digits 2 (sod div 3600) @
      pad_digits 2 (sod div 60 mod 60) @ pad_digits 2 (sod mod 60) @ ''Z''"
    unfolding amz_date_def amz_day_def c Let_def sod_def by simp
  then show ?thesis
    using parse_fields [OF F(1-16)] F(17) by simp
qed

lemma amz_day_digits: "list_all is_digit (amz_day t)" "length (amz_day t) = 8"
  by (simp_all add: amz_day_def pad_digits_digits split: prod.split)

end
