(* ===== verification/Rows.thy ===== *)
theory Rows
  imports AmzDates MetaHints
begin

text \<open>
  The rows under the tables of the metadata store (\<^verbatim>\<open>internal/metadata/sqlite/store.go\<close>, \<^verbatim>\<open>hints.go\<close>): the columns a row is
  written to and read from. The theorem says that a row read back is the row written, so that a table can be modelled as
  the list of its decoded rows.

  \<^verbatim>\<open>encoding/json\<close> on maps of strings is a parameter.
\<close>

section \<open>Times\<close>

text \<open>
  \<^verbatim>\<open>time.Parse(time.RFC3339Nano, _)\<close>: the hour may have one digit, a fraction may follow the seconds, and the zone is
  \<^verbatim>\<open>Z\<close> or an offset.
\<close>

definition take_hour :: "string \<Rightarrow> (int \<times> string) option" where
  "take_hour s = (case take_num 2 s of Some r \<Rightarrow> Some r | None \<Rightarrow> take_num 1 s)"

definition expect :: "char \<Rightarrow> string \<Rightarrow> string option" where
  "expect c s = (case s of a # t \<Rightarrow> if a = c then Some t else None | [] \<Rightarrow> None)"

definition take_zone :: "string \<Rightarrow> (int \<times> string) option" where
  "take_zone s =
     (if HasPrefix s ''Z'' then Some (0, drop 1 s)
      else if length s < 6 \<or> s ! 3 \<noteq> CHR '':'' \<or> hd s \<notin> {CHR ''+'', CHR ''-''} then None
      else case (take_num 2 (drop 1 s), take_num 2 (drop 4 s)) of
        (Some (hr, _), Some (mm, t)) \<Rightarrow>
          if hr > 24 \<or> mm > 60 then None
          else Some ((if hd s = CHR ''-'' then -1 else 1) * ((hr * 60 + mm) * 60), t)
      | _ \<Rightarrow> None)"

definition parseTime :: "string \<Rightarrow> time option" where
  "parseTime s =
     Option.bind (take_num 4 s) (\<lambda>(y, s). Option.bind (expect (CHR ''-'') s) (\<lambda>s.
     Option.bind (take_num 2 s) (\<lambda>(mo, s). Option.bind (expect (CHR ''-'') s) (\<lambda>s.
     Option.bind (take_num 2 s) (\<lambda>(d, s). Option.bind (expect (CHR ''T'') s) (\<lambda>s.
     Option.bind (take_hour s) (\<lambda>(h, s). Option.bind (expect (CHR '':'') s) (\<lambda>s.
     Option.bind (take_num 2 s) (\<lambda>(mi, s). Option.bind (expect (CHR '':'') s) (\<lambda>s.
     Option.bind (take_num 2 s) (\<lambda>(sec, s).
     case take_fraction s of (ns, s) \<Rightarrow>
     Option.bind (take_zone s) (\<lambda>(offset, s).
       if s = '''' \<and> 1 \<le> mo \<and> mo \<le> 12 \<and> 1 \<le> d \<and> d \<le> days_in y mo \<and> h < 24 \<and> mi < 60 \<and> sec < 60
       then Some ((day_number y mo d * 86400 + h * 3600 + mi * 60 + sec - offset) * 10 ^ 9 + ns)
       else None))))))))))))"

lemma parseTime_examples:
  "parseTime ''2024-12-31T23:59:59.000000001Z'' = Some 1735689599000000001"
  "parseTime ''2024-12-31T9:59:59,5+01:30'' = Some 1735633799500000000"
  "parseTime ''2023-02-29T00:00:00Z'' = None" "parseTime ''2024-02-29 00:00:00Z'' = None"
  by code_simp+

text \<open>An error of parsing is dropped, which leaves the zero time.\<close>

definition scan_time :: "string \<Rightarrow> time" where
  "scan_time s = (case parseTime s of None \<Rightarrow> zero_time | Some t \<Rightarrow> t)"

section \<open>Columns\<close>

datatype sql_value = SText string | SInt int | SNull

text \<open>\<^verbatim>\<open>Scan\<close> into a text variable, a number, and a text that may be NULL.\<close>

fun scan_text :: "sql_value \<Rightarrow> string option" where
  "scan_text (SText s) = Some s"
| "scan_text (SInt n) = Some (FormatInt n)"
| "scan_text SNull = None"

fun scan_int :: "sql_value \<Rightarrow> int option" where
  "scan_int (SInt n) = Some n"
| "scan_int (SText s) = ParseInt s"
| "scan_int SNull = None"

fun scan_null :: "sql_value \<Rightarrow> string" where
  "scan_null (SText s) = s"
| "scan_null (SInt n) = FormatInt n"
| "scan_null SNull = ''''"

definition boolToInt :: "bool \<Rightarrow> int" where
  "boolToInt b = (if b then 1 else 0)"

record json =
  jsonMarshal :: "custom_md \<Rightarrow> string option"
  jsonUnmarshal :: "string \<Rightarrow> custom_md option"

definition encodeMetadata :: "json \<Rightarrow> custom_md \<Rightarrow> string option" where
  "encodeMetadata js m = (if m = [] then Some '''' else jsonMarshal js m)"

definition decodeMetadata :: "json \<Rightarrow> string \<Rightarrow> custom_md option" where
  "decodeMetadata js s = jsonUnmarshal js s"

text \<open>The metadata of a row: an empty column or one that does not decode gives none.\<close>

definition scan_metadata :: "json \<Rightarrow> sql_value \<Rightarrow> custom_md" where
  "scan_metadata js v =
     (if scan_null v = '''' then [] else case decodeMetadata js (scan_null v) of None \<Rightarrow> [] | Some m \<Rightarrow> m)"

definition scanBucket :: "sql_value list \<Rightarrow> Bucket option" where
  "scanBucket row =
     (case row of
        [v1, v2, v3, v4, v5, v6] \<Rightarrow>
          Option.bind (scan_text v1) (\<lambda>i. Option.bind (scan_text v2) (\<lambda>name. Option.bind (scan_int v3) (\<lambda>objs.
          Option.bind (scan_int v4) (\<lambda>bytes. Option.bind (scan_text v5) (\<lambda>created. Option.bind (scan_text v6) (\<lambda>updated.
            Some \<lparr>bID = i, bName = name, bObjectCount = objs, bTotalSize = bytes, bCreatedAt = scan_time created,
                  bUpdatedAt = scan_time updated\<rparr>))))))
      | _ \<Rightarrow> None)"

definition scanObject :: "json \<Rightarrow> sql_value list \<Rightarrow> Object option" where
  "scanObject js row =
     (case row of
        [v1, v2, v3, v4, v5, v6, v7, v8, v9, v10, v11, v12, v13] \<Rightarrow>
          Option.bind (scan_text v1) (\<lambda>i. Option.bind (scan_text v2) (\<lambda>b. Option.bind (scan_text v3) (\<lambda>k.
          Option.bind (scan_int v4) (\<lambda>size. Option.bind (scan_text v5) (\<lambda>ct. Option.bind (scan_text v6) (\<lambda>etag.
          Option.bind (scan_text v7) (\<lambda>path. Option.bind (scan_int v9) (\<lambda>version. Option.bind (scan_text v10) (\<lambda>status.
          Option.bind (scan_int v11) (\<lambda>deleted. Option.bind (scan_text v12) (\<lambda>created. Option.bind (scan_text v13) (\<lambda>updated.
            Some \<lparr>oID = i, oBucketName = b, oKey = k, oSize = size, oContentType = ct, oETag = etag, oStoragePath = path,
                  oCustomMetadata = scan_metadata js v8, oVersion = version, oReplicationStatus = status, oDeleted = (deleted \<noteq> 0),
                  oCreatedAt = scan_time created, oUpdatedAt = scan_time updated\<rparr>))))))))))))
      | _ \<Rightarrow> None)"

fun HintKind_text :: "HintKind \<Rightarrow> string" where
  "HintKind_text HintKindPut = ''put''"
| "HintKind_text HintKindTombstone = ''tombstone''"
| "HintKind_text HintKindRepair = ''repair''"

text \<open>The kind of a hint is any text in the code; the store writes only the three kinds, and any other is no value here.\<close>

definition scan_kind :: "string \<Rightarrow> HintKind option" where
  "scan_kind s = find (\<lambda>k. HintKind_text k = s) [HintKindPut, HintKindTombstone, HintKindRepair]"

definition scanHint :: "json \<Rightarrow> sql_value list \<Rightarrow> ReplicationHint option" where
  "scanHint js row =
     (case row of
        [v1, v2, v3, v4, v5, v6, v7, v8, v9, v10, v11, v12, v13, v14, v15, v16] \<Rightarrow>
          Option.bind (scan_text v1) (\<lambda>i. Option.bind (scan_text v2) (\<lambda>target. Option.bind (scan_text v3) (\<lambda>b.
          Option.bind (scan_text v4) (\<lambda>k. Option.bind (scan_int v5) (\<lambda>version. Option.bind (scan_text v6) (\<lambda>etag.
          Option.bind (scan_kind (scan_null v7)) (\<lambda>kind. Option.bind (scan_text v8) (\<lambda>ct. Option.bind (scan_text v10) (\<lambda>source.
          Option.bind (scan_int v12) (\<lambda>attempts. Option.bind (scan_text v14) (\<lambda>status.
            Some \<lparr>hID = i, hTargetNode = target, hBucketName = b, hKey = k, hVersion = version, hETag = etag, hKind = kind,
                  hContentType = ct, hCustomMetadata = scan_metadata js v9, hSourceNode = source, hSourcePath = scan_null v11,
                  hAttempts = attempts, hNextAttemptAt = (if v13 = SNull then zero_time else scan_time (scan_null v13)),
                  hStatus = status, hLastError = scan_null v15,
                  hCreatedAt = (if v16 = SNull then zero_time else scan_time (scan_null v16))\<rparr>)))))))))))
      | _ \<Rightarrow> None)"

text \<open>
  The values the INSERT statements bind, in the order of their columns; None is an error of encoding. The counts of a
  bucket are inserted as 0 and kept up to date by UPDATE statements, which add to the numbers and set the time of the update
  (the columns are integers that are never NULL).
\<close>

definition bucket_values :: "string \<Rightarrow> string \<Rightarrow> time \<Rightarrow> sql_value list" where
  "bucket_values i name now = [SText i, SText name, SInt 0, SInt 0, SText (formatTime now), SText (formatTime now)]"

fun sql_add :: "sql_value \<Rightarrow> int \<Rightarrow> sql_value" where
  "sql_add (SInt m) n = SInt (m + n)"
| "sql_add v n = v"

definition bucket_update :: "int \<Rightarrow> int \<Rightarrow> time \<Rightarrow> sql_value list \<Rightarrow> sql_value list" where
  "bucket_update countDelta sizeDelta now row =
     row[2 := sql_add (row ! 2) countDelta, 3 := sql_add (row ! 3) sizeDelta, 5 := SText (formatTime now)]"

definition object_values :: "json \<Rightarrow> Object \<Rightarrow> sql_value list option" where
  "object_values js o' =
     map_option (\<lambda>meta.
       [SText (oID o'), SText (oBucketName o'), SText (oKey o'), SInt (oSize o'), SText (oContentType o'), SText (oETag o'),
        SText (oStoragePath o'), SText meta, SInt (oVersion o'), SText (oReplicationStatus o'), SInt (boolToInt (oDeleted o')),
        SText (formatTime (oCreatedAt o')), SText (formatTime (oUpdatedAt o'))]) (encodeMetadata js (oCustomMetadata o'))"

definition hint_values :: "json \<Rightarrow> ReplicationHint \<Rightarrow> sql_value list option" where
  "hint_values js h =
     map_option (\<lambda>meta.
       [SText (hID h), SText (hTargetNode h), SText (hBucketName h), SText (hKey h), SInt (hVersion h), SText (hETag h),
        SText (HintKind_text (hKind h)), SText (hContentType h), SText meta, SText (hSourceNode h), SText (hSourcePath h),
        SInt (hAttempts h), SText (formatTime (hNextAttemptAt h)), SText (hStatus h), SText (hLastError h),
        SText (formatTime (hCreatedAt h))]) (encodeMetadata js (hCustomMetadata h))"

section \<open>Rows round trip\<close>

lemma digits_val_zeros: "digits_val (ds @ replicate n (CHR ''0'')) = digits_val ds * 10 ^ n"
proof (induction n)
  case (Suc n)
  have "ds @ replicate (Suc n) (CHR ''0'') = (ds @ replicate n (CHR ''0'')) @ [CHR ''0'']" by (simp add: replicate_append_same)
  then have "digits_val (ds @ replicate (Suc n) (CHR ''0'')) = 10 * digits_val (ds @ replicate n (CHR ''0''))"
    unfolding digits_val_def by (simp only: foldl_append) simp
  with Suc show ?case by simp
qed simp

lemma TrimRight_replicate: "\<exists>n. s = TrimRight s c @ replicate n c"
proof -
  have "takeWhile (\<lambda>x. x = c) (rev s) = replicate (length (takeWhile (\<lambda>x. x = c) (rev s))) c"
    by (metis (mono_tags, lifting) replicate_eqI set_takeWhileD)
  then have "rev s = replicate (length (takeWhile (\<lambda>x. x = c) (rev s))) c @ dropWhile (\<lambda>x. x = c) (rev s)"
    by (metis takeWhile_dropWhile_id)
  then have "s = TrimRight s c @ replicate (length (takeWhile (\<lambda>x. x = c) (rev s))) c"
    unfolding TrimRight_def by (metis rev_append rev_replicate rev_rev_ident)
  then show ?thesis by blast
qed

lemma take_fraction_printed:
  assumes "0 \<le> ns" "ns < 10 ^ 9"
  shows "take_fraction ((if ns = 0 then '''' else ''.'' @ TrimRight (pad_digits 9 ns) (CHR ''0'')) @ ''Z'') = (ns, ''Z'')"
proof (cases "ns = 0")
  case True
  then show ?thesis by (simp add: take_fraction_def)
next
  case False
  let ?ds = "TrimRight (pad_digits 9 ns) (CHR ''0'')"
  obtain n where n: "pad_digits 9 ns = ?ds @ replicate n (CHR ''0'')" using TrimRight_replicate by blast
  have len: "length ?ds + n = 9" using arg_cong [OF n, of length] by (simp only: length_pad_digits length_append length_replicate)
  have v: "digits_val ?ds * 10 ^ n = ns" using digits_val_zeros [of ?ds n] n digits_val_pad [of 9 ns] assms by simp
  have d: "list_all is_digit ?ds" using pad_digits_digits [of 9 ns] n by (metis list_all_append)
  have "?ds \<noteq> []" using v False by (auto simp: digits_val_def)
  then obtain c t where ct: "?ds = c # t" by (cases ?ds) auto
  have "takeWhile is_digit (?ds @ ''Z'') = ?ds" "dropWhile is_digit (?ds @ ''Z'') = ''Z''"
    using d by (auto simp: list_all_iff takeWhile_append2 dropWhile_append2 is_digit_def)
  moreover have "9 - length ?ds = n" "take 9 ?ds = ?ds" using len by simp_all
  ultimately show ?thesis using False d v unfolding ct by (simp add: take_fraction_def)
qed

lemma expect_hit: "expect c (c # t) = Some t"
  by (simp add: expect_def)

lemma parseTime_fields:
  assumes "0 \<le> y" "y < 10 ^ 4" "0 \<le> mo" "mo < 10 ^ 2" "0 \<le> d" "d < 10 ^ 2" "1 \<le> mo" "mo \<le> 12" "1 \<le> d" "d \<le> days_in y mo"
    and "0 \<le> h" "h < 24" "0 \<le> mi" "mi < 60" "0 \<le> sec" "sec < 60" and f: "take_fraction frac = (ns, ''Z'')"
  shows "parseTime (pad_digits 4 y @ CHR ''-'' # pad_digits 2 mo @ CHR ''-'' # pad_digits 2 d @ CHR ''T'' # pad_digits 2 h @
      CHR '':'' # pad_digits 2 mi @ CHR '':'' # pad_digits 2 sec @ frac) =
    Some ((day_number y mo d * 86400 + h * 3600 + mi * 60 + sec) * 10 ^ 9 + ns)"
proof -
  have p: "take_hour (pad_digits 2 h @ t) = Some (h, t)" "take_num 2 (pad_digits 2 mi @ t) = Some (mi, t)"
    "take_num 2 (pad_digits 2 sec @ t) = Some (sec, t)" for t
    using assms(11-16) take_num_pad [of _ 2] by (simp_all add: take_hour_def del: pad_digits.simps)
  have z: "take_zone ''Z'' = Some (0, [])" by code_simp
  show ?thesis
    unfolding parseTime_def take_num_pad [OF assms(1,2)] Option.bind.simps prod.case expect_hit
      take_num_pad [OF assms(3,4)] take_num_pad [OF assms(5,6)] p f z
    using assms(7-16) by simp
qed

lemma parseTime_printed:
  assumes "printable_year t"
  shows "parseTime (formatTime t) = Some t"
proof -
  obtain y m d where c: "civil (t div 10 ^ 9 div 86400) = (y, m, d)" by (rule prod_cases3)
  define sod where "sod = t div 10 ^ 9 mod 86400"
  define frac where "frac = (if t mod 10 ^ 9 = 0 then '''' else ''.'' @ TrimRight (pad_digits 9 (t mod 10 ^ 9)) (CHR ''0'')) @ ''Z''"
  note F = time_fields [OF assms c, folded sod_def]
  have f: "take_fraction frac = (t mod 10 ^ 9, ''Z'')" unfolding frac_def by (rule take_fraction_printed) simp_all

  have e: "formatTime t = pad_digits 4 y @ CHR ''-'' # pad_digits 2 m @ CHR ''-'' # pad_digits 2 d @ CHR ''T'' #
      pad_digits 2 (sod div 3600) @ CHR '':'' # pad_digits 2 (sod div 60 mod 60) @ CHR '':'' # pad_digits 2 (sod mod 60) @ frac"
    unfolding formatTime_def Let_def c sod_def frac_def by (simp only: prod.case append_Cons append_Nil append_assoc)
  show ?thesis unfolding e parseTime_fields [OF F(1-16) f] F(17) by (simp add: whole_seconds_def)
qed

text \<open>Unmarshalling a marshalled map gives the map back.\<close>

definition json_ok :: "json \<Rightarrow> custom_md \<Rightarrow> bool" where
  "json_ok js m \<longleftrightarrow> (m \<noteq> [] \<longrightarrow> (\<exists>s. jsonMarshal js m = Some s \<and> s \<noteq> '''' \<and> jsonUnmarshal js s = Some m))"

lemma scan_metadata_encoded:
  assumes "json_ok js m"
  shows "\<exists>s. encodeMetadata js m = Some s \<and> scan_metadata js (SText s) = m"
proof (cases "m = []")
  case True
  then show ?thesis by (simp add: encodeMetadata_def scan_metadata_def)
next
  case False
  with assms obtain s where "jsonMarshal js m = Some s" "s \<noteq> ''''" "jsonUnmarshal js s = Some m" unfolding json_ok_def by blast
  then have "encodeMetadata js m = Some s" "scan_metadata js (SText s) = m"
    using False by (simp_all add: encodeMetadata_def scan_metadata_def decodeMetadata_def)
  then show ?thesis by blast
qed

lemma scan_kind_text: "scan_kind (HintKind_text k) = Some k"
  by (cases k) (simp_all add: scan_kind_def)

lemma scan_time_printed: "printable_year t \<Longrightarrow> scan_time (formatTime t) = t"
  by (simp add: scan_time_def parseTime_printed)

lemma bucket_row:
  "fold (\<lambda>(n, d, t). bucket_update n d t) us (bucket_values i name t0) =
     [SText i, SText name, SInt (\<Sum>(n, _, _)\<leftarrow>us. n), SInt (\<Sum>(_, d, _)\<leftarrow>us. d), SText (formatTime t0),
      SText (formatTime (last (t0 # map (snd \<circ> snd) us)))]"
proof (induction us rule: rev_induct)
  case (snoc u us)
  then show ?case by (cases u) (simp add: bucket_update_def)
qed (simp add: bucket_values_def)

text \<open>
  C27: what the store writes is what it reads. A bucket inserted by CreateBucket and changed by any sequence of updates of its
  counts is read by the scanner of its table with the sums of the updates and the time of the last one. An object or hint row,
  written with the values its INSERT statement binds and read back by the scanner of its table, is the same object or hint:
  times to the nanosecond (for years with four digits), the deletion flag, the kind of hint, and custom metadata (empty
  metadata becomes an empty column), provided decoding inverts encoding for the metadata of the row.
\<close>

theorem row_roundtrip:
  assumes "printable_year t0" "\<forall>(_, _, t) \<in> set us. printable_year t"
    "printable_year (oCreatedAt obj)" "printable_year (oUpdatedAt obj)" "json_ok js (oCustomMetadata obj)"
    "printable_year (hNextAttemptAt hint)" "printable_year (hCreatedAt hint)" "json_ok js (hCustomMetadata hint)"
  shows "scanBucket (fold (\<lambda>(n, d, t). bucket_update n d t) us (bucket_values i name t0)) =
      Some \<lparr>bID = i, bName = name, bObjectCount = (\<Sum>(n, _, _)\<leftarrow>us. n), bTotalSize = (\<Sum>(_, d, _)\<leftarrow>us. d),
        bCreatedAt = t0, bUpdatedAt = last (t0 # map (snd \<circ> snd) us)\<rparr> \<and>
    Option.bind (object_values js obj) (scanObject js) = Some obj \<and>
    Option.bind (hint_values js hint) (scanHint js) = Some hint"
proof -
  have "\<forall>t \<in> set (t0 # map (snd \<circ> snd) us). printable_year t" using assms(1,2) by (auto split: prod.splits)
  then have "printable_year (last (t0 # map (snd \<circ> snd) us))" using last_in_set [of "t0 # map (snd \<circ> snd) us"] by blast
  then have "scanBucket (fold (\<lambda>(n, d, t). bucket_update n d t) us (bucket_values i name t0)) =
      Some \<lparr>bID = i, bName = name, bObjectCount = (\<Sum>(n, _, _)\<leftarrow>us. n), bTotalSize = (\<Sum>(_, d, _)\<leftarrow>us. d),
        bCreatedAt = t0, bUpdatedAt = last (t0 # map (snd \<circ> snd) us)\<rparr>"
    unfolding bucket_row using assms(1) by (simp add: scanBucket_def scan_time_printed del: last.simps)
  moreover have "Option.bind (object_values js obj) (scanObject js) = Some obj"
    using scan_metadata_encoded [OF assms(5)] assms(3,4)
    by (auto simp: object_values_def scanObject_def scan_time_printed boolToInt_def)
  moreover have "Option.bind (hint_values js hint) (scanHint js) = Some hint"
    using scan_metadata_encoded [OF assms(8)] assms(6,7)
    by (auto simp: hint_values_def scanHint_def scan_time_printed scan_kind_text)
  ultimately show ?thesis by blast
qed

definition example_json :: json where
  "example_json = \<lparr>jsonMarshal = (\<lambda>m. if m = [(''a'', ''b'')] then Some ''m1'' else None),
     jsonUnmarshal = (\<lambda>s. if s = ''m1'' then Some [(''a'', ''b'')] else None)\<rparr>"

definition example_row :: Object where
  "example_row = \<lparr>oID = ''1'', oBucketName = ''abc'', oKey = ''k'', oSize = 5, oContentType = ''text/plain'', oETag = ''e'', oStoragePath = ''/d/x'',
     oCustomMetadata = [(''a'', ''b'')], oVersion = 3, oReplicationStatus = ''partial'', oDeleted = True, oCreatedAt = 0, oUpdatedAt = 1500000000\<rparr>"

theorem row_roundtrip_witness:
  "Option.bind (object_values example_json example_row) (scanObject example_json) = Some example_row \<and>
   scanBucket (bucket_update (-1) (-5) 1500000000 (bucket_update 1 5 0 (bucket_values ''1'' ''abc'' 0))) =
     Some \<lparr>bID = ''1'', bName = ''abc'', bObjectCount = 0, bTotalSize = 0, bCreatedAt = 0, bUpdatedAt = 1500000000\<rparr>"
proof -
  let ?h = "\<lparr>hID = ''i'', hTargetNode = ''b'', hBucketName = ''abc'', hKey = ''k'', hVersion = 3, hETag = ''e'', hKind = HintKindRepair,
     hContentType = '''', hCustomMetadata = [], hSourceNode = ''a'', hSourcePath = '''', hAttempts = 0, hNextAttemptAt = 0, hStatus = ''pending'',
     hLastError = '''', hCreatedAt = 0\<rparr>"
  have p: "printable_year 0" "printable_year 1500000000" by code_simp+
  show ?thesis
    using row_roundtrip [of 0 "[(1, 5, 0), (-1, -5, 1500000000)]" example_row example_json ?h "''1''" "''abc''"] p
    by (simp add: json_ok_def example_row_def example_json_def)
qed

end
