(* ===== verification/Schema.thy ===== *)
theory Schema
  imports Rows BlobPath
begin

text \<open>
  \<^verbatim>\<open>Open\<close> of \<^verbatim>\<open>internal/metadata/sqlite/store.go\<close>: the tables, columns, constraints and indexes of the database file, and the
  steps that bring the file of an older version up to date. The theorem says that opening gives every table the columns
  the statements of the store use, loses nothing, fills the columns that came later with their defaults, keeps the
  constraints, and settles in one pass.
\<close>

section \<open>Files\<close>

text \<open>
  A column with its type, \<^verbatim>\<open>NOT NULL\<close> and \<^verbatim>\<open>DEFAULT\<close>. A table has the columns, the keys (\<^verbatim>\<open>PRIMARY KEY\<close> and \<^verbatim>\<open>UNIQUE\<close>, each a
  list of columns), the references (column, table, column, and whether \<^verbatim>\<open>ON DELETE CASCADE\<close>) and the rows, maps from
  columns to values. A file has tables and indexes by name, and the settings of the connection.
\<close>

record sql_column =
  cName :: string
  cType :: string
  cNotNull :: bool
  cDefault :: "sql_value option"

type_synonym sql_row = "string \<rightharpoonup> sql_value"

type_synonym sql_ref = "string \<times> string \<times> string \<times> bool"

record sql_table =
  tColumns :: "sql_column list"
  tKeys :: "string list list"
  tRefs :: "sql_ref list"
  tRows :: "sql_row list"

record sql_file =
  fTables :: "string \<rightharpoonup> sql_table"
  fIndexes :: "string \<rightharpoonup> string \<times> string list"
  fPragmas :: "string \<rightharpoonup> string"

datatype sql_stmt =
    Pragma string string
  | CreateTable string "sql_column list" "string list list" "sql_ref list"
  | CreateIndex string string "string list"
  | AddColumn string sql_column

definition tNames :: "sql_table \<Rightarrow> string list" where
  "tNames tab = map cName (tColumns tab)"

section \<open>Statements\<close>

text \<open>
  \<^verbatim>\<open>CREATE TABLE IF NOT EXISTS\<close> and \<^verbatim>\<open>CREATE INDEX IF NOT EXISTS\<close>, which needs the columns, and \<^verbatim>\<open>ALTER TABLE ... ADD COLUMN\<close>, which gives
  every row the default. Any statement may fail.
\<close>

definition add_column :: "sql_column \<Rightarrow> sql_table \<Rightarrow> sql_table" where
  "add_column c tab =
     tab\<lparr>tColumns := tColumns tab @ [c], tRows := map (\<lambda>r. r(cName c \<mapsto> (case cDefault c of None \<Rightarrow> SNull | Some v \<Rightarrow> v))) (tRows tab)\<rparr>"

fun stmt_label :: "sql_stmt \<Rightarrow> string" where
  "stmt_label (Pragma p v) = ''pragma:'' @ p"
| "stmt_label (CreateTable t cols ks refs) = ''create:'' @ t"
| "stmt_label (CreateIndex i t cols) = ''index:'' @ i"
| "stmt_label (AddColumn t c) = ''alter:'' @ cName c"

fun stmt_effect :: "sql_stmt \<Rightarrow> sql_file \<Rightarrow> sql_file res" where
  "stmt_effect (Pragma p v) f = Inr (f\<lparr>fPragmas := (fPragmas f)(p \<mapsto> v)\<rparr>)"
| "stmt_effect (CreateTable t cols ks refs) f =
     Inr (if fTables f t = None
          then f\<lparr>fTables := (fTables f)(t \<mapsto> \<lparr>tColumns = cols, tKeys = ks, tRefs = refs, tRows = []\<rparr>)\<rparr> else f)"
| "stmt_effect (CreateIndex i t cols) f =
     (if fIndexes f i \<noteq> None then Inr f
      else case fTables f t of
        None \<Rightarrow> Inl (sql_err ''no such table'')
      | Some tab \<Rightarrow>
          if \<not> set cols \<subseteq> set (tNames tab) then Inl (sql_err ''no such column'')
          else Inr (f\<lparr>fIndexes := (fIndexes f)(i \<mapsto> (t, cols))\<rparr>))"
| "stmt_effect (AddColumn t c) f =
     (case fTables f t of
        None \<Rightarrow> Inl (sql_err ''no such table'')
      | Some tab \<Rightarrow>
          if cName c \<in> set (tNames tab) then Inl (sql_err ''duplicate column name'')
          else if cNotNull c \<and> cDefault c = None then Inl (sql_err ''cannot add a NOT NULL column with default value NULL'')
          else Inr (f\<lparr>fTables := (fTables f)(t \<mapsto> add_column c tab)\<rparr>))"

text \<open>The statements of a script run one after the other; those before a failing one have been carried out.\<close>

fun exec_script :: "db_env \<Rightarrow> sql_stmt list \<Rightarrow> sql_file \<Rightarrow> sql_file \<times> unit res" where
  "exec_script env [] f = (f, Inr ())"
| "exec_script env (s # ss) f =
     (if db_fails env (stmt_label s) then (f, Inl (sql_err (stmt_label s)))
      else case stmt_effect s f of Inl e \<Rightarrow> (f, Inl e) | Inr f \<Rightarrow> exec_script env ss f)"

section \<open>The schema\<close>

definition text_col :: "string \<Rightarrow> sql_column" where
  "text_col n = \<lparr>cName = n, cType = ''TEXT'', cNotNull = True, cDefault = None\<rparr>"

definition int_col :: "string \<Rightarrow> sql_column" where
  "int_col n = \<lparr>cName = n, cType = ''INTEGER'', cNotNull = True, cDefault = None\<rparr>"

definition nullable :: "sql_column \<Rightarrow> sql_column" where
  "nullable c = c\<lparr>cNotNull := False\<rparr>"

definition with_default :: "sql_column \<Rightarrow> sql_value \<Rightarrow> sql_column" where
  "with_default c v = c\<lparr>cDefault := Some v\<rparr>"

definition schema :: "sql_stmt list" where
  "schema =
     [Pragma ''journal_mode'' ''WAL'', Pragma ''synchronous'' ''NORMAL'', Pragma ''busy_timeout'' ''5000'', Pragma ''foreign_keys'' ''ON'',
      CreateTable ''buckets''
        [text_col ''id'', text_col ''name'', with_default (int_col ''object_count'') (SInt 0), with_default (int_col ''total_size'') (SInt 0),
         text_col ''created_at'', text_col ''updated_at'']
        [[''id''], [''name'']] [],
      CreateTable ''objects''
        [text_col ''id'', text_col ''bucket_name'', text_col ''key'', int_col ''size'',
         with_default (text_col ''content_type'') (SText octet_stream), text_col ''etag'', text_col ''storage_path'',
         nullable (text_col ''custom_metadata''), with_default (int_col ''version'') (SInt 1),
         with_default (text_col ''replication_status'') (SText ''replicated''), with_default (int_col ''deleted'') (SInt 0),
         text_col ''created_at'', text_col ''updated_at'']
        [[''id''], [''bucket_name'', ''key'']] [(''bucket_name'', ''buckets'', ''name'', False)],
      CreateIndex ''idx_objects_bucket_key'' ''objects'' [''bucket_name'', ''key''],
      CreateTable ''multipart_uploads''
        [text_col ''id'', text_col ''bucket_name'', text_col ''key'', with_default (text_col ''content_type'') (SText octet_stream),
         text_col ''created_at'', text_col ''updated_at'']
        [[''id'']] [(''bucket_name'', ''buckets'', ''name'', False)],
      CreateTable ''multipart_upload_parts''
        [text_col ''id'', text_col ''upload_id'', int_col ''part_number'', int_col ''size'', text_col ''etag'', text_col ''storage_path'',
         text_col ''created_at'', text_col ''updated_at'']
        [[''id''], [''upload_id'', ''part_number'']] [(''upload_id'', ''multipart_uploads'', ''id'', True)],
      CreateIndex ''idx_multipart_uploads_bucket'' ''multipart_uploads'' [''bucket_name''],
      CreateTable ''s3_credentials''
        [text_col ''id'', with_default (text_col ''name'') (SText ''default''), text_col ''access_key_id'', text_col ''secret_access_key'',
         text_col ''created_at'', text_col ''updated_at'']
        [[''id''], [''access_key_id'']] []]"

definition hints_schema :: "sql_stmt list" where
  "hints_schema =
     [CreateTable ''replication_hints''
        [text_col ''id'', text_col ''target_node'', text_col ''bucket_name'', text_col ''key'', int_col ''version'',
         with_default (text_col ''etag'') (SText ''''), text_col ''kind'', with_default (text_col ''content_type'') (SText ''''),
         nullable (text_col ''custom_metadata''), text_col ''source_node'', with_default (text_col ''source_path'') (SText ''''),
         with_default (int_col ''attempts'') (SInt 0), text_col ''next_attempt_at'', with_default (text_col ''status'') (SText ''pending''),
         nullable (text_col ''last_error''), text_col ''created_at'']
        [[''id''], [''target_node'', ''bucket_name'', ''key'', ''version'', ''kind'']] [],
      CreateIndex ''idx_hints_due'' ''replication_hints'' [''status'', ''next_attempt_at'']]"

section \<open>Migrations\<close>

definition tableColumns :: "db_env \<Rightarrow> string \<Rightarrow> sql_file \<Rightarrow> string list res" where
  "tableColumns env t f =
     (if db_fails env (''info:'' @ t) then Inl (sql_err (''info:'' @ t))
      else Inr (case fTables f t of None \<Rightarrow> [] | Some tab \<Rightarrow> tNames tab))"

text \<open>One ALTER TABLE per column that the table was found to lack.\<close>

definition add_missing :: "db_env \<Rightarrow> string \<Rightarrow> string list \<Rightarrow> sql_column list \<Rightarrow> sql_file \<Rightarrow> sql_file \<times> unit res" where
  "add_missing env t cols cs f = exec_script env (map (AddColumn t) (filter (\<lambda>c. cName c \<notin> set cols) cs)) f"

definition migrateObjectsTable :: "db_env \<Rightarrow> sql_file \<Rightarrow> sql_file \<times> unit res" where
  "migrateObjectsTable env f =
     (case tableColumns env ''objects'' f of
        Inl e \<Rightarrow> (f, Inl e)
      | Inr cols \<Rightarrow>
          add_missing env ''objects'' cols
            [with_default (int_col ''version'') (SInt 1), with_default (text_col ''replication_status'') (SText ''replicated''),
             with_default (int_col ''deleted'') (SInt 0)] f)"

definition migrateHintsTable :: "db_env \<Rightarrow> sql_file \<Rightarrow> sql_file \<times> unit res" where
  "migrateHintsTable env f =
     (if db_fails env ''master'' then (f, Inl (sql_err ''master''))
      else if fTables f ''replication_hints'' = None then exec_script env hints_schema f
      else (f, Inr ()))"

definition migrateHintsColumns :: "db_env \<Rightarrow> sql_file \<Rightarrow> sql_file \<times> unit res" where
  "migrateHintsColumns env f =
     (case tableColumns env ''replication_hints'' f of
        Inl e \<Rightarrow> (f, Inl e)
      | Inr cols \<Rightarrow> add_missing env ''replication_hints'' cols [with_default (text_col ''source_path'') (SText '''')] f)"

text \<open>
  \<^verbatim>\<open>Open\<close>. The directory of the file is created first (its only effect here is that it may fail); the steps stop at
  the first error.
\<close>

fun in_order :: "('s \<Rightarrow> 's \<times> unit res) list \<Rightarrow> 's \<Rightarrow> 's \<times> unit res" where
  "in_order [] s = (s, Inr ())"
| "in_order (f # fs) s = (case f s of (s, Inl e) \<Rightarrow> (s, Inl e) | (s, Inr _) \<Rightarrow> in_order fs s)"

definition Open :: "db_env \<Rightarrow> string \<Rightarrow> sql_file \<Rightarrow> sql_file \<times> unit res" where
  "Open env dbPath f =
     (let dir = Dir dbPath in
      if dir \<noteq> '''' \<and> dir \<noteq> ''.'' \<and> db_fails env ''mkdir'' then (f, Inl (os_err ''mkdir''))
      else if db_fails env ''open'' then (f, Inl (sql_err ''open''))
      else in_order [exec_script env schema, migrateObjectsTable env, migrateHintsTable env, migrateHintsColumns env] f)"

section \<open>What the store needs\<close>

text \<open>
  The columns that the statements of \<^verbatim>\<open>store.go\<close>, \<^verbatim>\<open>multipart.go\<close>, \<^verbatim>\<open>hints.go\<close> and \<^verbatim>\<open>credentials.go\<close> name, per table; the columns the
  tables did not have from the start, with the value that a row from before them stands for: an object was in its
  first version, was replicated and was not deleted, and a hint had no staged payload; the keys that the upserts and
  the conflict checks rely on; the indexes; and the settings of the connection.
\<close>

definition used_columns :: "(string \<times> string list) list" where
  "used_columns =
     [(''buckets'', [''id'', ''name'', ''object_count'', ''total_size'', ''created_at'', ''updated_at'']),
      (''objects'', [''id'', ''bucket_name'', ''key'', ''size'', ''content_type'', ''etag'', ''storage_path'', ''custom_metadata'', ''version'',
         ''replication_status'', ''deleted'', ''created_at'', ''updated_at'']),
      (''multipart_uploads'', [''id'', ''bucket_name'', ''key'', ''content_type'', ''created_at'', ''updated_at'']),
      (''multipart_upload_parts'', [''id'', ''upload_id'', ''part_number'', ''size'', ''etag'', ''storage_path'', ''created_at'', ''updated_at'']),
      (''s3_credentials'', [''id'', ''name'', ''access_key_id'', ''secret_access_key'', ''created_at'', ''updated_at'']),
      (''replication_hints'', [''id'', ''target_node'', ''bucket_name'', ''key'', ''version'', ''etag'', ''kind'', ''content_type'', ''custom_metadata'',
         ''source_node'', ''source_path'', ''attempts'', ''next_attempt_at'', ''status'', ''last_error'', ''created_at''])]"

definition later :: "string \<Rightarrow> (string \<times> sql_value) list" where
  "later t =
     (if t = ''objects'' then [(''version'', SInt 1), (''replication_status'', SText ''replicated''), (''deleted'', SInt 0)]
      else if t = ''replication_hints'' then [(''source_path'', SText '''')]
      else [])"

definition unique_keys :: "(string \<times> string list list) list" where
  "unique_keys =
     [(''buckets'', [[''id''], [''name'']]), (''objects'', [[''id''], [''bucket_name'', ''key'']]), (''multipart_uploads'', [[''id'']]),
      (''multipart_upload_parts'', [[''id''], [''upload_id'', ''part_number'']]), (''s3_credentials'', [[''id''], [''access_key_id'']]),
      (''replication_hints'', [[''id''], [''target_node'', ''bucket_name'', ''key'', ''version'', ''kind'']])]"

definition lookup_indexes :: "(string \<times> string \<times> string list) list" where
  "lookup_indexes =
     [(''idx_objects_bucket_key'', ''objects'', [''bucket_name'', ''key'']),
      (''idx_multipart_uploads_bucket'', ''multipart_uploads'', [''bucket_name'']),
      (''idx_hints_due'', ''replication_hints'', [''status'', ''next_attempt_at''])]"

definition settings :: "(string \<times> string) list" where
  "settings = [(''journal_mode'', ''WAL''), (''synchronous'', ''NORMAL''), (''busy_timeout'', ''5000''), (''foreign_keys'', ''ON'')]"

text \<open>The rows of a table have its columns, respect NOT NULL and are unique in every key.\<close>

definition table_ok :: "sql_table \<Rightarrow> bool" where
  "table_ok tab \<longleftrightarrow>
     (\<forall>r \<in> set (tRows tab). dom r = set (tNames tab) \<and> (\<forall>c \<in> set (tColumns tab). cNotNull c \<longrightarrow> r (cName c) \<noteq> Some SNull)) \<and>
     (\<forall>k \<in> set (tKeys tab). set k \<subseteq> set (tNames tab) \<and> distinct (map (\<lambda>r. map r k) (tRows tab)))"

text \<open>
  A file of this or an earlier version, or none: a table may be missing, and may lack columns that came later; it has its
  keys, and rows that respect them.
\<close>

definition earlier :: "sql_file \<Rightarrow> bool" where
  "earlier f \<longleftrightarrow> (\<forall>(t, cols) \<in> set used_columns. \<forall>tab. fTables f t = Some tab \<longrightarrow>
     set (tNames tab) \<union> fst ` set (later t) = set cols \<and> Some (tKeys tab) = map_of unique_keys t \<and> table_ok tab)"

definition upgrade :: "string \<Rightarrow> sql_row \<Rightarrow> sql_row" where
  "upgrade t r = map_of (later t) ++ r"

section \<open>Scripts without failures\<close>

definition or_else :: "('k \<rightharpoonup> 'v) \<Rightarrow> ('k \<rightharpoonup> 'v) \<Rightarrow> 'k \<rightharpoonup> 'v" where
  "or_else m n k = (case m k of None \<Rightarrow> n k | Some v \<Rightarrow> Some v)"

lemma or_else_simps [simp]:
  "or_else m Map.empty = m"
  "m k = None \<Longrightarrow> or_else (m(k \<mapsto> v)) n = or_else m (n(k \<mapsto> v))"
  "m k = Some v \<Longrightarrow> or_else m n k = Some v"
  "m k = None \<Longrightarrow> or_else m n k = n k"
  by (auto simp: or_else_def fun_eq_iff split: option.split)

lemma or_else_present: "m k \<noteq> None \<Longrightarrow> or_else m (n(k \<mapsto> v)) = or_else m n"
  by (auto simp: or_else_def fun_eq_iff split: option.split)

text \<open>What a script creates, and that the tables it indexes have the columns.\<close>

fun new_tables :: "sql_stmt list \<Rightarrow> (string \<times> sql_table) list" where
  "new_tables [] = []"
| "new_tables (CreateTable t cols ks refs # ss) = (t, \<lparr>tColumns = cols, tKeys = ks, tRefs = refs, tRows = []\<rparr>) # new_tables ss"
| "new_tables (s # ss) = new_tables ss"

fun new_indexes :: "sql_stmt list \<Rightarrow> (string \<times> string \<times> string list) list" where
  "new_indexes [] = []"
| "new_indexes (CreateIndex i t cols # ss) = (i, t, cols) # new_indexes ss"
| "new_indexes (s # ss) = new_indexes ss"

fun new_settings :: "sql_stmt list \<Rightarrow> (string \<times> string) list" where
  "new_settings [] = []"
| "new_settings (Pragma p v # ss) = new_settings ss @ [(p, v)]"
| "new_settings (s # ss) = new_settings ss"

fun fits :: "sql_stmt list \<Rightarrow> (string \<rightharpoonup> sql_table) \<Rightarrow> bool" where
  "fits [] T \<longleftrightarrow> True"
| "fits (Pragma p v # ss) T \<longleftrightarrow> fits ss T"
| "fits (CreateTable t cols ks refs # ss) T \<longleftrightarrow> fits ss (or_else T [t \<mapsto> \<lparr>tColumns = cols, tKeys = ks, tRefs = refs, tRows = []\<rparr>])"
| "fits (CreateIndex i t cols # ss) T \<longleftrightarrow> (\<exists>tab. T t = Some tab \<and> set cols \<subseteq> set (tNames tab)) \<and> fits ss T"
| "fits (AddColumn t c # ss) T \<longleftrightarrow> False"

lemma exec_script_creates:
  assumes "\<forall>l. \<not> db_fails env l" "fits ss (fTables f)"
  shows "exec_script env ss f =
    (\<lparr>fTables = or_else (fTables f) (map_of (new_tables ss)), fIndexes = or_else (fIndexes f) (map_of (new_indexes ss)),
      fPragmas = fPragmas f ++ map_of (new_settings ss)\<rparr>, Inr ())"
  using assms(2)
proof (induction ss arbitrary: f)
  case Nil
  then show ?case by (simp add: or_else_def fun_eq_iff split: option.split)
next
  case (Cons s ss)
  show ?case
  proof (cases s)
    case (Pragma p v)
    have "(m(p \<mapsto> v)) ++ n = m ++ (map_of [(p, v)] ++ n)" for m n :: "string \<rightharpoonup> string"
      by (auto simp: map_add_def fun_eq_iff split: option.split)
    with Pragma Cons assms(1) show ?thesis by (simp del: fun_upd_apply)
  next
    case (CreateTable t cols ks refs)
    let ?new = "\<lparr>tColumns = cols, tKeys = ks, tRefs = refs, tRows = []\<rparr>"
    have e: "stmt_effect s f = Inr (f\<lparr>fTables := or_else (fTables f) [t \<mapsto> ?new]\<rparr>)"
      by (cases "fTables f t") (auto simp: CreateTable or_else_def fun_eq_iff split: option.split)
    moreover have "or_else (or_else (fTables f) [t \<mapsto> ?new]) m = or_else (fTables f) (m(t \<mapsto> ?new))" for m
      by (auto simp: or_else_def fun_eq_iff split: option.split)
    ultimately show ?thesis using Cons assms(1) by (simp add: CreateTable del: fun_upd_apply)
  next
    case (CreateIndex i t cols)
    with Cons.prems obtain tab where "fTables f t = Some tab" "set cols \<subseteq> set (tNames tab)" "fits ss (fTables f)" by auto
    then have "stmt_effect s f = Inr (f\<lparr>fIndexes := or_else (fIndexes f) [i \<mapsto> (t, cols)]\<rparr>)"
      by (cases "fIndexes f i") (auto simp: CreateIndex or_else_def fun_eq_iff split: option.split)
    moreover have "or_else (or_else (fIndexes f) [i \<mapsto> (t, cols)]) m = or_else (fIndexes f) (m(i \<mapsto> (t, cols)))" for m
      by (auto simp: or_else_def fun_eq_iff split: option.split)
    ultimately show ?thesis using Cons.IH [of "f\<lparr>fIndexes := or_else (fIndexes f) [i \<mapsto> (t, cols)]\<rparr>"] \<open>fits ss (fTables f)\<close> assms(1)
      by (simp add: CreateIndex del: fun_upd_apply)
  next
    case (AddColumn t c)
    with Cons.prems show ?thesis by simp
  qed
qed

section \<open>Columns that came later\<close>

definition fill :: "sql_column list \<Rightarrow> sql_table \<Rightarrow> sql_table" where
  "fill cs tab = fold (\<lambda>c tab. if cName c \<in> set (tNames tab) then tab else add_column c tab) cs tab"

lemma fill_simps [simp]:
  "fill [] tab = tab"
  "fill (c # cs) tab = (if cName c \<in> set (tNames tab) then fill cs tab else fill cs (add_column c tab))"
  by (simp_all add: fill_def)

lemma add_column_simps [simp]:
  "tNames (add_column c tab) = tNames tab @ [cName c]" "tKeys (add_column c tab) = tKeys tab"
  "tRows (add_column c tab) = map (\<lambda>r. r(cName c \<mapsto> (case cDefault c of None \<Rightarrow> SNull | Some v \<Rightarrow> v))) (tRows tab)"
  by (simp_all add: add_column_def tNames_def)

lemma fill_names: "set (tNames (fill cs tab)) = set (tNames tab) \<union> cName ` set cs"
  by (induction cs arbitrary: tab) auto

lemma fill_keys [simp]: "tKeys (fill cs tab) = tKeys tab"
  by (induction cs arbitrary: tab) auto

lemma fill_present: "cName ` set cs \<subseteq> set (tNames tab) \<Longrightarrow> fill cs tab = tab"
  by (induction cs arbitrary: tab) auto

text \<open>The column is NOT NULL with a default.\<close>

definition addable :: "sql_column \<Rightarrow> bool" where
  "addable c \<longleftrightarrow> (\<exists>v. cDefault c = Some v \<and> v \<noteq> SNull)"

lemma table_ok_add_column:
  assumes "table_ok tab" "addable c" "cName c \<notin> set (tNames tab)"
  shows "table_ok (add_column c tab)"
proof -
  obtain v where v: "cDefault c = Some v" "v \<noteq> SNull" using assms(2) by (auto simp: addable_def)
  have n: "cName d \<noteq> cName c" if "d \<in> set (tColumns tab)" for d using that assms(3) by (metis image_eqI list.set_map tNames_def)
  have "map (\<lambda>r. map (r(cName c \<mapsto> v)) k) rows = map (\<lambda>r. map r k) rows" if "set k \<subseteq> set (tNames tab)" for k rows
    using that assms(3) by (auto intro!: map_cong)
  then have "\<forall>k \<in> set (tKeys tab). distinct (map (\<lambda>r. map r k) (map (\<lambda>r. r(cName c \<mapsto> v)) (tRows tab)))"
    using assms(1) by (simp add: table_ok_def comp_def del: map_eq_conv)
  moreover have "dom (r(cName c \<mapsto> v)) = set (tNames tab @ [cName c]) \<and>
      (\<forall>d \<in> set (tColumns tab @ [c]). cNotNull d \<longrightarrow> (r(cName c \<mapsto> v)) (cName d) \<noteq> Some SNull)" if "r \<in> set (tRows tab)" for r
    using that assms(1) n v(2) by (auto simp: table_ok_def)
  moreover have "\<forall>k \<in> set (tKeys tab). set k \<subseteq> set (tNames tab @ [cName c])" using assms(1) by (auto simp: table_ok_def)
  moreover have "tColumns (add_column c tab) = tColumns tab @ [c]" by (simp add: add_column_def)
  ultimately show ?thesis unfolding table_ok_def add_column_simps v(1) option.case by (simp del: fun_upd_apply)
qed

lemma table_ok_fill: "table_ok tab \<Longrightarrow> list_all addable cs \<Longrightarrow> table_ok (fill cs tab)"
  by (induction cs arbitrary: tab) (auto simp: table_ok_add_column)

definition defaults :: "sql_column list \<Rightarrow> (string \<times> sql_value) list" where
  "defaults cs = map (\<lambda>c. (cName c, the (cDefault c))) cs"

lemma fill_rows:
  assumes "distinct (map cName cs)" "list_all addable cs" "\<forall>r \<in> set (tRows tab). dom r = set (tNames tab)"
  shows "tRows (fill cs tab) = map (\<lambda>r. map_of (defaults cs) ++ r) (tRows tab)"
  using assms
proof (induction cs arbitrary: tab)
  case (Cons c cs)
  obtain v where v: "cDefault c = Some v" using Cons.prems(2) by (auto simp: addable_def)
  have c: "map_of (defaults cs) (cName c) = None" using Cons.prems(1) by (simp add: map_of_eq_None_iff defaults_def image_image)
  have d: "map_of (defaults (c # cs)) = (map_of (defaults cs))(cName c \<mapsto> v)" using v by (simp add: defaults_def)
  show ?case
  proof (cases "cName c \<in> set (tNames tab)")
    case True
    then have "map_of (defaults (c # cs)) ++ r = map_of (defaults cs) ++ r" if "r \<in> set (tRows tab)" for r
      using Cons.prems(3) that unfolding d by (auto simp: map_add_def fun_eq_iff split: option.split)
    then have "map (\<lambda>r. map_of (defaults (c # cs)) ++ r) (tRows tab) = map (\<lambda>r. map_of (defaults cs) ++ r) (tRows tab)" by simp
    with Cons True show ?thesis by simp
  next
    case False
    have "map_of (defaults cs) ++ r(cName c \<mapsto> v) = map_of (defaults (c # cs)) ++ r" if "r \<in> set (tRows tab)" for r
    proof -
      have "r (cName c) = None" using Cons.prems(3) False that by blast
      then show ?thesis using c unfolding d by (auto simp: map_add_def fun_eq_iff split: option.split)
    qed
    moreover have "\<forall>r \<in> set (tRows (add_column c tab)). dom r = set (tNames (add_column c tab))" using Cons.prems(3) by auto
    ultimately show ?thesis using Cons.IH [of "add_column c tab"] Cons.prems(1,2) False v by simp
  qed
qed (simp add: defaults_def map_idI)

lemma add_missing_fill:
  assumes "\<forall>l. \<not> db_fails env l" "fTables f t = Some tab" "distinct (map cName cs)" "list_all addable cs"
  shows "add_missing env t (tNames tab) cs f = (f\<lparr>fTables := (fTables f)(t \<mapsto> fill cs tab)\<rparr>, Inr ())"
proof -
  have "exec_script env (map (AddColumn t) (filter (\<lambda>c. cName c \<notin> set cols) cs)) f = (f\<lparr>fTables := (fTables f)(t \<mapsto> fill cs tab)\<rparr>, Inr ())"
    if "\<forall>c \<in> set cs. cName c \<in> set cols \<longleftrightarrow> cName c \<in> set (tNames tab)" for cols
    using that assms(2-)
  proof (induction cs arbitrary: f tab)
    case Nil
    then have "(fTables f)(t \<mapsto> tab) = fTables f" by (auto simp: fun_eq_iff)
    then show ?case by simp
  next
    case (Cons c cs)
    show ?case
    proof (cases "cName c \<in> set cols")
      case True
      with Cons show ?thesis by simp
    next
      case False
      let ?f = "f\<lparr>fTables := (fTables f)(t \<mapsto> add_column c tab)\<rparr>"
      have n: "cName c \<notin> set (tNames tab)" using False Cons.prems(1) by simp
      then have "stmt_effect (AddColumn t c) f = Inr ?f" using Cons.prems by (auto simp: addable_def)
      moreover have "\<forall>d \<in> set cs. cName d \<in> set cols \<longleftrightarrow> cName d \<in> set (tNames (add_column c tab))" using Cons.prems(1,3) by (auto simp: image_iff)
      then have "exec_script env (map (AddColumn t) (filter (\<lambda>c. cName c \<notin> set cols) cs)) ?f =
          (?f\<lparr>fTables := (fTables ?f)(t \<mapsto> fill cs (add_column c tab))\<rparr>, Inr ())"
        using Cons.prems(3,4) by (intro Cons.IH) simp_all
      ultimately show ?thesis using False n assms(1) by (simp del: fun_upd_apply)
    qed
  qed
  then show ?thesis by (simp add: add_missing_def)
qed

section \<open>Opening\<close>

text \<open>The columns the migrations add, and that they are those that came later, with their defaults.\<close>

definition added :: "string \<Rightarrow> sql_column list" where
  "added t =
     (if t = ''objects'' then [with_default (int_col ''version'') (SInt 1), with_default (text_col ''replication_status'') (SText ''replicated''),
        with_default (int_col ''deleted'') (SInt 0)]
      else if t = ''replication_hints'' then [with_default (text_col ''source_path'') (SText '''')] else [])"

lemma added_facts:
  "list_all addable (added t)" "distinct (map cName (added t))" "defaults (added t) = later t"
  by (simp_all add: added_def later_def defaults_def addable_def with_default_def int_col_def text_col_def)

lemma added_tables:
  "added ''objects'' = [with_default (int_col ''version'') (SInt 1), with_default (text_col ''replication_status'') (SText ''replicated''),
     with_default (int_col ''deleted'') (SInt 0)]"
  "added ''replication_hints'' = [with_default (text_col ''source_path'') (SText '''')]"
  by (simp_all add: added_def)

lemma added_names: "cName ` set (added t) = fst ` set (later t)"
  unfolding added_facts(3) [symmetric] by (simp add: defaults_def image_image)

definition created :: "string \<rightharpoonup> sql_table" where
  "created = map_of (new_tables (schema @ hints_schema))"

text \<open>The tables of the schema have the columns and keys the store needs, those that came later included.\<close>

lemma created_facts:
  "list_all (\<lambda>(t, cols). case created t of None \<Rightarrow> False | Some tab \<Rightarrow>
     set (tNames tab) = set cols \<and> Some (tKeys tab) = map_of unique_keys t \<and> tRows tab = [] \<and>
     list_all (\<lambda>k. set k \<subseteq> set (tNames tab)) (tKeys tab)) used_columns"
  "list_all (\<lambda>(t, cols). fst ` set (later t) \<subseteq> set cols) used_columns"
  "map fst (new_tables (schema @ hints_schema)) = map fst used_columns" "distinct (map fst used_columns)"
  "new_indexes (schema @ hints_schema) = lookup_indexes" "new_indexes schema = take 2 lookup_indexes" "new_settings schema = rev settings"
  "fst ` set (new_tables hints_schema) = {''replication_hints''}" "''replication_hints'' \<notin> fst ` set (new_tables schema)"
  by code_simp+

lemma created_table:
  assumes "map_of used_columns t = Some cols"
  shows "\<exists>tab. created t = Some tab \<and> set (tNames tab) = set cols \<and> Some (tKeys tab) = map_of unique_keys t \<and> tRows tab = [] \<and> table_ok tab"
proof -
  have "case created t of None \<Rightarrow> False | Some tab \<Rightarrow>
     set (tNames tab) = set cols \<and> Some (tKeys tab) = map_of unique_keys t \<and> tRows tab = [] \<and>
     list_all (\<lambda>k. set k \<subseteq> set (tNames tab)) (tKeys tab)"
    using created_facts(1) map_of_SomeD [OF assms] unfolding list_all_iff by blast
  then show ?thesis by (cases "created t") (auto simp: table_ok_def list_all_iff)
qed

lemma created_none: "created t = None \<longleftrightarrow> map_of used_columns t = None"
  unfolding created_def map_of_eq_None_iff using created_facts(3) by (metis list.set_map)

lemma later_used: "map_of used_columns t = Some cols \<Longrightarrow> fst ` set (later t) \<subseteq> set cols"
  using created_facts(2) map_of_SomeD [of used_columns t cols] unfolding list_all_iff by blast

definition opened :: "sql_file \<Rightarrow> sql_file" where
  "opened f =
     \<lparr>fTables = (\<lambda>t. case fTables f t of None \<Rightarrow> created t | Some tab \<Rightarrow> Some (fill (added t) tab)),
      fIndexes = or_else (fIndexes f) (map_of (if fTables f ''replication_hints'' = None then new_indexes (schema @ hints_schema) else new_indexes schema)),
      fPragmas = fPragmas f ++ map_of (new_settings schema)\<rparr>"

lemma earlierD:
  assumes "earlier f" "map_of used_columns t = Some cols" "fTables f t = Some tab"
  shows "set (tNames tab) \<union> fst ` set (later t) = set cols" "Some (tKeys tab) = map_of unique_keys t" "table_ok tab"
  using bspec [OF assms(1) [unfolded earlier_def] map_of_SomeD [OF assms(2)]] assms(3) by simp_all

lemma or_else_this: "or_else m [k \<mapsto> v] k = Some (case m k of None \<Rightarrow> v | Some w \<Rightarrow> w)"
  by (simp add: or_else_def split: option.split)

lemma or_else_other: "k' \<noteq> k \<Longrightarrow> or_else m [k \<mapsto> v] k' = m k'"
  by (simp add: or_else_def split: option.split)

text \<open>The indexes of the schema are on columns that every earlier version had.\<close>

lemma earlier_indexed:
  assumes "earlier f"
  shows "fTables f ''objects'' = Some tab \<Longrightarrow> {''bucket_name'', ''key''} \<subseteq> set (tNames tab)"
    "fTables f ''multipart_uploads'' = Some tab \<Longrightarrow> ''bucket_name'' \<in> set (tNames tab)"
proof -
  have u: "map_of used_columns ''objects'' = Some (snd (used_columns ! 1))" "map_of used_columns ''multipart_uploads'' = Some (snd (used_columns ! 2))"
    "{''bucket_name'', ''key''} \<subseteq> set (snd (used_columns ! 1)) - fst ` set (later ''objects'')"
    "{''bucket_name''} \<subseteq> set (snd (used_columns ! 2)) - fst ` set (later ''multipart_uploads'')" by code_simp+
  show "fTables f ''objects'' = Some tab \<Longrightarrow> {''bucket_name'', ''key''} \<subseteq> set (tNames tab)"
    using earlierD(1) [OF assms u(1), of tab] u(3) by blast
  show "fTables f ''multipart_uploads'' = Some tab \<Longrightarrow> ''bucket_name'' \<in> set (tNames tab)"
    using earlierD(1) [OF assms u(2), of tab] u(4) by blast
qed

lemma fits_schema:
  assumes "earlier f"
  shows "fits schema (fTables f)"
  using earlier_indexed [OF assms]
  by (auto simp: schema_def or_else_this or_else_other tNames_def text_col_def int_col_def with_default_def nullable_def split: option.split)

lemma fits_hints: "T ''replication_hints'' = None \<Longrightarrow> fits hints_schema T"
  by (simp add: hints_schema_def or_else_this tNames_def text_col_def int_col_def with_default_def nullable_def)

lemma new_tables_append: "new_tables (ss @ ts) = new_tables ss @ new_tables ts"
  by (induction ss rule: new_tables.induct) auto

lemma new_indexes_append: "new_indexes (ss @ ts) = new_indexes ss @ new_indexes ts"
  by (induction ss rule: new_indexes.induct) auto

lemma created_split:
  "created = or_else (map_of (new_tables schema)) (map_of (new_tables hints_schema))"
  by (auto simp: created_def new_tables_append or_else_def map_add_def fun_eq_iff map_of_eq_None_iff split: option.split)

lemma created_hints:
  "map_of (new_tables schema) ''replication_hints'' = None" "t \<noteq> ''replication_hints'' \<Longrightarrow> created t = map_of (new_tables schema) t"
  "created ''replication_hints'' = map_of (new_tables hints_schema) ''replication_hints''"
proof -
  have "map_of (new_tables hints_schema) t = None" if "t \<noteq> ''replication_hints''" for t
    using that created_facts(8) by (simp add: map_of_eq_None_iff)
  then show "t \<noteq> ''replication_hints'' \<Longrightarrow> created t = map_of (new_tables schema) t"
    by (auto simp: created_split or_else_def split: option.split)
  show n: "map_of (new_tables schema) ''replication_hints'' = None" using created_facts(9) by (simp add: map_of_eq_None_iff)
  then show "created ''replication_hints'' = map_of (new_tables hints_schema) ''replication_hints''" by (simp add: created_split)
qed

text \<open>A table that was just created lacks nothing.\<close>

lemma fill_created:
  assumes "created t = Some tab"
  shows "fill (added t) tab = tab"
proof (rule fill_present)
  obtain cols where c: "map_of used_columns t = Some cols" using assms created_none [of t] by (cases "map_of used_columns t") auto
  then show "cName ` set (added t) \<subseteq> set (tNames tab)"
    using created_table [OF c] later_used [OF c] assms unfolding added_names by auto
qed

lemma migrate_fill:
  assumes "\<forall>l. \<not> db_fails env l" "fTables f t = Some tab"
  shows "(case tableColumns env t f of Inl e \<Rightarrow> (f, Inl e) | Inr cols \<Rightarrow> add_missing env t cols (added t) f) =
    (f\<lparr>fTables := (fTables f)(t \<mapsto> fill (added t) tab)\<rparr>, Inr ())"
  using add_missing_fill [OF assms added_facts(2,1)] assms by (simp add: tableColumns_def)

text \<open>The migrations after the schema: the table of hints is created when it is missing, and both tables are filled up.\<close>

lemma migrations:
  assumes ok: "\<forall>l. \<not> db_fails env l" and o: "fTables f ''objects'' = Some otab"
  shows "in_order [migrateObjectsTable env, migrateHintsTable env, migrateHintsColumns env] f =
    (\<lparr>fTables = (\<lambda>t. if t = ''objects'' then Some (fill (added t) otab)
         else if t = ''replication_hints'' then map_option (fill (added t)) (or_else (fTables f) created t) else fTables f t),
      fIndexes = (if fTables f ''replication_hints'' = None then or_else (fIndexes f) (map_of (new_indexes hints_schema)) else fIndexes f),
      fPragmas = fPragmas f\<rparr>, Inr ())" (is "_ = (?r, _)")
proof -
  let ?f2 = "f\<lparr>fTables := (fTables f)(''objects'' \<mapsto> fill (added ''objects'') otab)\<rparr>"
  have m2: "migrateObjectsTable env f = (?f2, Inr ())"
    unfolding migrateObjectsTable_def added_tables(1) [symmetric] by (rule migrate_fill [OF ok o])
  obtain htab f3 where m3: "migrateHintsTable env ?f2 = (f3, Inr ())" "fTables f3 = (fTables ?f2)(''replication_hints'' \<mapsto> htab)"
    "or_else (fTables f) created ''replication_hints'' = Some htab" "fIndexes f3 = fIndexes ?r" "fPragmas f3 = fPragmas f"
  proof (cases "fTables f ''replication_hints''")
    case None
    obtain htab where h: "map_of (new_tables hints_schema) = [''replication_hints'' \<mapsto> htab]"
      by (simp add: hints_schema_def)
    have "or_else (fTables ?f2) [''replication_hints'' \<mapsto> htab] = (fTables ?f2)(''replication_hints'' \<mapsto> htab)"
      using None by (auto simp: or_else_def fun_eq_iff split: option.split)
    moreover have "new_settings hints_schema = []" by (simp add: hints_schema_def)
    moreover have "fTables ?f2 ''replication_hints'' = None" using None by simp
    ultimately show thesis
      using that [of "\<lparr>fTables = (fTables ?f2)(''replication_hints'' \<mapsto> htab),
          fIndexes = or_else (fIndexes f) (map_of (new_indexes hints_schema)), fPragmas = fPragmas f\<rparr>" htab] None exec_script_creates [OF ok fits_hints [of "fTables ?f2"]] ok created_hints(3)
      by (simp add: migrateHintsTable_def h or_else_def)
  next
    case (Some htab)
    then have "(fTables ?f2)(''replication_hints'' \<mapsto> htab) = fTables ?f2" by (auto simp: fun_eq_iff)
    then show thesis using that [of ?f2 htab] Some ok by (simp add: migrateHintsTable_def or_else_def)
  qed
  have "fTables f3 ''replication_hints'' = Some htab" by (simp add: m3(2))
  from migrate_fill [OF ok this] have m4: "migrateHintsColumns env f3 =
      (f3\<lparr>fTables := (fTables f3)(''replication_hints'' \<mapsto> fill (added ''replication_hints'') htab)\<rparr>, Inr ())"
    unfolding migrateHintsColumns_def added_tables(2) [symmetric] .
  have "f3\<lparr>fTables := (fTables f3)(''replication_hints'' \<mapsto> fill (added ''replication_hints'') htab)\<rparr> = ?r"
    by (rule sql_file.equality) (use m3(2-5) in \<open>simp_all add: fun_eq_iff\<close>)
  then show ?thesis using m2 m3(1) m4 by simp
qed

lemma Open_opened:
  assumes "\<forall>l. \<not> db_fails env l" "earlier f"
  shows "Open env dbPath f = (opened f, Inr ())"
proof -
  let ?f1 = "\<lparr>fTables = or_else (fTables f) (map_of (new_tables schema)), fIndexes = or_else (fIndexes f) (map_of (new_indexes schema)),
      fPragmas = fPragmas f ++ map_of (new_settings schema)\<rparr>"
  have m1: "exec_script env schema f = (?f1, Inr ())" by (rule exec_script_creates [OF assms(1) fits_schema [OF assms(2)]])
  have u: "map_of used_columns ''objects'' = Some (snd (used_columns ! 1))" by code_simp
  obtain otab where "created ''objects'' = Some otab" using created_table [OF u] by blast
  then obtain tab where o: "fTables ?f1 ''objects'' = Some tab"
    using created_hints(2) [of "''objects''"] by (cases "fTables f ''objects''") (auto simp: or_else_def)
  have h: "fTables ?f1 ''replication_hints'' = fTables f ''replication_hints''"
    using created_hints(1) by (simp add: or_else_def split: option.split)
  have t: "(if t = ''objects'' then Some (fill (added t) tab)
      else if t = ''replication_hints'' then map_option (fill (added t)) (or_else (fTables ?f1) created t) else fTables ?f1 t) =
      (case fTables f t of None \<Rightarrow> created t | Some tab \<Rightarrow> Some (fill (added t) tab))" for t
  proof (cases "t = ''replication_hints''")
    case True
    then show ?thesis using h fill_created [of t] by (cases "created t") (auto simp: or_else_def split: option.split)
  next
    case False
    moreover have "added t = []" if "t \<noteq> ''objects''" using that False by (simp add: added_def)
    ultimately show ?thesis
      using o fill_created [of t] created_hints(2) [OF False] by (auto simp: or_else_def split: option.splits)
  qed
  have i: "or_else (or_else m (map_of (new_indexes schema))) (map_of (new_indexes hints_schema)) = or_else m (map_of (new_indexes (schema @ hints_schema)))" for m
    by (auto simp: or_else_def new_indexes_append map_add_def fun_eq_iff split: option.split)
  show ?thesis
    using m1 migrations [OF assms(1) o] assms(1) unfolding Open_def opened_def h t in_order.simps
    by (simp add: i)
qed

lemma opened_table:
  assumes "earlier f" "map_of used_columns t = Some cols"
  shows "\<exists>tab. fTables (opened f) t = Some tab \<and> set (tNames tab) = set cols \<and> Some (tKeys tab) = map_of unique_keys t \<and> table_ok tab \<and>
    tRows tab = (case fTables f t of None \<Rightarrow> [] | Some tab \<Rightarrow> map (upgrade t) (tRows tab))"
proof (cases "fTables f t")
  case None
  then show ?thesis using created_table [OF assms(2)] by (auto simp: opened_def)
next
  case (Some tab)
  note E = earlierD [OF assms Some]
  have "\<forall>r \<in> set (tRows tab). dom r = set (tNames tab)" using E(3) by (simp add: table_ok_def)
  then have "tRows (fill (added t) tab) = map (upgrade t) (tRows tab)"
    using fill_rows [OF added_facts(2,1)] unfolding added_facts(3) upgrade_def [abs_def] by blast
  then show ?thesis
    using Some E table_ok_fill [OF E(3) added_facts(1)] by (simp add: opened_def fill_names added_names)
qed

lemma earlier_opened:
  assumes "earlier f"
  shows "earlier (opened f)"
  unfolding earlier_def
proof (clarify)
  fix t cols tab
  assume t: "(t, cols) \<in> set used_columns" and tab: "fTables (opened f) t = Some tab"
  then have c: "map_of used_columns t = Some cols" using created_facts(4) by simp
  show "set (tNames tab) \<union> fst ` set (later t) = set cols \<and> Some (tKeys tab) = map_of unique_keys t \<and> table_ok tab"
    using opened_table [OF assms c] later_used [OF c] tab by auto
qed

lemma opened_opened: "opened (opened f) = opened f"
proof (rule sql_file.equality)
  have f: "fill (added t) (fill (added t) tab) = fill (added t) tab" for t tab
    by (rule fill_present) (simp add: fill_names)
  show "fTables (opened (opened f)) = fTables (opened f)"
  proof
    fix t
    show "fTables (opened (opened f)) t = fTables (opened f) t"
      using fill_created [of t] f by (cases "fTables f t"; cases "created t") (simp_all add: opened_def)
  qed
  have "map_of used_columns ''replication_hints'' \<noteq> None" by code_simp
  then have "created ''replication_hints'' \<noteq> None" by (simp add: created_none)
  then have "fTables (opened f) ''replication_hints'' \<noteq> None" by (auto simp: opened_def split: option.split)
  then show "fIndexes (opened (opened f)) = fIndexes (opened f)"
    by (auto simp: opened_def or_else_def new_indexes_append map_add_def fun_eq_iff split: option.split)
  show "fPragmas (opened (opened f)) = fPragmas (opened f)"
    by (auto simp: opened_def map_add_def fun_eq_iff split: option.split)
qed simp

lemma opened_indexes:
  "fIndexes (opened f) i = (case fIndexes f i of Some x \<Rightarrow> Some x
     | None \<Rightarrow> if i = ''idx_hints_due'' \<and> fTables f ''replication_hints'' \<noteq> None then None else map_of lookup_indexes i)"
  unfolding opened_def created_facts(5,6) by (auto simp: or_else_def lookup_indexes_def split: option.split)

lemma opened_pragmas: "fPragmas (opened f) = fPragmas f ++ map_of settings"
  unfolding opened_def created_facts(7) by (auto simp: settings_def map_add_def fun_eq_iff)

text \<open>
  C28: opening the database file. On the file of this or an earlier version, whichever of the tables and of the columns
  version, replication_status, deleted (objects) and source_path (hints) it lacks, or on no file at all, opening succeeds when no
  statement fails. Every table then has exactly the columns the statements of the store name, and the unique keys they
  rely on; every row of the file is still there, in order and with every value it had, and a row from before a column has
  version 1, is replicated and not deleted, and a hint has no staged payload; NOT NULL and the keys hold of the rows. Tables
  the store does not know are untouched, every index is kept, and the missing ones are made (that of the hints only together
  with their table), the settings of the connection are made, and opening again changes nothing.
\<close>

theorem open_migrates:
  assumes "\<forall>l. \<not> db_fails env l" "earlier f"
  shows "\<exists>f'. Open env dbPath f = (f', Inr ()) \<and>
    (\<forall>(t, cols) \<in> set used_columns. \<exists>tab. fTables f' t = Some tab \<and> set (tNames tab) = set cols \<and>
       Some (tKeys tab) = map_of unique_keys t \<and> table_ok tab \<and>
       tRows tab = (case fTables f t of None \<Rightarrow> [] | Some tab \<Rightarrow> map (upgrade t) (tRows tab))) \<and>
    (\<forall>t. t \<notin> fst ` set used_columns \<longrightarrow> fTables f' t = fTables f t) \<and>
    (\<forall>i. fIndexes f' i = (case fIndexes f i of Some x \<Rightarrow> Some x
       | None \<Rightarrow> if i = ''idx_hints_due'' \<and> fTables f ''replication_hints'' \<noteq> None then None else map_of lookup_indexes i)) \<and>
    fPragmas f' = fPragmas f ++ map_of settings \<and>
    Open env dbPath f' = (f', Inr ())"
proof (intro exI [of _ "opened f"] conjI)
  show "Open env dbPath f = (opened f, Inr ())" by (rule Open_opened [OF assms])
  show "Open env dbPath (opened f) = (opened f, Inr ())"
    using Open_opened [OF assms(1) earlier_opened [OF assms(2)]] by (simp add: opened_opened)
  show "\<forall>(t, cols) \<in> set used_columns. \<exists>tab. fTables (opened f) t = Some tab \<and> set (tNames tab) = set cols \<and>
       Some (tKeys tab) = map_of unique_keys t \<and> table_ok tab \<and>
       tRows tab = (case fTables f t of None \<Rightarrow> [] | Some tab \<Rightarrow> map (upgrade t) (tRows tab))"
    using opened_table [OF assms(2)] created_facts(4) by auto
  show "\<forall>t. t \<notin> fst ` set used_columns \<longrightarrow> fTables (opened f) t = fTables f t"
  proof (intro allI impI)
    fix t
    assume t: "t \<notin> fst ` set used_columns"
    then have "created t = None" by (simp add: created_none map_of_eq_None_iff)
    moreover have "t \<noteq> ''objects''" "t \<noteq> ''replication_hints''" using t by (auto simp: used_columns_def)
    ultimately show "fTables (opened f) t = fTables f t" by (simp add: opened_def added_def split: option.split)
  qed
  show "\<forall>i. fIndexes (opened f) i = (case fIndexes f i of Some x \<Rightarrow> Some x
       | None \<Rightarrow> if i = ''idx_hints_due'' \<and> fTables f ''replication_hints'' \<noteq> None then None else map_of lookup_indexes i)"
    by (simp add: opened_indexes)
  show "fPragmas (opened f) = fPragmas f ++ map_of settings" by (rule opened_pragmas)
qed

text \<open>A file from before versions and replication.\<close>

definition old_columns :: "string list" where
  "old_columns = [''id'', ''bucket_name'', ''key'', ''size'', ''content_type'', ''etag'', ''storage_path'', ''custom_metadata'', ''created_at'', ''updated_at'']"

definition old_objects :: sql_table where
  "old_objects = \<lparr>tColumns = map text_col old_columns, tKeys = [[''id''], [''bucket_name'', ''key'']], tRefs = [],
     tRows = [map_of (map (\<lambda>c. (c, SText c)) old_columns)]\<rparr>"

definition old_file :: sql_file where
  "old_file = \<lparr>fTables = [''objects'' \<mapsto> old_objects], fIndexes = Map.empty, fPragmas = Map.empty\<rparr>"

definition calm_env :: db_env where
  "calm_env = \<lparr>db_now = 0, db_rand = '''', db_faults = []\<rparr>"

lemma old_file_earlier: "earlier old_file"
  unfolding earlier_def
proof (clarify)
  fix t cols tab
  assume t: "(t, cols) \<in> set used_columns" and f: "fTables old_file t = Some tab"
  have o: "map_of used_columns ''objects'' = Some (snd (used_columns ! 1))"
    "set (tNames old_objects) \<union> fst ` set (later ''objects'') = set (snd (used_columns ! 1))"
    "Some (tKeys old_objects) = map_of unique_keys ''objects''"
    "list_all (\<lambda>k. set k \<subseteq> set (tNames old_objects)) (tKeys old_objects)" by code_simp+
  from f have "t = ''objects''" "tab = old_objects" by (auto simp: old_file_def split: if_splits)
  moreover have "cols = snd (used_columns ! 1)" using t o(1) created_facts(4) \<open>t = ''objects''\<close> by (metis map_of_is_SomeI option.inject)
  moreover have "dom (map_of (map (\<lambda>c. (c, SText c)) cs)) = set cs" "map_of (map (\<lambda>c. (c, SText c)) cs) c \<noteq> Some SNull" for cs c
    by (auto simp: dom_map_of_conv_image_fst image_image dest!: map_of_SomeD)
  then have "table_ok old_objects"
    using o(4) by (auto simp: table_ok_def old_objects_def tNames_def text_col_def list_all_iff comp_def)
  ultimately show "set (tNames tab) \<union> fst ` set (later t) = set cols \<and> Some (tKeys tab) = map_of unique_keys t \<and> table_ok tab"
    using o(2,3) by simp
qed

theorem open_migrates_witness:
  "\<exists>f' tab r. Open calm_env ''/data/objex.db'' old_file = (f', Inr ()) \<and> fTables f' ''objects'' = Some tab \<and> tRows tab = [r] \<and>
     r ''etag'' = Some (SText ''etag'') \<and> r ''version'' = Some (SInt 1) \<and> r ''deleted'' = Some (SInt 0) \<and>
     fIndexes f' ''idx_objects_bucket_key'' = Some (''objects'', [''bucket_name'', ''key''])"
proof -
  have q: "\<forall>l. \<not> db_fails calm_env l" by (simp add: db_fails_def calm_env_def)
  from open_migrates [OF q old_file_earlier, of "''/data/objex.db''"] obtain f' where
    f': "Open calm_env ''/data/objex.db'' old_file = (f', Inr ())"
      "\<forall>(t, cols) \<in> set used_columns. \<exists>tab. fTables f' t = Some tab \<and> set (tNames tab) = set cols \<and>
       Some (tKeys tab) = map_of unique_keys t \<and> table_ok tab \<and>
       tRows tab = (case fTables old_file t of None \<Rightarrow> [] | Some tab \<Rightarrow> map (upgrade t) (tRows tab))"
      "\<forall>i. fIndexes f' i = (case fIndexes old_file i of Some x \<Rightarrow> Some x
       | None \<Rightarrow> if i = ''idx_hints_due'' \<and> fTables old_file ''replication_hints'' \<noteq> None then None else map_of lookup_indexes i)" by blast
  have "map_of used_columns ''objects'' = Some (snd (used_columns ! 1))" by code_simp
  then have "(''objects'', snd (used_columns ! 1)) \<in> set used_columns" by (rule map_of_SomeD)
  with f'(2) obtain tab where "fTables f' ''objects'' = Some tab"
    "tRows tab = [upgrade ''objects'' (map_of (map (\<lambda>c. (c, SText c)) old_columns))]"
    by (fastforce simp: old_file_def old_objects_def)
  moreover have "fIndexes f' ''idx_objects_bucket_key'' = Some (''objects'', [''bucket_name'', ''key''])"
    unfolding spec [OF f'(3), of "''idx_objects_bucket_key''"] by (simp add: old_file_def lookup_indexes_def)
  ultimately show ?thesis using f'(1)
    by (simp add: upgrade_def later_def old_columns_def)
qed

end
