(* ===== verification/Startup.thy ===== *)
theory Startup
  imports Handler Jobs Schema
begin

text \<open>
  \<^verbatim>\<open>internal/config\<close> and the wiring in \<^verbatim>\<open>cmd/objex/main.go\<close>: the configuration a node reads from its environment, the
  overrides of the command line, and the components built from it. The theorem says that a node that comes up satisfies the
  assumptions the theorems about the cluster make of its configuration.

  The environment of the process is a record: variables (the empty text when unset), files, the results of
  \<^verbatim>\<open>encoding/json\<close> and \<^verbatim>\<open>url.Parse\<close>.
\<close>

section \<open>cluster.go\<close>

record ClusterNodeConfig =
  ncID :: string
  ncAddress :: string

text \<open>A decoded cluster file: the nodes under the key cluster, if there is one, and those at the top.\<close>

record clusterFile =
  cfCluster :: "ClusterNodeConfig list option"
  cfNodes :: "ClusterNodeConfig list"

record process =
  getenv :: "string \<Rightarrow> string"
  readFile :: "string \<Rightarrow> string res"
  jsonNodes :: "string \<Rightarrow> ClusterNodeConfig list res"
  jsonFile :: "string \<Rightarrow> clusterFile res"
  urlHost :: "string \<Rightarrow> string res"

definition defaultNodeID :: string where
  "defaultNodeID = ''node-1''"

definition envOr :: "process \<Rightarrow> string \<Rightarrow> string \<Rightarrow> string" where
  "envOr p key fallback = (if getenv p key \<noteq> '''' then getenv p key else fallback)"

definition parseClusterFile :: "process \<Rightarrow> string \<Rightarrow> ClusterNodeConfig list res" where
  "parseClusterFile p path =
     (case readFile p path of
        Inl e \<Rightarrow> Inl (Other (''read cluster config '' @ dquote path))
      | Inr data \<Rightarrow>
          (case jsonFile p data of
             Inl e \<Rightarrow> Inl (Other (''parse cluster config '' @ dquote path))
           | Inr file \<Rightarrow>
               (case cfCluster file of
                  Some (n # ns) \<Rightarrow> Inr (n # ns)
                | _ \<Rightarrow> if cfNodes file \<noteq> [] then Inr (cfNodes file)
                       else Inl (Other (''cluster config '' @ dquote path @ '' has no nodes'')))))"

definition last_index :: "char \<Rightarrow> string \<Rightarrow> nat option" where
  "last_index c s = (if c \<in> set s then Some (length s - 1 - length (takeWhile (\<lambda>x. x \<noteq> c) (rev s))) else None)"

definition localNodeAddress :: "process \<Rightarrow> string \<Rightarrow> string \<Rightarrow> string" where
  "localNodeAddress p publicURL httpAddr =
     (case (if publicURL \<noteq> '''' then urlHost p publicURL else Inr '''') of
        Inr (c # host) \<Rightarrow> c # host
      | _ \<Rightarrow>
          let httpAddr = TrimSpace httpAddr in
          if httpAddr = '''' then ''localhost:9000''
          else if HasPrefix httpAddr '':'' then ''localhost'' @ httpAddr
          else (case last_index (CHR '':'') httpAddr of
             None \<Rightarrow> httpAddr
           | Some pos \<Rightarrow>
               if pos > 0 \<and> (let host = take pos httpAddr in host = '''' \<or> host = ''0.0.0.0'' \<or> host = ''[::]'')
               then ''localhost:'' @ drop (pos + 1) httpAddr else httpAddr))"

definition loadClusterNodes :: "process \<Rightarrow> string \<Rightarrow> string \<Rightarrow> string \<Rightarrow> (string \<times> ClusterNodeConfig list) res" where
  "loadClusterNodes p nodeID publicURL httpAddr =
     (let i = envOr p ''OBJEX_NODE_ID'' nodeID;
          i = (if i = '''' then defaultNodeID else i);
          path = getenv p ''OBJEX_CLUSTER_CONFIG''; raw = getenv p ''OBJEX_CLUSTER_NODES'' in
      if path \<noteq> '''' then (case parseClusterFile p path of Inl e \<Rightarrow> Inl e | Inr ns \<Rightarrow> Inr (i, ns))
      else if raw \<noteq> '''' then
        (case jsonNodes p raw of Inl e \<Rightarrow> Inl (Other ''invalid OBJEX_CLUSTER_NODES JSON'') | Inr ns \<Rightarrow> Inr (i, ns))
      else Inr (i, [\<lparr>ncID = i, ncAddress = localNodeAddress p publicURL httpAddr\<rparr>]))"

section \<open>config.go\<close>

record ServerConfig =
  HTTPAddress :: string
  DataDir :: string
  DBPath :: string
  BlobDir :: string
  MaxUploadBytes :: int
  MinFreeDiskBytes :: int
  PublicURL :: string
  SigV4Region :: string
  ConfAccessKeyID :: string
  ConfSecretAccessKey :: string
  PresignDefaultExpiry :: int
  PresignMaxExpiry :: int
  NodeID :: string
  ClusterNodes :: "ClusterNodeConfig list"
  ClusterInternalToken :: string
  ConfReplicationFactor :: int
  WriteQuorum :: int
  ReadQuorum :: int

text \<open>A numeric variable with its least value and its default.\<close>

definition env_int :: "process \<Rightarrow> string \<Rightarrow> int \<Rightarrow> int \<Rightarrow> int res" where
  "env_int p name least dflt =
     (let v = getenv p name in
      if v = '''' then Inr dflt
      else case ParseInt v of
        None \<Rightarrow> Inl (Other (''invalid '' @ name @ '': '' @ dquote v))
      | Some n \<Rightarrow> if n < least then Inl (Other (''invalid '' @ name @ '': '' @ dquote v)) else Inr n)"

definition Load :: "process \<Rightarrow> ServerConfig res" where
  "Load p =
     (let dataDir = Clean (envOr p ''OBJEX_DATA_DIR'' ''./data'');
          httpAddress = envOr p ''OBJEX_HTTP_ADDRESS'' '':9000'';
          publicURL = envOr p ''OBJEX_PUBLIC_URL'' ''http://localhost:9000'' in
      case env_int p ''OBJEX_MAX_UPLOAD_BYTES'' 0 (5 * 1024 * 1024 * 1024) of Inl e \<Rightarrow> Inl e | Inr maxUpload \<Rightarrow>
      (case env_int p ''OBJEX_MIN_FREE_DISK_BYTES'' 0 (500 * 1024 * 1024) of Inl e \<Rightarrow> Inl e | Inr minFree \<Rightarrow>
      (case env_int p ''OBJEX_PRESIGN_DEFAULT_EXPIRY'' 1 3600 of Inl e \<Rightarrow> Inl e | Inr presignDefault \<Rightarrow>
      (case env_int p ''OBJEX_PRESIGN_MAX_EXPIRY'' 1 604800 of Inl e \<Rightarrow> Inl e | Inr presignMax \<Rightarrow>
      (case loadClusterNodes p '''' publicURL httpAddress of Inl e \<Rightarrow> Inl e | Inr (nodeID, clusterNodes) \<Rightarrow>
      (case env_int p ''OBJEX_REPLICATION_FACTOR'' 1 (if length clusterNodes \<ge> 3 then 3 else 1) of Inl e \<Rightarrow> Inl e | Inr rf \<Rightarrow>
      (case env_int p ''OBJEX_WRITE_QUORUM'' 1 (fst (DefaultsForN rf)) of Inl e \<Rightarrow> Inl e | Inr wq \<Rightarrow>
      (case env_int p ''OBJEX_READ_QUORUM'' 1 (snd (DefaultsForN rf)) of Inl e \<Rightarrow> Inl e | Inr rq \<Rightarrow>
       if Validate \<lparr>N = rf, W = wq, R = rq\<rparr> \<noteq> None then Inl (Other ''invalid quorum config'')
       else Inr \<lparr>HTTPAddress = httpAddress, DataDir = dataDir,
              DBPath = envOr p ''OBJEX_DB_PATH'' (JoinPath [dataDir, ''db'', ''objex.db'']), BlobDir = JoinPath [dataDir, ''blobs''],
              MaxUploadBytes = maxUpload, MinFreeDiskBytes = minFree, PublicURL = publicURL,
              SigV4Region = envOr p ''OBJEX_SIGV4_REGION'' ''us-east-1'', ConfAccessKeyID = getenv p ''OBJEX_ACCESS_KEY_ID'',
              ConfSecretAccessKey = getenv p ''OBJEX_SECRET_ACCESS_KEY'', PresignDefaultExpiry = presignDefault,
              PresignMaxExpiry = presignMax, NodeID = nodeID, ClusterNodes = clusterNodes,
              ClusterInternalToken = getenv p ''OBJEX_CLUSTER_INTERNAL_TOKEN'', ConfReplicationFactor = rf,
              WriteQuorum = wq, ReadQuorum = rq\<rparr>))))))))"

definition AbsPaths :: "string res \<Rightarrow> ServerConfig \<Rightarrow> ServerConfig res" where
  "AbsPaths wd c =
     (case Abs wd (DataDir c) of Inl e \<Rightarrow> Inl (Other ''resolve data dir'') | Inr absData \<Rightarrow>
     (case Abs wd (DBPath c) of Inl e \<Rightarrow> Inl (Other ''resolve db path'') | Inr absDB \<Rightarrow>
     (case Abs wd (BlobDir c) of Inl e \<Rightarrow> Inl (Other ''resolve blob path'') | Inr absBlob \<Rightarrow>
      Inr (c\<lparr>DataDir := absData, DBPath := absDB, BlobDir := absBlob\<rparr>))))"

section \<open>runtime.go\<close>

definition ApplyRuntimeOverrides :: "string \<Rightarrow> string \<Rightarrow> ServerConfig \<Rightarrow> ServerConfig" where
  "ApplyRuntimeOverrides nodeID httpAddr c =
     c\<lparr>NodeID := (if nodeID \<noteq> '''' then nodeID else NodeID c), HTTPAddress := (if httpAddr \<noteq> '''' then httpAddr else HTTPAddress c)\<rparr>"

text \<open>The loop stops at the first node with the local ID.\<close>

fun set_address :: "string \<Rightarrow> string \<Rightarrow> ClusterNodeConfig list \<Rightarrow> ClusterNodeConfig list" where
  "set_address i addr [] = []"
| "set_address i addr (n # ns) = (if ncID n = i then n\<lparr>ncAddress := addr\<rparr> # ns else n # set_address i addr ns)"

definition RebuildLocalClusterAddress :: "process \<Rightarrow> ServerConfig \<Rightarrow> ServerConfig" where
  "RebuildLocalClusterAddress p c =
     (let addr = localNodeAddress p (PublicURL c) (HTTPAddress c) in
      c\<lparr>ClusterNodes :=
          (case ClusterNodes c of
             [n] \<Rightarrow> [n\<lparr>ncID := NodeID c, ncAddress := addr\<rparr>]
           | ns \<Rightarrow> set_address (NodeID c) addr ns)\<rparr>)"

section \<open>main.go\<close>

text \<open>
  The components of a node, from its configuration. Opening the database brings the layout of its file up to date or fails; the
  rows of the file are the \<open>sDb\<close> of the state the node starts from. The readiness check that is set here pings the
  database, then writes a file \<^verbatim>\<open>.health_probe\<close> below the storage root and removes it; a probe is one call that succeeds or fails, and
  the file a failed removal leaves behind is not modelled.
\<close>

definition cluster_nodes :: "ServerConfig \<Rightarrow> Node list" where
  "cluster_nodes c = map (\<lambda>n. \<lparr>nID = ncID n, nAddress = ncAddress n, nStatus = NodeStatusActive\<rparr>) (ClusterNodes c)"

definition quorum_config :: "ServerConfig \<Rightarrow> Config" where
  "quorum_config c =
     (let (w, r) = DefaultsForN (ConfReplicationFactor c) in
      \<lparr>N = ConfReplicationFactor c, W = (if WriteQuorum c = 0 then w else WriteQuorum c), R = (if ReadQuorum c = 0 then r else ReadQuorum c)\<rparr>)"

definition make_handler :: "ServerConfig \<Rightarrow> StaticMembership \<Rightarrow> Handler" where
  "make_handler c members =
     (let placer = NewRendezvousPlacer members (ConfReplicationFactor c); token = ClusterInternalToken c in
      SetReadyCheck (NewHandlerWithConfig
        \<lparr>hPublicURL = PublicURL c, hSigV4Region = SigV4Region c, hPresignDefaultExpiry = PresignDefaultExpiry c,
         hPresignMaxExpiry = PresignMaxExpiry c, hLocalNodeID = NodeID c, hMembership = Some members, hPlacement = Some placer,
         hProxy = Some token, hPeerSync = Some (NewPeerSync members (NodeID c) token),
         hReplication = Some (NewCoordinator (NodeID c) (Some members) (Some placer) True True (Some (NewReplicator token)) (quorum_config c)),
         hInternalToken = token, hPeerHealth = (if Len members > 1 then Some (NewPeerHealthTracker members) else None),
         hReadyCheck = False\<rparr>))"

definition seed_credential :: "ServerConfig \<Rightarrow> db_env \<Rightarrow> db \<Rightarrow> db \<times> unit res" where
  "seed_credential c env db =
     (if ConfAccessKeyID c \<noteq> '''' \<and> ConfSecretAccessKey c \<noteq> ''''
      then UpsertCredential env ''seed'' (ConfAccessKeyID c) (ConfSecretAccessKey c) db else (db, Inr ()))"

definition boot :: "process \<Rightarrow> string \<Rightarrow> string \<Rightarrow> env \<Rightarrow> sql_file \<Rightarrow> node_state \<Rightarrow> sql_file \<times> node_state \<times> (Service \<times> Handler) res" where
  "boot p nodeIDFlag httpFlag env file st =
     (case Load p of
        Inl e \<Rightarrow> (file, st, Inl e)
      | Inr cfg \<Rightarrow>
          (case AbsPaths (fs_wd (eFs env)) (RebuildLocalClusterAddress p (ApplyRuntimeOverrides nodeIDFlag httpFlag cfg)) of
             Inl e \<Rightarrow> (file, st, Inl e)
           | Inr cfg \<Rightarrow>
               (case NewStaticMembership (NodeID cfg) (cluster_nodes cfg) of
                  Inl e \<Rightarrow> (file, st, Inl e)
                | Inr members \<Rightarrow>
                    (case Open (eDb env) (DBPath cfg) file of
                       (file, Inl e) \<Rightarrow> (file, st, Inl e)
                     | (file, Inr _) \<Rightarrow>
                         (case seed_credential cfg (eDb env) (sDb st) of
                            (db, Inl e) \<Rightarrow> (file, st\<lparr>sDb := db\<rparr>, Inl e)
                          | (db, Inr _) \<Rightarrow>
                              (case New (eFs env) (BlobDir cfg) (sFs st) of
                                 (fs, Inl e) \<Rightarrow> (file, st\<lparr>sDb := db, sFs := fs\<rparr>, Inl e)
                               | (fs, Inr blob) \<Rightarrow>
                                   (file, st\<lparr>sDb := db, sFs := fs\<rparr>,
                                    Inr (NewService blob (MaxUploadBytes cfg) (MinFreeDiskBytes cfg), make_handler cfg members))))))))"

section \<open>The storage root\<close>

definition ends :: "string \<Rightarrow> string \<Rightarrow> bool" where
  "ends f p \<longleftrightarrow> p = f \<or> (\<exists>q. p = q @ ''/'' @ f)"

lemma ends_elems:
  assumes "plain f" "ends f p"
  shows "\<exists>es. clean_elems p = es @ [f]"
proof -
  have f: "Split (CHR ''/'') f = [f]" "clean_step r st f = f # st" for r st
    using assms(1) by (auto simp: plain_def intro!: Split_id)
  have "\<exists>xs. Split (CHR ''/'') p = xs @ [f]"
    using assms(2) Split_append_any [of "CHR ''/''" _ f] f(1) by (auto simp: ends_def)
  then show ?thesis using f(2) by (auto simp: clean_elems_def simp del: clean_step.simps)
qed

lemma ends_Clean:
  assumes "plain f" "ends f p"
  shows "ends f (Clean p)"
proof -
  obtain es where "clean_elems p = es @ [f]" using ends_elems [OF assms] by blast
  then show ?thesis by (cases "es = []") (auto simp: Clean_def ends_def Join_append)
qed

lemma ends_JoinPath:
  assumes "plain f" "ends f p"
  shows "ends f (JoinPath [d, p])"
proof -
  have "p \<noteq> ''''" using assms by (auto simp: ends_def plain_def)
  moreover have "ends f (d @ ''/'' @ p)" using assms(2) by (auto simp: ends_def)
  ultimately show ?thesis using ends_Clean [OF assms(1)] assms(2) by (simp add: JoinPath_def)
qed

lemma ends_rooted:
  assumes "plain f" "ends f p" "HasPrefix p ''/''"
  shows "\<exists>es. Clean p = abs_path (es @ [f]) \<and> list_all plain (es @ [f])"
  using ends_elems [OF assms(1,2)] clean_elems_rooted [OF assms(3)] assms(3) by (auto simp: Clean_def abs_path_def)

text \<open>An absolute path to a directory with a plain name is a usable storage root.\<close>

lemma Abs_base_ok:
  assumes "plain f" "ends f p" "\<forall>d. wd = Inr d \<longrightarrow> HasPrefix d ''/''" "Abs wd p = Inr q"
  shows "base_ok q \<and> Abs wd' q = Inr q"
proof -
  have "\<exists>es. q = abs_path (es @ [f]) \<and> list_all plain (es @ [f])"
  proof (cases "HasPrefix p ''/''")
    case True
    with assms(4) ends_rooted [OF assms(1,2)] show ?thesis by (auto simp: Abs_def)
  next
    case False
    then obtain d where d: "wd = Inr d" "q = JoinPath [d, p]" using assms(4) by (auto simp: Abs_def split: sum.splits)
    then have "HasPrefix d ''/''" using assms(3) by blast
    then have "q = Clean (d @ ''/'' @ p)" "HasPrefix (d @ ''/'' @ p) ''/''" using d(2) by (auto simp: JoinPath_def HasPrefix_iff)
    moreover have "ends f (d @ ''/'' @ p)" using assms(2) by (auto simp: ends_def)
    ultimately show ?thesis using ends_rooted [OF assms(1)] by metis
  qed
  then show ?thesis using base_ok_abs_path Abs_clean by (metis snoc_eq_iff_butlast)
qed


section \<open>A node that comes up is configured soundly\<close>

lemma Load_quorum:
  assumes "Load p = Inr cfg"
  shows "Validate \<lparr>N = ConfReplicationFactor cfg, W = WriteQuorum cfg, R = ReadQuorum cfg\<rparr> = None" "ends ''blobs'' (BlobDir cfg)"
proof -
  have "plain ''blobs''" by code_simp
  then have "ends ''blobs'' (JoinPath [d, ''blobs''])" for d by (intro ends_JoinPath) (simp_all add: ends_def)
  with assms show "Validate \<lparr>N = ConfReplicationFactor cfg, W = WriteQuorum cfg, R = ReadQuorum cfg\<rparr> = None" "ends ''blobs'' (BlobDir cfg)"
    unfolding Load_def Let_def by (auto split: sum.splits if_splits prod.splits)
qed

lemma quorum_config_loaded:
  assumes "Validate \<lparr>N = ConfReplicationFactor c, W = WriteQuorum c, R = ReadQuorum c\<rparr> = None"
  shows "Validate (quorum_config c) = None" "N (quorum_config c) = ConfReplicationFactor c" "0 < ConfReplicationFactor c"
proof -
  have "0 < ConfReplicationFactor c" "WriteQuorum c \<noteq> 0" "ReadQuorum c \<noteq> 0" using assms by (auto simp: Validate_def split: if_splits)
  then show "Validate (quorum_config c) = None" "N (quorum_config c) = ConfReplicationFactor c" "0 < ConfReplicationFactor c"
    using assms by (simp_all add: quorum_config_def split: prod.split)
qed


text \<open>
  C25: start-up establishes what the cluster theorems assume. Whatever the environment variables, files and flags, if a node comes
  up then its quorum configuration passes validation for exactly the replication factor of its placement (so any
  write quorum meets any read quorum), its coordinator, placement and handler agree on the membership and the local
  node, which is a member, all its calls to peers carry the token its front end accepts, its storage root is a
  clean absolute path below the file system's root, and its database file has been opened and brought up to date.
\<close>

theorem boot_sound:
  assumes "boot p nodeIDFlag httpFlag env file st = (file', st', Inr (s, h))" "\<forall>d. fs_wd (eFs env) = Inr d \<longrightarrow> HasPrefix d ''/''"
  shows "\<exists>c pl m r. hReplication h = Some c \<and> hPlacement h = Some pl \<and> cPlacer c = Some pl \<and> membership pl = m \<and>
     hMembership h = Some m \<and> cMembership c = Some m \<and> members_ok m \<and> localID m = hLocalNodeID h \<and> cLocalNodeID c = hLocalNodeID h \<and>
     Validate (cQuorum c) = None \<and> N (cQuorum c) = replicationFactor pl \<and>
     cReplicator c = Some r \<and> rpInternalToken r = hInternalToken h \<and> hProxy h = Some (hInternalToken h) \<and>
     base_ok (basePath (svBlob s)) \<and> (\<exists>dbPath. Open (eDb env) dbPath file = (file', Inr ()))"
proof -
  obtain cfg where L: "Load p = Inr cfg" using assms(1) by (auto simp: boot_def split: sum.splits)
  let ?c = "RebuildLocalClusterAddress p (ApplyRuntimeOverrides nodeIDFlag httpFlag cfg)"
  have c: "ConfReplicationFactor ?c = ConfReplicationFactor cfg" "WriteQuorum ?c = WriteQuorum cfg" "ReadQuorum ?c = ReadQuorum cfg"
    "BlobDir ?c = BlobDir cfg" by (simp_all add: RebuildLocalClusterAddress_def ApplyRuntimeOverrides_def Let_def)
  obtain cfg' where P: "AbsPaths (fs_wd (eFs env)) ?c = Inr cfg'" using assms(1) L by (auto simp: boot_def split: sum.splits)
  then obtain q where q: "Abs (fs_wd (eFs env)) (BlobDir cfg) = Inr q" "BlobDir cfg' = q" and c': "ConfReplicationFactor cfg' = ConfReplicationFactor cfg"
    "WriteQuorum cfg' = WriteQuorum cfg" "ReadQuorum cfg' = ReadQuorum cfg"
    using c by (auto simp: AbsPaths_def split: sum.splits)
  obtain m where M: "NewStaticMembership (NodeID cfg') (cluster_nodes cfg') = Inr m"
    using assms(1) L P by (auto simp: boot_def split: sum.splits)
  obtain fs blob where O: "Open (eDb env) (DBPath cfg') file = (file', Inr ())"
    and S: "New (eFs env) (BlobDir cfg') (sFs st) = (fs, Inr blob)" "svBlob s = blob" and H: "h = make_handler cfg' m"
    using assms(1) L P M by (auto simp: boot_def NewService_def split: if_splits sum.splits prod.splits)
  have "plain ''blobs''" by code_simp
  then have "base_ok q" "Abs (fs_wd (eFs env)) q = Inr q" using Abs_base_ok [OF _ Load_quorum(2) [OF L] assms(2) q(1)] by blast+
  then have "base_ok (basePath blob)" using S(1) q(2) by (auto simp: New_def Let_def split: if_splits)
  moreover note Q = quorum_config_loaded [of cfg', unfolded c', OF Load_quorum(1) [OF L]]
  moreover have "members_ok m" "localID m = NodeID cfg'"
    using NewStaticMembership_members_ok [OF M] M by (auto simp: NewStaticMembership_Inr_iff)
  ultimately show ?thesis
    using S(2) O c' by (auto simp: H make_handler_def SetReadyCheck_def NewHandlerWithConfig_def NewCoordinator_def NewRendezvousPlacer_def
        NewReplicator_def Let_def)
qed

definition example_process :: process where
  "example_process = \<lparr>
     getenv = (\<lambda>v. if v = ''OBJEX_DATA_DIR'' then ''/srv/objex'' else if v = ''OBJEX_CLUSTER_NODES'' then ''[n1,n2,n3]''
       else if v = ''OBJEX_NODE_ID'' then ''n2'' else ''''),
     readFile = (\<lambda>_. Inl (Other ''open'')),
     jsonNodes = (\<lambda>_. Inr (map (\<lambda>i. \<lparr>ncID = i, ncAddress = i @ '':9000''\<rparr>) [''n1'', ''n2'', ''n3''])),
     jsonFile = (\<lambda>_. Inl (Other ''json'')), urlHost = (\<lambda>_. Inr ''localhost:9000'')\<rparr>"

theorem boot_sound_witness:
  "\<exists>file' st' s h c. boot example_process '''' '''' example_node_env old_file example_node = (file', st', Inr (s, h)) \<and>
     hReplication h = Some c \<and> Validate (cQuorum c) = None \<and> base_ok (basePath (svBlob s))"
proof -
  have b: "is_ok (snd (snd (boot example_process '''' '''' example_node_env old_file example_node)))" by code_simp
  then obtain file' st' s h where B: "boot example_process '''' '''' example_node_env old_file example_node = (file', st', Inr (s, h))"
    by (metis is_ok_iff prod.collapse)
  have "\<forall>d. fs_wd (eFs example_node_env) = Inr d \<longrightarrow> HasPrefix d ''/''" by (simp add: example_node_env_def example_env_def)
  from boot_sound [OF B this] B show ?thesis by blast
qed


end
