(* ===== verification/AuthProps.thy ===== *)
theory AuthProps
  imports AmzDates
begin

text \<open>
  What the signature check guarantees: requests signed by the package's own signer and by a presigned URL are
  accepted, and an accepted signature binds every part of the request that was signed.
\<close>

section \<open>Trimming and splitting\<close>

definition graphic :: "char \<Rightarrow> bool" where
  "graphic c \<longleftrightarrow> in_bytes 0x21 0x7E c"

lemma find_None_if: "(\<And>x. x \<in> set xs \<Longrightarrow> \<not> P x) \<Longrightarrow> find P xs = None"
  by (induction xs) auto

lemma spaces_ends: "p \<in> set go_spaces \<Longrightarrow> p \<noteq> [] \<and> \<not> graphic (hd p) \<and> \<not> graphic (last p)"
proof -
  have "\<forall>p \<in> set go_spaces. p \<noteq> [] \<and> \<not> graphic (hd p) \<and> \<not> graphic (last p)" by code_simp
  then show "p \<in> set go_spaces \<Longrightarrow> ?thesis" by blast
qed

lemma strip_graphic: "s = [] \<or> graphic (hd s) \<Longrightarrow> strip_any go_spaces s = s"
  using spaces_ends
  by (subst strip_any.simps, subst find_None_if) (auto simp: HasPrefix_iff dest!: spaces_ends)

lemma strip_graphic_rev: "s = [] \<or> graphic (last s) \<Longrightarrow> strip_any (map rev go_spaces) (rev s) = rev s"
proof -
  assume s: "s = [] \<or> graphic (last s)"
  have "\<not> (p \<noteq> [] \<and> rev s \<noteq> [] \<and> HasPrefix (rev s) p)" if p: "p \<in> set (map rev go_spaces)" for p
  proof
    assume h: "p \<noteq> [] \<and> rev s \<noteq> [] \<and> HasPrefix (rev s) p"
    from p obtain q where q: "q \<in> set go_spaces" "p = rev q" by auto
    from h q obtain t where "rev s = rev q @ t" by (auto simp: HasPrefix_iff)
    then have "s = rev t @ q" by (metis rev_append rev_rev_ident)
    with spaces_ends [OF q(1)] s show False by auto
  qed
  then show ?thesis by (subst strip_any.simps, subst find_None_if) auto
qed

lemma TrimSpace_graphic: "s = [] \<or> graphic (hd s) \<and> graphic (last s) \<Longrightarrow> TrimSpace s = s"
proof -
  assume s: "s = [] \<or> graphic (hd s) \<and> graphic (last s)"
  then have "strip_any go_spaces s = s" by (intro strip_graphic) auto
  moreover have "strip_any (map rev go_spaces) (rev s) = rev s" using s by (intro strip_graphic_rev) auto
  ultimately show ?thesis by (simp add: TrimSpace_def)
qed

lemma TrimSpace_space: "TrimSpace (CHR 0x20 # s) = TrimSpace s"
proof -
  have "find (\<lambda>p. p \<noteq> [] \<and> CHR 0x20 # s \<noteq> [] \<and> HasPrefix (CHR 0x20 # s) p) go_spaces = Some [CHR 0x20]"
    by (simp add: go_spaces_def)
  then have "strip_any go_spaces (CHR 0x20 # s) = strip_any go_spaces s" by (subst strip_any.simps) simp
  then show ?thesis by (simp add: TrimSpace_def)
qed

section \<open>URI encoding\<close>

definition enc_byte :: "char \<Rightarrow> string" where
  "enc_byte b = (if isUnreserved b then [b] else CHR ''%'' # hexUpper b)"

lemma high_not_unreserved: "in_bytes 0x80 0xFF b \<Longrightarrow> \<not> isUnreserved b"
  by (auto simp: in_bytes_def isUnreserved_def is_alnum_def in_span_def is_digit_def less_eq_char_def)

lemma encode_high: "list_all (in_bytes 0x80 0xFF) r \<Longrightarrow> encode_rune r = concat (map enc_byte r)"
proof -
  assume h: "list_all (in_bytes 0x80 0xFF) r"
  then have "map enc_byte r = map (\<lambda>b. CHR ''%'' # hexUpper b) r"
    using high_not_unreserved by (auto simp: enc_byte_def list_all_iff)
  moreover have "\<not> (length r = 1 \<and> isUnreserved (hd r))"
    using h high_not_unreserved by (cases r) auto
  ultimately show ?thesis unfolding encode_rune_def by metis
qed

lemma encode_single: "encode_rune [b] = concat (map enc_byte [b])"
  by (simp add: encode_rune_def enc_byte_def)

lemma encode_runes: "r \<in> set (runes s) \<Longrightarrow> encode_rune r = concat (map enc_byte r)"
proof -
  assume "r \<in> set (runes s)"
  from rune_shape [OF this] show ?thesis
  proof
    assume "length r = 1"
    then obtain b where "r = [b]" by (metis One_nat_def Suc_length_conv length_0_conv)
    then show ?thesis using encode_single by simp
  qed (rule encode_high)
qed

lemma UriEncodeStrict_bytes: "UriEncodeStrict s = concat (map enc_byte (concat (runes s)))"
proof -
  have "concat (map encode_rune rs) = concat (map (\<lambda>r. concat (map enc_byte r)) rs)" if "set rs \<subseteq> set (runes s)" for rs
    using that encode_runes by (induction rs) auto
  moreover have "concat (map (\<lambda>r. concat (map enc_byte r)) rs) = concat (map enc_byte (concat rs))" for rs
    by (induction rs) auto
  ultimately show ?thesis by (metis UriEncodeStrict_def subset_refl)
qed

lemma UriEncodeStrict_valid: "valid_utf8 s \<Longrightarrow> UriEncodeStrict s = concat (map enc_byte s)"
  by (simp add: UriEncodeStrict_bytes valid_utf8_def)

lemma percent_reserved: "\<not> isUnreserved (CHR ''%'')" "\<not> isUnreserved (CHR ''+'')" by code_simp+

lemma enc_byte_chars: "x \<in> set (enc_byte b) \<Longrightarrow> isUnreserved x \<or> x = CHR ''%''"
proof -
  have "\<forall>d < 16. isUnreserved (upper_hex d)" by code_simp
  then have "isUnreserved (upper_hex (of_char b div 16))" "isUnreserved (upper_hex (of_char b mod 16))"
    using of_char_255 [of b] by auto
  then show "x \<in> set (enc_byte b) \<Longrightarrow> ?thesis" by (auto simp: enc_byte_def hexUpper_def split: if_splits)
qed

lemma UriEncodeStrict_chars: "x \<in> set (UriEncodeStrict s) \<Longrightarrow> isUnreserved x \<or> x = CHR ''%''"
  by (auto simp: UriEncodeStrict_bytes dest: enc_byte_chars)

lemma UriEncodeStrict_free:
  "\<not> isUnreserved c \<Longrightarrow> c \<noteq> CHR ''%'' \<Longrightarrow> c \<notin> set (UriEncodeStrict s)"
  using UriEncodeStrict_chars by blast

lemma QueryUnescape_enc_byte: "QueryUnescape (enc_byte b @ t) = map_option (Cons b) (QueryUnescape t)"
proof (cases "isUnreserved b")
  case True
  with percent_reserved have "b \<noteq> CHR ''%''" "b \<noteq> CHR ''+''" by auto
  with True show ?thesis by (simp add: enc_byte_def)
next
  case False
  have d: "unhex_digit (upper_hex (of_char b div 16)) = Some (int (of_char b div 16))"
    "unhex_digit (upper_hex (of_char b mod 16)) = Some (int (of_char b mod 16))"
    using of_char_255 [of b] by (auto intro!: upper_hex_unhex)
  from False show ?thesis by (simp add: enc_byte_def hexUpper_def d byte_of_char del: of_nat_div of_nat_mod of_nat_of_char)
qed

lemma PathUnescape_enc_byte: "PathUnescape (enc_byte b @ t) = map_option (Cons b) (PathUnescape t)"
proof (cases "isUnreserved b")
  case True
  with percent_reserved have "b \<noteq> CHR ''%''" by auto
  with True show ?thesis by (simp add: enc_byte_def)
next
  case False
  have d: "unhex_digit (upper_hex (of_char b div 16)) = Some (int (of_char b div 16))"
    "unhex_digit (upper_hex (of_char b mod 16)) = Some (int (of_char b mod 16))"
    using of_char_255 [of b] by (auto intro!: upper_hex_unhex)
  from False show ?thesis by (simp add: enc_byte_def hexUpper_def d byte_of_char del: of_nat_div of_nat_mod of_nat_of_char)
qed

lemma QueryUnescape_encoded: "valid_utf8 s \<Longrightarrow> QueryUnescape (UriEncodeStrict s) = Some s"
proof -
  have "QueryUnescape (concat (map enc_byte s)) = Some s" by (induction s) (simp_all add: QueryUnescape_enc_byte)
  then show "valid_utf8 s \<Longrightarrow> ?thesis" by (simp add: UriEncodeStrict_valid)
qed

lemma PathUnescape_encoded: "valid_utf8 s \<Longrightarrow> PathUnescape (UriEncodeStrict s @ t) = map_option (append s) (PathUnescape t)"
proof -
  have "PathUnescape (concat (map enc_byte s) @ t) = map_option (append s) (PathUnescape t)"
    by (induction s) (simp_all add: PathUnescape_enc_byte option.map_comp comp_def option.map_ident)
  then show "valid_utf8 s \<Longrightarrow> ?thesis" by (simp add: UriEncodeStrict_valid)
qed

section \<open>Header names and values\<close>

lemma header_values_set:
  "header_values (header_set k v h) k' = (if CanonicalHeaderKey k' = CanonicalHeaderKey k then [v] else header_values h k')"
  by (simp add: header_values_def header_set_def update_conv')

lemma canonical_names [simp]:
  "CanonicalHeaderKey ''host'' = ''Host''" "CanonicalHeaderKey ''Host'' = ''Host''"
  "CanonicalHeaderKey ''x-amz-date'' = ''X-Amz-Date''"
  "CanonicalHeaderKey ''x-amz-content-sha256'' = ''X-Amz-Content-Sha256''"
  "CanonicalHeaderKey ''Authorization'' = ''Authorization''"
  by code_simp+

lemma digit_graphic: "is_digit c \<Longrightarrow> graphic c"
  by (auto simp: is_digit_def graphic_def in_bytes_def less_eq_char_def)

lemma hex_graphic: "c \<in> set (hex_encode d) \<Longrightarrow> graphic c \<and> lower_char c = c"
proof -
  have "\<forall>c \<in> set ''0123456789abcdef''. graphic c \<and> lower_char c = c" by code_simp
  then show "c \<in> set (hex_encode d) \<Longrightarrow> ?thesis" using set_hex_encode [of d] by blast
qed

lemma graphic_TrimSpace: "list_all graphic s \<Longrightarrow> TrimSpace s = s"
  by (rule TrimSpace_graphic) (auto simp: list_all_iff)

lemma graphic_CollapseSpaces: "list_all graphic s \<Longrightarrow> CollapseSpaces s = s"
proof -
  assume g: "list_all graphic s"
  have "\<not> graphic (CHR '' '')" by code_simp
  with g have "\<not> Contains s ''  ''" by (auto simp: Contains_iff)
  then show ?thesis by (simp add: CollapseSpaces_def)
qed

lemma amz_date_graphic: "list_all graphic (amz_date t)" "amz_date t \<noteq> ''''"
proof -
  have "list_all graphic s" if "list_all is_digit s" for s using that digit_graphic by (auto simp: list_all_iff)
  moreover have "graphic (CHR ''T'')" "graphic (CHR ''Z'')" by code_simp+
  ultimately show "list_all graphic (amz_date t)" "amz_date t \<noteq> ''''"
    by (simp_all add: amz_date_def Let_def amz_day_digits pad_digits_digits)
qed

lemma hexDecodeSignature_hex: "hexDecodeSignature (hex_encode d) = Some d"
proof -
  have "list_all graphic (hex_encode d)" "map lower_char (hex_encode d) = hex_encode d"
    using hex_graphic by (auto simp: list_all_iff intro: map_idI)
  then show ?thesis by (simp add: hexDecodeSignature_def graphic_TrimSpace ToLower_def)
qed

lemma signaturesMatch_iff: "signaturesMatch (HexEncode d) s \<longleftrightarrow> hexDecodeSignature s = Some d"
  by (auto simp: signaturesMatch_def HexEncode_def hexDecodeSignature_hex split: option.splits)

section \<open>Signed requests\<close>

text \<open>The values the signer puts in the headers.\<close>

definition signed_payload :: "string \<Rightarrow> string" where
  "signed_payload body = (if body \<noteq> '''' then hex_encode (sha256 body) else ''UNSIGNED-PAYLOAD'')"

definition signed_host :: "sig_req \<Rightarrow> string \<Rightarrow> string" where
  "signed_host req urlHost =
     (let host = (if qHost req \<noteq> '''' then qHost req else header_get (qHeader req) ''Host'') in if host = '''' then urlHost else host)"

definition sig_for :: "string \<Rightarrow> time \<Rightarrow> string \<Rightarrow> ParsedSig" where
  "sig_for accessKeyID ts signature =
     \<lparr>psAccessKeyID = accessKeyID, psDate = amz_day ts, psRegion = ''us-east-1'', psService = ''s3'',
      psSignedHeaders = [''host'', ''x-amz-content-sha256'', ''x-amz-date''], psSignature = signature, psIsPresigned = False\<rparr>"

lemma signed_payload_graphic: "list_all graphic (signed_payload body)" "signed_payload body \<noteq> ''''"
proof -
  have "list_all graphic ''UNSIGNED-PAYLOAD''" by code_simp
  then show "list_all graphic (signed_payload body)" using hex_graphic by (auto simp: signed_payload_def list_all_iff)
  have "sha256 body \<noteq> []" using length_sha256 [of body] by (metis length_0_conv zero_neq_numeral)
  then show "signed_payload body \<noteq> ''''" by (simp add: signed_payload_def)
qed

text \<open>The lines the check rebuilds, for a request that carries the signer's headers.\<close>

lemma signed_header_lines:
  assumes "ctxHost ctx = host" "header_values (ctxHeaders ctx) ''x-amz-content-sha256'' = [p]"
    and "header_values (ctxHeaders ctx) ''x-amz-date'' = [d]" "list_all graphic p" "list_all graphic d"
  shows "CanonicalHeaders ctx [''host'', ''x-amz-content-sha256'', ''x-amz-date''] =
    ''host:'' @ host @ newline @ ''x-amz-content-sha256:'' @ p @ newline @ ''x-amz-date:'' @ d @ newline"
proof -
  have n: "ToLower (TrimSpace ''host'') = ''host''" "ToLower (TrimSpace ''x-amz-content-sha256'') = ''x-amz-content-sha256''"
    "ToLower (TrimSpace ''x-amz-date'') = ''x-amz-date''" by code_simp+
  show ?thesis
    unfolding CanonicalHeaders_def header_line_def list.map concat.simps n Let_def assms(1-3)
    using assms(4,5) by (simp add: graphic_TrimSpace graphic_CollapseSpaces)
qed

lemma buildCanonicalQuery_raw:
  assumes "\<not> ctxIsPresigned ctx" "ctxRawQuery ctx = q" "\<not> HasPrefix q ''?''"
  shows "CanonicalQueryString ctx = buildCanonicalQueryFromRaw q"
proof (cases "q = ''''")
  case True
  with assms show ?thesis
    by (simp add: CanonicalQueryString_def buildCanonicalQueryFromRaw_def TrimPrefix_def raw_pairs_def sort_pairs_def join_pairs_def)
next
  case False
  with assms show ?thesis by (simp add: CanonicalQueryString_def buildCanonicalQueryFromRaw_def TrimPrefix_def)
qed

lemma CanonicalURI_escaped:
  assumes "PathUnescape escaped = Some path" "CHR ''%'' \<notin> set path"
  shows "CanonicalURI (if escaped = '''' then ''/'' else escaped) = CanonicalURI path"
proof -
  have "PathUnescape path = Some path" using assms(2) by (simp add: PathUnescape_same)
  with assms(1) show ?thesis by (auto simp: CanonicalURI_def)
qed

text \<open>Parsing the header the signer writes.\<close>

lemma parseCredential_scope:
  assumes "CHR ''/'' \<notin> set ak" "CHR ''/'' \<notin> set day" "CHR ''/'' \<notin> set region"
  shows "parseCredential (ak @ ''/'' @ day @ ''/'' @ region @ ''/s3/aws4_request'') hs sig p =
    Inr \<lparr>psAccessKeyID = ak, psDate = day, psRegion = region, psService = ''s3'', psSignedHeaders = hs, psSignature = sig, psIsPresigned = p\<rparr>"
proof -
  have "ak @ ''/'' @ day @ ''/'' @ region @ ''/s3/aws4_request'' = Join [ak, day, region, ''s3'', ''aws4_request''] ''/''" by simp
  then have "Split (CHR ''/'') (ak @ ''/'' @ day @ ''/'' @ region @ ''/s3/aws4_request'') = [ak, day, region, ''s3'', ''aws4_request'']"
    using assms by (simp only:) (rule Split_Join; simp)
  then show ?thesis by (simp add: parseCredential_def Let_def)
qed

lemma parseAuthHeader_signed:
  assumes "CHR '','' \<notin> set cred" "graphic (last cred)" "cred \<noteq> ''''"
    and "CHR '','' \<notin> set hs" "graphic (last hs)" "hs \<noteq> ''''"
    and "CHR '','' \<notin> set sig" "graphic (last sig)" "sig \<noteq> ''''"
  shows "parseAuthHeader (''Credential='' @ cred @ '', SignedHeaders='' @ hs @ '', Signature='' @ sig) =
    parseCredential cred (Split (CHR '';'') hs) sig False"
proof -
  have "''Credential='' @ cred @ '', SignedHeaders='' @ hs @ '', Signature='' @ sig =
      Join [''Credential='' @ cred, '' SignedHeaders='' @ hs, '' Signature='' @ sig] '',''" by simp
  then have "Split (CHR '','') (''Credential='' @ cred @ '', SignedHeaders='' @ hs @ '', Signature='' @ sig) =
      [''Credential='' @ cred, '' SignedHeaders='' @ hs, '' Signature='' @ sig]"
    using assms by (simp only:) (rule Split_Join; simp)
  moreover have "graphic (CHR ''C'')" "graphic (CHR ''S'')" by code_simp+
  then have "TrimSpace (''Credential='' @ cred) = ''Credential='' @ cred"
    "TrimSpace (''SignedHeaders='' @ hs) = ''SignedHeaders='' @ hs" "TrimSpace (''Signature='' @ sig) = ''Signature='' @ sig"
    using assms by (auto intro!: TrimSpace_graphic)
  then have "TrimSpace (''Credential='' @ cred) = ''Credential='' @ cred"
    "TrimSpace ('' SignedHeaders='' @ hs) = ''SignedHeaders='' @ hs" "TrimSpace ('' Signature='' @ sig) = ''Signature='' @ sig"
    using TrimSpace_space [of "''SignedHeaders='' @ hs"] TrimSpace_space [of "''Signature='' @ sig"] by simp_all
  ultimately show ?thesis
    using assms by (simp add: parseAuthHeader_def TrimPrefix_def)
qed

definition signer_headers :: "sig_req \<Rightarrow> time \<Rightarrow> string \<Rightarrow> string \<Rightarrow> header" where
  "signer_headers req ts body host =
     header_set ''x-amz-content-sha256'' (signed_payload body) (header_set ''x-amz-date'' (amz_date ts) (header_set ''Host'' host (qHeader req)))"

definition signer_request :: "sig_req \<Rightarrow> time \<Rightarrow> string \<Rightarrow> string \<Rightarrow> string" where
  "signer_request req ts body host =
     Join [ToUpper (qMethod req), CanonicalURI (if qEscapedPath req = '''' then ''/'' else qEscapedPath req),
       buildCanonicalQueryFromRaw (qRawQuery req),
       ''host:'' @ host @ newline @ ''x-amz-content-sha256:'' @ signed_payload body @ newline @ ''x-amz-date:'' @ amz_date ts @ newline,
       ''host;x-amz-content-sha256;x-amz-date'', signed_payload body] newline"

definition signer_string :: "sig_req \<Rightarrow> time \<Rightarrow> string \<Rightarrow> string \<Rightarrow> string" where
  "signer_string req ts body host =
     Join [''AWS4-HMAC-SHA256'', amz_date ts, amz_day ts @ ''/us-east-1/s3/aws4_request'',
       SHA256Hex (signer_request req ts body host)] newline"

definition signer_mac :: "sig_req \<Rightarrow> string \<Rightarrow> time \<Rightarrow> string \<Rightarrow> string \<Rightarrow> string" where
  "signer_mac req sk ts body host =
     HmacSHA256 (DeriveSigningKey sk (amz_day ts) ''us-east-1'' ''s3'') (signer_string req ts body host)"

lemma SignRequest_shape:
  "SignRequestWithTime req ak sk ts body urlHost =
     req\<lparr>qHost := signed_host req urlHost, qHeader := header_set ''Authorization''
       (''AWS4-HMAC-SHA256 '' @ ''Credential='' @ (ak @ ''/'' @ amz_day ts @ ''/'' @ ''us-east-1'' @ ''/s3/aws4_request'') @
        '', SignedHeaders='' @ ''host;x-amz-content-sha256;x-amz-date'' @
        '', Signature='' @ HexEncode (signer_mac req sk ts body (signed_host req urlHost)))
       (signer_headers req ts body (signed_host req urlHost))\<rparr>"
  by (simp add: SignRequestWithTime_def Let_def signer_mac_def signer_string_def signer_request_def signer_headers_def signed_host_def
      flip: signed_payload_def)

lemma hex_mac_facts:
  "CHR '','' \<notin> set (HexEncode (HmacSHA256 k m))" "graphic (last (HexEncode (HmacSHA256 k m)))" "HexEncode (HmacSHA256 k m) \<noteq> ''''"
proof -
  have "length (HmacSHA256 k m) = 32" by (simp add: HmacSHA256_def hmac_sha256_def)
  then show ne: "HexEncode (HmacSHA256 k m) \<noteq> ''''" by (auto simp: HexEncode_def)
  have "CHR '','' \<notin> set ''0123456789abcdef''" by code_simp
  then show "CHR '','' \<notin> set (HexEncode (HmacSHA256 k m))" using set_hex_encode by (auto simp: HexEncode_def)
  from ne show "graphic (last (HexEncode (HmacSHA256 k m)))" using hex_graphic last_in_set by (metis HexEncode_def)
qed

lemma amz_day_free: "\<not> is_digit c \<Longrightarrow> c \<notin> set (amz_day t)"
  using amz_day_digits [of t] by (auto simp: list_all_iff)

lemma not_digits [simp]: "\<not> is_digit (CHR '','')" "\<not> is_digit (CHR ''/'')" by code_simp+

lemma ParseSigV4_signed:
  fixes urlHost :: string
  assumes "CHR ''/'' \<notin> set ak" "CHR '','' \<notin> set ak" "\<not> query_has (parse_query (qRawQuery req)) ''X-Amz-Algorithm''"
  defines "host \<equiv> signed_host req urlHost"
  shows "ParseSigV4 (SignRequestWithTime req ak sk ts body urlHost) =
    Inr (Some (sig_for ak ts (HexEncode (signer_mac req sk ts body host))))"
proof -
  let ?r = "SignRequestWithTime req ak sk ts body urlHost"
  let ?cred = "ak @ ''/'' @ amz_day ts @ ''/'' @ ''us-east-1'' @ ''/s3/aws4_request''"
  let ?v = "''Credential='' @ ?cred @ '', SignedHeaders='' @ ''host;x-amz-content-sha256;x-amz-date'' @
        '', Signature='' @ HexEncode (signer_mac req sk ts body host)"
  have a: "header_get (qHeader ?r) ''Authorization'' = ''AWS4-HMAC-SHA256 '' @ ?v"
    by (simp add: SignRequest_shape header_get_set host_def)
  have "CHR ''/'' \<notin> set (amz_day ts)" by (simp add: amz_day_free)
  moreover have "graphic (CHR ''t'')" "graphic (CHR ''e'')" by code_simp+
  moreover have "Split (CHR '';'') ''host;x-amz-content-sha256;x-amz-date'' = [''host'', ''x-amz-content-sha256'', ''x-amz-date'']"
    by code_simp
  ultimately have p: "parseAuthHeader ?v = Inr (sig_for ak ts (HexEncode (signer_mac req sk ts body host)))"
    using assms(1,2) parseCredential_scope [of ak "amz_day ts" "''us-east-1''"] hex_mac_facts
    by (subst parseAuthHeader_signed) (simp_all add: amz_day_free sig_for_def signer_mac_def)
  have "ToUpper ''AWS4-HMAC-SHA256 '' = ''AWS4-HMAC-SHA256 ''" by code_simp
  then have "HasPrefix (ToUpper (''AWS4-HMAC-SHA256 '' @ ?v)) ''AWS4-HMAC-SHA256 ''"
    unfolding ToUpper_def map_append by (simp only: HasPrefix_simps)
  moreover have "qRawQuery ?r = qRawQuery req" by (simp add: SignRequest_shape)
  moreover have "drop (length ''AWS4-HMAC-SHA256 '') (''AWS4-HMAC-SHA256 '' @ ?v) = ?v" by simp
  ultimately show ?thesis using assms(3) unfolding ParseSigV4_def Let_def a by (simp only: p) simp
qed

lemma signed_canonical:
  fixes urlHost :: string
  assumes "PathUnescape (qEscapedPath req) = Some (qPath req)" "CHR ''%'' \<notin> set (qPath req)"
    and "\<not> HasPrefix (qRawQuery req) ''?''" "\<not> query_has (parse_query (qRawQuery req)) ''X-Amz-Algorithm''"
  defines "host \<equiv> signed_host req urlHost"
  shows "BuildCanonicalRequest (RequestContextFromHTTP (SignRequestWithTime req ak sk ts body urlHost)) (sig_for ak ts sig) =
      signer_request req ts body host"
    and "BuildStringToSign (RequestContextFromHTTP (SignRequestWithTime req ak sk ts body urlHost)) (sig_for ak ts sig) (signer_request req ts body host) =
      signer_string req ts body host"
proof -
  let ?ctx = "RequestContextFromHTTP (SignRequestWithTime req ak sk ts body urlHost)"
  note P = signed_payload_graphic [of body] and D = amz_date_graphic [of ts]
  have c: "ctxHost ?ctx = host" "header_values (ctxHeaders ?ctx) ''x-amz-content-sha256'' = [signed_payload body]"
    "header_values (ctxHeaders ?ctx) ''x-amz-date'' = [amz_date ts]"
    "header_get (ctxHeaders ?ctx) ''x-amz-date'' = amz_date ts" "ctxPayloadHashDeclared ?ctx = signed_payload body"
    "ctxMethod ?ctx = qMethod req" "ctxPath ?ctx = qPath req" "ctxRawQuery ?ctx = qRawQuery req" "\<not> ctxIsPresigned ?ctx"
    using assms(4)
    by (simp_all add: SignRequest_shape RequestContextFromHTTP_def signer_headers_def header_values_set header_get_set host_def)
  have "RequestTimestamp ?ctx d = amz_date ts" for d
    using c D by (simp add: RequestTimestamp_def graphic_TrimSpace)
  moreover have "PayloadHash ?ctx = signed_payload body" using c P by (simp add: PayloadHash_def)
  moreover have "CanonicalQueryString ?ctx = buildCanonicalQueryFromRaw (qRawQuery req)"
    using c assms(3) by (intro buildCanonicalQuery_raw) auto
  moreover have "CanonicalURI (if qEscapedPath req = '''' then ''/'' else qEscapedPath req) = CanonicalURI (qPath req)"
    using assms(1,2) by (rule CanonicalURI_escaped)
  ultimately show "BuildCanonicalRequest ?ctx (sig_for ak ts sig) = signer_request req ts body host"
    "BuildStringToSign ?ctx (sig_for ak ts sig) (signer_request req ts body host) = signer_string req ts body host"
    using signed_header_lines [OF c(1-3) P(1) D(1)] c
    by (simp_all add: BuildStringToSign_def BuildCanonicalRequest_def sig_for_def signer_request_def signer_string_def)
qed

lemma signed_payload_verified:
  assumes "ctxPayloadHashDeclared ctx = signed_payload body" "body \<noteq> '''' \<Longrightarrow> qBody r = Inr body"
  shows "verifyPayloadHash r ctx = None"
  using assms signed_payload_graphic [of body]
  by (cases "body = ''''") (auto simp: verifyPayloadHash_def graphic_TrimSpace Let_def signed_payload_def SHA256Hex_def)

lemma fresh_header:
  assumes "header_get (qHeader r) ''x-amz-date'' = amz_date ts" "printable_year ts"
    and "\<not> query_has (parse_query (qRawQuery r)) ''X-Amz-Expires''" "\<bar>now - whole_seconds ts\<bar> \<le> clockSkew"
  shows "isTimestampFresh now r"
proof -
  have "in_i64 (now - whole_seconds ts)" "in_i64 (whole_seconds ts - now)"
    using assms(4) by (auto simp: in_i64_def clockSkew_def)
  with assms show ?thesis
    by (auto simp: isTimestampFresh_def amz_date_graphic graphic_TrimSpace parse_amz_date_printed time_Sub_def Let_def)
qed

lemma signed_accepted:
  assumes "PathUnescape (qEscapedPath req) = Some (qPath req)" "CHR ''%'' \<notin> set (qPath req)"
    and "\<not> HasPrefix (qRawQuery req) ''?''" "\<not> query_has (parse_query (qRawQuery req)) ''X-Amz-Algorithm''"
    and "\<not> query_has (parse_query (qRawQuery req)) ''X-Amz-Expires''"
    and "CHR ''/'' \<notin> set ak" "CHR '','' \<notin> set ak"
    and "store ak = Inr (Some cred)"
    and "printable_year ts" "\<bar>now - whole_seconds ts\<bar> \<le> clockSkew"
    and "body \<noteq> '''' \<Longrightarrow> qBody req = Inr body"
  shows "VerifyRequest store now (SignRequestWithTime req ak (SecretAccessKey cred) ts body urlHost) = Inr cred"
proof -
  let ?sk = "SecretAccessKey cred" and ?host = "signed_host req urlHost"
  let ?r = "SignRequestWithTime req ak ?sk ts body urlHost"
  let ?mac = "HexEncode (signer_mac req ?sk ts body ?host)"
  have h: "header_get (qHeader ?r) ''x-amz-date'' = amz_date ts" "header_get (qHeader ?r) ''x-amz-content-sha256'' = signed_payload body"
    "qRawQuery ?r = qRawQuery req" "qBody ?r = qBody req"
    by (simp_all add: SignRequest_shape signer_headers_def header_get_set)
  have "isTimestampFresh now ?r" using h assms(5,9,10) by (intro fresh_header) simp_all
  moreover have "fst (VerifySignature ?sk (sig_for ak ts ?mac) (RequestContextFromHTTP ?r))"
    unfolding VerifySignature_def Let_def expected_signature_def signed_canonical [OF assms(1-4)] fst_conv signaturesMatch_iff
    by (simp add: sig_for_def HexEncode_def hexDecodeSignature_hex signer_mac_def)
  moreover have "verifyPayloadHash ?r (RequestContextFromHTTP ?r) = None"
    using h assms(11) by (intro signed_payload_verified [where body = body]) (simp_all add: RequestContextFromHTTP_def)
  moreover have "psAccessKeyID (sig_for ak ts ?mac) = ak" by (simp add: sig_for_def)
  ultimately show ?thesis
    unfolding VerifyRequest_def ParseSigV4_signed [OF assms(6,7,4)] using assms(8) by simp
qed

text \<open>
  C17: a request signed by \<open>SignRequestWithTime\<close> is accepted by \<open>VerifyRequest\<close>, whatever its method, headers, query
  and body: when the store holds the secret of the access key, the clock of the server is within fifteen minutes of the
  signing time (without its fraction of a second) and the body arrives unchanged. The path on the wire decodes to the
  path of the request and contains no percent sign after that, the access key contains no slash and no comma, and
  the query is not that of a presigned URL.
\<close>

theorem sign_verify_roundtrip:
  assumes "PathUnescape (qEscapedPath req) = Some (qPath req)" "CHR ''%'' \<notin> set (qPath req)"
    and "\<not> HasPrefix (qRawQuery req) ''?''" "\<not> query_has (parse_query (qRawQuery req)) ''X-Amz-Algorithm''"
    and "\<not> query_has (parse_query (qRawQuery req)) ''X-Amz-Expires''"
    and "CHR ''/'' \<notin> set ak" "CHR '','' \<notin> set ak"
    and "store ak = Inr (Some cred)"
    and "printable_year ts" "\<bar>now - whole_seconds ts\<bar> \<le> clockSkew"
    and "body \<noteq> '''' \<Longrightarrow> qBody req = Inr body"
  shows "VerifyRequest store now (SignRequestWithTime req ak (SecretAccessKey cred) ts body urlHost) = Inr cred"
  using assms by (rule signed_accepted)

definition example_credential :: Credential where
  "example_credential =
     \<lparr>crID = ''1'', crName = ''demo'', AccessKeyID = ''AKIA'', SecretAccessKey = ''secret'', crCreatedAt = 0, crUpdatedAt = 0\<rparr>"

definition example_request :: sig_req where
  "example_request =
     \<lparr>qMethod = ''PUT'', qPath = ''/photos/a b'', qEscapedPath = ''/photos/a%20b'', qRawQuery = ''partNumber=2&uploadId=x%2By'',
      qHost = ''localhost:9000'', qHeader = [], qBody = Inr ''abc''\<rparr>"

lemma example_request_facts:
  "PathUnescape (qEscapedPath example_request) = Some (qPath example_request)" "CHR ''%'' \<notin> set (qPath example_request)"
  "\<not> HasPrefix (qRawQuery example_request) ''?''" "\<not> query_has (parse_query (qRawQuery example_request)) ''X-Amz-Algorithm''"
  "\<not> query_has (parse_query (qRawQuery example_request)) ''X-Amz-Expires''"
  by code_simp+

theorem sign_verify_roundtrip_witness:
  "VerifyRequest (\<lambda>k. if k = ''AKIA'' then Inr (Some example_credential) else Inr None) 1735689630000000000
     (SignRequestWithTime example_request ''AKIA'' ''secret'' 1735689599500000000 ''abc'' '''') = Inr example_credential"
proof -
  have "SecretAccessKey example_credential = ''secret''" "qBody example_request = Inr ''abc''"
    by (simp_all add: example_credential_def example_request_def)
  moreover have "printable_year 1735689599500000000" by code_simp
  ultimately show ?thesis
    using sign_verify_roundtrip [OF example_request_facts, of "''AKIA''"
        "\<lambda>k. if k = ''AKIA'' then Inr (Some example_credential) else Inr None" example_credential
        1735689599500000000 1735689630000000000 "''abc''" "''''"]
    by (simp add: whole_seconds_def clockSkew_def)
qed

section \<open>Presigned URLs\<close>

lemma unreserved_ascii: "isUnreserved c \<Longrightarrow> in_bytes 0 0x7F c"
  by (auto simp: in_bytes_def isUnreserved_def is_alnum_def in_span_def is_digit_def less_eq_char_def)

lemma UriEncodeStrict_plain: "list_all isUnreserved s \<Longrightarrow> UriEncodeStrict s = s"
proof -
  assume u: "list_all isUnreserved s"
  then have "valid_utf8 s" using unreserved_ascii by (intro ascii_valid_utf8) (auto simp: list_all_iff)
  moreover have "concat (map enc_byte s) = s" using u by (induction s) (auto simp: enc_byte_def)
  ultimately show ?thesis by (simp add: UriEncodeStrict_valid)
qed

lemma hex_unreserved: "list_all isUnreserved (hex_encode d)"
proof -
  have "\<forall>c \<in> set ''0123456789abcdef''. isUnreserved c" by code_simp
  then show ?thesis using set_hex_encode [of d] by (auto simp: list_all_iff)
qed

definition enc_pair :: "string \<times> string \<Rightarrow> string \<times> string" where
  "enc_pair p = (UriEncodeStrict (fst p), UriEncodeStrict (snd p))"

lemma separators_reserved [simp]:
  "\<not> isUnreserved (CHR ''&'')" "\<not> isUnreserved (CHR ''='')" "\<not> isUnreserved (CHR '';'')" by code_simp+

lemma parse_pair_encoded:
  assumes "valid_utf8 k" "valid_utf8 v"
  shows "parse_pair (UriEncodeStrict k @ ''='' @ UriEncodeStrict v) = Some (k, v)"
proof -
  have free: "CHR ''='' \<notin> set (UriEncodeStrict k)" "CHR '';'' \<notin> set (UriEncodeStrict k)" "CHR '';'' \<notin> set (UriEncodeStrict v)"
    by (simp_all add: UriEncodeStrict_free)
  then have "takeWhile (\<lambda>x. x \<noteq> CHR ''='') (UriEncodeStrict k @ CHR ''='' # UriEncodeStrict v) = UriEncodeStrict k"
    "dropWhile (\<lambda>x. x \<noteq> CHR ''='') (UriEncodeStrict k @ CHR ''='' # UriEncodeStrict v) = CHR ''='' # UriEncodeStrict v"
    by (subst takeWhile_append2 dropWhile_append2; auto)+
  with free assms show ?thesis by (simp add: parse_pair_def Cut_def QueryUnescape_encoded)
qed

lemma parse_query_encoded:
  assumes "ps \<noteq> []" "\<forall>(k, v) \<in> set ps. valid_utf8 k \<and> valid_utf8 v"
  shows "parse_query (join_pairs (map enc_pair ps)) = ps"
proof -
  let ?piece = "\<lambda>p. UriEncodeStrict (fst p) @ ''='' @ UriEncodeStrict (snd p)"
  have "CHR ''&'' \<notin> set (?piece p)" for p by (simp add: UriEncodeStrict_free)
  then have "Split (CHR ''&'') (Join (map ?piece ps) ''&'') = map ?piece ps" using assms(1) by (intro Split_Join) auto
  moreover have "List.map_filter parse_pair (map ?piece ps) = ps" if "\<forall>(k, v) \<in> set ps. valid_utf8 k \<and> valid_utf8 v" for ps
    using that by (induction ps) (auto simp: parse_pair_encoded [simplified])
  ultimately show ?thesis using assms(2) by (simp add: parse_query_def join_pairs_def enc_pair_def comp_def)
qed

lemma Join_snoc: "ss \<noteq> [] \<Longrightarrow> Join (ss @ [t]) sep = Join ss sep @ sep @ t"
  by (induction ss sep rule: Join.induct) auto

lemma sort_pairs_sorted: "distinct (map fst ps) \<Longrightarrow> sorted (map fst ps) \<Longrightarrow> sort_pairs ps = ps"
  unfolding sort_pairs_def by (rule sort_key_inj_key_eq) (auto simp: distinct_map)

lemma parse_int_digits:
  "list_all is_digit s \<Longrightarrow> 0 \<le> n \<Longrightarrow> foldl (\<lambda>n c. 10 * n + (of_char c - 48)) n s < 2 ^ 63 \<Longrightarrow>
   n \<le> foldl (\<lambda>n c. 10 * n + (of_char c - 48)) n s \<and>
   parse_int_loop s n = Some (foldl (\<lambda>n c. 10 * n + (of_char c - 48)) n s)"
proof (induction s arbitrary: n)
  case (Cons c s)
  have d: "is_digit c" using Cons.prems by simp
  then have "(of_char c :: nat) \<ge> 48" by (simp add: is_digit_def less_eq_char_def)
  then have "int (of_char c) \<ge> 48" by linarith
  then have c: "(of_char c :: int) \<ge> 48" by (simp only: of_nat_of_char)
  let ?n = "10 * n + (of_char c - 48)"
  have IH: "?n \<le> foldl (\<lambda>n c. 10 * n + (of_char c - 48)) ?n s"
    "parse_int_loop s ?n = Some (foldl (\<lambda>n c. 10 * n + (of_char c - 48)) ?n s)"
    using Cons c by auto
  have "n * 10 + (of_char c - 48) = ?n" by simp
  moreover have "in_i64 ?n" using Cons.prems c IH(1) by (auto simp: in_i64_def)
  ultimately have "i64 (n * 10 + (of_char c - 48)) = ?n" by (metis i64_id)
  with IH d c Cons.prems show ?case by simp
qed simp

lemma parseInt_FormatInt: "0 \<le> e \<Longrightarrow> e < 2 ^ 63 \<Longrightarrow> parseInt (FormatInt e) = Some e"
  using dec_digits_facts [of "nat e"] parse_int_digits [of "dec_digits (nat e)" 0]
  by (simp add: parseInt_def FormatInt_def digits_val_def)

text \<open>
  The request a client makes with a presigned URL: the path is the decoded path of the URL, the query its query, the
  host that of the base URL.
\<close>

definition presigned_request :: "PresignOptions \<Rightarrow> time \<Rightarrow> string \<Rightarrow> header \<Rightarrow> string res \<Rightarrow> sig_req" where
  "presigned_request opts t host h body =
     \<lparr>qMethod = presign_method opts, qPath = (case PathUnescape (presign_uri opts) of Some p \<Rightarrow> p | None \<Rightarrow> ''''),
      qEscapedPath = presign_uri opts,
      qRawQuery = presign_query opts t @ ''&X-Amz-Signature='' @ presign_signature opts t host,
      qHost = host, qHeader = h, qBody = body\<rparr>"

definition presign_path :: "PresignOptions \<Rightarrow> string" where
  "presign_path opts = ''/'' @ poBucket opts @ (if poKey opts \<noteq> '''' then ''/'' @ poKey opts else '''')"

text \<open>Options whose parts survive the encoding.\<close>

definition presignable :: "PresignOptions \<Rightarrow> bool" where
  "presignable opts \<longleftrightarrow>
     valid_utf8 (poBucket opts) \<and> CHR ''/'' \<notin> set (poBucket opts) \<and> CHR ''%'' \<notin> set (presign_path opts) \<and>
     list_all valid_utf8 (Split (CHR ''/'') (poKey opts)) \<and>
     list_all (in_bytes 0 0x7F) (poAccessKeyID opts @ presign_region opts) \<and>
     CHR ''/'' \<notin> set (poAccessKeyID opts) \<and> CHR ''/'' \<notin> set (presign_region opts) \<and>
     presign_expires opts \<le> 9223372036"

lemma PathUnescape_segments:
  "list_all valid_utf8 ss \<Longrightarrow>
   PathUnescape (concat (map (\<lambda>seg. ''/'' @ UriEncodeStrict seg) ss)) = Some (concat (map (\<lambda>seg. ''/'' @ seg) ss))"
proof (induction ss)
  case (Cons s ss)
  then show ?case by (simp add: PathUnescape_encoded)
qed simp

lemma slash_Join: "ss \<noteq> [] \<Longrightarrow> concat (map (\<lambda>seg. ''/'' @ f seg) ss) = ''/'' @ Join (map f ss) ''/''"
  by (induction ss rule: induct_list012) auto

lemma presign_uri_decoded: "presignable opts \<Longrightarrow> PathUnescape (presign_uri opts) = Some (presign_path opts)"
  using PathUnescape_segments [of "Split (CHR ''/'') (poKey opts)"] slash_Join [of "Split (CHR ''/'') (poKey opts)" "\<lambda>s. s"]
  by (auto simp: presignable_def presign_uri_def presign_path_def PathUnescape_encoded [where t = "[]", simplified]
      PathUnescape_encoded Join_Split)

lemma presign_uri_canonical: "presignable opts \<Longrightarrow> CanonicalURI (presign_path opts) = presign_uri opts"
proof -
  assume p: "presignable opts"
  then have "PathUnescape (presign_path opts) = Some (presign_path opts)" by (simp add: presignable_def PathUnescape_same)
  moreover have "Split (CHR ''/'') (presign_path opts) =
      [''''] @ [poBucket opts] @ (if poKey opts \<noteq> '''' then Split (CHR ''/'') (poKey opts) else [])"
    using p by (simp add: presignable_def presign_path_def Split_id Split_append)
  moreover have "UriEncodeStrict '''' = ''''" by code_simp
  moreover have "presign_path opts \<noteq> ''''" by (simp add: presign_path_def)
  moreover have "Join ('''' # poBucket' # ss) ''/'' = ''/'' @ poBucket' @ concat (map (\<lambda>seg. ''/'' @ seg) ss)" for poBucket' ss
    using slash_Join [of ss "\<lambda>s. s"] by (cases ss) simp_all
  ultimately show ?thesis by (simp add: CanonicalURI_def presign_uri_def comp_def)
qed

lemma ascii_digits: "list_all is_digit s \<Longrightarrow> list_all (in_bytes 0 0x7F) s"
  by (auto simp: list_all_iff is_digit_def in_bytes_def less_eq_char_def)

lemma presign_params_valid:
  assumes "presignable opts"
  shows "\<forall>(k, v) \<in> set (presign_params opts t). valid_utf8 k \<and> valid_utf8 v"
proof -
  have lit: "valid_utf8 ''X-Amz-Algorithm''" "valid_utf8 ''AWS4-HMAC-SHA256''" "valid_utf8 ''X-Amz-Credential''"
    "valid_utf8 ''X-Amz-Date''" "valid_utf8 ''X-Amz-Expires''" "valid_utf8 ''X-Amz-SignedHeaders''" "valid_utf8 ''host''"
    by code_simp+
  have s: "list_all (in_bytes 0 0x7F) ''/s3/aws4_request''" "in_bytes 0 0x7F (CHR ''/'')" by code_simp+
  have "list_all (in_bytes 0 0x7F) (amz_day t)" by (intro ascii_digits amz_day_digits)
  then have "valid_utf8 (poAccessKeyID opts @ ''/'' @ amz_day t @ ''/'' @ presign_region opts @ ''/s3/aws4_request'')"
    using assms s by (intro ascii_valid_utf8) (simp add: presignable_def)
  moreover have "valid_utf8 (amz_date t)"
    using amz_date_graphic [of t] by (intro ascii_valid_utf8) (auto simp: list_all_iff graphic_def in_bytes_def)
  moreover have "0 < presign_expires opts" by (simp add: presign_expires_def)
  then have "valid_utf8 (FormatInt (presign_expires opts))"
    using dec_digits_facts by (intro ascii_valid_utf8 ascii_digits) (simp add: FormatInt_def)
  ultimately show ?thesis using lit by (simp add: presign_params_def)
qed

lemma unreserved_names:
  "list_all isUnreserved ''X-Amz-Algorithm''" "list_all isUnreserved ''X-Amz-Credential''" "list_all isUnreserved ''X-Amz-Date''"
  "list_all isUnreserved ''X-Amz-Expires''" "list_all isUnreserved ''X-Amz-SignedHeaders''" "list_all isUnreserved ''X-Amz-Signature''"
  by code_simp+

lemmas encoded_names = unreserved_names [THEN UriEncodeStrict_plain]

lemma presign_query_enc: "presign_query opts t = join_pairs (map enc_pair (presign_params opts t))"
proof -
  have "(\<lambda>(k, v). (UriEncodeStrict k, UriEncodeStrict v)) = enc_pair" by (auto simp: enc_pair_def)
  then show ?thesis by (simp add: presign_query_def)
qed

lemma presigned_query:
  assumes "presignable opts"
  shows "parse_query (presign_query opts t @ ''&X-Amz-Signature='' @ hex_encode d) =
    presign_params opts t @ [(''X-Amz-Signature'', hex_encode d)]"
proof -
  have "enc_pair (''X-Amz-Signature'', hex_encode d) = (''X-Amz-Signature'', hex_encode d)"
    by (simp add: enc_pair_def UriEncodeStrict_plain hex_unreserved encoded_names)
  moreover have "presign_params opts t \<noteq> []" by (simp add: presign_params_def)
  ultimately have "presign_query opts t @ ''&X-Amz-Signature='' @ hex_encode d =
      join_pairs (map enc_pair (presign_params opts t @ [(''X-Amz-Signature'', hex_encode d)]))"
    by (simp add: presign_query_enc join_pairs_def Join_snoc)
  moreover have "valid_utf8 ''X-Amz-Signature''" by code_simp
  moreover have "valid_utf8 (hex_encode d)"
    using hex_unreserved unreserved_ascii by (intro ascii_valid_utf8) (auto simp: list_all_iff)
  ultimately show ?thesis
    using presign_params_valid [OF assms, of t] by (simp only:) (rule parse_query_encoded; auto)
qed

lemma presign_params_names: "map fst (presign_params opts t) =
    [''X-Amz-Algorithm'', ''X-Amz-Credential'', ''X-Amz-Date'', ''X-Amz-Expires'', ''X-Amz-SignedHeaders'']"
  by (simp add: presign_params_def)

lemma presign_canonical_query:
  assumes "ctxQuery ctx = presign_params opts t @ [(''X-Amz-Signature'', s)]" "ctxIsPresigned ctx"
  shows "CanonicalQueryString ctx = presign_query opts t"
proof -
  have "filter (\<lambda>(k, v). k \<noteq> ''X-Amz-Signature'') (presign_params opts t @ [(''X-Amz-Signature'', s)]) = presign_params opts t"
    by (simp add: presign_params_def)
  moreover have "map fst (map enc_pair (presign_params opts t)) = map fst (presign_params opts t)"
    by (simp add: presign_params_def enc_pair_def encoded_names)
  moreover have "distinct [''X-Amz-Algorithm'', ''X-Amz-Credential'', ''X-Amz-Date'', ''X-Amz-Expires'', ''X-Amz-SignedHeaders'']"
    "sorted [''X-Amz-Algorithm'', ''X-Amz-Credential'', ''X-Amz-Date'', ''X-Amz-Expires'', ''X-Amz-SignedHeaders'']"
    by code_simp+
  ultimately have "sort_pairs (map enc_pair (presign_params opts t)) = map enc_pair (presign_params opts t)"
    by (intro sort_pairs_sorted) (simp_all only: presign_params_names)
  moreover have "(\<lambda>(k, v). (UriEncodeStrict k, UriEncodeStrict v)) = enc_pair" by (auto simp: enc_pair_def)
  ultimately show ?thesis
    using assms \<open>filter _ _ = _\<close> by (simp add: CanonicalQueryString_def presign_query_enc)
qed

definition presigned_sig :: "PresignOptions \<Rightarrow> time \<Rightarrow> string \<Rightarrow> ParsedSig" where
  "presigned_sig opts t sig =
     \<lparr>psAccessKeyID = poAccessKeyID opts, psDate = amz_day t, psRegion = presign_region opts, psService = ''s3'',
      psSignedHeaders = [''host''], psSignature = sig, psIsPresigned = True\<rparr>"

lemma ParseSigV4_presigned:
  assumes "presignable opts"
    and q: "parse_query (qRawQuery r) = presign_params opts t @ [(''X-Amz-Signature'', s)]" and "s \<noteq> ''''"
  shows "ParseSigV4 r = Inr (Some (presigned_sig opts t s))"
proof -
  have "CHR ''/'' \<notin> set (amz_day t)" by (simp add: amz_day_free)
  then have "parseCredential (poAccessKeyID opts @ ''/'' @ amz_day t @ ''/'' @ presign_region opts @ ''/s3/aws4_request'') hs s True =
      Inr ((presigned_sig opts t s)\<lparr>psSignedHeaders := hs\<rparr>)" for hs
    using assms(1) by (subst parseCredential_scope) (simp_all add: presignable_def presigned_sig_def)
  moreover have "query_get (parse_query (qRawQuery r)) ''X-Amz-Credential'' =
        poAccessKeyID opts @ ''/'' @ amz_day t @ ''/'' @ presign_region opts @ ''/s3/aws4_request''"
    "query_get (parse_query (qRawQuery r)) ''X-Amz-SignedHeaders'' = ''host''"
    "query_get (parse_query (qRawQuery r)) ''X-Amz-Signature'' = s"
    "query_has (parse_query (qRawQuery r)) ''X-Amz-Algorithm''"
    unfolding q by (simp_all add: query_get_def query_has_def presign_params_def)
  moreover have "Split (CHR '';'') ''host'' = [''host'']" by code_simp
  ultimately show ?thesis using assms(3)
    by (simp add: ParseSigV4_def parseQuerySig_def Let_def presigned_sig_def)
qed

lemma presigned_timestamp:
  assumes "header_get (ctxHeaders ctx) ''x-amz-date'' = ''''" "ctxQuery ctx = presign_params opts t @ ps"
  shows "RequestTimestamp ctx d = amz_date t"
proof -
  have "query_get (ctxQuery ctx) ''X-Amz-Date'' = amz_date t" unfolding assms(2) by (simp add: query_get_def presign_params_def)
  moreover have "TrimSpace '''' = ''''" by code_simp
  ultimately show ?thesis using assms(1) amz_date_graphic [of t] by (simp add: RequestTimestamp_def graphic_TrimSpace)
qed

lemma presigned_expected:
  assumes "presignable opts" "host \<noteq> ''''" "header_get h ''x-amz-date'' = ''''" "header_get h ''x-amz-content-sha256'' = ''''"
    and q: "parse_query (qRawQuery r) = presign_params opts t @ [(''X-Amz-Signature'', s)]"
    and r: "qMethod r = presign_method opts" "qPath r = presign_path opts" "qHost r = host" "qHeader r = h"
  shows "expected_signature (poSecretAccessKey opts) (presigned_sig opts t s) (RequestContextFromHTTP r) = presign_signature opts t host"
proof -
  let ?ctx = "RequestContextFromHTTP r"
  have c: "ctxQuery ?ctx = presign_params opts t @ [(''X-Amz-Signature'', s)]" "header_get (ctxHeaders ?ctx) ''x-amz-date'' = ''''"
    "ctxMethod ?ctx = presign_method opts" "ctxPath ?ctx = presign_path opts" "ctxHost ?ctx = host" "PayloadHash ?ctx = ''UNSIGNED-PAYLOAD''"
    using assms by (simp_all add: RequestContextFromHTTP_def PayloadHash_def)
  have "ctxIsPresigned ?ctx" unfolding RequestContextFromHTTP_def by (simp add: q query_has_def presign_params_def)
  with c have cq: "CanonicalQueryString ?ctx = presign_query opts t" by (intro presign_canonical_query)
  have "ToLower (TrimSpace ''host'') = ''host''" by code_simp
  then have ch: "CanonicalHeaders ?ctx [''host''] = ''host:'' @ host @ newline"
    using c by (simp add: CanonicalHeaders_def header_line_def)
  have up: "upper_char (upper_char x) = upper_char x" for x by (auto simp: upper_char_def less_eq_char_def)
  have "ToUpper (presign_method opts) = presign_method opts"
  proof (cases "ToUpper (poMethod opts) = ''''")
    case True
    moreover have "ToUpper ''GET'' = ''GET''" by code_simp
    ultimately show ?thesis by (simp add: presign_method_def)
  next
    case False
    then show ?thesis by (simp add: presign_method_def ToUpper_def up comp_def)
  qed
  with presigned_timestamp [OF c(2,1)] presign_uri_canonical [OF assms(1)] c cq ch show ?thesis
    by (simp add: expected_signature_def BuildStringToSign_def BuildCanonicalRequest_def presigned_sig_def presign_signature_def Let_def)
qed

lemma presigned_fresh:
  assumes "header_get (qHeader r) ''x-amz-date'' = ''''" "printable_year t" "presign_expires opts \<le> 9223372036"
    and q: "parse_query (qRawQuery r) = presign_params opts t @ ps"
  shows "isTimestampFresh now r \<longleftrightarrow> whole_seconds t \<le> now \<and> now \<le> whole_seconds t + presign_expires opts * 10 ^ 9"
proof -
  have g: "query_get (parse_query (qRawQuery r)) ''X-Amz-Date'' = amz_date t" "query_has (parse_query (qRawQuery r)) ''X-Amz-Expires''"
    "query_get (parse_query (qRawQuery r)) ''X-Amz-Expires'' = FormatInt (presign_expires opts)"
    unfolding q by (simp_all add: query_get_def query_has_def presign_params_def)
  have e: "0 < presign_expires opts" by (simp add: presign_expires_def)
  with assms(3) have "parseInt (FormatInt (presign_expires opts)) = Some (presign_expires opts)" by (intro parseInt_FormatInt) auto
  moreover have "in_i64 (presign_expires opts * 10 ^ 9)" using e assms(3) by (simp add: in_i64_def)
  moreover have "TrimSpace '''' = ''''" by code_simp
  ultimately show ?thesis using assms(1,2) g e amz_date_graphic [of t]
    by (simp add: isTimestampFresh_def graphic_TrimSpace parse_amz_date_printed Let_def)
qed

text \<open>
  C18: a presigned URL works exactly from the second it was made until it expires: the request a client makes with it is
  accepted then, and refused as expired before and after, for every bucket, key, method, region and access key that
  survive the encoding. The store holds the secret the URL was made with; the client sends no date and no payload hash
  of its own.
\<close>

theorem presign_roundtrip:
  assumes "presignable opts" "host \<noteq> ''''" "printable_year t"
    and "header_get h ''x-amz-date'' = ''''" "header_get h ''x-amz-content-sha256'' = ''''"
    and "store (poAccessKeyID opts) = Inr (Some cred)" "SecretAccessKey cred = poSecretAccessKey opts"
  shows "VerifyRequest store now (presigned_request opts t host h body) =
    (if whole_seconds t \<le> now \<and> now \<le> whole_seconds t + presign_expires opts * 10 ^ 9 then Inr cred else Inl request_expired)"
proof -
  let ?r = "presigned_request opts t host h body" and ?s = "presign_signature opts t host"
  obtain k m where s: "?s = hex_encode (HmacSHA256 k m)" by (simp add: presign_signature_def Let_def HexEncode_def)
  have r: "qMethod ?r = presign_method opts" "qPath ?r = presign_path opts" "qHost ?r = host" "qHeader ?r = h"
    using presign_uri_decoded [OF assms(1)] by (simp_all add: presigned_request_def)
  have q: "parse_query (qRawQuery ?r) = presign_params opts t @ [(''X-Amz-Signature'', ?s)]"
    using presigned_query [OF assms(1), of t "HmacSHA256 k m"] s by (simp add: presigned_request_def)
  have "?s \<noteq> ''''" using hex_mac_facts(3) [of k m] s by (simp add: HexEncode_def)
  note parsed = ParseSigV4_presigned [OF assms(1) q this]
  have "fst (VerifySignature (poSecretAccessKey opts) (presigned_sig opts t ?s) (RequestContextFromHTTP ?r))"
    unfolding VerifySignature_def Let_def presigned_expected [OF assms(1,2,4,5) q r] fst_conv
    using s signaturesMatch_iff [of "HmacSHA256 k m"] by (simp add: presigned_sig_def HexEncode_def hexDecodeSignature_hex)
  moreover have "TrimSpace '''' = ''''" by code_simp
  then have "verifyPayloadHash ?r (RequestContextFromHTTP ?r) = None"
    using r assms(5) by (simp add: verifyPayloadHash_def RequestContextFromHTTP_def)
  moreover have "isTimestampFresh now ?r \<longleftrightarrow> whole_seconds t \<le> now \<and> now \<le> whole_seconds t + presign_expires opts * 10 ^ 9"
    using assms(1,3,4) r q by (intro presigned_fresh) (simp_all add: presignable_def)
  moreover have "psAccessKeyID (presigned_sig opts t ?s) = poAccessKeyID opts" by (simp add: presigned_sig_def)
  ultimately show ?thesis unfolding VerifyRequest_def parsed using assms(6,7) by simp
qed

definition example_options :: PresignOptions where
  "example_options =
     \<lparr>poBaseURL = ''http://localhost:9000'', poBucket = ''photos'', poKey = ''a b/c'', poAccessKeyID = ''AKIA'',
      poSecretAccessKey = ''secret'', poExpiresSeconds = 60, poRegion = '''', poMethod = ''put''\<rparr>"

theorem presign_roundtrip_witness:
  "VerifyRequest (\<lambda>k. Inr (Some example_credential)) 1735689659000000000
     (presigned_request example_options 1735689599500000000 ''localhost:9000'' [] (Inr [])) = Inr example_credential \<and>
   VerifyRequest (\<lambda>k. Inr (Some example_credential)) 1735689659000000001
     (presigned_request example_options 1735689599500000000 ''localhost:9000'' [] (Inr [])) = Inl request_expired"
proof -
  have "presignable example_options" "printable_year 1735689599500000000" "presign_expires example_options = 60" by code_simp+
  moreover have "SecretAccessKey example_credential = poSecretAccessKey example_options"
    by (simp add: example_credential_def example_options_def)
  ultimately show ?thesis
    using presign_roundtrip [of example_options "''localhost:9000''" 1735689599500000000 "[]"
        "\<lambda>k. Inr (Some example_credential)" example_credential]
    by (simp add: whole_seconds_def)
qed

section \<open>What a signature binds\<close>

definition nl :: char where
  "nl = CHR 0x0A"

lemma newline_nl: "newline = [nl]"
  by (simp add: newline_def nl_def)

lemma cut_at: "c \<notin> set a \<Longrightarrow> c \<notin> set b \<Longrightarrow> a @ c # s = b @ c # t \<longleftrightarrow> a = b \<and> s = t"
proof (induction a arbitrary: b)
  case Nil
  then show ?case by (cases b) auto
next
  case (Cons x a)
  then show ?case by (cases b) auto
qed

lemma strip_any_subset: "set (strip_any ps s) \<subseteq> set s"
proof (induction ps s rule: strip_any.induct)
  case (1 ps s)
  show ?case
  proof (cases "find (\<lambda>p. p \<noteq> [] \<and> s \<noteq> [] \<and> HasPrefix s p) ps")
    case None
    then show ?thesis by (subst strip_any.simps) simp
  next
    case (Some p)
    then have "strip_any ps s = strip_any ps (drop (length p) s)" by (subst strip_any.simps) simp
    with 1 [OF Some] show ?thesis using set_drop_subset by fastforce
  qed
qed

lemma TrimSpace_subset: "set (TrimSpace s) \<subseteq> set s"
  using strip_any_subset [of "map rev go_spaces" "rev (strip_any go_spaces s)"] strip_any_subset [of go_spaces s]
  by (auto simp: TrimSpace_def)

lemma collapse_subset: "set (collapse b rs) \<subseteq> \<Union> (set ` set rs)"
  by (induction rs arbitrary: b) auto

lemma nl_CollapseSpaces: "nl \<notin> set s \<Longrightarrow> nl \<notin> set (CollapseSpaces s)"
proof -
  assume "nl \<notin> set s"
  moreover have "nl \<notin> set rune_error" by code_simp
  ultimately have "nl \<notin> set (collapse False (runes s))"
    using collapse_subset [of False "runes s"] runes_subset [of _ s] by blast
  with \<open>nl \<notin> set s\<close> show ?thesis by (simp add: CollapseSpaces_def)
qed

lemma nl_Join: "nl \<notin> set sep \<Longrightarrow> \<forall>s \<in> set ss. nl \<notin> set s \<Longrightarrow> nl \<notin> set (Join ss sep)"
  by (induction ss sep rule: Join.induct) auto

lemma nl_encoded: "nl \<notin> set (UriEncodeStrict s)"
  by (rule UriEncodeStrict_free) code_simp+

lemma nl_CanonicalURI: "nl \<notin> set (CanonicalURI p)"
proof -
  have "nl \<notin> set ''/''" by code_simp
  then show ?thesis unfolding CanonicalURI_def Let_def by (intro nl_Join) (auto simp: nl_encoded)
qed

lemma nl_CanonicalQueryString: "nl \<notin> set (CanonicalQueryString ctx)"
proof -
  have lit: "nl \<notin> set ''&''" "nl \<noteq> CHR ''=''" by code_simp+
  have "nl \<notin> set (join_pairs (sort_pairs ps))" if "\<forall>(k, v) \<in> set ps. nl \<notin> set k \<and> nl \<notin> set v" for ps
    unfolding join_pairs_def using that lit by (intro nl_Join) (auto simp: sort_pairs_def)
  moreover have "\<forall>(k, v) \<in> set (raw_pairs q). nl \<notin> set k \<and> nl \<notin> set v" for q
    by (auto simp: raw_pairs_def nl_encoded split: prod.splits)
  ultimately show ?thesis by (auto simp: CanonicalQueryString_def nl_encoded)
qed

text \<open>Header values and hosts that arrive over HTTP hold no line feed.\<close>

definition one_line :: "sig_req \<Rightarrow> bool" where
  "one_line r \<longleftrightarrow> nl \<notin> set (qMethod r) \<and> nl \<notin> set (qHost r) \<and> (\<forall>(k, vs) \<in> set (qHeader r). \<forall>v \<in> set vs. nl \<notin> set v)"

lemma one_line_values: "one_line r \<Longrightarrow> v \<in> set (header_values (qHeader r) k) \<Longrightarrow> nl \<notin> set v"
  by (cases "map_of (qHeader r) (CanonicalHeaderKey k)") (auto simp: one_line_def header_values_def dest!: map_of_SomeD)

lemma one_line_host: "one_line r \<Longrightarrow> nl \<notin> set (ctxHost (RequestContextFromHTTP r))"
proof -
  assume o: "one_line r"
  then have "nl \<notin> set (header_get (qHeader r) k)" for k
    by (cases "map_of (qHeader r) (CanonicalHeaderKey k)")
       (auto simp: one_line_def header_get_def dest!: map_of_SomeD split: list.split)
  with o show ?thesis by (simp add: RequestContextFromHTTP_def one_line_def)
qed

definition header_value :: "RequestContext \<Rightarrow> string \<Rightarrow> string" where
  "header_value ctx name =
     (let name = ToLower (TrimSpace name) in
      if name = ''host'' then ctxHost ctx
      else Join (map (\<lambda>v. CollapseSpaces (TrimSpace v)) (header_values (ctxHeaders ctx) name)) '','')"

lemma header_line_value: "header_line ctx n = (ToLower (TrimSpace n) @ '':'') @ header_value ctx n @ newline"
  by (simp add: header_line_def header_value_def Let_def)

lemma nl_header_value: "one_line r \<Longrightarrow> nl \<notin> set (header_value (RequestContextFromHTTP r) n)"
proof -
  assume o: "one_line r"
  have "nl \<notin> set (CollapseSpaces (TrimSpace v))" if "v \<in> set (header_values (qHeader r) k)" for v k
    using one_line_values [OF o that] TrimSpace_subset [of v] by (intro nl_CollapseSpaces) auto
  moreover have "nl \<notin> set '',''" by code_simp
  moreover have "ctxHeaders (RequestContextFromHTTP r) = qHeader r" by (simp add: RequestContextFromHTTP_def)
  ultimately show ?thesis
    using one_line_host [OF o] nl_Join [of "'',''" "map (\<lambda>v. CollapseSpaces (TrimSpace v)) (header_values (qHeader r) (ToLower (TrimSpace n)))"]
    by (simp add: header_value_def Let_def)
qed

lemma header_block_inject:
  assumes "one_line r" "one_line r'"
    and "CanonicalHeaders (RequestContextFromHTTP r) ns @ s = CanonicalHeaders (RequestContextFromHTTP r') ns @ s'"
  shows "(\<forall>n \<in> set ns. header_value (RequestContextFromHTTP r) n = header_value (RequestContextFromHTTP r') n) \<and> s = s'"
  using assms(3)
proof (induction ns)
  case (Cons n ns)
  let ?c = "RequestContextFromHTTP r" and ?c' = "RequestContextFromHTTP r'"
  from Cons.prems have "header_value ?c n @ nl # CanonicalHeaders ?c ns @ s = header_value ?c' n @ nl # CanonicalHeaders ?c' ns @ s'"
    by (simp add: CanonicalHeaders_def header_line_value newline_nl)
  with Cons.IH show ?case using nl_header_value [OF assms(1)] nl_header_value [OF assms(2)] by (simp add: cut_at)
qed (simp add: CanonicalHeaders_def)

lemma upper_char_nl: "upper_char x = nl \<longleftrightarrow> x = nl"
proof (cases "CHR ''a'' \<le> x \<and> x \<le> CHR ''z''")
  case True
  then have "97 \<le> (of_char x :: nat)" "(of_char x :: nat) \<le> 122" by (simp_all add: less_eq_char_def)
  then have "(of_char (upper_char x) :: nat) = of_char x - 32" using True by (simp add: upper_char_def)
  moreover have "(of_char nl :: nat) = 10" by (simp add: nl_def)
  ultimately show ?thesis using \<open>97 \<le> of_char x\<close> by auto
next
  case False
  then show ?thesis by (auto simp: upper_char_def)
qed

lemma canonical_request_inject:
  assumes "one_line r" "one_line r'"
    and "BuildCanonicalRequest (RequestContextFromHTTP r) p = BuildCanonicalRequest (RequestContextFromHTTP r') p"
  shows "ToUpper (qMethod r) = ToUpper (qMethod r')" "CanonicalURI (qPath r) = CanonicalURI (qPath r')"
    "CanonicalQueryString (RequestContextFromHTTP r) = CanonicalQueryString (RequestContextFromHTTP r')"
    "\<forall>n \<in> set (psSignedHeaders p). header_value (RequestContextFromHTTP r) n = header_value (RequestContextFromHTTP r') n"
    "PayloadHash (RequestContextFromHTTP r) = PayloadHash (RequestContextFromHTTP r')"
proof -
  let ?c = "RequestContextFromHTTP r" and ?c' = "RequestContextFromHTTP r'"
  have m: "nl \<notin> set (ToUpper (qMethod q))" if "one_line q" for q
  proof
    assume "nl \<in> set (ToUpper (qMethod q))"
    then obtain x where x: "x \<in> set (qMethod q)" "upper_char x = nl" by (auto simp: ToUpper_def)
    then have "x = nl" by (simp add: upper_char_nl)
    with x that show False by (auto simp: one_line_def)
  qed
  have "ctxMethod ?c = qMethod r" "ctxMethod ?c' = qMethod r'" "ctxPath ?c = qPath r" "ctxPath ?c' = qPath r'"
    by (simp_all add: RequestContextFromHTTP_def)
  with assms(3) have
    "ToUpper (qMethod r) @ nl # CanonicalURI (qPath r) @ nl # CanonicalQueryString ?c @ nl #
       CanonicalHeaders ?c (psSignedHeaders p) @ nl # Join (psSignedHeaders p) '';'' @ nl # PayloadHash ?c =
     ToUpper (qMethod r') @ nl # CanonicalURI (qPath r') @ nl # CanonicalQueryString ?c' @ nl #
       CanonicalHeaders ?c' (psSignedHeaders p) @ nl # Join (psSignedHeaders p) '';'' @ nl # PayloadHash ?c'"
    by (simp add: BuildCanonicalRequest_def newline_nl)
  then have e: "ToUpper (qMethod r) = ToUpper (qMethod r')" "CanonicalURI (qPath r) = CanonicalURI (qPath r')"
    "CanonicalQueryString ?c = CanonicalQueryString ?c'"
    "CanonicalHeaders ?c (psSignedHeaders p) @ nl # Join (psSignedHeaders p) '';'' @ nl # PayloadHash ?c =
     CanonicalHeaders ?c' (psSignedHeaders p) @ nl # Join (psSignedHeaders p) '';'' @ nl # PayloadHash ?c'"
    using m assms(1,2) by (simp_all add: cut_at nl_CanonicalURI nl_CanonicalQueryString)
  from e(1-3) show "ToUpper (qMethod r) = ToUpper (qMethod r')" "CanonicalURI (qPath r) = CanonicalURI (qPath r')"
    "CanonicalQueryString ?c = CanonicalQueryString ?c'" .
  from header_block_inject [OF assms(1,2) e(4)]
  show "\<forall>n \<in> set (psSignedHeaders p). header_value ?c n = header_value ?c' n" "PayloadHash ?c = PayloadHash ?c'" by simp_all
qed

lemma string_to_sign_inject:
  assumes "BuildStringToSign c p x = BuildStringToSign c' p x'"
  shows "RequestTimestamp c (psDate p) = RequestTimestamp c' (psDate p)" "sha256 x = sha256 x'"
proof -
  have "length (SHA256Hex x) = length (SHA256Hex x')" by (simp add: SHA256Hex_def)
  with assms show "RequestTimestamp c (psDate p) = RequestTimestamp c' (psDate p)" "sha256 x = sha256 x'"
    by (simp_all add: BuildStringToSign_def SHA256Hex_def)
qed

lemma accepted_parts:
  assumes "VerifyRequest store now r = Inr cred" "ParseSigV4 r = Inr (Some p)"
  shows "store (psAccessKeyID p) = Inr (Some cred)"
    and "hexDecodeSignature (psSignature p) = Some (HmacSHA256 (DeriveSigningKey (SecretAccessKey cred) (psDate p) (psRegion p) (psService p))
           (BuildStringToSign (RequestContextFromHTTP r) p (BuildCanonicalRequest (RequestContextFromHTTP r) p)))"
  using assms
  by (auto simp: VerifyRequest_def Let_def VerifySignature_def expected_signature_def signaturesMatch_iff
      split: sum.splits option.splits if_splits)

text \<open>
  C19: a signature cannot be moved to another request. If two requests carry the same parsed signature and both are
  accepted, then they agree on everything that was signed: method, canonical path, canonical query, time, the value of
  every signed header, and the payload hash; unless SHA-256 or HMAC collides on the two very messages. Methods, hosts
  and header values are single lines, as HTTP makes them.
\<close>

theorem signature_binds_request:
  assumes "VerifyRequest store now r = Inr cred" "ParseSigV4 r = Inr (Some p)" "one_line r"
    and "VerifyRequest store now' r' = Inr cred'" "ParseSigV4 r' = Inr (Some p)" "one_line r'"
  defines "c \<equiv> RequestContextFromHTTP r" and "c' \<equiv> RequestContextFromHTTP r'"
  assumes "\<And>k. HmacSHA256 k (BuildStringToSign c p (BuildCanonicalRequest c p)) = HmacSHA256 k (BuildStringToSign c' p (BuildCanonicalRequest c' p)) \<Longrightarrow>
      BuildStringToSign c p (BuildCanonicalRequest c p) = BuildStringToSign c' p (BuildCanonicalRequest c' p)"
    and "sha256 (BuildCanonicalRequest c p) = sha256 (BuildCanonicalRequest c' p) \<Longrightarrow> BuildCanonicalRequest c p = BuildCanonicalRequest c' p"
  shows "cred = cred' \<and> ToUpper (qMethod r) = ToUpper (qMethod r') \<and> CanonicalURI (qPath r) = CanonicalURI (qPath r') \<and>
    CanonicalQueryString c = CanonicalQueryString c' \<and> RequestTimestamp c (psDate p) = RequestTimestamp c' (psDate p) \<and>
    (\<forall>n \<in> set (psSignedHeaders p). header_value c n = header_value c' n) \<and> PayloadHash c = PayloadHash c'"
proof -
  note a = accepted_parts [OF assms(1,2)] and a' = accepted_parts [OF assms(4,5)]
  from a(1) a'(1) have cred: "cred = cred'" by simp
  with a(2) a'(2) have s: "BuildStringToSign c p (BuildCanonicalRequest c p) = BuildStringToSign c' p (BuildCanonicalRequest c' p)"
    by (intro assms(9) [of "DeriveSigningKey (SecretAccessKey cred) (psDate p) (psRegion p) (psService p)"]) (simp add: c_def c'_def)
  then have "BuildCanonicalRequest c p = BuildCanonicalRequest c' p" using string_to_sign_inject(2) assms(10) by metis
  from canonical_request_inject [OF assms(3,6) this [unfolded c_def c'_def]] string_to_sign_inject(1) [OF s] cred
  show ?thesis unfolding c_def c'_def by simp
qed

text \<open>Two requests that differ in a header that is not signed carry the same signature.\<close>

definition example_ranged :: sig_req where
  "example_ranged = example_request\<lparr>qHeader := [(''Range'', [''bytes=0-9''])]\<rparr>"

definition header_lines :: "header \<Rightarrow> bool" where
  "header_lines h \<longleftrightarrow> (\<forall>(k, vs) \<in> set h. \<forall>v \<in> set vs. nl \<notin> set v)"

lemma header_lines_set: "header_lines h \<Longrightarrow> nl \<notin> set v \<Longrightarrow> header_lines (header_set k v h)"
proof -
  have "set (AList.update n [v] h) \<subseteq> insert (n, [v]) (set h)" for n by (induction h) auto
  then show "header_lines h \<Longrightarrow> nl \<notin> set v \<Longrightarrow> ?thesis" unfolding header_lines_def header_set_def by fastforce
qed

lemma nl_graphic: "list_all graphic s \<Longrightarrow> nl \<notin> set s"
proof -
  have "\<not> graphic nl" by code_simp
  then show "list_all graphic s \<Longrightarrow> ?thesis" by (auto simp: list_all_iff)
qed

lemma signed_one_line:
  assumes "header_lines (qHeader req)" "nl \<notin> set (qMethod req)" "nl \<notin> set (signed_host req urlHost)" "nl \<notin> set ak"
  shows "one_line (SignRequestWithTime req ak sk ts body urlHost)"
proof -
  have "nl \<notin> set (hex_encode d)" for d using hex_graphic by (intro nl_graphic) (auto simp: list_all_iff)
  moreover have "nl \<notin> set (amz_day ts)" by (rule amz_day_free) code_simp
  moreover have "nl \<notin> set ''AWS4-HMAC-SHA256 ''" "nl \<notin> set ''Credential=''" "nl \<notin> set ''/''" "nl \<notin> set ''us-east-1''" "nl \<notin> set ''/s3/aws4_request''"
    "nl \<notin> set '', SignedHeaders=''" "nl \<notin> set ''host;x-amz-content-sha256;x-amz-date''" "nl \<notin> set '', Signature=''" by code_simp+
  ultimately show ?thesis
    unfolding one_line_def SignRequest_shape
    using assms nl_graphic [OF amz_date_graphic(1), of ts] nl_graphic [OF signed_payload_graphic(1), of body]
    by (simp only: flip: header_lines_def) (auto simp: HexEncode_def signer_headers_def intro!: header_lines_set)
qed

definition example_signed :: "sig_req \<Rightarrow> sig_req" where
  "example_signed req = SignRequestWithTime req ''AKIA'' ''secret'' 1735689599500000000 ''abc'' ''''"

lemma example_signed_accepted:
  assumes "req \<in> {example_request, example_ranged}"
  shows "VerifyRequest (\<lambda>k. Inr (Some example_credential)) 1735689630000000000 (example_signed req) = Inr example_credential"
    and "ParseSigV4 (example_signed req) = Inr (Some (sig_for ''AKIA'' 1735689599500000000
      (HexEncode (signer_mac example_request ''secret'' 1735689599500000000 ''abc'' ''localhost:9000''))))"
    and "one_line (example_signed req)"
    and "BuildCanonicalRequest (RequestContextFromHTTP (example_signed req)) (sig_for ''AKIA'' 1735689599500000000 s) =
      signer_request example_request 1735689599500000000 ''abc'' ''localhost:9000''"
    and "BuildStringToSign (RequestContextFromHTTP (example_signed req)) (sig_for ''AKIA'' 1735689599500000000 s)
      (signer_request example_request 1735689599500000000 ''abc'' ''localhost:9000'') =
      signer_string example_request 1735689599500000000 ''abc'' ''localhost:9000''"
proof -
  have same: "qMethod req = qMethod example_request" "qPath req = qPath example_request" "qEscapedPath req = qEscapedPath example_request"
    "qRawQuery req = qRawQuery example_request" "qHost req = qHost example_request" "qBody req = Inr ''abc''"
    using assms by (auto simp: example_ranged_def example_request_def)
  note F = example_request_facts [folded same]
  have k: "CHR ''/'' \<notin> set ''AKIA''" "CHR '','' \<notin> set ''AKIA''" by simp_all
  have y: "printable_year 1735689599500000000" by code_simp
  have "SecretAccessKey example_credential = ''secret''" by (simp add: example_credential_def)
  with signed_accepted [OF F k, of "\<lambda>k. Inr (Some example_credential)", OF _ y, of example_credential 1735689630000000000 "''abc''" "''''"] same
  show "VerifyRequest (\<lambda>k. Inr (Some example_credential)) 1735689630000000000 (example_signed req) = Inr example_credential"
    by (simp add: example_signed_def whole_seconds_def clockSkew_def)
  have host: "signed_host req '''' = ''localhost:9000''" using same by (simp add: signed_host_def example_request_def)
  have req: "signer_request req 1735689599500000000 ''abc'' h = signer_request example_request 1735689599500000000 ''abc'' h" for h
    using same by (simp add: signer_request_def)
  then have str: "signer_string req 1735689599500000000 ''abc'' h = signer_string example_request 1735689599500000000 ''abc'' h" for h
    by (simp only: signer_string_def)
  with ParseSigV4_signed [OF k F(4)] host
  show "ParseSigV4 (example_signed req) = Inr (Some (sig_for ''AKIA'' 1735689599500000000
      (HexEncode (signer_mac example_request ''secret'' 1735689599500000000 ''abc'' ''localhost:9000''))))"
    by (simp add: example_signed_def signer_mac_def)
  show "BuildCanonicalRequest (RequestContextFromHTTP (example_signed req)) (sig_for ''AKIA'' 1735689599500000000 s) =
      signer_request example_request 1735689599500000000 ''abc'' ''localhost:9000''"
    "BuildStringToSign (RequestContextFromHTTP (example_signed req)) (sig_for ''AKIA'' 1735689599500000000 s)
      (signer_request example_request 1735689599500000000 ''abc'' ''localhost:9000'') =
      signer_string example_request 1735689599500000000 ''abc'' ''localhost:9000''"
    using signed_canonical [OF F(1-4), where urlHost = "''''" and ts = 1735689599500000000 and body = "''abc''" and ak = "''AKIA''"]
    by (simp_all only: example_signed_def host req str)
  have "header_lines (qHeader req)" using assms by (auto simp: header_lines_def example_ranged_def example_request_def nl_def)
  moreover have "nl \<notin> set (qMethod req)" "nl \<notin> set ''localhost:9000''" "nl \<notin> set ''AKIA''"
    using same by (simp_all add: example_request_def nl_def)
  ultimately show "one_line (example_signed req)"
    unfolding example_signed_def using host by (intro signed_one_line) simp_all
qed

theorem signature_binds_request_witness:
  "VerifyRequest (\<lambda>k. Inr (Some example_credential)) 1735689630000000000 (example_signed example_ranged) = Inr example_credential \<and>
   ToUpper (qMethod (example_signed example_request)) = ToUpper (qMethod (example_signed example_ranged)) \<and>
   PayloadHash (RequestContextFromHTTP (example_signed example_request)) = PayloadHash (RequestContextFromHTTP (example_signed example_ranged))"
proof -
  note E = example_signed_accepted [of example_request, OF insertI1]
  note R = example_signed_accepted [of example_ranged, OF insertI2 [OF insertI1]]
  from signature_binds_request [OF E(1-3) R(1-3)] R(1) show ?thesis by (simp add: E R)
qed

section \<open>The time window\<close>

text \<open>
  C37: the fifteen-minute window of a signed header. A request without an expiry is fresh exactly when its date is within
  fifteen minutes of the clock, or lies \<open>2 ^ 63\<close> nanoseconds (some 292 years) or more ahead of it: there the subtraction
  saturates at the smallest duration, whose negation is itself.
\<close>

theorem timestamp_window:
  assumes "\<not> query_has (parse_query (qRawQuery r)) ''X-Amz-Expires''"
    and "parse_amz_date (TrimSpace (header_get (qHeader r) ''x-amz-date'')) = Some t"
  shows "isTimestampFresh now r \<longleftrightarrow> \<bar>now - t\<bar> \<le> clockSkew \<or> now + 2 ^ 63 \<le> t"
proof -
  have "parse_amz_date '''' = None" by code_simp
  with assms(2) have "TrimSpace (header_get (qHeader r) ''x-amz-date'') \<noteq> ''''" by force
  moreover have "i64 (2 ^ 63) = - (2 ^ 63)" by (simp add: i64_def)
  moreover have "i64 (t - now) = t - now" if "in_i64 (now - t)" "now - t \<noteq> - (2 ^ 63)" "now < t"
    using that by (intro i64_id) (auto simp: in_i64_def)
  ultimately show ?thesis
    using assms
    by (cases "now - t = - (2 ^ 63)"; cases "in_i64 (now - t)") (auto simp: isTimestampFresh_def Let_def time_Sub_def clockSkew_def in_i64_def)
qed

theorem timestamp_window_witness:
  "isTimestampFresh 1735689600000000000 (example_request\<lparr>qHeader := [(''X-Amz-Date'', [''24000101T000000Z''])]\<rparr>) \<and>
   \<not> isTimestampFresh 1735689600000000000 (example_request\<lparr>qHeader := [(''X-Amz-Date'', [''20500101T000000Z''])]\<rparr>)"
proof -
  have "parse_amz_date (TrimSpace (header_get [(''X-Amz-Date'', [''24000101T000000Z''])] ''x-amz-date'')) = Some 13569465600000000000"
    "parse_amz_date (TrimSpace (header_get [(''X-Amz-Date'', [''20500101T000000Z''])] ''x-amz-date'')) = Some 2524608000000000000" by code_simp+
  then show ?thesis
    using timestamp_window [of "example_request\<lparr>qHeader := [(''X-Amz-Date'', [''24000101T000000Z''])]\<rparr>" 13569465600000000000 1735689600000000000]
      timestamp_window [of "example_request\<lparr>qHeader := [(''X-Amz-Date'', [''20500101T000000Z''])]\<rparr>" 2524608000000000000 1735689600000000000]
      example_request_facts(5)
    by (simp add: clockSkew_def)
qed

end
