(* ===== verification/HandlerProps.thy ===== *)
theory HandlerProps
  imports Handler ClusterLive AuthProps
begin

text \<open>
  What the front end guarantees: byte ranges are exact, forwarding ends after one hop, replica requests reach the
  replica handlers, and nothing happens without credentials.
\<close>

section \<open>Ranges\<close>

text \<open>
  A range as it is meant, and the bytes it selects: an interval of positions, everything from a position on, or a number of bytes at
  the end. A body without the first position has no such bytes; an interval must not end before it starts, and a suffix must
  not be empty.
\<close>

datatype byte_range = Interval nat nat | From nat | Suffix nat

fun range_bytes :: "byte_range \<Rightarrow> string \<Rightarrow> (nat \<times> string) option" where
  "range_bytes (Interval a b) body = (if a \<le> b \<and> a < length body then Some (a, take (b - a + 1) (drop a body)) else None)"
| "range_bytes (From a) body = (if a < length body then Some (a, drop a body) else None)"
| "range_bytes (Suffix n) body = (if n = 0 then None else Some (length body - n, drop (length body - n) body))"

text \<open>The headers that denote a range. A numeral is what \<^verbatim>\<open>strconv.ParseInt\<close> reads as a number, without a minus sign.\<close>

definition numeral_text :: "string \<Rightarrow> nat \<Rightarrow> bool" where
  "numeral_text s n \<longleftrightarrow> ParseInt s = Some (int n) \<and> CHR ''-'' \<notin> set s"

inductive range_header :: "string \<Rightarrow> byte_range \<Rightarrow> bool" where
  interval: "numeral_text s a \<Longrightarrow> numeral_text t b \<Longrightarrow> range_header (''bytes='' @ s @ ''-'' @ t) (Interval a b)"
| open_ended: "numeral_text s a \<Longrightarrow> range_header (''bytes='' @ s @ ''-'') (From a)"
| suffix: "numeral_text t n \<Longrightarrow> range_header (''bytes=-'' @ t) (Suffix n)"

definition range_response :: "header \<Rightarrow> string \<Rightarrow> (nat \<times> string) option \<Rightarrow> http_resp" where
  "range_response h body sel =
     (case sel of
        None \<Rightarrow>
          \<lparr>rsStatus = 416,
           rsHeader = header_set ''Content-Range''
             (if body = '''' then ''bytes */0'' else ''bytes 0-'' @ FormatInt (int (length body) - 1) @ ''/'' @ FormatInt (int (length body))) h,
           rsBody = '''', rsSecond = None\<rparr>
      | Some (i, bs) \<Rightarrow>
          \<lparr>rsStatus = 206,
           rsHeader = header_set ''Content-Range''
             (''bytes '' @ FormatInt (int i) @ ''-'' @ FormatInt (int i + int (length bs) - 1) @ ''/'' @ FormatInt (int (length body)))
             (header_set ''Content-Length'' (FormatInt (int (length bs))) h),
           rsBody = bs, rsSecond = None\<rparr>)"

lemma ParseInt_chars:
  assumes "ParseInt s = Some n" "c \<in> set s"
  shows "is_digit c \<or> c = CHR ''+'' \<or> c = CHR ''-''"
  using assms by (cases s) (auto simp: ParseInt_def Let_def list_all_iff split: if_splits)

lemma ParseInt_numeral:
  assumes "ParseInt s = Some n" "0 < n \<or> CHR ''-'' \<notin> set s" "0 \<le> n"
  shows "numeral_text s (nat n)"
proof -
  have nd: "\<not> is_digit (CHR ''-'')" "\<not> is_digit (CHR ''+'')" by code_simp+
  have "digits_val t \<ge> 0" if "list_all is_digit t" for t
  proof -
    have "is_digit c \<Longrightarrow> (0 :: int) \<le> of_nat (of_char c) - 48" for c by (simp del: of_nat_of_char add: is_digit_def less_eq_char_def)
    then have "is_digit c \<Longrightarrow> 0 \<le> (of_char c :: int) - 48" for c unfolding of_nat_of_char .
    then have "0 \<le> x \<Longrightarrow> 0 \<le> foldl (\<lambda>n c. 10 * n + (of_char c - 48)) x t" for x :: int
      using that by (induction t arbitrary: x) auto
    then show ?thesis by (simp add: digits_val_def)
  qed
  then have "CHR ''-'' \<notin> set s"
    using assms nd by (cases s) (fastforce simp: ParseInt_def Let_def list_all_iff split: if_splits)+
  with assms show ?thesis by (simp add: numeral_text_def)
qed

lemma numeral_facts:
  assumes "numeral_text s n"
  shows "CHR '','' \<notin> set s" "CHR ''-'' \<notin> set s" "s \<noteq> ''''" "\<not> HasPrefix (s @ t) ''-''" "ParseInt s = Some (int n)"
proof -
  have "\<not> is_digit (CHR '','')" by code_simp
  then show "CHR '','' \<notin> set s" using ParseInt_chars assms unfolding numeral_text_def by blast
  show m: "CHR ''-'' \<notin> set s" "ParseInt s = Some (int n)" using assms by (simp_all add: numeral_text_def)
  then show e: "s \<noteq> ''''" by (auto simp: ParseInt_def)
  show "\<not> HasPrefix (s @ t) ''-''" using m(1) e by (cases s) auto
qed

text \<open>The parser finds the bounds of the selected bytes.\<close>

lemma parseRange_range:
  assumes "range_header hdr rg"
  shows "parseRange hdr (int (length body)) =
    (case range_bytes rg body of None \<Rightarrow> None | Some (i, bs) \<Rightarrow> Some (int i, int i + int (length bs) - 1))"
proof -
  have comma: "\<not> Contains s '',''" if "CHR '','' \<notin> set s" for s using that by (auto simp: Contains_iff)
  show ?thesis using assms
  proof cases
    case (interval s a t b)
    note f = numeral_facts [OF interval(3)] numeral_facts [OF interval(4)]
    have c: "\<not> Contains (s @ ''-'' @ t) '',''" using f(1,6) by (intro comma) simp
    have p: "Split (CHR ''-'') (s @ ''-'' @ t) = [s, t]" using Split_append [OF f(2), of t] Split_id [OF f(7)] by simp
    show ?thesis using f(3-5,8-10) c p by (auto simp: interval(1,2) parseRange_def TrimPrefix_def Let_def)
  next
    case (open_ended s a)
    note f = numeral_facts [OF open_ended(3)]
    have c: "\<not> Contains (s @ ''-'') '',''" using f(1) by (intro comma) simp
    have p: "Split (CHR ''-'') (s @ ''-'') = [s, '''']" using Split_append [OF f(2), of "''''"] by simp
    show ?thesis using f(3-5) c p by (auto simp: open_ended(1,2) parseRange_def TrimPrefix_def Let_def)
  next
    case (suffix t n)
    note f = numeral_facts [OF suffix(3)]
    have c: "\<not> Contains (''-'' @ t) '',''" using f(1) by (intro comma) simp
    show ?thesis using f(5) c by (auto simp: suffix(1,2) parseRange_def TrimPrefix_def Let_def)
  qed
qed

text \<open>Every header it accepts denotes a range.\<close>

lemma parseRange_header:
  assumes "parseRange hdr sz = Some r"
  shows "\<exists>rg. range_header hdr rg"
proof -
  obtain spec where h: "hdr = ''bytes='' @ spec" using assms by (auto simp: parseRange_def HasPrefix_iff split: if_splits)
  show ?thesis
  proof (cases "HasPrefix spec ''-''")
    case True
    then obtain t where t: "spec = CHR ''-'' # t" by (auto simp: HasPrefix_iff)
    with assms obtain n where "ParseInt t = Some n" "0 < n"
      by (auto simp: h parseRange_def TrimPrefix_def Let_def split: if_splits option.splits)
    then have "numeral_text t (nat n)" by (intro ParseInt_numeral) auto
    then show ?thesis using range_header.suffix [of t] by (auto simp: h t)
  next
    case False
    with assms obtain s t n where s: "Split (CHR ''-'') spec = [s, t]" "ParseInt s = Some n" "0 \<le> n" "t = '''' \<or> (\<exists>m. ParseInt t = Some m \<and> n \<le> m)"
      by (auto simp: h parseRange_def TrimPrefix_def Let_def split: if_splits option.splits list.splits)
    have e: "spec = s @ ''-'' @ t" using Join_Split [of "CHR ''-''" spec] s(1) by simp
    have m: "CHR ''-'' \<notin> set s" "CHR ''-'' \<notin> set t" using Split_no_sep [of _ "CHR ''-''" spec] s(1) by auto
    have a: "numeral_text s (nat n)" using ParseInt_numeral [OF s(2)] s(3) m(1) by blast
    show ?thesis
    proof (cases "t = ''''")
      case True
      with range_header.open_ended [OF a] show ?thesis by (auto simp: h e)
    next
      case False
      with s(3,4) obtain k where "ParseInt t = Some k" "0 \<le> k" by auto
      then have "numeral_text t (nat k)" using ParseInt_numeral m(2) by blast
      from range_header.interval [OF a this] show ?thesis by (auto simp: h e)
    qed
  qed
qed

lemma range_bytes_slice:
  "range_bytes rg body = Some (i, bs) \<Longrightarrow> take (nat (int i + int (length bs) - 1 - int i + 1)) (drop (nat (int i)) body) = bs"
  by (cases rg) (auto simp: min_def split: if_splits)

text \<open>
  C29: ranges are exact. The response to a GET with a Range header, whatever the header: without one it is the whole body
  with status 200. A header that denotes a range (\<open>bytes=a-b\<close>, \<open>bytes=a-\<close> or \<open>bytes=-n\<close>) is answered with status 206
  and exactly the bytes of the range, as far as the body has them, with their number and position in the headers; with status 416
  and no body if the body has no byte a, b is smaller than a or n is zero. (A suffix of an empty body gives the header
  \<open>bytes 0--1/0\<close>.) Every other header, several ranges among them, gives status 416 and no body.
\<close>

theorem range_exact:
  "serveWithRange h '''' body (int (length body)) =
     \<lparr>rsStatus = 200, rsHeader = header_set ''Content-Length'' (FormatInt (int (length body))) h, rsBody = body, rsSecond = None\<rparr> \<and>
   (range_header hdr rg \<longrightarrow> serveWithRange h hdr body (int (length body)) = range_response h body (range_bytes rg body)) \<and>
   (hdr \<noteq> '''' \<and> (\<nexists>rg. range_header hdr rg) \<longrightarrow> serveWithRange h hdr body (int (length body)) = range_response h body None)"
proof -
  have z: "FormatInt 0 = ''0''" by code_simp
  have none: "serveWithRange h hdr body (int (length body)) = range_response h body None"
    if "hdr \<noteq> ''''" "parseRange hdr (int (length body)) = None"
    using that z by (auto simp: serveWithRange_def range_response_def fmtContentRange_def)
  have "serveWithRange h hdr body (int (length body)) = range_response h body (range_bytes rg body)" if r: "range_header hdr rg"
  proof (cases "range_bytes rg body")
    case None
    have "hdr \<noteq> ''''" using r by cases auto
    with none parseRange_range [OF r, of body] None show ?thesis by simp
  next
    case (Some sel)
    obtain i bs where sel: "sel = (i, bs)" by (cases sel)
    have "hdr \<noteq> ''''" using r by cases auto
    then show ?thesis using parseRange_range [OF r, of body] Some sel range_bytes_slice [of rg body i bs]
      by (simp add: serveWithRange_def range_response_def fmtContentRange_def Let_def)
  qed
  moreover have "parseRange hdr (int (length body)) = None" if "\<nexists>rg. range_header hdr rg"
    using parseRange_header that by (cases "parseRange hdr (int (length body))") auto
  ultimately show ?thesis using none by (simp add: serveWithRange_def)
qed

theorem range_exact_witness:
  "rsBody (serveWithRange [] ''bytes=1-3'' ''hello'' 5) = ''ell'' \<and> rsBody (serveWithRange [] ''bytes=2-'' ''hello'' 5) = ''llo'' \<and>
   rsBody (serveWithRange [] ''bytes=-2'' ''hello'' 5) = ''lo'' \<and> rsStatus (serveWithRange [] ''bytes=5-9'' ''hello'' 5) = 416 \<and>
   rsStatus (serveWithRange [] ''lines=1-2'' ''hello'' 5) = 416"
proof -
  have n: "numeral_text ''1'' 1" "numeral_text ''2'' 2" "numeral_text ''3'' 3" "numeral_text ''5'' 5" "numeral_text ''9'' 9" by code_simp+
  have r: "range_header ''bytes=1-3'' (Interval 1 3)" "range_header ''bytes=5-9'' (Interval 5 9)" "range_header ''bytes=2-'' (From 2)"
    "range_header ''bytes=-2'' (Suffix 2)"
    using range_header.interval [OF n(1,3)] range_header.interval [OF n(4,5)] range_header.open_ended [OF n(2)] range_header.suffix [OF n(2)] by simp_all
  have "\<nexists>rg. range_header ''lines=1-2'' rg" by (auto elim: range_header.cases)
  then show ?thesis
    using range_exact [of "[]" "''hello''" "''bytes=1-3''" "Interval 1 3"] range_exact [of "[]" "''hello''" "''bytes=5-9''" "Interval 5 9"]
      range_exact [of "[]" "''hello''" "''bytes=2-''" "From 2"] range_exact [of "[]" "''hello''" "''bytes=-2''" "Suffix 2"]
      range_exact [of "[]" "''hello''" "''lines=1-2''" "From 0"] r
    by (simp add: range_response_def)
qed

section \<open>Forwarding\<close>

text \<open>Handlers look outside only through the network of the coordinator, the decoders, the clock, and \<open>xCall\<close>.\<close>

lemma outside_call:
  "xNet (x\<lparr>xCall := f\<rparr>) = xNet x" "xNow (x\<lparr>xCall := f\<rparr>) = xNow x" "h_env (x\<lparr>xCall := f\<rparr>) h l = h_env x h l"
  "parseCompleteMultipartBody (x\<lparr>xCall := f\<rparr>) b = parseCompleteMultipartBody x b"
  by (simp_all add: h_env_def parseCompleteMultipartBody_def)

lemma local_call:
  "put_upload_part (x\<lparr>xCall := f\<rparr>) h r b k w = put_upload_part x h r b k w"
  "put_copy (x\<lparr>xCall := f\<rparr>) h s b k w = put_copy x h s b k w"
  "postObject (x\<lparr>xCall := f\<rparr>) h r b k w = postObject x h r b k w"
  unfolding put_upload_part_def put_copy_def postObject_def outside_call by (rule refl)+

text \<open>An object request acts through \<open>maybeForwardObject\<close> alone on other nodes' front ends.\<close>

lemma dispatchObject_call:
  assumes "maybeForwardObject (x\<lparr>xCall := f\<rparr>) h r b k w = maybeForwardObject (x\<lparr>xCall := g\<rparr>) h r b k w"
  shows "dispatchObject (x\<lparr>xCall := f\<rparr>) h r b k w = dispatchObject (x\<lparr>xCall := g\<rparr>) h r b k w"
  unfolding dispatchObject_def putObject_def getObject_def headObject_def deleteObject_def outside_call local_call assms
  by (rule refl)

lemma internal_not_forwarded: "IsInternalRequest (as_http r) (hInternalToken h) \<Longrightarrow> maybeForwardObject x h r b k w = None"
  by (simp add: maybeForwardObject_def)

lemma forward_token: "forward_request t host r = Inr out \<Longrightarrow> t \<noteq> '''' \<Longrightarrow> IsInternalRequest (as_http out) t"
  by (auto simp: forward_request_def IsInternalRequest_def as_http_def header_get_set split: sum.splits)

text \<open>Paths and queries a client can send that survive being read as a URL once more.\<close>

definition plain_target :: "api_req \<Rightarrow> bool" where
  "plain_target r \<longleftrightarrow> (\<forall>c \<in> set (aPath r). c \<noteq> CHR ''%'' \<and> c \<noteq> CHR ''?'' \<and> c \<noteq> CHR ''#'' \<and> \<not> is_ctl c) \<and>
     (\<forall>c \<in> set (aRawQuery r). c \<noteq> CHR ''#'' \<and> \<not> is_ctl c)"

lemma Cut_free: "c \<notin> set s \<Longrightarrow> Cut c s = (s, '''')"
proof -
  assume "c \<notin> set s"
  then have "takeWhile (\<lambda>x. x \<noteq> c) s = s" "dropWhile (\<lambda>x. x \<noteq> c) s = ''''"
    by (auto simp: takeWhile_eq_all_conv dropWhile_eq_Nil_conv)
  then show ?thesis by (simp only: Cut_def drop_Nil)
qed

lemma Cut_at: "c \<notin> set s \<Longrightarrow> Cut c (s @ c # t) = (s, t)"
proof -
  assume "c \<notin> set s"
  then have "takeWhile (\<lambda>x. x \<noteq> c) (s @ c # t) = s" "dropWhile (\<lambda>x. x \<noteq> c) (s @ c # t) = c # t"
    by (subst takeWhile_append2 dropWhile_append2; auto)+
  then show ?thesis by (simp add: Cut_def)
qed

lemma forward_plain:
  assumes "plain_target r"
  obtains out where "forward_request t host r = Inr out" "aMethod out = aMethod r" "aPath out = aPath r" "aRawQuery out = aRawQuery r"
    "aBody out = aBody r"
proof -
  let ?p = "aPath r" and ?q = "aRawQuery r"
  let ?u = "?p @ (if ?q \<noteq> '''' then ''?'' @ ?q else '''')"
  have c: "CHR ''#'' \<notin> set ?u" "CHR ''?'' \<notin> set ?p" "CHR ''%'' \<notin> set ?p" "\<not> list_ex is_ctl ?u"
  proof -
    have "\<not> is_ctl (CHR ''?'')" by code_simp
    with assms show "CHR ''#'' \<notin> set ?u" "CHR ''?'' \<notin> set ?p" "CHR ''%'' \<notin> set ?p" "\<not> list_ex is_ctl ?u"
      by (auto simp: plain_target_def list_ex_iff)
  qed
  have "Cut (CHR ''?'') ?u = (?p, ?q)" using Cut_free [OF c(2)] Cut_at [OF c(2), of ?q] by (cases "?q = ''''") simp_all
  then have "parse_target ?u = Inr (?p, EscapedPath ?p ?p, ?q)"
    using c Cut_free [OF c(1)] PathUnescape_plain [OF c(3)] unfolding parse_target_def by (simp del: append_Cons append_Nil)
  then show thesis
    by (intro that [of "\<lparr>aMethod = aMethod r, aPath = ?p, aEscapedPath = EscapedPath ?p ?p, aRawQuery = ?q, aHost = host,
      aHeader = header_set InternalTokenHeader t (copyHeader [] (aHeader r)), aBody = aBody r, aCred = None\<rparr>"])
      (simp_all add: forward_request_def)
qed

text \<open>Every node of the cluster is configured with the same internal token.\<close>

definition same_token :: "(string \<Rightarrow> Handler) \<Rightarrow> string \<Rightarrow> bool" where
  "same_token hs t \<longleftrightarrow> t \<noteq> '''' \<and> (\<forall>i. hInternalToken (hs i) = t \<and> hProxy (hs i) \<in> {None, Some t})"

definition object_request :: "api_req \<Rightarrow> bool" where
  "object_request r \<longleftrightarrow> (\<exists>b k. ServeHTTP_route (aMethod r) (aPath r) = RouteObject b k)"

lemma with_credential_simps [simp]:
  "aMethod (with_credential r c) = aMethod r" "aPath (with_credential r c) = aPath r" "aRawQuery (with_credential r c) = aRawQuery r"
  "aHeader (with_credential r c) = aHeader r" "aEscapedPath (with_credential r c) = aEscapedPath r"
  by (simp_all add: with_credential_def)

lemma front_call:
  assumes "object_request r"
    and "\<And>c b k. maybeForwardObject (x\<lparr>xCall := f\<rparr>) h (with_credential r c) b k w =
      maybeForwardObject (x\<lparr>xCall := g\<rparr>) h (with_credential r c) b k w"
  shows "front (x\<lparr>xCall := f\<rparr>) h r w = front (x\<lparr>xCall := g\<rparr>) h r w"
proof -
  have S: "ServeHTTP (x\<lparr>xCall := f\<rparr>) h (with_credential r c) w = ServeHTTP (x\<lparr>xCall := g\<rparr>) h (with_credential r c) w" for c
    using assms(1) dispatchObject_call [OF assms(2)] by (auto simp: ServeHTTP_def object_request_def)
  have cs: "credential_store (x\<lparr>xCall := f\<rparr>) h w = credential_store x h w" for f
    by (rule ext) (simp add: credential_store_def outside_call)
  show ?thesis unfolding front_def outside_call cs S by (rule refl)
qed

lemma internal_call_depth:
  assumes "object_request r" "same_token hs t" "IsInternalRequest (as_http r) t"
  shows "call_node (Suc n) hs x base r w = call_node 1 hs x base r w"
proof -
  have "maybeForwardObject (x\<lparr>xCall := f\<rparr>) (hs i) (with_credential r c) b k w = None" for f i c b k
    using assms(2,3) by (intro internal_not_forwarded) (simp add: same_token_def IsInternalRequest_def as_http_def)
  then have F: "front (x\<lparr>xCall := call_node n hs x\<rparr>) (hs i) r w = front (x\<lparr>xCall := call_node 0 hs x\<rparr>) (hs i) r w" for i
    by (intro front_call [OF assms(1)]) simp
  show ?thesis unfolding One_nat_def call_node.simps(2) F by (rule refl)
qed

text \<open>
  C12: forwarding ends after one hop. When all nodes hold the same internal token, a request for an object, sent to any
  node of the cluster, is answered there or by one node it is forwarded to: whatever the placements, the network and
  the states of the nodes, deeper chains of calls change neither the answer nor the state of the cluster.
\<close>

theorem forward_once:
  assumes "same_token hs t" "object_request r" "plain_target r"
  shows "call_node (Suc (Suc n)) hs x base r w = call_node 2 hs x base r w"
proof -
  have "maybeForwardObject (x\<lparr>xCall := call_node (Suc n) hs x\<rparr>) (hs i) (with_credential r c) b k w =
      maybeForwardObject (x\<lparr>xCall := call_node 1 hs x\<rparr>) (hs i) (with_credential r c) b k w" for i c b k
  proof -
    let ?r = "with_credential r c"
    have "plain_target ?r" using assms(3) by (simp add: plain_target_def)
    then have "call_node (Suc n) hs x base out w = call_node 1 hs x base out w"
      if "forward_request t host ?r = Inr out" for host out base
    proof -
      assume "plain_target ?r"
      then obtain out' where o: "forward_request t host ?r = Inr out'" "aMethod out' = aMethod ?r" "aPath out' = aPath ?r"
        using forward_plain by blast
      with that have "object_request out" using assms(2) by (simp add: object_request_def)
      moreover have "IsInternalRequest (as_http out) t" using that assms(1) by (intro forward_token) (auto simp: same_token_def)
      ultimately show ?thesis using assms(1) by (intro internal_call_depth)
    qed
    then have "Forward (x\<lparr>xCall := call_node (Suc n) hs x\<rparr>) t ?r addr w = Forward (x\<lparr>xCall := call_node 1 hs x\<rparr>) t ?r addr w" for addr
      unfolding Forward_def by (cases "forward_request t addr ?r") (simp_all del: call_node.simps)
    moreover have "hProxy (hs i) = None \<or> hProxy (hs i) = Some t" using assms(1) by (simp add: same_token_def)
    ultimately show ?thesis unfolding maybeForwardObject_def by (auto split: option.splits sum.splits)
  qed
  then have F: "front (x\<lparr>xCall := call_node (Suc n) hs x\<rparr>) (hs i) r w = front (x\<lparr>xCall := call_node 1 hs x\<rparr>) (hs i) r w" for i
    by (intro front_call [OF assms(2)])
  have "call_node (Suc (Suc n)) hs x base r w = call_node (Suc 1) hs x base r w"
    by (subst (1 2) call_node.simps(2)) (simp only: F)
  then show ?thesis by (simp only: Suc_1)
qed

definition example_handler :: "string \<Rightarrow> Handler" where
  "example_handler i =
     \<lparr>hPublicURL = ''http://localhost:9000'', hSigV4Region = ''us-east-1'', hPresignDefaultExpiry = 3600, hPresignMaxExpiry = 604800,
      hLocalNodeID = i, hMembership = Some example_members, hPlacement = Some example_placer, hProxy = Some ''t'', hPeerSync = None,
      hReplication = Some (example_coordinator i), hInternalToken = ''t'', hPeerHealth = None, hReadyCheck = False\<rparr>"

definition example_outside :: outside where
  "example_outside =
     \<lparr>xNet = example_net, xCall = (\<lambda>_ _ w. (w, Inl (Other ''dial''))), xTokens = (\<lambda>_. ([], None)),
      xURLHost = (\<lambda>_. Inr ''localhost:9000''), xNow = 0, xCut = (\<lambda>_. None)\<rparr>"

definition example_get :: api_req where
  "example_get =
     \<lparr>aMethod = ''GET'', aPath = ''/abc/dir/file name'', aEscapedPath = ''/abc/dir/file%20name'', aRawQuery = ''download=true'',
      aHost = ''h1'', aHeader = [], aBody = Src [], aCred = None\<rparr>"

theorem forward_once_witness:
  "call_node 9 example_handler example_outside ''http://h1'' example_get example_world =
   call_node 2 example_handler example_outside ''http://h1'' example_get example_world"
proof -
  have "same_token example_handler ''t''" by (simp add: same_token_def example_handler_def)
  moreover have "ServeHTTP_route (aMethod example_get) (aPath example_get) = RouteObject ''abc'' ''dir/file name''" "plain_target example_get"
    by code_simp+
  ultimately show ?thesis
    using forward_once [of example_handler "''t''" example_get 7] by (simp add: object_request_def numeral_eq_Suc del: call_node.simps)
qed

section \<open>What forwarding carries along\<close>

lemma header_get_values: "header_get h k = (case header_values h k of [] \<Rightarrow> '''' | v # vs \<Rightarrow> v)"
  by (simp add: header_get_def header_values_def split: option.split list.split)

lemma header_values_add:
  "header_values (header_add k v h) k' = (if CanonicalHeaderKey k' = CanonicalHeaderKey k then header_values h k' @ [v] else header_values h k')"
  by (simp add: header_add_def header_values_def update_conv')

lemma header_values_adds:
  "header_values (fold (header_add k) vs h) k' = (if CanonicalHeaderKey k' = CanonicalHeaderKey k then header_values h k' @ vs else header_values h k')"
  by (induction vs arbitrary: h) (auto simp: header_values_add)

lemma copyHeader_values:
  assumes "\<not> isHopByHopHeader k"
  shows "header_values (copyHeader dst src) k =
    header_values dst k @ concat (map snd (filter (\<lambda>(n, vs). CanonicalHeaderKey n = CanonicalHeaderKey k) src))"
  using assms
proof (induction src arbitrary: dst)
  case (Cons p src)
  obtain n vs where p: "p = (n, vs)" by (rule prod.exhaust)
  have "CanonicalHeaderKey n = CanonicalHeaderKey k \<Longrightarrow> \<not> isHopByHopHeader n" using Cons.prems by (simp add: isHopByHopHeader_def)
  with Cons show ?case by (auto simp: copyHeader_def p header_values_adds)
qed (simp add: copyHeader_def)

text \<open>Headers as \<^verbatim>\<open>net/http\<close> builds them: one entry for each name, in canonical form.\<close>

definition proper_header :: "header \<Rightarrow> bool" where
  "proper_header h \<longleftrightarrow> distinct (map fst h) \<and> (\<forall>(n, vs) \<in> set h. CanonicalHeaderKey n = n)"

lemma copyHeader_get:
  assumes "proper_header h" "\<not> isHopByHopHeader k"
  shows "header_get (copyHeader [] h) k = header_get h k"
proof -
  have "concat (map snd (filter (\<lambda>(n, vs). CanonicalHeaderKey n = c) h)) = (case map_of h c of None \<Rightarrow> [] | Some vs \<Rightarrow> vs)"
    if "proper_header h" for h c
    using that
  proof (induction h)
    case (Cons p h)
    obtain n vs where p: "p = (n, vs)" by (rule prod.exhaust)
    have n: "CanonicalHeaderKey n = n" "proper_header h" "n \<notin> fst ` set h" using Cons.prems by (auto simp: proper_header_def p)
    show ?case
    proof (cases "n = c")
      case True
      then have "map_of h c = None" using n(3) by (simp add: map_of_eq_None_iff)
      with Cons.IH [OF n(2)] True n(1) show ?thesis by (simp add: p)
    next
      case False
      with Cons.IH [OF n(2)] n(1) show ?thesis by (simp add: p)
    qed
  qed simp
  from this [OF assms(1)] copyHeader_values [OF assms(2), of "[]"]
  show ?thesis by (simp add: header_get_values header_values_def)
qed

lemma internal_not_hop: "\<not> isHopByHopHeader InternalOperationHeader" "\<not> isHopByHopHeader InternalObjectVersion"
  "\<not> isHopByHopHeader InternalExpectedETag"
  by code_simp+

lemma internal_names_differ:
  "CanonicalHeaderKey InternalOperationHeader \<noteq> CanonicalHeaderKey InternalTokenHeader"
  "CanonicalHeaderKey InternalObjectVersion \<noteq> CanonicalHeaderKey InternalTokenHeader"
  "CanonicalHeaderKey InternalExpectedETag \<noteq> CanonicalHeaderKey InternalTokenHeader"
  by code_simp+

section \<open>Replica requests\<close>

text \<open>A request of the replicator as the peer's server reads it.\<close>

definition received :: "http_req \<Rightarrow> string \<Rightarrow> string \<Rightarrow> api_req" where
  "received q path host = \<lparr>aMethod = rqMethod q, aPath = path, aEscapedPath = rqPath q, aRawQuery = '''', aHost = host,
     aHeader = rqHeader q, aBody = rqBody q, aCred = None\<rparr>"

definition replica_calls :: "(string \<times> string \<times> string) set" where
  "replica_calls = {(''PUT'', OpReplicatePut, ''put''), (''DELETE'', OpReplicateDelete, ''delete''),
     (''HEAD'', OpReplicateHead, ''head''), (''GET'', OpReplicateGet, ''get'')}"

lemma received_internal [simp]:
  "IsInternalRequest (as_http (received q path host)) t = IsInternalRequest q t"
  "InternalOperation (as_http (received q path host)) t = InternalOperation q t"
  by (simp_all add: received_def as_http_def IsInternalRequest_def InternalOperation_def)

lemma received_parts: "rqHeader (as_http (received q path host)) = rqHeader q" "rqBody (as_http (received q path host)) = rqBody q"
  by (simp_all add: received_def as_http_def)

lemma received_replica [simp]:
  "putReplica s env (as_http (received q path host)) b k st = putReplica s env q b k st"
  "deleteReplica s env (as_http (received q path host)) b k st = deleteReplica s env q b k st"
  unfolding putReplica_def deleteReplica_def received_parts by (rule refl)+

lemma parse_query_empty: "parse_query '''' = []"
  by (simp add: parse_query_def parse_pair_def)

lemma empty_query [simp]: "query (received q path host) = []"
  by (simp add: query_def received_def parse_query_empty)

lemma routed_route: "routed b k \<Longrightarrow> ServeHTTP_route m (''/'' @ b @ ''/'' @ k) = RouteObject b k"
proof -
  assume r: "routed b k"
  then have b: "CHR ''/'' \<notin> set b" "CHR ''%'' \<notin> set b" using valid_bucket_chars by (simp_all add: routed_def)
  show ?thesis using object_route [OF b, of m k] PathUnescape_plain [of k] r by (simp add: routed_def)
qed

lemma front_internal:
  assumes "IsInternalRequest (as_http r) (hInternalToken h)" "mux_clean (aEscapedPath r)" "\<not> mux_metrics (aEscapedPath r)" "aCred r = None"
  shows "front x h r w = ServeHTTP x h r w"
proof -
  have "Middleware_Handler s (hInternalToken h) now (sig_of r) = Inr None" for s now
    using assms(1) by (auto simp: Middleware_Handler_def sig_of_def IsInternalRequest_def as_http_def split: if_splits)
  moreover have "with_credential r None = r" using assms(4) by (simp add: with_credential_def)
  ultimately show ?thesis using assms(2,3) by (simp add: front_def)
qed

text \<open>
  C15: the replica requests the cluster theorems rest on are answered by the real front end exactly as the model of the
  peer says: behind authentication, routing and dispatch, each of the four internal operations runs its replica
  handler, without forwarding and whatever else the node is configured with.
\<close>

theorem replica_front:
  assumes "routed b k" "rqPath q = object_target b k" "IsInternalRequest q (hInternalToken h)"
    and "(rqMethod q, InternalOperation q (hInternalToken h), l) \<in> replica_calls"
  shows "front x h (received q (''/'' @ b @ ''/'' @ k) host) w =
    (case serve_replica (h_svc h w) (hInternalToken h) (h_env x h l) q (h_st h w) of
       (st', resp) \<Rightarrow> (set_node (hLocalNodeID h) st' w, resp))"
proof -
  let ?r = "received q (''/'' @ b @ ''/'' @ k) host"
  have int: "IsInternalRequest (as_http ?r) (hInternalToken h)" using assms(3) by simp
  have e: "aEscapedPath ?r = object_target b k" "aCred ?r = None" "aMethod ?r = rqMethod q" "aPath ?r = ''/'' @ b @ ''/'' @ k"
    using assms(2) by (simp_all add: received_def)
  have "CHR ''/'' \<in> set (tl (object_target b k))" by (simp add: object_target_def)
  then have "\<not> mux_metrics (object_target b k)" by (simp add: mux_metrics_def)
  then have "front x h ?r w = ServeHTTP x h ?r w"
    using e int assms(1) by (intro front_internal) (simp_all add: routed_def)
  also have "\<dots> = dispatchObject x h ?r b k w" using routed_route [OF assms(1)] e by (simp add: ServeHTTP_def)
  finally have F: "front x h ?r w = dispatchObject x h ?r b k w" .
  have "k \<noteq> ''''" using assms(1) by (simp add: routed_def)
  have w: "set_node (hLocalNodeID h) (h_st h w) w = w" by (simp add: set_node_def h_st_def)
  note ops = internal_op_defs OpReplicatePut_def OpReplicateDelete_def OpReplicateHead_def OpReplicateGet_def
  note fwd = internal_not_forwarded [OF int]
  show ?thesis
    unfolding F serve_routed [OF assms(1,2)] dispatchObject_def putObject_def getObject_def headObject_def deleteObject_def
      fwd Let_def e empty_query
    using assms(3,4) \<open>k \<noteq> ''''\<close> w
    by (auto simp: replica_calls_def ops h_set_def query_has_def query_get_def split: prod.split)
qed

definition example_head :: http_req where
  "example_head = \<lparr>rqMethod = ''HEAD'', rqPath = object_target ''abc'' ''k'',
     rqHeader = [(''X-Objex-Internal-Token'', [''t'']), (''X-Objex-Internal-Operation'', [''replicate-head''])], rqBody = Src []\<rparr>"

theorem replica_front_witness:
  "front example_outside (example_handler ''n1'') (received example_head ''/abc/k'' ''h1'') example_world = (example_world, plain_response 404)"
proof -
  have r: "routed ''abc'' ''k''" "rqPath example_head = object_target ''abc'' ''k''" "IsInternalRequest example_head ''t''"
    "rqMethod example_head = ''HEAD''" "InternalOperation example_head ''t'' = OpReplicateHead" "IsReplicateHead example_head ''t''"
    by code_simp+
  have t: "hInternalToken (example_handler ''n1'') = ''t''" "h_st (example_handler ''n1'') example_world = example_node"
    "h_env example_outside (example_handler ''n1'') l = label_env l" "set_node ''n1'' example_node example_world = example_world"
    "hLocalNodeID (example_handler ''n1'') = ''n1''" for l
    by (simp_all add: example_handler_def h_st_def example_world_def h_env_def example_outside_def example_net_def set_node_def fun_upd_idem_iff)
  have "headReplica (label_env ''head'') ''abc'' ''k'' example_node = plain_response 404"
    using label_env_facts example_facts(5) by (simp add: headReplica_def LocalReplicaState_def GetObject_def db_quiet_def healthy_def)
  then have "serve_replica s ''t'' (label_env ''head'') example_head example_node = (example_node, plain_response 404)" for s
    unfolding serve_routed [OF r(1,2)] using r(3,4,6) by simp
  then show ?thesis
    using replica_front [OF r(1,2), of "example_handler ''n1''" "''head''" example_outside "''h1''" example_world] r(3-5)
    by (simp add: t replica_calls_def)
qed

text \<open>A forwarded request keeps the client's operation, version and ETag headers, and carries the node's token.\<close>

lemma forward_internal_headers:
  assumes "forward_request t host r = Inr out" "t \<noteq> ''''" "proper_header (aHeader r)"
  shows "IsInternalRequest (as_http out) t" "InternalOperation (as_http out) t = header_get (aHeader r) InternalOperationHeader"
    "header_get (aHeader out) InternalObjectVersion = header_get (aHeader r) InternalObjectVersion"
    "header_get (aHeader out) InternalExpectedETag = header_get (aHeader r) InternalExpectedETag"
proof -
  have h: "aHeader out = header_set InternalTokenHeader t (copyHeader [] (aHeader r))"
    using assms(1) by (auto simp: forward_request_def split: sum.splits)
  show i: "IsInternalRequest (as_http out) t" using assms(1,2) by (rule forward_token)
  show "InternalOperation (as_http out) t = header_get (aHeader r) InternalOperationHeader"
    "header_get (aHeader out) InternalObjectVersion = header_get (aHeader r) InternalObjectVersion"
    "header_get (aHeader out) InternalExpectedETag = header_get (aHeader r) InternalExpectedETag"
    using internal_operation [OF i] copyHeader_get [OF assms(3) internal_not_hop(1)] copyHeader_get [OF assms(3) internal_not_hop(2)]
      copyHeader_get [OF assms(3) internal_not_hop(3)] internal_names_differ
    by (simp_all add: h header_get_set as_http_def)
qed

lemma escaped_slash: "CHR ''/'' \<in> set (tl (EscapedPath (''/'' @ b @ ''/'' @ k) (''/'' @ b @ ''/'' @ k)))"
proof -
  have "path_char (CHR ''/'')" by code_simp
  then show ?thesis by (auto simp: EscapedPath_def)
qed

text \<open>What the primary does with a forwarded replica operation: it stores the replica, with the client's version, ETag and body.\<close>

lemma forwarded_put_stored:
  assumes "forward_request t host r = Inr out" "t \<noteq> ''''" "proper_header (aHeader r)" "aMethod out = ''PUT''" "aPath out = ''/'' @ b @ ''/'' @ k"
    "aEscapedPath out = EscapedPath (''/'' @ b @ ''/'' @ k) (''/'' @ b @ ''/'' @ k)" "mux_clean (EscapedPath (''/'' @ b @ ''/'' @ k) (''/'' @ b @ ''/'' @ k))"
    "aRawQuery out = ''''" "aBody out = aBody r" "aCred out = None" "routed b k"
    "header_get (aHeader r) InternalOperationHeader = OpReplicatePut" "ParseInt (header_get (aHeader r) InternalObjectVersion) = Some v" "1 \<le> v"
    "header_get (aHeader r) InternalExpectedETag = etag" "etag \<noteq> ''''" "hInternalToken h = t" "hLocalNodeID h = i"
  shows "\<exists>inp st' res. riBucketName inp = b \<and> riKey inp = k \<and> riVersion inp = v \<and> riExpectedETag inp = etag \<and> riBody inp = aBody r \<and>
    PutReplica (wSvc w i) (nEnv (xNet x) i ''put'') inp (wNodes w i) = (st', res) \<and> fst (front x h out w) = set_node i st' w"
proof -
  note f = forward_internal_headers [OF assms(1-3)]
  have rp: "IsReplicatePut (as_http out) t" using f(2) assms(12) by (simp add: IsReplicatePut_def)
  have "\<not> mux_metrics (aEscapedPath out)" using escaped_slash [of b k] by (auto simp: mux_metrics_def assms(6))
  then have "front x h out w = ServeHTTP x h out w"
    using f(1) assms(6,7,10,17) by (intro front_internal) simp_all
  also have "\<dots> = dispatchObject x h out b k w" using routed_route [OF assms(11)] assms(5) by (simp add: ServeHTTP_def)
  also have "\<dots> = h_set h (putReplica (h_svc h w) (h_env x h ''put'') (as_http out) b k (h_st h w)) w"
    using assms(4,8,11,17) rp by (simp add: dispatchObject_def putObject_def query_def parse_query_empty query_has_def routed_def)
  finally have F: "front x h out w = h_set h (putReplica (h_svc h w) (h_env x h ''put'') (as_http out) b k (h_st h w)) w" .
  define inp where "inp = \<lparr>riBucketName = b, riKey = k, riVersion = v, riExpectedETag = etag,
    riContentType = header_get (aHeader out) ''Content-Type'', riCustomMetadata = extractCustomMetadata (aHeader out), riBody = aBody out\<rparr>"
  obtain st' res where P: "PutReplica (wSvc w i) (nEnv (xNet x) i ''put'') inp (wNodes w i) = (st', res)" by fastforce
  have "fst (putReplica (h_svc h w) (h_env x h ''put'') (as_http out) b k (h_st h w)) = st'"
    using f(3,4) assms(13-16,18) P
    by (simp add: putReplica_def as_http_def h_svc_def h_env_def h_st_def inp_def Let_def split: sum.splits)
  then have "fst (front x h out w) = set_node i st' w" using F assms(18) by (simp add: h_set_def)
  then show ?thesis using P assms(9)
    by (intro exI [of _ inp] exI [of _ st'] exI [of _ res]) (auto simp: inp_def)
qed

text \<open>
  C38: a client can forge an internal operation. A request of a client reaches a node that is not the primary of the object, and
  the node forwards it with the cluster's token and the client's own internal headers. So the primary carries it out as
  a replica operation of a peer: a PUT whose headers name the operation, a version and an ETag makes the primary run \<^verbatim>\<open>PutReplica\<close> with the
  client's version (no matter which one the primary would have assigned), and when it succeeds the primary's row of
  the object has that version and ETag. The path of the request has no characters that forwarding changes and no query, and the primary is
  reachable and has the same token.
\<close>

theorem forwarded_operation_forged:
  assumes "aMethod r = ''PUT''" "aPath r = ''/'' @ b @ ''/'' @ k" "aRawQuery r = ''''" "plain_target r" "routed b k"
    "mux_clean (EscapedPath (aPath r) (aPath r))" "proper_header (aHeader r)" "\<not> IsInternalRequest (as_http r) (hInternalToken h)"
    "header_get (aHeader r) InternalOperationHeader = OpReplicatePut" "ParseInt (header_get (aHeader r) InternalObjectVersion) = Some v" "1 \<le> v"
    "header_get (aHeader r) InternalExpectedETag = etag" "etag \<noteq> ''''"
    "hProxy h = Some t" "t \<noteq> ''''" "hPlacement h = Some p" "hLocalNodeID h \<noteq> ''''" "Locate p b k = Inr pl" "nID (Primary pl) \<noteq> hLocalNodeID h"
    "wHost w (nodeBaseURL (nAddress (Primary pl))) = Some i" "nFate (xNet x) ''forward'' i \<noteq> Unreachable"
    "hInternalToken (hs i) = t" "hLocalNodeID (hs i) = i"
  shows "\<exists>inp st' res. PutReplica (wSvc w i) (nEnv (xNet x) i ''put'') inp (wNodes w i) = (st', res) \<and>
     riBucketName inp = b \<and> riKey inp = k \<and> riVersion inp = v \<and> riExpectedETag inp = etag \<and> riBody inp = aBody r \<and>
     fst (ServeHTTP (x\<lparr>xCall := call_node (Suc n) hs x\<rparr>) h r w) = set_node i st' w \<and>
     (res = Inr () \<longrightarrow> live_at st' (b, k) v etag)"
proof -
  let ?x = "x\<lparr>xCall := call_node (Suc n) hs x\<rparr>" and ?y = "x\<lparr>xCall := call_node n hs x\<rparr>" and ?addr = "nAddress (Primary pl)"
  obtain out where o: "forward_request t ?addr r = Inr out" "aMethod out = ''PUT''" "aPath out = aPath r" "aRawQuery out = ''''" "aBody out = aBody r"
    using forward_plain [OF assms(4), of t ?addr] assms(1,3) by metis
  have e: "aEscapedPath out = EscapedPath (aPath r) (aPath r)" "aCred out = None"
  proof -
    have "aEscapedPath out = EscapedPath (fst (Cut (CHR ''?'') (fst (Cut (CHR ''#'') (aPath r))))) (aPath out)" "aCred out = None"
      using o(1) assms(3) by (auto simp: forward_request_def parse_target_def Let_def split: sum.splits prod.splits if_splits option.splits)
    moreover have "CHR ''#'' \<notin> set (aPath r)" "CHR ''?'' \<notin> set (aPath r)" using assms(4) by (auto simp: plain_target_def)
    ultimately show "aEscapedPath out = EscapedPath (aPath r) (aPath r)" "aCred out = None" using o(3) Cut_free by simp_all
  qed
  obtain inp st' res where P: "riBucketName inp = b" "riKey inp = k" "riVersion inp = v" "riExpectedETag inp = etag" "riBody inp = aBody r"
    "PutReplica (wSvc w i) (nEnv (xNet x) i ''put'') inp (wNodes w i) = (st', res)" "fst (front ?y (hs i) out w) = set_node i st' w"
    using forwarded_put_stored [OF o(1) assms(15,7) o(2) _ _ _ o(4,5) e(2) assms(5) assms(9-13) assms(22,23), of w ?y] o(3) e(1) assms(2,6) by auto
  have "fst (call_node (Suc n) hs x (nodeBaseURL ?addr) out w) = set_node i st' w"
    using assms(6,20,21) P(7) e(1) by (auto split: prod.splits)
  then have "fst (Forward ?x t r ?addr w) = set_node i st' w"
    using assms(15) o(1) by (auto simp: Forward_def Let_def simp del: call_node.simps split: prod.splits sum.splits option.splits)
  then have M: "\<exists>resp. maybeForwardObject ?x h r b k w = Some (set_node i st' w, resp)"
    using assms(8,14,16-19) by (cases "Forward ?x t r ?addr w") (auto simp: maybeForwardObject_def Let_def)
  have nr: "\<not> IsReplicatePut (as_http r) (hInternalToken h)"
    using assms(8) by (simp add: IsReplicatePut_def InternalOperation_def OpReplicatePut_def)
  have "k \<noteq> ''''" using assms(5) by (simp add: routed_def)
  then have "fst (dispatchObject ?x h r b k w) = set_node i st' w"
    using M nr assms(1,3) by (auto simp: dispatchObject_def putObject_def query_def query_has_def parse_query_empty)
  then have "fst (ServeHTTP ?x h r w) = set_node i st' w"
    using routed_route [OF assms(5)] assms(1,2) by (simp add: ServeHTTP_def)
  moreover have "live_at st' (b, k) v etag" if "res = Inr ()"
  proof -
    have "apply_op (wSvc w i) (nEnv (xNet x) i ''put'') (RPut inp) (wNodes w i) = (st', Inr ())" using P(6) that by simp
    from apply_op_holds [OF this] P(1-4) assms(11) show ?thesis by (auto simp: holds_def live_at_def)
  qed
  ultimately show ?thesis using P(1-6) by blast
qed

definition forged_put :: api_req where
  "forged_put = \<lparr>aMethod = ''PUT'', aPath = ''/abc/k'', aEscapedPath = ''/abc/k'', aRawQuery = '''', aHost = ''h1'',
     aHeader = [(''X-Objex-Internal-Operation'', [''replicate-put'']), (''X-Objex-Object-Version'', [''99'']), (''X-Objex-Expected-Etag'', [''e''])],
     aBody = Src [(''hello'', None)], aCred = None\<rparr>"

theorem forwarded_operation_forged_witness:
  "\<exists>j i inp st' res. PutReplica example_service (label_env ''put'') inp example_node = (st', res) \<and> riVersion inp = 99 \<and>
     fst (ServeHTTP (example_outside\<lparr>xCall := call_node 1 example_handler example_outside\<rparr>) (example_handler j) forged_put example_world) =
       set_node i st' example_world"
proof -
  obtain pl where pl: "Locate example_placer ''abc'' ''k'' = Inr pl" using example_placement by blast
  have "Primary pl \<in> set (ListNodes example_members)"
    using placement_facts(2) [OF pl example_net_ok(3)] by (simp add: ReplicaSet_def example_placer_def NewRendezvousPlacer_def)
  then obtain i where i: "nID (Primary pl) = i" "wHost example_world (nodeBaseURL (nAddress (Primary pl))) = Some i" "i \<in> {''a'', ''b''}"
    using example_addresses(1,2) by (auto simp: ListNodes_def example_members_def example_world_def)
  define j where "j = (if i = ''a'' then ''b'' else ''a'')"
  have j: "j \<noteq> ''''" "i \<noteq> j" using i(3) by (auto simp: j_def)
  have f: "aMethod forged_put = ''PUT''" "aPath forged_put = ''/'' @ ''abc'' @ ''/'' @ ''k''" "aRawQuery forged_put = ''''" "plain_target forged_put"
    "mux_clean (EscapedPath (aPath forged_put) (aPath forged_put))" "proper_header (aHeader forged_put)" "\<not> IsInternalRequest (as_http forged_put) ''t''"
    "header_get (aHeader forged_put) InternalOperationHeader = OpReplicatePut" "ParseInt (header_get (aHeader forged_put) InternalObjectVersion) = Some 99"
    "header_get (aHeader forged_put) InternalExpectedETag = ''e''" by code_simp+
  have h: "hInternalToken (example_handler l) = ''t''" "hProxy (example_handler l) = Some ''t''" "hPlacement (example_handler l) = Some example_placer"
    "hLocalNodeID (example_handler l) = l" for l by (simp_all add: example_handler_def)
  have x: "nFate (xNet example_outside) ''forward'' i \<noteq> Unreachable" "nEnv (xNet example_outside) i ''put'' = label_env ''put''"
    "wSvc example_world i = example_service" "wNodes example_world i = example_node"
    by (simp_all add: example_outside_def example_net_def example_world_def)
  obtain inp st' res where "PutReplica example_service (label_env ''put'') inp example_node = (st', res)" "riVersion inp = 99"
    "fst (ServeHTTP (example_outside\<lparr>xCall := call_node 1 example_handler example_outside\<rparr>) (example_handler j) forged_put example_world) =
       set_node i st' example_world"
    using forwarded_operation_forged [OF f(1-4) example_addresses(3) f(5,6) _ f(8,9) _ f(10), of "example_handler j" "''t''" example_placer pl example_world i
        example_outside example_handler 0] f(7) h i(1,2) j x pl
    by (auto simp del: call_node.simps)
  then show ?thesis by blast
qed

section \<open>Authentication\<close>

lemma refusal_status:
  assumes "VerifyRequest store now r = Inl e"
  shows "400 \<le> rsStatus (auth_response e)"
proof -
  have p: "ParseSigV4 r = Inl e \<Longrightarrow> \<exists>c m n. e = AuthError c m n \<and> 400 \<le> n" for e
    by (auto simp: ParseSigV4_def parseQuerySig_def parseAuthHeader_def parseCredential_def bad_scope_def Let_def map_sum_def
        split: if_splits sum.splits prod.splits)
  from assms show ?thesis
    using p [of e]
    by (auto simp: VerifyRequest_def verifyPayloadHash_def no_credentials_def unknown_key_def request_expired_def bad_signature_def
        auth_response_def Let_def split: sum.splits option.splits if_splits)
qed

text \<open>
  C11: every effect is authorized. If a request for anything but the open pages changes the state of the cluster or is
  answered with anything but an error, then it carries the cluster's internal token, or it is fresh and its signature is
  the HMAC, under the secret stored for its access key, of the string to sign built from this very request.
\<close>

theorem effects_authorized:
  assumes "front x h r w = (w', resp)" "w' \<noteq> w \<or> rsStatus resp < 400" "\<not> DefaultSkip (aPath r)"
  shows "IsInternalRequest (as_http r) (hInternalToken h) \<or>
    (\<exists>p cred. ParseSigV4 (sig_of r) = Inr (Some p) \<and> isTimestampFresh (xNow x) (sig_of r) \<and>
       GetCredential (eDb (h_env x h ''auth'')) (psAccessKeyID p) (sDb (h_st h w)) = Inr (Some cred) \<and>
       hexDecodeSignature (psSignature p) = Some (HmacSHA256 (DeriveSigningKey (SecretAccessKey cred) (psDate p) (psRegion p) (psService p))
         (BuildStringToSign (RequestContextFromHTTP (sig_of r)) p (BuildCanonicalRequest (RequestContextFromHTTP (sig_of r)) p))))"
proof (rule disjCI)
  let ?store = "credential_store x h w"
  assume n: "\<not> (\<exists>p cred. ParseSigV4 (sig_of r) = Inr (Some p) \<and> isTimestampFresh (xNow x) (sig_of r) \<and>
       GetCredential (eDb (h_env x h ''auth'')) (psAccessKeyID p) (sDb (h_st h w)) = Inr (Some cred) \<and>
       hexDecodeSignature (psSignature p) = Some (HmacSHA256 (DeriveSigningKey (SecretAccessKey cred) (psDate p) (psRegion p) (psService p))
         (BuildStringToSign (RequestContextFromHTTP (sig_of r)) p (BuildCanonicalRequest (RequestContextFromHTTP (sig_of r)) p))))"
  have "VerifyRequest ?store (xNow x) (sig_of r) \<noteq> Inr cred" for cred
  proof
    assume v: "VerifyRequest ?store (xNow x) (sig_of r) = Inr cred"
    then obtain p where p: "ParseSigV4 (sig_of r) = Inr (Some p)" "isTimestampFresh (xNow x) (sig_of r)"
      by (auto simp: VerifyRequest_def Let_def split: sum.splits option.splits if_splits)
    from accepted_parts [OF v p(1)] p n show False by (auto simp: credential_store_def)
  qed
  then obtain e where e: "VerifyRequest ?store (xNow x) (sig_of r) = Inl e" by (metis sum.exhaust)
  show "IsInternalRequest (as_http r) (hInternalToken h)"
  proof (rule ccontr)
    assume i: "\<not> IsInternalRequest (as_http r) (hInternalToken h)"
    have "qPath (sig_of r) = aPath r" by (simp add: sig_of_def)
    moreover have "IsInternalRequest \<lparr>rqMethod = m, rqPath = p, rqHeader = qHeader (sig_of r), rqBody = b\<rparr> t = IsInternalRequest (as_http r) t"
      for m p b t by (simp add: sig_of_def IsInternalRequest_def as_http_def)
    ultimately have "Middleware_Handler ?store (hInternalToken h) (xNow x) (sig_of r) = Inl (auth_response e)"
      using i e assms(3) by (simp add: Middleware_Handler_def)
    with assms(1,2) refusal_status [OF e] show False by (simp add: front_def)
  qed
qed

definition example_list :: api_req where
  "example_list = \<lparr>aMethod = ''GET'', aPath = ''/'', aEscapedPath = ''/'', aRawQuery = '''', aHost = ''h1'',
     aHeader = [(''X-Objex-Internal-Token'', [''t''])], aBody = Src [], aCred = None\<rparr>"

theorem effects_authorized_witness:
  "rsStatus (snd (front example_outside (example_handler ''n1'') example_list example_world)) = 200 \<and>
   IsInternalRequest (as_http example_list) ''t''"
proof -
  have l: "IsInternalRequest (as_http example_list) ''t''" "mux_clean (aEscapedPath example_list)" "\<not> mux_metrics (aEscapedPath example_list)"
    "aCred example_list = None" "\<not> DefaultSkip (aPath example_list)" "ServeHTTP_route (aMethod example_list) (aPath example_list) = RouteListBuckets"
    "ParseSigV4 (sig_of example_list) = Inr None" by code_simp+
  have t: "hInternalToken (example_handler ''n1'') = ''t''" by (simp add: example_handler_def)
  let ?f = "front example_outside (example_handler ''n1'') example_list example_world"
  have "?f = ServeHTTP example_outside (example_handler ''n1'') example_list example_world"
    using l(1-4) t by (intro front_internal) simp_all
  also have "\<dots> = (example_world, listBuckets example_outside (example_handler ''n1'') example_world)" using l(6) by (simp add: ServeHTTP_def)
  finally have f: "?f = (example_world, listBuckets example_outside (example_handler ''n1'') example_world)" .
  have s: "rsStatus (listBuckets example_outside (example_handler ''n1'') example_world) = 200" by code_simp
  with effects_authorized [OF f _ l(5)] l(7) show ?thesis by (simp add: f t)
qed

section \<open>Objects over HTTP\<close>

text \<open>A plain upload, and a plain download.\<close>

definition plain_put :: "Handler \<Rightarrow> api_req \<Rightarrow> bool" where
  "plain_put h p \<longleftrightarrow> aMethod p = ''PUT'' \<and> \<not> (query_has (query p) ''partNumber'' \<and> query_has (query p) ''uploadId'') \<and>
     \<not> IsReplicatePut (as_http p) (hInternalToken h) \<and> header_get (aHeader p) ''x-amz-copy-source'' = ''''"

definition plain_get :: "Handler \<Rightarrow> api_req \<Rightarrow> bool" where
  "plain_get h g \<longleftrightarrow> aMethod g = ''GET'' \<and> query_get (query g) ''uploadId'' = '''' \<and> \<not> IsReplicateGet (as_http g) (hInternalToken h)"

lemma standalone_not_forwarded: "hProxy h = None \<Longrightarrow> maybeForwardObject x h r b k w = None"
  by (simp add: maybeForwardObject_def)

lemma h_set_simps [simp]: "h_st h (fst (h_set h sr w)) = fst sr" "wSvc (fst (h_set h sr w)) = wSvc w" "snd (h_set h sr w) = snd sr"
  "i \<noteq> hLocalNodeID h \<Longrightarrow> wNodes (fst (h_set h sr w)) i = wNodes w i"
  by (simp_all add: h_set_def h_st_def set_node_def)

text \<open>
  C10: objects over HTTP. On a node without peers, a plain PUT of an accepted body is answered with its MD5 as ETag, and every
  plain GET after it (with or without the integrity check) returns the bytes of the body, whole or the range asked for, with
  that ETag; its content type is the uploaded one, or the default, or that of a download. No other node changes.
\<close>

theorem http_object_roundtrip:
  assumes "replicated h = None" "hProxy h = None" "plain_put h p" "plain_get h g" "aBody p = Src cs"
    and "healthy (h_svc h w) (h_env x h ''local'')" "healthy (h_svc h w) (h_env x' h ''local'')"
    and "BucketNameError b = ''''" "KeyError k = ''''" "bucket_at (sDb (h_st h w)) b \<noteq> None" "accepted (h_svc h w) cs"
    and "fresh_id (h_env x h ''local'') (sDb (h_st h w)) b k"
    and "\<forall>r. obj_at (sDb (h_st h w)) b k = Some r \<longrightarrow> 0 \<le> oVersion r \<and> oVersion r < 2 ^ 63 - 1"
  defines "d \<equiv> stream_data cs" and "ct \<equiv> header_get (aHeader p) ''Content-Type''"
  shows "\<exists>w' hd. dispatchObject x h p b k w = (w', etag_response (hex_encode (md5 d))) \<and>
    dispatchObject x' h g b k w' = (w', serveWithRange hd (header_get (aHeader g) ''Range'') d (int (length d))) \<and>
    header_get hd ''ETag'' = dquote (hex_encode (md5 d)) \<and>
    header_get hd ''Content-Type'' =
      (if query_get (query g) ''download'' = ''true'' \<or> ct = '''' then octet_stream else ct) \<and>
    (\<forall>i. i \<noteq> hLocalNodeID h \<longrightarrow> wNodes w' i = wNodes w i)"
proof -
  let ?s = "h_svc h w" and ?st = "h_st h w" and ?e = "h_env x h ''local''" and ?m = "hex_encode (md5 d)"
  let ?inp = "\<lparr>inBucketName = b, inKey = k, inContentType = ct, inCustomMetadata = extractCustomMetadata (aHeader p), inBody = aBody p\<rparr>"
  define v where "v = (case obj_at (sDb ?st) b k of None \<Rightarrow> 1 | Some r \<Rightarrow> oVersion r + 1)"
  have v: "NextObjectVersion ?e b k ?st = Inr v"
    using assms(6,13) by (auto simp: v_def NextObjectVersion_def GetObject_def healthy_def in_i64_def split: option.splits)
  obtain st' where P: "PutObjectWithVersion ?s ?e ?inp v ''replicated'' ?st = (st', Inr ?m)"
    and S: "stored ?s ?e (input_object ?s ?inp d v ''replicated'') d ?st st'"
    using PutObjectWithVersion_ok [of ?s ?e ?inp ?st cs v "''replicated''"] assms(5,6,8-12) by (simp add: d_def) blast
  from S obtain row where row: "obj_at (sDb st') b k = Some row" "\<not> oDeleted row" "oETag row = ?m"
      "oContentType row = (if ct = '''' then octet_stream else ct)"
    and rest: "data_at (sFs st') (blob_path ?s b k) = Some d" "bucket_at (sDb st') b \<noteq> None"
    by (auto simp: stored_def cong: if_cong)
  let ?w = "set_node (hLocalNodeID h) st' w"
  have "PutObject_svc ?s ?e ?inp ?st = (st', Inr ?m)" using P v by (simp add: PutObject_svc_def)
  then have put: "dispatchObject x h p b k w = (?w, etag_response ?m)"
    using assms(1,3) KeyError_nonempty [OF assms(9)] standalone_not_forwarded [OF assms(2)]
    by (auto simp: dispatchObject_def putObject_def plain_put_def h_set_def ct_def Let_def)
  have w: "h_svc h ?w = ?s" "h_st h ?w = st'" by (simp_all add: h_svc_def h_st_def set_node_def)
  let ?hd = "header_set ''Content-Type'' (if query_get (query g) ''download'' = ''true'' then octet_stream else oContentType row)
      (header_set ''Last-Modified'' (http_time (oUpdatedAt row)) (header_set ''ETag'' (dquote ?m) (setCustomMetadata (oCustomMetadata row) [])))"
  have "GetObject_svc ?s (h_env x' h ''local'') b k verify st' = Inr \<lparr>gBody = d, gSize = int (length d),
     gContentType = oContentType row, gETag = ?m, gLastModified = oUpdatedAt row, gCustomMetadata = oCustomMetadata row\<rparr>" for verify
    using GetObject_svc_ok [OF assms(7-9) rest(2) row(1,2) rest(1), of verify] row(3) by simp
  then have "dispatchObject x' h g b k ?w = (?w, serveWithRange ?hd (header_get (aHeader g) ''Range'') d (int (length d)))"
    using assms(1,4) standalone_not_forwarded [OF assms(2)]
    by (simp add: dispatchObject_def getObject_def plain_get_def w Let_def)
  moreover have "CanonicalHeaderKey ''ETag'' = ''Etag''" "CanonicalHeaderKey ''Content-Type'' = ''Content-Type''"
    "CanonicalHeaderKey ''Last-Modified'' = ''Last-Modified''" by code_simp+
  then have "header_get ?hd ''ETag'' = dquote ?m" "header_get ?hd ''Content-Type'' =
      (if query_get (query g) ''download'' = ''true'' \<or> ct = '''' then octet_stream else ct)"
    using row(4) by (simp_all add: header_get_set)
  moreover have "\<forall>i. i \<noteq> hLocalNodeID h \<longrightarrow> wNodes ?w i = wNodes w i" by (simp add: set_node_def)
  ultimately show ?thesis using put by blast
qed

definition example_single :: Handler where
  "example_single = (example_handler ''n1'')\<lparr>hMembership := None, hPlacement := None, hProxy := None, hReplication := None\<rparr>"

definition example_upload :: api_req where
  "example_upload = \<lparr>aMethod = ''PUT'', aPath = ''/abc/k'', aEscapedPath = ''/abc/k'', aRawQuery = '''', aHost = ''h1'',
     aHeader = [(''Content-Type'', [''text/plain''])], aBody = Src [(''hel'', None), (''lo'', None)], aCred = None\<rparr>"

definition example_download :: api_req where
  "example_download = \<lparr>aMethod = ''GET'', aPath = ''/abc/k'', aEscapedPath = ''/abc/k'', aRawQuery = '''', aHost = ''h1'',
     aHeader = [(''Range'', [''bytes=1-3''])], aBody = Src [], aCred = None\<rparr>"

theorem http_object_roundtrip_witness:
  "\<exists>w'. dispatchObject example_outside example_single example_upload ''abc'' ''k'' example_world =
       (w', etag_response (hex_encode (md5 ''hello''))) \<and>
     rsBody (snd (dispatchObject example_outside example_single example_download ''abc'' ''k'' w')) = ''ell''"
proof -
  let ?x = example_outside and ?h = example_single and ?w = example_world
  have r: "plain_put ?h example_upload" "plain_get ?h example_download" "replicated ?h = None" "hProxy ?h = None"
    "aBody example_upload = Src [(''hel'', None), (''lo'', None)]" "header_get (aHeader example_download) ''Range'' = ''bytes=1-3''"
    by code_simp+
  have e: "h_svc ?h ?w = example_service" "h_env ?x ?h ''local'' = label_env ''local''" "h_st ?h ?w = example_node"
    by (simp_all add: example_single_def example_handler_def h_svc_def h_st_def h_env_def example_world_def example_outside_def example_net_def)
  have d: "stream_data [(''hel'', None), (''lo'', None)] = ''hello''" by simp
  have s: "rsBody (serveWithRange hd ''bytes=1-3'' ''hello'' (int (length ''hello''))) = ''ell''" for hd
  proof -
    have "parseRange ''bytes=1-3'' 5 = Some (1, 3)" by code_simp
    then show ?thesis by (simp add: serveWithRange_def)
  qed
  show ?thesis
    using http_object_roundtrip [OF r(3,4,1,2,5), of ?w ?x ?x "''abc''" "''k''", unfolded e d r(6)]
      label_env_facts(1,3) example_facts(1-5) s by force
qed


end
