(* ===== verification/HintProps.thy ===== *)
theory HintProps
  imports Workers
begin

text \<open>
  Hinted handoff: every replica an acknowledged write did not reach has a pending hint, and a round of the
  hint worker either brings the target up to the hinted version and drops the hint, or keeps the
  hint and schedules its next attempt.
\<close>

section \<open>The effect of one delivery\<close>

definition at_least :: "node_state \<Rightarrow> string \<times> string \<Rightarrow> int \<Rightarrow> bool" where
  "at_least st bk v \<longleftrightarrow> (\<exists>row. row_of st bk = Some row \<and> v \<le> oVersion row)"

lemma apply_op_at_least: "apply_op s env op st = (st', r) \<Longrightarrow> at_least st bk v \<Longrightarrow> at_least st' bk v"
  using apply_op_row [of s env op st st' r bk] by (force simp: at_least_def)

lemma apply_op_hints:
  assumes "apply_op s env op st = (st', r)"
  shows "db_hints (sDb st') = db_hints (sDb st)"
proof (cases op)
  case (RPut inp)
  with assms have "PutReplica s env inp st = (st', r)" by simp
  then show ?thesis
  proof (cases rule: PutReplica_cases)
    case (written obj)
    from PutObject_rest [OF written(2)] show ?thesis by (simp add: same_rest_def)
  qed auto
next
  case (RDel b k v)
  with assms have "PutTombstoneReplica s env b k v st = (st', r)" by simp
  then show ?thesis
  proof (cases rule: PutTombstoneReplica_cases)
    case written
    from PutTombstone_rest [OF written(2)] show ?thesis by (simp add: same_rest_def)
  qed auto
qed

text \<open>What one call leaves behind on the node it addressed.\<close>

definition call_effect :: "string \<Rightarrow> string \<times> string \<Rightarrow> int \<Rightarrow> world \<Rightarrow> world \<Rightarrow> goerr option \<Rightarrow> bool" where
  "call_effect i bk v w w' e \<longleftrightarrow> (\<exists>st'. w' = set_node i st' w \<and> db_hints (sDb st') = db_hints (sDb (wNodes w i)) \<and>
     (\<forall>bk v. at_least (wNodes w i) bk v \<longrightarrow> at_least st' bk v) \<and> (e = None \<longrightarrow> at_least st' bk v))"

lemma call_effect_none: "call_effect i bk v w w (Some e)"
  by (auto simp: call_effect_def intro: exI [of _ "wNodes w i"])

lemma op_effect_call:
  assumes "op_effect op i w w' e" "op_key op = bk" "op_version op = v" "v \<noteq> 0"
  shows "call_effect i bk v w w' e"
  using assms(1) unfolding op_effect_def
proof (elim disjE conjE exE)
  assume "w' = w" "e \<noteq> None"
  then show ?thesis by (cases e) (simp_all add: call_effect_none)
next
  fix env st' res
  assume a: "apply_op (wSvc w i) env op (wNodes w i) = (st', res)" "w' = set_node i st' w" "e = None \<longrightarrow> res = Inr ()"
  have "at_least st' bk v" if "e = None"
    using apply_op_holds [of "wSvc w i" env op "wNodes w i" st'] a that assms(2-4)
    by (cases op) (auto simp: holds_def at_least_def)
  with a apply_op_hints [OF a(1)] apply_op_at_least [OF a(1)] show ?thesis
    unfolding call_effect_def by blast
qed

text \<open>A hint a coordinator can act on: its target is reachable under its address, its object routable, its version proper.\<close>

definition deliverable :: "net \<Rightarrow> Coordinator \<Rightarrow> ReplicationHint \<Rightarrow> (string \<Rightarrow> string option) \<Rightarrow> bool" where
  "deliverable net c h host \<longleftrightarrow> routed (hBucketName h) (hKey h) \<and> in_i64 (hVersion h) \<and> hVersion h \<noteq> 0 \<and> net_ok net \<and>
     (\<forall>n. nodeByID c (hTargetNode h) = Some n \<longrightarrow> host (nodeBaseURL (nAddress n)) = Some (nID n))"

lemma nodeByID_ID: "nodeByID c i = Some n \<Longrightarrow> nID n = i"
  by (auto simp: nodeByID_def find_Some_iff split: option.splits)

lemma putToNode_call:
  assumes "putToNode net r n inp w = (w', e)" "deliverable net c h (wHost w)" "nodeByID c (hTargetNode h) = Some n"
    "piBucket inp = hBucketName h" "piKey inp = hKey h" "piVersion inp = hVersion h"
  shows "call_effect (hTargetNode h) (hBucketName h, hKey h) (hVersion h) w w' e"
proof -
  have d: "routed (piBucket inp) (piKey inp)" "in_i64 (piVersion inp)" "net_ok net" "hVersion h \<noteq> 0"
    "wHost w (nodeBaseURL (nAddress n)) = Some (hTargetNode h)"
    using assms nodeByID_ID by (auto simp: deliverable_def)
  from putToNode_effect [OF assms(1) d(1,2,5,3)] obtain rin where
    "op_effect (RPut rin) (hTargetNode h) w w' e" "op_key (RPut rin) = (piBucket inp, piKey inp)" "riVersion rin = piVersion inp" by blast
  then show ?thesis using assms(4-6) d(4) by (intro op_effect_call) auto
qed

lemma hint_input_simps [simp]:
  "piBucket (hint_input h sz f) = hBucketName h" "piKey (hint_input h sz f) = hKey h" "piVersion (hint_input h sz f) = hVersion h"
  "piExpectedETag (hint_input h sz f) = hETag h"
  by (simp_all add: hint_input_def)

lemma DeliverHint_call:
  assumes "DeliverHint net c h w = (w', e)" "deliverable net c h (wHost w)"
  shows "call_effect (hTargetNode h) (hBucketName h, hKey h) (hVersion h) w w' e"
proof (cases "nodeByID c (hTargetNode h)")
  case None
  with assms(1) show ?thesis by (auto simp: DeliverHint_def call_effect_none Let_def)
next
  case (Some n)
  note put = putToNode_call [OF _ assms(2) Some]
  show ?thesis
  proof (cases "hKind h = HintKindTombstone")
    case True
    with assms(1) Some have D: "deleteOnNode net (the_replicator c) n (hBucketName h) (hKey h) (hVersion h) w = (w', e)"
      by (simp add: DeliverHint_def Let_def)
    have "routed (hBucketName h) (hKey h)" "in_i64 (hVersion h)" "hVersion h \<noteq> 0" "wHost w (nodeBaseURL (nAddress n)) = Some (hTargetNode h)"
      using assms(2) Some nodeByID_ID by (auto simp: deliverable_def)
    with deleteOnNode_effect [OF D] show ?thesis by (intro op_effect_call) auto
  next
    case False
    with assms(1) Some consider "w' = w" "e \<noteq> None" |
      sz f where "putToNode net (the_replicator c) n (hint_input h sz f) w = (w', e)"
      by (auto simp: DeliverHint_def Let_def split: option.splits if_splits sum.splits)
    then show ?thesis
    proof cases
      case 1
      then show ?thesis by (cases e) (simp_all add: call_effect_none)
    next
      case (2 sz f)
      then show ?thesis by (rule put) simp_all
    qed
  qed
qed

section \<open>One round of the hint worker\<close>

abbreviation hints_of :: "Coordinator \<Rightarrow> world \<Rightarrow> ReplicationHint list" where
  "hints_of c w \<equiv> db_hints (sDb (here c w))"

text \<open>The row a failed attempt leaves, up to the error text.\<close>

definition retried :: "net \<Rightarrow> Coordinator \<Rightarrow> ReplicationHint \<Rightarrow> ReplicationHint \<Rightarrow> bool" where
  "retried net c h h' \<longleftrightarrow> (\<exists>msg. h' = h\<lparr>hAttempts := hAttempts h + 1,
     hNextAttemptAt := nextHintAttempt (db_now (eDb (my_env net c ''record''))) (hAttempts h), hLastError := msg, hStatus := ''pending''\<rparr>)"

definition settled :: "net \<Rightarrow> Coordinator \<Rightarrow> world \<Rightarrow> ReplicationHint \<Rightarrow> bool" where
  "settled net c w h \<longleftrightarrow>
     hID h \<notin> hID ` set (hints_of c w) \<and> at_least (wNodes w (hTargetNode h)) (hBucketName h, hKey h) (hVersion h) \<or>
     (\<exists>h' \<in> set (hints_of c w). retried net c h h')"

lemma retried_ID: "retried net c h h' \<Longrightarrow> hID h' = hID h"
  by (auto simp: retried_def)

lemma CleanupHintPayload_db: "sDb (here c (CleanupHintPayload net c p w)) = sDb (here c w)"
  "wHost (CleanupHintPayload net c p w) = wHost w" "row_of (wNodes (CleanupHintPayload net c p w) i) = row_of (wNodes w i)"
  by (auto simp: CleanupHintPayload_def RemoveStoragePath_def row_of_def here_def set_here_def split: prod.splits)

text \<open>The rows of the hints table after one hint was tried: every other row stays as it was.\<close>

lemma deliver_one_effect:
  assumes "deliverable net c h (wHost w)" "db_quiet (eDb (my_env net c ''record''))"
  defines "w' \<equiv> deliver_one net c h w"
  shows "wHost w' = wHost w \<and> (\<forall>i bk v. at_least (wNodes w i) bk v \<longrightarrow> at_least (wNodes w' i) bk v) \<and>
    (hints_of c w' = filter (\<lambda>x. hID x \<noteq> hID h) (hints_of c w) \<and>
       at_least (wNodes w' (hTargetNode h)) (hBucketName h, hKey h) (hVersion h) \<or>
     (\<exists>msg. hints_of c w' = update_rows (\<lambda>x. hID x = hID h)
        (\<lambda>x. x\<lparr>hAttempts := hAttempts x + 1, hNextAttemptAt := nextHintAttempt (db_now (eDb (my_env net c ''record''))) (hAttempts h),
              hLastError := msg, hStatus := ''pending''\<rparr>) (hints_of c w)))"
proof -
  obtain w1 e where D: "DeliverHint net c h w = (w1, e)" by (metis surj_pair)
  from DeliverHint_call [OF D assms(1)] obtain st' where w1: "w1 = set_node (hTargetNode h) st' w"
    and hs: "db_hints (sDb st') = db_hints (sDb (wNodes w (hTargetNode h)))"
    and mono: "\<And>bk v. at_least (wNodes w (hTargetNode h)) bk v \<Longrightarrow> at_least st' bk v"
    and ok: "e = None \<longrightarrow> at_least st' (hBucketName h, hKey h) (hVersion h)"
    unfolding call_effect_def by blast
  have h1: "hints_of c w1 = hints_of c w" using hs by (simp add: w1 here_def)
  have m1: "at_least (wNodes w1 i) bk v" if "at_least (wNodes w i) bk v" for i bk v using mono [of bk v] that by (auto simp: w1)
  let ?env = "eDb (my_env net c ''record'')"
  have q: "\<not> db_fails ?env l" for l using assms(2) by (simp add: db_quiet_def db_fails_def)
  have al: "row_of (wNodes (set_here c ((here c w1)\<lparr>sDb := (sDb (here c w1))\<lparr>db_hints := hl\<rparr>\<rparr>) w1) i) = row_of (wNodes w1 i)" for hl i
    by (auto simp: row_of_def obj_at_def here_def)
  show ?thesis
  proof (cases e)
    case None
    let ?w2 = "set_here c ((here c w1)\<lparr>sDb := (sDb (here c w1))\<lparr>db_hints := filter (\<lambda>x. hID x \<noteq> hID h) (hints_of c w1)\<rparr>\<rparr>) w1"
    have w': "w' = CleanupHintPayload net c (hSourcePath h) ?w2"
      using D None q by (simp add: w'_def deliver_one_def MarkHintDelivered_def)
    have c: "at_least (wNodes w' i) bk v \<longleftrightarrow> at_least (wNodes w1 i) bk v" for i bk v
      unfolding w' at_least_def CleanupHintPayload_db(3) al ..
    have "hints_of c w' = filter (\<lambda>x. hID x \<noteq> hID h) (hints_of c w)" unfolding w' CleanupHintPayload_db by (simp add: h1)
    moreover have "at_least (wNodes w' (hTargetNode h)) (hBucketName h, hKey h) (hVersion h)" using ok None by (simp add: c w1)
    moreover have "wHost w' = wHost w" unfolding w' CleanupHintPayload_db by (simp add: w1)
    ultimately show ?thesis using c m1 by blast
  next
    case (Some x)
    then have w': "w' = set_here c ((here c w1)\<lparr>sDb := (sDb (here c w1))\<lparr>db_hints := update_rows (\<lambda>x. hID x = hID h)
        (\<lambda>y. y\<lparr>hAttempts := hAttempts y + 1, hNextAttemptAt := nextHintAttempt (db_now ?env) (hAttempts h),
              hLastError := error_text x, hStatus := ''pending''\<rparr>) (hints_of c w1)\<rparr>\<rparr>) w1"
      using D q by (simp add: w'_def deliver_one_def RecordHintFailure_def)
    have "at_least (wNodes w' i) bk v" if "at_least (wNodes w i) bk v" for i bk v
      using m1 [OF that] unfolding w' at_least_def al .
    moreover have "wHost w' = wHost w" unfolding w' by (simp add: w1)
    ultimately show ?thesis unfolding w' h1 by auto
  qed
qed

lemma update_rows_other: "P x = False \<Longrightarrow> x \<in> set rows \<Longrightarrow> x \<in> set (update_rows P f rows)"
  by (force simp: update_rows_def)

lemma update_rows_hit: "P x \<Longrightarrow> x \<in> set rows \<Longrightarrow> f x \<in> set (update_rows P f rows)"
  by (auto simp: update_rows_def image_iff intro: bexI [of _ x])

text \<open>One attempt settles its hint, keeps every other row of the table, and undoes no earlier hint's outcome.\<close>

lemma deliver_one_settles:
  assumes "deliverable net c h (wHost w)" "db_quiet (eDb (my_env net c ''record''))" "h \<in> set (hints_of c w)" "distinct (map hID (hints_of c w))"
  defines "w' \<equiv> deliver_one net c h w"
  shows "settled net c w' h" "distinct (map hID (hints_of c w'))" "wHost w' = wHost w"
    "\<And>x. x \<in> set (hints_of c w) \<Longrightarrow> hID x \<noteq> hID h \<Longrightarrow> x \<in> set (hints_of c w')"
    "\<And>x net'. settled net' c w x \<Longrightarrow> hID x \<noteq> hID h \<Longrightarrow> settled net' c w' x"
proof -
  note E = deliver_one_effect [OF assms(1,2), folded w'_def]
  then show "wHost w' = wHost w" by blast
  show d: "distinct (map hID (hints_of c w'))"
    using E assms(4) by (auto simp: map_update_rows distinct_filter_key)
  show k: "x \<in> set (hints_of c w')" if "x \<in> set (hints_of c w)" "hID x \<noteq> hID h" for x
    using E that by (auto intro: update_rows_other)
  have ids: "hID ` set (hints_of c w') \<subseteq> hID ` set (hints_of c w)"
  proof -
    have "map hID (hints_of c w') = map hID (filter (\<lambda>x. hID x \<noteq> hID h) (hints_of c w)) \<or> map hID (hints_of c w') = map hID (hints_of c w)"
      using E by (auto simp: map_update_rows)
    then have "set (map hID (hints_of c w')) \<subseteq> set (map hID (hints_of c w))" by (auto simp del: set_map) (auto)
    then show ?thesis by simp
  qed
  show "settled net c w' h"
  proof (cases "hID h \<in> hID ` set (hints_of c w')")
    case True
    with E obtain msg where "hints_of c w' = update_rows (\<lambda>x. hID x = hID h)
        (\<lambda>x. x\<lparr>hAttempts := hAttempts x + 1, hNextAttemptAt := nextHintAttempt (db_now (eDb (my_env net c ''record''))) (hAttempts h),
              hLastError := msg, hStatus := ''pending''\<rparr>) (hints_of c w)" by auto
    moreover from this assms(3) have "h\<lparr>hAttempts := hAttempts h + 1, hNextAttemptAt := nextHintAttempt (db_now (eDb (my_env net c ''record''))) (hAttempts h),
              hLastError := msg, hStatus := ''pending''\<rparr> \<in> set (hints_of c w')"
      by (force simp: update_rows_def)
    ultimately show ?thesis unfolding settled_def retried_def by blast
  next
    case False
    have "hID h \<in> set (map hID (hints_of c w))" using assms(3) by simp
    with False have "map hID (hints_of c w') \<noteq> map hID (hints_of c w)" by (metis set_map)
    then have "at_least (wNodes w' (hTargetNode h)) (hBucketName h, hKey h) (hVersion h)"
      using E by (auto simp: map_update_rows)
    with False show ?thesis by (simp add: settled_def)
  qed
  show "settled net' c w' x" if s: "settled net' c w x" and x: "hID x \<noteq> hID h" for x net'
    using s unfolding settled_def
  proof (elim disjE conjE bexE)
    assume "hID x \<notin> hID ` set (hints_of c w)" "at_least (wNodes w (hTargetNode x)) (hBucketName x, hKey x) (hVersion x)"
    then show "hID x \<notin> hID ` set (hints_of c w') \<and> at_least (wNodes w' (hTargetNode x)) (hBucketName x, hKey x) (hVersion x) \<or>
      (\<exists>h' \<in> set (hints_of c w'). retried net' c x h')" using E ids by blast
  next
    fix h'
    assume "h' \<in> set (hints_of c w)" "retried net' c x h'"
    with k [of h'] retried_ID x show "hID x \<notin> hID ` set (hints_of c w') \<and> at_least (wNodes w' (hTargetNode x)) (hBucketName x, hKey x) (hVersion x) \<or>
      (\<exists>h' \<in> set (hints_of c w'). retried net' c x h')" by metis
  qed
qed

lemma deliver_all_settles:
  assumes "\<forall>h \<in> set hs. deliverable (nets (hID h)) c h (wHost w) \<and> db_quiet (eDb (my_env (nets (hID h)) c ''record''))"
    "set hs \<subseteq> set (hints_of c w)" "distinct (map hID hs)" "distinct (map hID (hints_of c w))"
  defines "w' \<equiv> fold (\<lambda>hint w. deliver_one (nets (hID hint)) c hint w) hs w"
  shows "(\<forall>h \<in> set hs. settled (nets (hID h)) c w' h) \<and> (\<forall>h \<in> set (hints_of c w). hID h \<notin> hID ` set hs \<longrightarrow> h \<in> set (hints_of c w')) \<and>
     (\<forall>x net'. settled net' c w x \<longrightarrow> hID x \<notin> hID ` set hs \<longrightarrow> settled net' c w' x)"
  using assms(1-4) unfolding w'_def
proof (induction hs arbitrary: w)
  case (Cons h hs)
  let ?w1 = "deliver_one (nets (hID h)) c h w"
  have p: "deliverable (nets (hID h)) c h (wHost w)" "db_quiet (eDb (my_env (nets (hID h)) c ''record''))" "h \<in> set (hints_of c w)"
    using Cons.prems(1,2) by auto
  note S = deliver_one_settles [OF p Cons.prems(4)]
  have sub: "set hs \<subseteq> set (hints_of c ?w1)"
  proof
    fix x
    assume x: "x \<in> set hs"
    then have "hID x \<noteq> hID h" using Cons.prems(3) by (metis distinct.simps(2) image_eqI list.simps(9) set_map)
    moreover have "x \<in> set (hints_of c w)" using Cons.prems(2) x by auto
    ultimately show "x \<in> set (hints_of c ?w1)" by (rule S(4) [rotated])
  qed
  have rest: "\<forall>h \<in> set hs. deliverable (nets (hID h)) c h (wHost ?w1) \<and> db_quiet (eDb (my_env (nets (hID h)) c ''record''))" "distinct (map hID hs)"
    using Cons.prems(1,3) S(3) by simp_all
  have nh: "hID h \<notin> hID ` set hs" using Cons.prems(3) by simp
  note IH = Cons.IH [OF rest(1) sub rest(2) S(2)]
  show ?case using IH S(1,4,5) nh by (auto simp del: set_map)
qed simp

lemma processDue_settles:
  assumes "ListDueHints (eDb (my_env net c ''due'')) (db_now (eDb (my_env net c ''due''))) hintBatchSize (sDb (here c w)) = Inr hs"
    "hints_ok (sDb (here c w))"
    "\<forall>h \<in> set hs. deliverable (nets (hID h)) c h (wHost w) \<and> db_quiet (eDb (my_env (nets (hID h)) c ''record''))"
  shows "(\<forall>h \<in> set hs. settled (nets (hID h)) c (processDue nets net c w) h) \<and>
    (\<forall>h \<in> set (hints_of c w) - set hs. h \<in> set (hints_of c (processDue nets net c w)))"
proof -
  let ?f = "filter (due (db_now (eDb (my_env net c ''due'')))) (hints_of c w)"
  have hs: "hs = take (nat hintBatchSize) (sort_key (\<lambda>h. formatTime (hNextAttemptAt h)) ?f)"
    using assms(1) by (auto simp: ListDueHints_def hintBatchSize_def split: if_splits)
  have d: "distinct (map hID (hints_of c w))" using assms(2) by (simp add: hints_ok_def)
  have "mset (map hID (sort_key (\<lambda>h. formatTime (hNextAttemptAt h)) ?f)) = mset (map hID ?f)" by simp
  then have "distinct (map hID (sort_key (\<lambda>h. formatTime (hNextAttemptAt h)) ?f))"
    using distinct_filter_key [OF d] by (metis mset_eq_imp_distinct_iff)
  then have dh: "distinct (map hID hs)" unfolding hs take_map [symmetric] by (rule distinct_take)
  have sub: "set hs \<subseteq> set (hints_of c w)" unfolding hs by (auto dest: in_set_takeD)
  have "hID h \<notin> hID ` set hs" if "h \<in> set (hints_of c w) - set hs" for h
    using that sub d by (auto simp: distinct_map inj_on_def)
  with deliver_all_settles [OF assms(3) sub dh d] show ?thesis
    using assms(1) by (auto simp: processDue_def Let_def)
qed

text \<open>
  C5: a round of hint delivery. For every due hint the round picks up, whatever the network does: either the hint
  is gone and its target holds the hinted version or a newer one, or the hint is still pending, with one
  more attempt counted and its next attempt at the backoff time. Every hint that was not due stays as it was.
\<close>

theorem due_hints_settled:
  assumes "ListDueHints (eDb (my_env net c ''due'')) (db_now (eDb (my_env net c ''due''))) hintBatchSize (sDb (here c w)) = Inr hs"
    "hints_ok (sDb (here c w))"
    "\<forall>h \<in> set hs. deliverable (nets (hID h)) c h (wHost w) \<and> db_quiet (eDb (my_env (nets (hID h)) c ''record''))"
  shows "(\<forall>h \<in> set hs. settled (nets (hID h)) c (processDue nets net c w) h) \<and>
    (\<forall>h \<in> set (hints_of c w) - set hs. h \<in> set (hints_of c (processDue nets net c w)))"
  using assms by (rule processDue_settles)

definition due_hint :: ReplicationHint where
  "due_hint = \<lparr>hID = ''i'', hTargetNode = ''b'', hBucketName = ''abc'', hKey = ''k'', hVersion = 3, hETag = ''e'', hKind = HintKindTombstone,
     hContentType = '''', hCustomMetadata = [], hSourceNode = ''a'', hSourcePath = '''', hAttempts = 2, hNextAttemptAt = 0, hStatus = ''pending'',
     hLastError = '''', hCreatedAt = 0\<rparr>"

definition due_world :: world where
  "due_world = example_world\<lparr>wNodes := (\<lambda>_. example_node\<lparr>sDb := (sDb example_node)\<lparr>db_hints := [due_hint]\<rparr>\<rparr>)\<rparr>"

lemma due_world_facts:
  "sDb (here (example_coordinator ''a'') due_world) = (sDb example_node)\<lparr>db_hints := [due_hint]\<rparr>"
  "hints_ok (sDb (here (example_coordinator ''a'') due_world))" "deliverable example_net (example_coordinator ''a'') due_hint (wHost due_world)"
proof -
  let ?c = "example_coordinator ''a''"
  show h: "sDb (here ?c due_world) = (sDb example_node)\<lparr>db_hints := [due_hint]\<rparr>" by (simp add: here_def due_world_def)
  show "hints_ok (sDb (here ?c due_world))" unfolding h by (simp add: hints_ok_def example_node_def empty_db_def)
  show "deliverable example_net ?c due_hint (wHost due_world)"
    using example_addresses(2,3) example_net_ok(1)
    by (auto simp: deliverable_def due_hint_def in_i64_def nodeByID_def example_coordinator_def NewCoordinator_def example_members_def
        ListNodes_def due_world_def example_world_def)
qed

theorem due_hints_settled_witness:
  "settled example_net (example_coordinator ''a'') (processDue (\<lambda>_. example_net) example_net (example_coordinator ''a'') due_world) due_hint"
proof -
  let ?c = "example_coordinator ''a''"
  have "ListDueHints (eDb (my_env example_net ?c ''due'')) (db_now (eDb (my_env example_net ?c ''due''))) hintBatchSize (sDb (here ?c due_world)) = Inr [due_hint]"
    unfolding due_world_facts(1) by (simp add: ListDueHints_def due_def label_env_def db_fails_def hintBatchSize_def due_hint_def)
  then show ?thesis
    using due_hints_settled [of example_net ?c due_world "[due_hint]" "\<lambda>_. example_net"] due_world_facts(2,3) label_env_facts(4) by simp
qed

section \<open>Replicas a write missed\<close>

definition has_hint :: "Coordinator \<Rightarrow> world \<Rightarrow> string \<times> string \<times> string \<times> int \<times> HintKind \<Rightarrow> string \<Rightarrow> bool" where
  "has_hint c w key etag \<longleftrightarrow> (\<exists>h \<in> set (hints_of c w). hkey h = key \<and> hStatus h = ''pending'' \<and> hETag h = etag)"

definition hint_env :: "net \<Rightarrow> Coordinator \<Rightarrow> string \<Rightarrow> string \<Rightarrow> string \<Rightarrow> db_env" where
  "hint_env net c b k t = eDb (my_env net c (''hint:'' @ t @ ''/'' @ b @ ''/'' @ k))"

text \<open>Creating a pending hint in a healthy database, with a fresh ID.\<close>

lemma CreateHint_pending:
  assumes "CreateHint env hint db = (db', r)" "db_quiet env" "newID env \<notin> hID ` set (db_hints db)" "hID hint = ''''" "hStatus hint = ''pending''"
  shows "\<exists>h \<in> set (db_hints db'). hkey h = hkey hint \<and> hStatus h = ''pending'' \<and> hETag h = hETag hint"
    "hID ` set (db_hints db') \<subseteq> insert (newID env) (hID ` set (db_hints db))"
    "\<And>x. x \<in> set (db_hints db) \<Longrightarrow> hStatus x = ''pending'' \<Longrightarrow> hkey x = hkey hint \<longrightarrow> hETag x = hETag hint \<Longrightarrow>
       \<exists>h \<in> set (db_hints db'). hkey h = hkey x \<and> hStatus h = ''pending'' \<and> hETag h = hETag x"
proof -
  define hint' where "hint' = hint\<lparr>hID := newID env, hCreatedAt := (if hCreatedAt hint = zero_time then db_now env else hCreatedAt hint)\<rparr>"
  have f: "hkey hint' = hkey hint" "hETag hint' = hETag hint" "hStatus hint' = ''pending''" "hID hint' = newID env"
    using assms(5) by (simp_all add: hint'_def hkey_def)
  have D: "db_hints db' = (if hkey hint \<in> hkey ` set (db_hints db) then update_rows (\<lambda>h. hkey h = hkey hint) (merge_hint hint') (db_hints db)
      else db_hints db @ [hint'])"
  proof -
    have h: "hint\<lparr>hID := (if hID hint = '''' then newID env else hID hint), hCreatedAt := (if hCreatedAt hint = zero_time then db_now env else hCreatedAt hint),
        hStatus := (if hStatus hint = '''' then ''pending'' else hStatus hint)\<rparr> = hint'"
      using assms(4,5) by (simp add: hint'_def)
    show ?thesis using assms(1-3) unfolding CreateHint_def Let_def h f(1,4) by (auto simp: db_quiet_def db_fails_def split: if_splits)
  qed
  show "\<exists>h \<in> set (db_hints db'). hkey h = hkey hint \<and> hStatus h = ''pending'' \<and> hETag h = hETag hint"
  proof (cases "hkey hint \<in> hkey ` set (db_hints db)")
    case True
    then obtain x where "x \<in> set (db_hints db)" "hkey x = hkey hint" by force
    with True f show ?thesis unfolding D
      by (auto intro!: bexI [of _ "merge_hint hint' x"] update_rows_hit)
  next
    case False
    with f show ?thesis unfolding D by auto
  qed
  have "map hID (update_rows (\<lambda>h. hkey h = hkey hint) (merge_hint hint') (db_hints db)) = map hID (db_hints db)"
    by (rule map_update_rows) simp
  then have "hID ` set (update_rows (\<lambda>h. hkey h = hkey hint) (merge_hint hint') (db_hints db)) = hID ` set (db_hints db)"
    by (metis set_map)
  then show "hID ` set (db_hints db') \<subseteq> insert (newID env) (hID ` set (db_hints db))" unfolding D using f(4) by auto
  show "\<exists>h \<in> set (db_hints db'). hkey h = hkey x \<and> hStatus h = ''pending'' \<and> hETag h = hETag x"
    if "x \<in> set (db_hints db)" "hStatus x = ''pending''" "hkey x = hkey hint \<longrightarrow> hETag x = hETag hint" for x
  proof (cases "hkey x = hkey hint")
    case True
    with that(1) have "hkey hint \<in> hkey ` set (db_hints db)" by (metis image_eqI)
    with True that(1) have "merge_hint hint' x \<in> set (db_hints db')" unfolding D by (auto intro: update_rows_hit)
    with True that f show ?thesis by (intro bexI [of _ "merge_hint hint' x"]) auto
  next
    case False
    with that f have "x \<in> set (db_hints db')" unfolding D by (auto intro: update_rows_other)
    with that show ?thesis by blast
  qed
qed

lemma enqueueHint_creates:
  assumes "cMeta c" "db_quiet (hint_env net c b k t)" "newID (hint_env net c b k t) \<notin> hID ` set (hints_of c w)"
    and E: "enqueueHint net c kind t b k v etag ct md src w = (w', r)"
  shows "has_hint c w' (t, b, k, v, kind) etag" "hID ` set (hints_of c w') \<subseteq> insert (newID (hint_env net c b k t)) (hID ` set (hints_of c w))"
    "has_hint c w (t', b, k, v, kind) etag \<Longrightarrow> has_hint c w' (t', b, k, v, kind) etag"
proof -
  from E obtain st hint where C: "w' = set_here c st w" "CreateHint (hint_env net c b k t) hint (sDb (here c w)) = (sDb st, r)"
    "hkey hint = (t, b, k, v, kind)" "hETag hint = etag" "hStatus hint = ''pending''" "hID hint = ''''"
    unfolding hint_env_def by (cases rule: enqueueHint_cases) (use assms(1) in auto)
  note P = CreateHint_pending [OF C(2) assms(2,3) C(6,5)]
  show "has_hint c w' (t, b, k, v, kind) etag" using P(1) C by (simp add: has_hint_def)
  show "hID ` set (hints_of c w') \<subseteq> insert (newID (hint_env net c b k t)) (hID ` set (hints_of c w))" using P(2) C(1) by simp
  show "has_hint c w' (t', b, k, v, kind) etag" if h: "has_hint c w (t', b, k, v, kind) etag"
  proof -
    from h obtain x where x: "x \<in> set (hints_of c w)" "hkey x = (t', b, k, v, kind)" "hStatus x = ''pending''" "hETag x = etag"
      unfolding has_hint_def by blast
    from P(3) [OF x(1,3)] x(4) C(4) show ?thesis using x(2,4) C(1) unfolding has_hint_def by simp
  qed
qed

text \<open>The environment of the hints of one operation: a healthy database and IDs that are new and distinct.\<close>

definition hint_ids_ok :: "net \<Rightarrow> Coordinator \<Rightarrow> string \<Rightarrow> string \<Rightarrow> string set \<Rightarrow> world \<Rightarrow> bool" where
  "hint_ids_ok net c b k ts w \<longleftrightarrow> cMeta c \<and> (\<forall>t \<in> ts. db_quiet (hint_env net c b k t) \<and> newID (hint_env net c b k t) \<notin> hID ` set (hints_of c w)) \<and>
     inj_on (\<lambda>t. newID (hint_env net c b k t)) ts"

lemma hint_ids_ok_mono:
  "hint_ids_ok net c b k ts w \<Longrightarrow> ts' \<subseteq> ts \<Longrightarrow> hints_of c w2 = hints_of c w \<Longrightarrow> hint_ids_ok net c b k ts' w2"
  by (auto simp: hint_ids_ok_def intro: inj_on_subset)

lemma enqueue_failures_hints:
  assumes "hint_ids_ok net c b k (set (map reNodeID fs)) w" "distinct (map reNodeID fs)"
  shows "\<forall>t \<in> set (map reNodeID fs). has_hint c (enqueue_failures net c kind b k v etag ct md fs w) (t, b, k, v, kind) etag"
proof -
  have "(\<forall>t. t \<in> set (map reNodeID fs) \<or> has_hint c w (t, b, k, v, kind) etag \<longrightarrow>
      has_hint c (enqueue_failures net c kind b k v etag ct md fs w) (t, b, k, v, kind) etag)"
    using assms
  proof (induction fs arbitrary: w)
    case (Cons f fs)
    let ?t = "reNodeID f" and ?w1 = "fst (enqueueHint net c kind (reNodeID f) b k v etag ct md (cLocalNodeID c) w)"
    have q: "cMeta c" "db_quiet (hint_env net c b k ?t)" "newID (hint_env net c b k ?t) \<notin> hID ` set (hints_of c w)"
      using Cons.prems(1) by (auto simp: hint_ids_ok_def)
    note E = enqueueHint_creates [OF q prod.collapse [symmetric], where kind = kind and v = v and etag = etag and ct = ct and md = md and src = "cLocalNodeID c"]
    have ids: "hint_ids_ok net c b k (set (map reNodeID fs)) ?w1"
      unfolding hint_ids_ok_def
    proof (intro conjI ballI)
      fix t
      assume t: "t \<in> set (map reNodeID fs)"
      then have "t \<noteq> ?t" using Cons.prems(2) by (metis distinct.simps(2) list.simps(9))
      then have "newID (hint_env net c b k t) \<noteq> newID (hint_env net c b k ?t)"
        using Cons.prems(1) t by (auto simp: hint_ids_ok_def inj_on_def)
      moreover have "newID (hint_env net c b k t) \<notin> hID ` set (hints_of c w)" using Cons.prems(1) t by (auto simp: hint_ids_ok_def)
      ultimately show "newID (hint_env net c b k t) \<notin> hID ` set (hints_of c ?w1)" using E(2) by blast
      show "db_quiet (hint_env net c b k t)" using Cons.prems(1) t by (auto simp: hint_ids_ok_def)
    qed (use Cons.prems(1) in \<open>auto simp: hint_ids_ok_def inj_on_def\<close>)
    have u: "enqueue_failures net c kind b k v etag ct md (f # fs) w = enqueue_failures net c kind b k v etag ct md fs ?w1"
      by (simp add: enqueue_failures_def)
    have d: "distinct (map reNodeID fs)" using Cons.prems(2) by simp
    show ?case unfolding u using Cons.IH [OF ids d] E(1,3) by auto
  qed (simp add: enqueue_failures_def)
  then show ?thesis by blast
qed

lemma PutObjectWithVersion_hints:
  "PutObjectWithVersion s env inp v status st = (st', r) \<Longrightarrow> db_hints (sDb st') = db_hints (sDb st)"
  by (auto simp: PutObjectWithVersion_def Let_def same_rest_def split: if_splits option.splits sum.splits prod.splits dest!: PutObject_rest)

lemma finish_put_hints:
  assumes "finish_put net c inp v etag (w, remote) = (w', Inr etag')"
    "hint_ids_ok net c (inBucketName inp) (inKey inp) (set (map reNodeID (waFailures remote))) w" "distinct (map reNodeID (waFailures remote))"
    "t \<in> set (map reNodeID (waFailures remote))"
  shows "has_hint c w' (t, inBucketName inp, inKey inp, v, HintKindPut) etag"
proof -
  let ?w = "enqueue_failures net c HintKindPut (inBucketName inp) (inKey inp) v etag (inContentType inp) (inCustomMetadata inp) (waFailures remote) w"
  have "hints_of c w' = hints_of c ?w"
    using assms(1) by (auto simp: finish_put_def SetReplicationStatus_rest Let_def split: if_splits)
  with enqueue_failures_hints [OF assms(2,3)] assms(4) show ?thesis by (auto simp: has_hint_def)
qed

text \<open>
  C4: hinted handoff. When a coordinated write is acknowledged, no replica is forgotten: every node of the object's
  replica set holds the new version, or the primary's metadata has a pending hint for it with that
  version and ETag, whatever the network did to the replica calls.
\<close>

theorem missed_replicas_hinted:
  assumes "PutObject_coord net c inp w = (w', Inr etag)" "Enabled_coord c" "cPlacer c = Some p" "cluster_ok p w"
    "routed (inBucketName inp) (inKey inp)" "net_ok net" "fair_sched net"
    "version_room (here c w) (inBucketName inp, inKey inp)"
    "hint_ids_ok net c (inBucketName inp) (inKey inp) (nID ` set (ListNodes (membership p))) w"
  defines "bk \<equiv> (inBucketName inp, inKey inp)"
  defines "v \<equiv> next_version (here c w) bk"
  shows "\<exists>pl. Locate p (inBucketName inp) (inKey inp) = Inr pl \<and>
     (\<forall>n \<in> set (ReplicaSet pl). live_at (wNodes w' (nID n)) bk v etag \<or>
        has_hint c w' (nID n, inBucketName inp, inKey inp, v, HintKindPut) etag)"
proof -
  have rf: "0 < replicationFactor p" using assms(2,3) by (simp add: Enabled_coord_def ReplicationFactor_def)
  from PutObject_coord_Inr [OF assms(1-8)] obtain pl S F w1 w2 remote where
    pl: "Locate p (inBucketName inp) (inKey inp) = Inr pl" "nID (Primary pl) = cLocalNodeID c"
    and SF: "mset S + mset F = mset (map nID (Replicas pl))" "\<forall>i \<in> set S. live_at (wNodes w' i) bk v etag"
      "live_at (wNodes w' (cLocalNodeID c)) bk v etag" "map reNodeID (waFailures remote) = F"
    and P: "PutObjectWithVersion (my_svc c w) (my_env net c ''local'') inp v ''partial'' (here c w) = (here c w1, Inr etag)" "here c w2 = here c w1"
    and f: "finish_put net c inp v etag (w2, remote) = (w', Inr etag)"
    unfolding bk_def v_def by blast
  note placed = placement_facts [OF pl(1) assms(4) rf]
  have h2: "hints_of c w2 = hints_of c w" using PutObjectWithVersion_hints [OF P(1)] P(2) by simp
  have sF: "set F \<subseteq> nID ` set (Replicas pl)" "distinct F" "set S \<union> set F = nID ` set (Replicas pl)"
  proof -
    have "set S \<union> set F = set_mset (mset S + mset F)" by simp
    also have "\<dots> = nID ` set (Replicas pl)" unfolding SF(1) by simp
    finally show "set S \<union> set F = nID ` set (Replicas pl)" .
    then show "set F \<subseteq> nID ` set (Replicas pl)" by blast
    have "distinct (S @ F)" using placed(1) SF(1) by (metis ReplicaSet_def distinct.simps(2) list.simps(9) mset_append mset_eq_imp_distinct_iff)
    then show "distinct F" by simp
  qed
  have "nID ` set (Replicas pl) \<subseteq> nID ` set (ListNodes (membership p))" using placed(2) by (auto simp: ReplicaSet_def)
  then have ids: "hint_ids_ok net c (inBucketName inp) (inKey inp) (set F) w2"
    by (rule hint_ids_ok_mono [OF assms(9) subset_trans [OF sF(1)] h2])
  have "has_hint c w' (t, inBucketName inp, inKey inp, v, HintKindPut) etag" if "t \<in> set F" for t
    using finish_put_hints [OF f] ids sF(2) that unfolding SF(4) by blast
  then have "live_at (wNodes w' (nID n)) bk v etag \<or> has_hint c w' (nID n, inBucketName inp, inKey inp, v, HintKindPut) etag"
    if "n \<in> set (ReplicaSet pl)" for n
    using that SF(2,3) sF(3) pl(2) by (force simp: ReplicaSet_def)
  with pl(1) show ?thesis by blast
qed

theorem missed_replicas_hinted_witness:
  "\<exists>c w' pl. PutObject_coord example_net c example_input example_world = (w', Inr (hex_encode (md5 ''hello''))) \<and>
     Locate example_placer ''abc'' ''k'' = Inr pl \<and>
     (\<forall>n \<in> set (ReplicaSet pl). live_at (wNodes w' (nID n)) (''abc'', ''k'') 1 (hex_encode (md5 ''hello'')) \<or>
        has_hint c w' (nID n, ''abc'', ''k'', 1, HintKindPut) (hex_encode (md5 ''hello'')))"
proof -
  obtain pl :: PlacementResult and w' where P: "PutObject_coord example_net (example_coordinator (nID (Primary pl))) example_input example_world =
      (w', Inr (hex_encode (md5 ''hello'')))" using example_run by blast
  have m: "cMeta (example_coordinator i)" for i by (simp add: example_coordinator_def NewCoordinator_def)
  have "hint_ids_ok example_net (example_coordinator i) ''abc'' ''k'' (nID ` set (ListNodes (membership example_placer))) example_world" for i
    using m label_env_facts(4,5)
    by (simp add: hint_ids_ok_def hint_env_def example_placer_def NewRendezvousPlacer_def ListNodes_def example_members_def
        example_node_def empty_db_def)
  with missed_replicas_hinted [OF P _ _ example_net_ok(3) _ example_net_ok(1,2)] example_input_facts example_addresses(3) P
  show ?thesis by fastforce
qed

end
