(* ===== verification/System.thy ===== *)
theory System
  imports HandlerProps HintProps Jobs
begin

text \<open>
  The whole cluster as a state machine: requests from clients to any node (with everything they set off on other nodes),
  rounds of the hint and healing workers, the hook for recovered peers and the daily maintenance, in any order and with any
  failures. A locale lifts a relation that every operation of the object service keeps to all of these; its instances say
  that every database of the cluster stays consistent, and that no request ever touches the stored credentials.
\<close>

section \<open>Relations kept by every operation of a node\<close>

definition lift :: "(Service \<Rightarrow> node_state \<Rightarrow> node_state \<Rightarrow> bool) \<Rightarrow> world \<Rightarrow> world \<Rightarrow> bool" where
  "lift keep w w' \<longleftrightarrow> wSvc w' = wSvc w \<and> wHost w' = wHost w \<and> (\<forall>i. keep (wSvc w i) (wNodes w i) (wNodes w' i))"

locale node_relation =
  fixes keep :: "Service \<Rightarrow> node_state \<Rightarrow> node_state \<Rightarrow> bool"
  assumes keep_refl: "keep s st st"
    and keep_trans: "keep s st st' \<Longrightarrow> keep s st' st'' \<Longrightarrow> keep s st st''"
    and keep_create_bucket: "keep s st (fst (CreateBucket_svc env b st))"
    and keep_delete_bucket: "keep s st (fst (DeleteBucket_svc env b st))"
    and keep_put: "keep s st (fst (PutObjectWithVersion s env inp v status st))"
    and keep_put_replica: "keep s st (fst (PutReplica s env rin st))"
    and keep_status: "keep s st (fst (SetReplicationStatus env b k status st))"
    and keep_tombstone: "keep s st (fst (PutTombstone_svc s env b k v st))"
    and keep_tombstone_replica: "keep s st (fst (PutTombstoneReplica s env b k v st))"
    and keep_delete: "keep s st (fst (DeleteObject_svc s env b k st))"
    and keep_initiate: "keep s st (fst (InitiateMultipartUpload env b k ct st))"
    and keep_part: "keep s st (fst (UploadPart s env b k u n body st))"
    and keep_complete: "keep s st (fst (CompleteMultipartUpload s env b k u parts st))"
    and keep_abort: "keep s st (fst (AbortMultipartUpload s env b k u st))"
    and keep_copy: "keep s st (fst (CopyObject s env b k b' k' st))"
    and keep_stage: "keep s st (fst (StageHintPayload s env b k v node st))"
    and keep_remove: "keep s st (fst (RemoveStoragePath s env path st))"
    and keep_hint: "keep s st (st\<lparr>sDb := fst (CreateHint denv hint (sDb st))\<rparr>)"
    and keep_delivered: "keep s st (st\<lparr>sDb := fst (MarkHintDelivered denv hid (sDb st))\<rparr>)"
    and keep_failure: "keep s st (st\<lparr>sDb := fst (RecordHintFailure denv hid t msg (sDb st))\<rparr>)"
    and keep_reset: "keep s st (st\<lparr>sDb := fst (ResetHintsForTarget denv node (sDb st))\<rparr>)"
    and keep_maintenance: "keep s st (runAll s env env' st)"
begin

lemma lift_refl [simp]: "lift keep w w"
  by (simp add: lift_def keep_refl)

lemma lift_trans: "lift keep w w' \<Longrightarrow> lift keep w' w'' \<Longrightarrow> lift keep w w''"
  unfolding lift_def using keep_trans by metis

lemma lift_set: "keep (wSvc w i) (wNodes w i) st \<Longrightarrow> lift keep w (set_node i st w)"
  by (simp add: lift_def set_node_def keep_refl)

lemma lift_here: "keep (my_svc c w) (here c w) st \<Longrightarrow> lift keep w (set_here c st w)"
  by (simp add: my_svc_def here_def set_here_def lift_set)

lemma lift_h_set: "keep (h_svc h w) (h_st h w) (fst sr) \<Longrightarrow> lift keep w (fst (h_set h sr w))"
  by (simp add: h_svc_def h_st_def h_set_def lift_set)

lemma keep_put_svc: "keep s st (fst (PutObject_svc s env inp st))"
  by (simp add: PutObject_svc_def keep_refl keep_put split: sum.split)

lemma keep_put_handler: "keep s st (fst (putReplica s env q b k st))"
proof -
  have "keep s st st'" if "PutReplica s env rin st = (st', r)" for rin st' r using keep_put_replica [of s st env rin] that by simp
  then show ?thesis by (auto simp: putReplica_def keep_refl Let_def split: option.split prod.split sum.split)
qed

lemma keep_delete_handler: "keep s st (fst (deleteReplica s env q b k st))"
proof -
  have "keep s st st'" if "PutTombstoneReplica s env b k v st = (st', r)" for v st' r
    using keep_tombstone_replica [of s st env b k v] that by simp
  then show ?thesis by (auto simp: deleteReplica_def keep_refl split: option.split prod.split sum.split)
qed

lemma keep_serve: "keep s st (fst (serve_replica s token env q st))"
  by (simp add: serve_replica_def keep_refl keep_put_handler keep_delete_handler split: option.split route.split)

section \<open>Coordinators\<close>

definition follow_keeps :: "net \<Rightarrow> bool" where
  "follow_keeps net \<longleftrightarrow> (\<forall>i q w. lift keep w (fst (nFollow net i q w)))"

lemma client_do_keeps:
  assumes "follow_keeps net"
  shows "client_do net op base q w = (w', r) \<Longrightarrow> lift keep w w'"
proof -
  have "nFollow net i q w = (w', r) \<Longrightarrow> lift keep w w'" for i q w' r using assms by (metis follow_keeps_def fst_conv)
  moreover have "serve_replica (wSvc w i) tok env q (wNodes w i) = (st, resp) \<Longrightarrow> lift keep w (set_node i st w)" for i tok env q st resp
    using keep_serve [of "wSvc w i" "wNodes w i" tok env q] by (intro lift_set) simp
  ultimately show "client_do net op base q w = (w', r) \<Longrightarrow> lift keep w w'"
    by (auto simp: client_do_def split: if_splits option.splits prod.splits)
qed

lemma putToNode_keeps: "follow_keeps net \<Longrightarrow> lift keep w (fst (putToNode net r node inp w))"
  by (auto simp: putToNode_def split: option.split sum.split prod.split dest: client_do_keeps)

lemma deleteOnNode_keeps: "follow_keeps net \<Longrightarrow> lift keep w (fst (deleteOnNode net r node b k v w))"
  by (auto simp: deleteOnNode_def split: option.split sum.split prod.split dest: client_do_keeps)

lemma replicate_each_keeps:
  assumes "\<And>n w. lift keep w (fst (send n w))"
  shows "lift keep w (fst (replicate_each send ns (w, result)))"
proof (induction ns arbitrary: w result)
  case (Cons n ns)
  have "send n w = (w', r) \<Longrightarrow> lift keep w w'" for w' r using assms [of w n] by simp
  with Cons show ?case by (auto split: prod.split option.split intro: lift_trans)
qed simp

lemma replicate_keeps:
  assumes "follow_keeps net"
  shows "lift keep w (fst (ReplicatePut net r ns inp w))" "lift keep w (fst (ReplicateDelete net r ns b k v w))"
  using assms by (auto simp: ReplicatePut_def ReplicateDelete_def intro!: replicate_each_keeps putToNode_keeps deleteOnNode_keeps)

lemma enqueueHint_keeps: "lift keep w (fst (enqueueHint net c kind node b k v etag ct custom src w))"
proof -
  have stage: "StageHintPayload (my_svc c w) env b k v node (here c w) = (st, r) \<Longrightarrow> keep (my_svc c w) (here c w) st" for env st r
    using keep_stage [of "my_svc c w" "here c w" env b k v node] by simp
  have hint: "CreateHint denv hint (sDb st) = (db, r) \<Longrightarrow> keep s st (st\<lparr>sDb := db\<rparr>)" for denv hint st db r s
    using keep_hint [of s st denv hint] by simp
  show ?thesis
    by (auto simp: enqueueHint_def Let_def split: prod.splits sum.splits if_splits intro!: lift_here intro: keep_trans [OF stage hint] hint)
qed

lemma fold_keeps: "(\<And>x w. lift keep w (f x w)) \<Longrightarrow> lift keep w (fold f xs w)"
  by (induction xs arbitrary: w) (auto intro: lift_trans)

lemma enqueue_failures_keeps: "lift keep w (enqueue_failures net c kind b k v etag ct custom fs w)"
  by (auto simp: enqueue_failures_def intro: fold_keeps enqueueHint_keeps)

lemma scheduleReadRepair_keeps: "lift keep w (scheduleReadRepair net c b k winning states w)"
  unfolding scheduleReadRepair_def by (rule fold_keeps) (simp add: enqueueHint_keeps)

lemma finish_keeps:
  assumes "lift keep w0 (fst wr)"
  shows "lift keep w0 (fst (finish_put net c inp v etag wr))" "lift keep w0 (fst (finish_delete net c b k v wr))"
  using assms
  by (auto simp: finish_put_def finish_delete_def Let_def split: prod.split
      intro!: lift_trans [OF _ lift_here [OF keep_status]] lift_trans [OF _ enqueue_failures_keeps])

lemma PutObject_coord_keeps:
  assumes "follow_keeps net"
  shows "lift keep w (fst (PutObject_coord net c inp w))"
proof -
  let ?s = "my_svc c w" and ?st = "here c w"
  have put: "PutObjectWithVersion ?s env inp v status ?st = (st, r) \<Longrightarrow> lift keep w (set_here c st w)" for env v status st r
    using keep_put [of ?s ?st env inp v status] by (auto intro: lift_here)
  have svc: "PutObject_svc ?s env inp ?st = (st, r) \<Longrightarrow> lift keep w (set_here c st w)" for env st r
    using keep_put_svc [of ?s ?st env inp] by (auto intro: lift_here)
  show ?thesis
    by (auto simp: PutObject_coord_def Let_def put svc split: sum.split prod.split
        intro!: finish_keeps lift_trans [OF put replicate_keeps(1) [OF assms]])
qed

lemma DeleteObject_coord_keeps:
  assumes "follow_keeps net"
  shows "lift keep w (fst (DeleteObject_coord net c b k w))"
proof -
  let ?s = "my_svc c w" and ?st = "here c w"
  have tomb: "PutTombstone_svc ?s env b k v ?st = (st, r) \<Longrightarrow> lift keep w (set_here c st w)" for env v st r
    using keep_tombstone [of ?s ?st env b k v] by (auto intro: lift_here)
  have svc: "DeleteObject_svc ?s env b k ?st = (st, r) \<Longrightarrow> lift keep w (set_here c st w)" for env st r
    using keep_delete [of ?s ?st env b k] by (auto intro: lift_here)
  show ?thesis
    by (auto simp: DeleteObject_coord_def Let_def tomb svc split: sum.split prod.split goerr.split code.split
        intro!: finish_keeps lift_trans [OF tomb replicate_keeps(2) [OF assms]])
qed

lemma read_keeps:
  "lift keep w (fst (GetObject_coord net c b k verify w))" "lift keep w (fst (HeadObject_coord net c b k w))"
  by (auto simp: GetObject_coord_def HeadObject_coord_def Let_def scheduleReadRepair_keeps split: sum.split prod.split)

lemma DeliverHint_keeps: "follow_keeps net \<Longrightarrow> lift keep w (fst (DeliverHint net c hint w))"
  by (auto simp: DeliverHint_def Let_def putToNode_keeps deleteOnNode_keeps split: sum.split prod.split option.split)

lemma CleanupHintPayload_keeps: "lift keep w (CleanupHintPayload net c path w)"
  by (auto simp: CleanupHintPayload_def intro: lift_here keep_remove)

lemma healObject_keeps: "lift keep w (fst (healObject net c b k w))"
  by (auto simp: healObject_def Let_def scheduleReadRepair_keeps split: sum.split prod.split
      intro!: lift_trans [OF scheduleReadRepair_keeps lift_here [OF keep_status]])

lemma heal_all_keeps: "lift keep w (fst (heal_all net c objs (w, n)))"
proof (induction objs arbitrary: w n)
  case (Cons obj objs)
  have "healObject net c b k w = (w', r) \<Longrightarrow> lift keep w w'" for b k w' r using healObject_keeps [of w net c b k] by simp
  then show ?case by (auto split: prod.split option.split intro!: lift_trans [OF _ Cons.IH])
qed simp

lemma ScanOnce_keeps: "lift keep w (fst (ScanOnce net c w))"
proof -
  have "heal_all net c objs (w, n) = (w', m) \<Longrightarrow> lift keep w w'" for objs n w' m using heal_all_keeps [of w net c objs n] by simp
  then have "HealPartialObjects net c limit w = (w', r) \<Longrightarrow> lift keep w w'" for limit w' r
    by (auto simp: HealPartialObjects_def split: if_splits sum.splits prod.splits)
  then show ?thesis by (auto simp: ScanOnce_def split: prod.split sum.split)
qed

lemma deliver_one_keeps:
  assumes "follow_keeps net"
  shows "lift keep w (deliver_one net c hint w)"
proof -
  have "DeliverHint net c hint w = (w', r) \<Longrightarrow> lift keep w w'" for w' r using DeliverHint_keeps [OF assms, of w c hint] by simp
  then show ?thesis
    by (auto simp: deliver_one_def Let_def split: prod.split option.split
        intro!: lift_trans [OF _ CleanupHintPayload_keeps] lift_trans [OF _ lift_here [OF keep_delivered]]
          lift_trans [OF _ lift_here [OF keep_failure]])
qed

lemma processDue_keeps: "(\<And>i. follow_keeps (nets i)) \<Longrightarrow> lift keep w (ProcessDueHintsOnce nets net c w)"
  by (auto simp: ProcessDueHintsOnce_def processDue_def Let_def split: sum.split intro: fold_keeps deliver_one_keeps)

lemma OnPeerRecovered_keeps:
  assumes "\<And>i. follow_keeps (nets i)"
  shows "lift keep w (OnPeerRecovered nets net c node hints healing w)"
proof -
  have "lift keep w (set_here c ((here c w)\<lparr>sDb := fst (ResetHintsForTarget denv node (sDb (here c w)))\<rparr>) w)" for denv
    by (rule lift_here [OF keep_reset])
  then show ?thesis
    unfolding OnPeerRecovered_def Let_def
    by (auto intro!: lift_trans [OF _ ScanOnce_keeps] lift_trans [OF _ processDue_keeps [OF assms]])
qed

section \<open>Requests\<close>

definition outside_keeps :: "outside \<Rightarrow> bool" where
  "outside_keeps x \<longleftrightarrow> follow_keeps (xNet x) \<and> (\<forall>base q w. lift keep w (fst (xCall x base q w)))"

lemma call_keeps: "outside_keeps x \<Longrightarrow> xCall x base q w = (w', r) \<Longrightarrow> lift keep w w'"
  by (metis outside_keeps_def fst_conv)

lemma Forward_keeps: "outside_keeps x \<Longrightarrow> Forward x token q addr w = (w', r) \<Longrightarrow> lift keep w w'"
  by (auto simp: Forward_def Let_def split: if_splits sum.splits prod.splits option.splits dest: call_keeps)

lemma ForwardDelete_keeps: "outside_keeps x \<Longrightarrow> ForwardDelete x addr b k token w = (w', r) \<Longrightarrow> lift keep w w'"
  by (auto simp: ForwardDelete_def Let_def split: if_splits option.splits sum.splits prod.splits dest: call_keeps)

lemma ensure_on_keeps: "outside_keeps x \<Longrightarrow> lift keep w (fst (ensure_on x ps path escaped ns w))"
proof (induction ns arbitrary: w)
  case (Cons n ns)
  then show ?case by (auto split: prod.split sum.split dest: call_keeps intro!: lift_trans [OF _ Cons.IH])
qed simp

lemma EnsureBucketOnPeers_keeps: "outside_keeps x \<Longrightarrow> lift keep w (fst (EnsureBucketOnPeers x ps b w))"
  by (simp add: EnsureBucketOnPeers_def ensure_on_keeps split: option.split)

lemma maybeForward_keeps: "outside_keeps x \<Longrightarrow> maybeForwardObject x h q b k w = Some (w', resp) \<Longrightarrow> lift keep w w'"
  by (auto simp: maybeForwardObject_def Let_def split: if_splits option.splits sum.splits prod.splits dest: Forward_keeps)

text \<open>A step of the local service inside a handler.\<close>

lemma h_set_keeps: "keep (h_svc h w) (h_st h w) (fst sr) \<Longrightarrow> h_set h sr w = (w', r) \<Longrightarrow> lift keep w w'"
  using lift_h_set [of h w sr] by simp

lemmas local_keeps =
  h_set_keeps [OF keep_create_bucket] h_set_keeps [OF keep_delete_bucket] h_set_keeps [OF keep_put_svc] h_set_keeps [OF keep_put_handler]
  h_set_keeps [OF keep_delete_handler] h_set_keeps [OF keep_delete] h_set_keeps [OF keep_initiate] h_set_keeps [OF keep_part]
  h_set_keeps [OF keep_complete] h_set_keeps [OF keep_abort] h_set_keeps [OF keep_copy]

lemma coord_keeps:
  assumes "outside_keeps x"
  shows "PutObject_coord (xNet x) c inp w = (w', r1) \<Longrightarrow> lift keep w w'" "DeleteObject_coord (xNet x) c b k w = (w', r2) \<Longrightarrow> lift keep w w'"
    "GetObject_coord (xNet x) c b k verify w = (w', r3) \<Longrightarrow> lift keep w w'" "HeadObject_coord (xNet x) c b k w = (w', r4) \<Longrightarrow> lift keep w w'"
  using PutObject_coord_keeps [of "xNet x" w c inp] DeleteObject_coord_keeps [of "xNet x" w c b k]
    read_keeps(1) [of w "xNet x" c b k verify] read_keeps(2) [of w "xNet x" c b k] assms
  by (simp_all add: outside_keeps_def)

lemma createBucket_keeps: "outside_keeps x \<Longrightarrow> lift keep w (fst (createBucket x h b w))"
  by (auto simp: createBucket_def split: prod.split sum.split option.split dest: local_keeps
      intro!: lift_trans [OF _ EnsureBucketOnPeers_keeps])

lemma deleteBucket_keeps: "lift keep w (fst (deleteBucket x h b w))"
  by (auto simp: deleteBucket_def split: prod.split sum.split dest: local_keeps)

lemma deleteObjectKey_keeps: "outside_keeps x \<Longrightarrow> deleteObjectKey x h q b k w = (w', r) \<Longrightarrow> lift keep w w'"
  by (auto simp: deleteObjectKey_def Let_def split: option.splits if_splits sum.splits prod.splits
      dest: local_keeps coord_keeps(2) ForwardDelete_keeps)

lemma delete_each_keeps:
  assumes "\<And>k w w' r. del k w = (w', r) \<Longrightarrow> lift keep w w'"
  shows "lift keep w (fst (delete_each del ks w))"
proof (induction ks arbitrary: w)
  case (Cons k ks)
  have "delete_each del ks w = (w', r) \<Longrightarrow> lift keep w w'" for w w' r using Cons.IH [of w] by simp
  then show ?case by (auto split: prod.split sum.split dest!: assms intro: lift_trans)
qed simp

lemma deleteObjects_keeps: "outside_keeps x \<Longrightarrow> lift keep w (fst (deleteObjects x h q b w))"
proof -
  assume x: "outside_keeps x"
  have "lift keep w (fst (delete_each (deleteObjectKey x h q b) ks w))" for ks
    by (rule delete_each_keeps) (rule deleteObjectKey_keeps [OF x])
  then have "delete_each (deleteObjectKey x h q b) ks w = (w', r) \<Longrightarrow> lift keep w w'" for ks w' r by (metis fst_conv)
  then show ?thesis by (auto simp: deleteObjects_def split: sum.split prod.split option.split)
qed

lemma dispatchBucket_keeps: "outside_keeps x \<Longrightarrow> lift keep w (fst (dispatchBucket x h q b w))"
  by (simp add: dispatchBucket_def createBucket_keeps deleteBucket_keeps postBucket_def deleteObjects_keeps)

lemma putObject_keeps: "outside_keeps x \<Longrightarrow> lift keep w (fst (putObject x h q b k w))"
proof -
  assume x: "outside_keeps x"
  have "lift keep w (fst (case h_set h (UploadPart (h_svc h w) env b k u n body (h_st h w)) w of
      (w, Inl e) \<Rightarrow> (w, writeError e) | (w, Inr etag) \<Rightarrow> (w, etag_response etag)))" for env u n body
    by (auto split: prod.split sum.split dest: h_set_keeps [OF keep_part])
  then have "lift keep w (fst (put_upload_part x h q b k w))" by (simp add: put_upload_part_def Let_def split: option.split)
  moreover have "lift keep w (fst (put_copy x h src b k w))" for src
    by (auto simp: put_copy_def split: option.split prod.split sum.split dest: h_set_keeps [OF keep_copy])
  moreover have "lift keep w (fst (h_set h (putReplica (h_svc h w) env r b k (h_st h w)) w))" for env r
    by (rule lift_h_set [OF keep_put_handler])
  moreover have "lift keep w w'" if "maybeForwardObject x h q b k w = Some (w', r)" for w' r using maybeForward_keeps [OF x that] .
  moreover have "lift keep w (fst (case case replicated h of
        Some c \<Rightarrow> PutObject_coord (xNet x) c inp w | None \<Rightarrow> h_set h (PutObject_svc (h_svc h w) env inp (h_st h w)) w of
      (w, Inl e) \<Rightarrow> (w, writeError e) | (w, Inr etag) \<Rightarrow> (w, etag_response etag)))" for inp env
    by (auto split: option.split prod.split sum.split dest: h_set_keeps [OF keep_put_svc] coord_keeps(1) [OF x])
  ultimately show ?thesis by (simp add: putObject_def Let_def split: option.split)
qed

lemma getObject_keeps: "outside_keeps x \<Longrightarrow> lift keep w (fst (getObject x h q b k w))"
  by (auto simp: getObject_def Let_def split: option.splits sum.splits prod.splits dest: coord_keeps(3) maybeForward_keeps)

lemma headObject_keeps: "outside_keeps x \<Longrightarrow> lift keep w (fst (headObject x h q b k w))"
  by (auto simp: headObject_def Let_def split: option.splits sum.splits prod.splits dest: coord_keeps(4) maybeForward_keeps)

lemma deleteObject_keeps: "outside_keeps x \<Longrightarrow> lift keep w (fst (deleteObject x h q b k w))"
  by (auto simp: deleteObject_def Let_def split: option.splits sum.splits prod.splits
      dest: local_keeps coord_keeps(2) maybeForward_keeps intro: lift_h_set keep_delete_handler)

lemma postObject_keeps: "lift keep w (fst (postObject x h q b k w))"
  by (auto simp: postObject_def Let_def split: option.split sum.split prod.split dest: local_keeps)

lemma ServeHTTP_keeps: "outside_keeps x \<Longrightarrow> lift keep w (fst (ServeHTTP x h q w))"
  by (simp add: ServeHTTP_def dispatchObject_def dispatchBucket_keeps putObject_keeps getObject_keeps headObject_keeps
      deleteObject_keeps postObject_keeps split: route.split)

lemma front_keeps: "outside_keeps x \<Longrightarrow> lift keep w (fst (front x h q w))"
  by (simp add: front_def ServeHTTP_keeps split: sum.split)

lemma call_node_keeps:
  assumes "follow_keeps (xNet x)"
  shows "lift keep w (fst (call_node n hs x base q w))"
proof (induction n arbitrary: base q w)
  case (Suc n)
  have "lift keep w (fst (nFollow (xNet x) i q w))" for i q using assms by (simp add: follow_keeps_def)
  moreover have "outside_keeps (x\<lparr>xCall := call_node n hs x\<rparr>)" using assms Suc by (simp add: outside_keeps_def)
  then have "front (x\<lparr>xCall := call_node n hs x\<rparr>) h q w = (w', r) \<Longrightarrow> lift keep w w'" for h q w' r
    using front_keeps by (metis fst_conv)
  ultimately show ?case by (auto split: option.split prod.split)
qed simp

end

section \<open>The database of a node\<close>

text \<open>A step of the store that leaves the credentials alone.\<close>

definition data_step :: "db \<Rightarrow> db \<Rightarrow> bool" where
  "data_step db db' \<longleftrightarrow> db_step db db' \<and> db_credentials db' = db_credentials db"

lemma data_stepI: "db_step db db' \<Longrightarrow> db_credentials db' = db_credentials db \<Longrightarrow> data_step db db'"
  by (simp add: data_step_def)

lemma bucket_steps:
  "CreateBucket env n db = (db', r) \<Longrightarrow> data_step db db'" "DeleteBucket env n db = (db', r) \<Longrightarrow> data_step db db'"
proof -
  show "CreateBucket env n db = (db', r) \<Longrightarrow> data_step db db'"
    by (rule data_stepI, rule db_step.create_bucket, assumption) (auto simp: CreateBucket_def Let_def split: if_splits)
  show "DeleteBucket env n db = (db', r) \<Longrightarrow> data_step db db'"
    by (rule data_stepI, rule db_step.delete_bucket, assumption) (auto simp: DeleteBucket_def split: if_splits sum.splits)
qed

lemma object_steps:
  "PutObject env obj db = (db', r) \<Longrightarrow> \<not> oDeleted obj \<Longrightarrow> data_step db db'"
  "PutTombstone env b k v db = (db', r) \<Longrightarrow> data_step db db'"
  "UpdateReplicationStatus env b k status db = (db', r) \<Longrightarrow> data_step db db'"
  "DeleteObject env b k db = (db', r) \<Longrightarrow> data_step db db'"
  using db_step.put_object PutObject_rest db_step.put_tombstone PutTombstone_rest db_step.update_status UpdateReplicationStatus_rest
    db_step.delete_object DeleteObject_rest
  unfolding same_rest_def by (metis data_stepI)+

lemma upload_steps:
  "CreateMultipartUpload env b k ct db = (db', r') \<Longrightarrow> data_step db db'"
  "DeleteMultipartUpload env u db = (db', r) \<Longrightarrow> data_step db db'"
  "UpsertMultipartPart env p db = (db', r) \<Longrightarrow> data_step db db'"
  "DeleteAbandonedMultipartUploads env t db = (db', r'') \<Longrightarrow> data_step db db'"
proof -
  show "CreateMultipartUpload env b k ct db = (db', r') \<Longrightarrow> data_step db db'"
    by (rule data_stepI, rule db_step.create_upload, assumption) (auto simp: CreateMultipartUpload_def Let_def split: if_splits sum.splits)
  show "DeleteMultipartUpload env u db = (db', r) \<Longrightarrow> data_step db db'"
    by (rule data_stepI, rule db_step.delete_upload, assumption) (auto simp: DeleteMultipartUpload_def MetaMultipart.delete_upload_def split: if_splits)
  show "UpsertMultipartPart env p db = (db', r) \<Longrightarrow> data_step db db'"
    by (rule data_stepI, rule db_step.upsert_part, assumption) (auto simp: UpsertMultipartPart_def Let_def split: if_splits)
  show "DeleteAbandonedMultipartUploads env t db = (db', r'') \<Longrightarrow> data_step db db'"
    by (rule data_stepI, rule db_step.abandoned, assumption) (auto dest: DeleteAbandoned_fst simp: delete_uploads_other)
qed

lemma CreateHint_credentials: "CreateHint env h db = (db', r) \<Longrightarrow> db_credentials db' = db_credentials db"
  by (erule CreateHint_cases) auto

lemma hint_steps:
  "data_step db (fst (CreateHint env hint db))" "data_step db (fst (MarkHintDelivered env i db))"
  "data_step db (fst (RecordHintFailure env i t e db))" "data_step db (fst (ResetHintsForTarget env node db))"
proof -
  show "data_step db (fst (CreateHint env hint db))"
    by (rule data_stepI [OF db_step.create_hint [OF prod.collapse [symmetric]]])
       (metis CreateHint_credentials prod.collapse)
  show "data_step db (fst (MarkHintDelivered env i db))"
    by (rule data_stepI [OF db_step.delivered [OF prod.collapse [symmetric]]]) (simp add: MarkHintDelivered_def)
  show "data_step db (fst (RecordHintFailure env i t e db))"
    by (rule data_stepI [OF db_step.failure [OF prod.collapse [symmetric]]]) (simp add: RecordHintFailure_def)
  show "data_step db (fst (ResetHintsForTarget env node db))"
    by (rule data_stepI [OF db_step.reset [OF prod.collapse [symmetric]]]) (simp add: ResetHintsForTarget_def)
qed

definition db_runs :: "Service \<Rightarrow> node_state \<Rightarrow> node_state \<Rightarrow> bool" where
  "db_runs s st st' \<longleftrightarrow> data_step\<^sup>*\<^sup>* (sDb st) (sDb st')"

lemma db_runs_same: "sDb st' = sDb st \<Longrightarrow> db_runs s st st'"
  by (simp add: db_runs_def)

lemma db_runs_step: "data_step (sDb st) (sDb st') \<Longrightarrow> db_runs s st st'"
  by (simp add: db_runs_def r_into_rtranclp)

lemma zero_object_live [simp]: "\<not> oDeleted zero_object"
  by (simp add: zero_object_def)

lemmas runs_simps = db_runs_def delete_blob_def Let_def
lemmas runs_intros = r_into_rtranclp bucket_steps object_steps upload_steps

lemma put_runs: "PutObject env obj db = (db', r) \<Longrightarrow> \<not> oDeleted obj \<Longrightarrow> data_step\<^sup>*\<^sup>* db db'"
  using object_steps(1) by blast

lemma db_runs_put: "db_runs s st (fst (PutObjectWithVersion s env inp v status st))"
  by (auto simp: PutObjectWithVersion_def runs_simps split: sum.split prod.split option.split) (erule put_runs, simp)+

lemma db_runs_put_replica: "db_runs s st (fst (PutReplica s env rin st))"
  by (auto simp: PutReplica_def runs_simps split: sum.split prod.split option.split) (erule put_runs, simp)+

lemma db_runs_copy: "db_runs s st (fst (CopyObject s env b k b' k' st))"
  by (auto simp: CopyObject_def runs_simps split: sum.split prod.split option.split) (erule put_runs, simp)+

lemma db_runs_part: "db_runs s st (fst (UploadPart s env b k u n body st))"
  by (auto simp: UploadPart_def runs_simps split: sum.split prod.split option.split intro: runs_intros)

lemma db_runs_complete: "db_runs s st (fst (CompleteMultipartUpload s env b k u parts st))"
proof -
  have "data_step db (fst (DeleteMultipartUpload denv u db))" for denv db
    by (rule upload_steps(2) [OF prod.collapse [symmetric]])
  then have "data_step\<^sup>*\<^sup>* db (fst (DeleteMultipartUpload denv u db'))" if "PutObject denv obj db = (db', r)" "\<not> oDeleted obj" for denv obj db db' r
    using put_runs [OF that] rtranclp.rtrancl_into_rtrancl by metis
  then show ?thesis
    by (auto simp: CompleteMultipartUpload_def runs_simps split: sum.split prod.split option.split) (erule put_runs, simp)+
qed

lemma db_runs_tombstones:
  "db_runs s st (fst (PutTombstone_svc s env b k v st))" "db_runs s st (fst (PutTombstoneReplica s env b k v st))"
  by (auto simp: PutTombstone_svc_def PutTombstoneReplica_def runs_simps split: sum.split prod.split option.split intro: runs_intros)

lemma db_runs_maintenance: "db_runs s st (runAll s env env' st)"
proof -
  have "sDb (fst (RunOrphanBlobs s env st)) = sDb st" by (simp add: RunOrphanBlobs_state split: sum.split)
  then show ?thesis
    by (auto simp: runAll_def RunAbandonedMultipart_def runs_simps split: sum.split prod.split option.split intro: runs_intros)
qed

lemmas svc_runs = db_runs_put db_runs_put_replica db_runs_copy db_runs_part db_runs_complete db_runs_tombstones db_runs_maintenance

interpretation database: node_relation db_runs
proof
  show "db_runs s st st" for s st by (simp add: db_runs_def)
  show "db_runs s st st' \<Longrightarrow> db_runs s st' st'' \<Longrightarrow> db_runs s st st''" for s st st' st'' by (simp add: db_runs_def)
qed (auto simp: svc_runs, auto simp: CreateBucket_svc_def DeleteBucket_svc_def SetReplicationStatus_def DeleteObject_svc_def
      InitiateMultipartUpload_def AbortMultipartUpload_def StageHintPayload_def RemoveStoragePath_def runs_simps hint_steps
      split: sum.split prod.split intro: runs_intros)

section \<open>The cluster as a state machine\<close>

text \<open>
  A request with a path that is not clean is redirected, and what the client sends then is another request to the same
  node, whose own calls may be redirected in turn.
\<close>

inductive redirects :: "(string \<Rightarrow> Handler) \<Rightarrow> net \<Rightarrow> bool" for hs where
  redirects: "(\<And>i q w. fst (nFollow net i q w) = w \<or>
      (\<exists>x n q'. redirects hs (xNet x) \<and> fst (nFollow net i q w) = fst (front (x\<lparr>xCall := call_node n hs x\<rparr>) (hs i) q' w))) \<Longrightarrow>
    redirects hs net"

text \<open>
  One step: a request to a node (its calls to peers up to any depth), a round of a worker of some node, the hook for a
  recovered peer, or the maintenance of a node.
\<close>

inductive sys_step :: "(string \<Rightarrow> Handler) \<Rightarrow> world \<Rightarrow> world \<Rightarrow> bool" for hs where
  request: "redirects hs (xNet x) \<Longrightarrow> front (x\<lparr>xCall := call_node n hs x\<rparr>) (hs i) q w = (w', resp) \<Longrightarrow> sys_step hs w w'"
| hints: "(\<And>j. redirects hs (nets j)) \<Longrightarrow> hReplication (hs i) = Some c \<Longrightarrow> sys_step hs w (ProcessDueHintsOnce nets net c w)"
| healing: "hReplication (hs i) = Some c \<Longrightarrow> sys_step hs w (fst (ScanOnce net c w))"
| recovered: "(\<And>j. redirects hs (nets j)) \<Longrightarrow> hReplication (hs i) = Some c \<Longrightarrow>
    sys_step hs w (OnPeerRecovered nets net c node b b' w)"
| maintenance: "sys_step hs w (set_node i (runAll (wSvc w i) env env' (wNodes w i)) w)"

lemma redirects_keeps: "redirects hs net \<Longrightarrow> database.follow_keeps net"
proof (induction rule: redirects.induct)
  case (redirects net)
  have "lift db_runs w (fst (nFollow net i q w))" for i q w
    using redirects [of i q w]
  proof (elim disjE exE conjE)
    fix x n q' assume "database.follow_keeps (xNet x)"
      and e: "fst (nFollow net i q w) = fst (front (x\<lparr>xCall := call_node n hs x\<rparr>) (hs i) q' w)"
    then have "database.outside_keeps (x\<lparr>xCall := call_node n hs x\<rparr>)"
      using database.call_node_keeps by (simp add: database.outside_keeps_def)
    then show ?thesis unfolding e by (rule database.front_keeps)
  qed simp
  then show ?case by (simp add: database.follow_keeps_def)
qed

lemma sys_step_runs: "sys_step hs w w' \<Longrightarrow> lift db_runs w w'"
proof (induction rule: sys_step.induct)
  case (request x n i q w w' resp)
  then have "database.outside_keeps (x\<lparr>xCall := call_node n hs x\<rparr>)"
    using database.call_node_keeps redirects_keeps by (simp add: database.outside_keeps_def)
  with request(2) show ?case using database.front_keeps by (metis fst_conv)
next
  case (hints nets i c w net)
  then show ?case by (intro database.processDue_keeps redirects_keeps)
next
  case (healing i c w net)
  show ?case by (rule database.ScanOnce_keeps)
next
  case (recovered nets i c w net node b b')
  then show ?case by (intro database.OnPeerRecovered_keeps redirects_keeps)
next
  case (maintenance w i env env')
  show ?case by (rule database.lift_set) (rule db_runs_maintenance)
qed

lemma data_steps_ok: "data_step\<^sup>*\<^sup>* db db' \<Longrightarrow> (db_ok db \<longrightarrow> db_ok db') \<and> db_credentials db' = db_credentials db"
  by (induction rule: rtranclp_induct) (auto simp: data_step_def dest: db_step_ok)

text \<open>
  C14: well-formedness of the cluster. Whatever requests clients and peers send, with whatever paths, headers, signatures and
  bodies, and however they interleave with the workers and the maintenance of the nodes, failures of the network,
  the disks and the databases included: every database of the cluster stays consistent (unique names and keys, no
  dangling references, exact total sizes, empty tombstones), and the stored credentials never change.
\<close>

theorem cluster_wellformed:
  assumes "(sys_step hs)\<^sup>*\<^sup>* w w'" "\<forall>i. db_ok (sDb (wNodes w i))"
  shows "\<forall>i. db_ok (sDb (wNodes w' i)) \<and> db_credentials (sDb (wNodes w' i)) = db_credentials (sDb (wNodes w i))"
proof -
  from assms(1) have "lift db_runs w w'"
    by (induction rule: rtranclp_induct) (auto dest: sys_step_runs intro: database.lift_trans)
  then show ?thesis using assms(2) data_steps_ok by (auto simp: lift_def db_runs_def)
qed

definition example_create :: api_req where
  "example_create = example_list\<lparr>aMethod := ''PUT'', aPath := ''/new-bucket'', aEscapedPath := ''/new-bucket''\<rparr>"

theorem cluster_wellformed_witness:
  "\<exists>w'. (sys_step example_handler)\<^sup>*\<^sup>* example_world w' \<and> bucket_at (sDb (wNodes w' ''n1'')) ''new-bucket'' \<noteq> None \<and>
     db_ok (sDb (wNodes w' ''n1''))"
proof -
  let ?x = "example_outside\<lparr>xCall := call_node 0 example_handler example_outside\<rparr>" and ?h = "example_handler ''n1''"
  let ?f = "front ?x ?h example_create example_world"
  have l: "IsInternalRequest (as_http example_create) ''t''" "mux_clean (aEscapedPath example_create)" "\<not> mux_metrics (aEscapedPath example_create)"
    "aCred example_create = None" "ServeHTTP_route (aMethod example_create) (aPath example_create) = RouteBucket ''new-bucket''"
    "aMethod example_create = ''PUT''" by code_simp+
  have "?f = ServeHTTP ?x ?h example_create example_world"
    using l by (intro front_internal) (simp_all add: example_handler_def)
  also have "\<dots> = createBucket ?x ?h ''new-bucket'' example_world" using l(5,6) by (simp add: ServeHTTP_def dispatchBucket_def)
  finally have f: "?f = createBucket ?x ?h ''new-bucket'' example_world" .
  have b: "bucket_at (sDb (wNodes (fst (createBucket ?x ?h ''new-bucket'' example_world)) ''n1'')) ''new-bucket'' \<noteq> None"
    by code_simp
  have "redirects example_handler (xNet example_outside)"
    by (rule redirects.redirects) (simp add: example_outside_def example_net_def)
  then have s: "sys_step example_handler example_world (fst ?f)"
    by (rule sys_step.request) (rule prod.collapse [symmetric])
  have "db_ok (sDb example_node)" by code_simp
  then have "\<forall>i. db_ok (sDb (wNodes example_world i))" by (simp add: example_world_def)
  with cluster_wellformed [OF r_into_rtranclp [of "sys_step example_handler", OF s]] s b show ?thesis unfolding f by blast
qed

end
