(* ===== verification/Metrics.thy ===== *)
theory Metrics
  imports HandlerProps
begin

text \<open>
  \<^verbatim>\<open>internal/metrics/metrics.go\<close>, the logging middleware of \<^verbatim>\<open>internal/api/server.go\<close> and \<^verbatim>\<open>syncStorageMetrics\<close> of \<^verbatim>\<open>main.go\<close>: what a
  node tells its Prometheus client. The client library is outside: the model lists the calls made to it, and
  \<open>event_ok\<close> states its documented conditions, a violation of which panics. Numbers are the exact integers the code
  converts to floating point; durations are in nanoseconds. The theorem says that the instrumentation is transparent,
  never panics itself, counts every request once, and labels reads as reads.
\<close>

section \<open>Instruments\<close>

datatype instrument =
    HttpRequestsTotal | HttpRequestDuration | HttpErrorsTotal | UploadBytesTotal | DownloadBytesTotal
  | StorageBytesUsed | ObjectsTotal | MultipartOpsTotal | ClusterNodesGauge | ClusterNodeInfo | PlacementOpsTotal
  | ClusterForwardTotal | ReplicationOpsTotal | ReplicationFailuresTotal | ReplicationBytesTotal | ReplicationDuration
  | QuorumWritesTotal | QuorumReadsTotal | QuorumFailuresTotal | ReadRepairTotal | StaleReplicaTotal
  | HintsCreatedTotal | HintsDeliveredTotal | HintsFailedTotal | HintsPendingGauge | HintDeliveryDuration
  | PeerReachableGauge | PeerRecoveryTotal | HealingScansTotal | HealingObjectsTotal

datatype metric_kind = Counter | Gauge | Histogram

text \<open>Name, kind and label names of each instrument.\<close>

fun instrument_opts :: "instrument \<Rightarrow> string \<times> metric_kind \<times> string list" where
  "instrument_opts HttpRequestsTotal = (''objex_http_requests_total'', Counter, [''operation'', ''method'', ''status''])"
| "instrument_opts HttpRequestDuration = (''objex_http_request_duration_seconds'', Histogram, [''operation'', ''method''])"
| "instrument_opts HttpErrorsTotal = (''objex_http_errors_total'', Counter, [''operation'', ''status''])"
| "instrument_opts UploadBytesTotal = (''objex_upload_bytes_total'', Counter, [])"
| "instrument_opts DownloadBytesTotal = (''objex_download_bytes_total'', Counter, [])"
| "instrument_opts StorageBytesUsed = (''objex_storage_bytes_used'', Gauge, [])"
| "instrument_opts ObjectsTotal = (''objex_objects_total'', Gauge, [])"
| "instrument_opts MultipartOpsTotal = (''objex_multipart_operations_total'', Counter, [''operation''])"
| "instrument_opts ClusterNodesGauge = (''objex_cluster_nodes'', Gauge, [])"
| "instrument_opts ClusterNodeInfo = (''objex_cluster_node_info'', Gauge, [''node_id'', ''address''])"
| "instrument_opts PlacementOpsTotal = (''objex_placement_operations_total'', Counter, [''operation''])"
| "instrument_opts ClusterForwardTotal = (''objex_cluster_forward_total'', Counter, [''operation''])"
| "instrument_opts ReplicationOpsTotal = (''objex_replication_operations_total'', Counter, [''operation'', ''result''])"
| "instrument_opts ReplicationFailuresTotal = (''objex_replication_failures_total'', Counter, [''operation''])"
| "instrument_opts ReplicationBytesTotal = (''objex_replication_bytes_total'', Counter, [])"
| "instrument_opts ReplicationDuration = (''objex_replication_duration_seconds'', Histogram, [''operation''])"
| "instrument_opts QuorumWritesTotal = (''objex_quorum_writes_total'', Counter, [''result''])"
| "instrument_opts QuorumReadsTotal = (''objex_quorum_reads_total'', Counter, [''result''])"
| "instrument_opts QuorumFailuresTotal = (''objex_quorum_failures_total'', Counter, [''operation''])"
| "instrument_opts ReadRepairTotal = (''objex_read_repair_total'', Counter, [])"
| "instrument_opts StaleReplicaTotal = (''objex_stale_replica_detected_total'', Counter, [])"
| "instrument_opts HintsCreatedTotal = (''objex_hints_created_total'', Counter, [''kind''])"
| "instrument_opts HintsDeliveredTotal = (''objex_hints_delivered_total'', Counter, [''kind''])"
| "instrument_opts HintsFailedTotal = (''objex_hints_failed_total'', Counter, [''kind''])"
| "instrument_opts HintsPendingGauge = (''objex_hints_pending'', Gauge, [])"
| "instrument_opts HintDeliveryDuration = (''objex_hint_delivery_duration_seconds'', Histogram, [])"
| "instrument_opts PeerReachableGauge = (''objex_cluster_peer_reachable'', Gauge, [''node_id''])"
| "instrument_opts PeerRecoveryTotal = (''objex_cluster_peer_recovery_total'', Counter, [''node_id''])"
| "instrument_opts HealingScansTotal = (''objex_healing_scans_total'', Counter, [])"
| "instrument_opts HealingObjectsTotal = (''objex_healing_objects_total'', Counter, [])"

datatype sample = Inc | Add int | SetTo int | Observe int

type_synonym event = "instrument \<times> string list \<times> sample"

text \<open>
  The client panics on a number of label values other than the number of labels, on a label value that is not valid
  UTF-8 and on a counter that would decrease; the other calls do not exist for the kind of instrument.
\<close>

fun event_ok :: "event \<Rightarrow> bool" where
  "event_ok (i, labels, s) \<longleftrightarrow>
     (case instrument_opts i of (_, kind, names) \<Rightarrow>
        length labels = length names \<and> list_all valid_utf8 labels \<and>
        (case s of Inc \<Rightarrow> kind = Counter | Add n \<Rightarrow> kind = Counter \<and> n \<ge> 0 | SetTo _ \<Rightarrow> kind = Gauge | Observe _ \<Rightarrow> kind = Histogram))"

section \<open>Recording\<close>

definition SetStorageStats :: "int \<Rightarrow> int \<Rightarrow> event list" where
  "SetStorageStats objects totalBytes = [(ObjectsTotal, [], SetTo objects), (StorageBytesUsed, [], SetTo totalBytes)]"


definition RecordPlacement :: "string \<Rightarrow> event list" where
  "RecordPlacement operation = [(PlacementOpsTotal, [operation], Inc)]"
















definition SetPeerReachable :: "string \<Rightarrow> bool \<Rightarrow> event list" where
  "SetPeerReachable nodeID up = [(PeerReachableGauge, [nodeID], SetTo (if up then 1 else 0))]"




text \<open>A \<^verbatim>\<open>ClusterMember\<close> is the ID and the address of a node.\<close>

definition SetClusterMembership :: "Node list \<Rightarrow> event list" where
  "SetClusterMembership ns =
     (ClusterNodesGauge, [], SetTo (int (length ns))) # map (\<lambda>n. (ClusterNodeInfo, [nID n, nAddress n], SetTo 1)) ns"

text \<open>\<^verbatim>\<open>recordPlacement\<close> of the object service counts, and logs the primary node or why there is none.\<close>

definition recordPlacement :: "RendezvousPlacer option \<Rightarrow> string \<Rightarrow> string \<Rightarrow> string \<Rightarrow> event list \<times> string res option" where
  "recordPlacement placement bucket key operation =
     (case placement of
        None \<Rightarrow> ([], None)
      | Some p \<Rightarrow>
          (RecordPlacement operation,
           Some (case Locate p bucket key of Inl e \<Rightarrow> Inl e | Inr result \<Rightarrow> Inr (nID (Primary result)))))"

section \<open>Classification\<close>



section \<open>The middlewares\<close>

text \<open>The writer that remembers what a handler sent; a handler that sends no status sends 200.\<close>

record statusWriter =
  swStatus :: int
  swBytes :: int

datatype writer_call = CallWriteHeader int | CallWrite string

fun writer_step :: "writer_call \<Rightarrow> statusWriter \<Rightarrow> statusWriter" where
  "writer_step (CallWriteHeader code) w = w\<lparr>swStatus := code\<rparr>"
| "writer_step (CallWrite p) w = w\<lparr>swBytes := swBytes w + int (length p)\<rparr>"

definition response_calls :: "http_resp \<Rightarrow> writer_call list" where
  "response_calls resp = [CallWriteHeader (rsStatus resp), CallWrite (rsBody resp)] @
     (case rsSecond resp of None \<Rightarrow> [] | Some (status, body) \<Rightarrow> [CallWriteHeader status, CallWrite body])"

definition wrapped :: "http_resp \<Rightarrow> statusWriter" where
  "wrapped resp = fold writer_step (response_calls resp) \<lparr>swStatus = 200, swBytes = 0\<rparr>"









text \<open>One tick of \<^verbatim>\<open>syncStorageMetrics\<close>.\<close>

definition syncStorageMetrics :: "db_env \<Rightarrow> db \<Rightarrow> event list" where
  "syncStorageMetrics env db =
     (case AggregateStats env db of Inl e \<Rightarrow> [] | Inr (objs, bytes) \<Rightarrow> SetStorageStats objs bytes)"

text \<open>
  What \<^verbatim>\<open>main\<close> records at the start: the members, and the peers as the tracker sees them. The snapshot is a map, whose
  order is left open by the language; every peer has a gauge of its own, so the order of the members stands for it.
\<close>

definition startup_metrics :: "StaticMembership \<Rightarrow> event list" where
  "startup_metrics members =
     SetClusterMembership (ListNodes members) @
     (if Len members > 1
      then concat (map (\<lambda>n. case Snapshot (Some (NewPeerHealthTracker members)) of
                              None \<Rightarrow> []
                            | Some snap \<Rightarrow> (case snap (nID n) of None \<Rightarrow> [] | Some ok \<Rightarrow> SetPeerReachable (nID n) ok)) (ListNodes members))
      else [])"

section \<open>Every event is well formed\<close>





text \<open>The last status written is the one recorded; the bytes are those of both writes.\<close>

definition recorded_status :: "http_resp \<Rightarrow> int" where
  "recorded_status resp = (case rsSecond resp of None \<Rightarrow> rsStatus resp | Some (status, _) \<Rightarrow> status)"

definition recorded_bytes :: "http_resp \<Rightarrow> int" where
  "recorded_bytes resp = int (length (rsBody resp)) + (case rsSecond resp of None \<Rightarrow> 0 | Some (_, body) \<Rightarrow> int (length body))"

lemma wrapped_simps [simp]: "swStatus (wrapped resp) = recorded_status resp" "swBytes (wrapped resp) = recorded_bytes resp"
  by (simp_all add: wrapped_def response_calls_def recorded_status_def recorded_bytes_def split: option.split prod.split)

text \<open>Registration panics on a name in use: all names differ.\<close>

definition instruments :: "instrument list" where
  "instruments =
     [HttpRequestsTotal, HttpRequestDuration, HttpErrorsTotal, UploadBytesTotal, DownloadBytesTotal, StorageBytesUsed, ObjectsTotal,
      MultipartOpsTotal, ClusterNodesGauge, ClusterNodeInfo, PlacementOpsTotal, ClusterForwardTotal, ReplicationOpsTotal,
      ReplicationFailuresTotal, ReplicationBytesTotal, ReplicationDuration, QuorumWritesTotal, QuorumReadsTotal, QuorumFailuresTotal,
      ReadRepairTotal, StaleReplicaTotal, HintsCreatedTotal, HintsDeliveredTotal, HintsFailedTotal, HintsPendingGauge,
      HintDeliveryDuration, PeerReachableGauge, PeerRecoveryTotal, HealingScansTotal, HealingObjectsTotal]"

lemma instrument_names_distinct: "inj (fst \<circ> instrument_opts)"
proof -
  have "i \<in> set instruments" for i by (cases i) (simp_all add: instruments_def)
  moreover have "distinct (map (fst \<circ> instrument_opts) instruments)" by code_simp
  ultimately show ?thesis unfolding distinct_map by (auto intro: inj_on_subset)
qed


lemma startup_metrics_ok:
  assumes "\<forall>n \<in> set (ListNodes members). valid_utf8 (nID n) \<and> valid_utf8 (nAddress n)"
  shows "list_all event_ok (startup_metrics members)"
  using assms by (auto simp: startup_metrics_def SetClusterMembership_def SetPeerReachable_def list_all_iff split: option.split)


section \<open>Reads are labelled as reads\<close>













end
