(* ===== verification/Background.thy ===== *)
theory Background
  imports System PeerHealth Metrics
begin

text \<open>
  What a node does without being asked: the ticker loops of the workers, of the maintenance and of the metrics, and the health
  monitor whose callback starts the recovery of a peer (\<^verbatim>\<open>Run\<close> of \<^verbatim>\<open>hints_worker.go\<close>, \<^verbatim>\<open>healing.go\<close> and \<^verbatim>\<open>peer_health.go\<close>,
  \<^verbatim>\<open>StartPeriodic\<close> of \<^verbatim>\<open>cleanup.go\<close>, and \<^verbatim>\<open>main.go\<close>). A loop is a function of the sequence of its wake-ups; when they stop coming
  it waits. The theorem says that the hints of a recovered peer are tried without waiting for their backoff, up to one batch.
\<close>

section \<open>Ticker loops\<close>

datatype 'e wakeup = Tick 'e | Done_ctx

fun ticker_loop :: "('e \<Rightarrow> 's \<Rightarrow> 's) \<Rightarrow> 'e wakeup list \<Rightarrow> 's \<Rightarrow> 's" where
  "ticker_loop body [] s = s"
| "ticker_loop body (Tick e # ws) s = ticker_loop body ws (body e s)"
| "ticker_loop body (Done_ctx # ws) s = s"

text \<open>The hint worker: a round at each tick, with the networks of its calls.\<close>

definition HintWorker_Run :: "Coordinator option \<Rightarrow> ((string \<Rightarrow> net) \<times> net) wakeup list \<Rightarrow> world \<Rightarrow> world" where
  "HintWorker_Run co ws w =
     (case co of
        None \<Rightarrow> w
      | Some c \<Rightarrow> if \<not> cMeta c then w else ticker_loop (\<lambda>nets. processDue (fst nets) (snd nets) c) ws w)"

definition HealingWorker_Run :: "Coordinator option \<Rightarrow> net wakeup list \<Rightarrow> world \<Rightarrow> world" where
  "HealingWorker_Run co ws w =
     (case co of
        None \<Rightarrow> w
      | Some c \<Rightarrow> if \<not> Enabled_coord c then w else ticker_loop (\<lambda>net w. fst (ScanOnce net c w)) ws w)"

definition periodic_interval :: "int \<Rightarrow> int" where
  "periodic_interval i = (if i \<le> 0 then 24 * 3600 * second else i)"

definition StartPeriodic :: "Service \<Rightarrow> (env \<times> env) wakeup list \<Rightarrow> node_state \<Rightarrow> node_state" where
  "StartPeriodic s ws st = ticker_loop (\<lambda>(orphans, abandoned). runAll s orphans abandoned) ws st"

definition syncStorageMetrics_loop :: "(db_env \<times> db) wakeup list \<Rightarrow> event list \<Rightarrow> event list" where
  "syncStorageMetrics_loop ws es = ticker_loop (\<lambda>(env, db) es. es @ syncStorageMetrics env db) ws es"

section \<open>The health monitor\<close>

text \<open>
  One round: every peer is probed, and the callback \<^verbatim>\<open>main\<close> installs runs for each peer that has recovered, with the networks of
  its own calls. The callback has both workers.
\<close>

definition on_recovered :: "(string \<Rightarrow> (string \<Rightarrow> net) \<times> net) \<Rightarrow> Coordinator \<Rightarrow> string \<Rightarrow> world \<Rightarrow> world" where
  "on_recovered calls c node w = OnPeerRecovered (fst (calls node)) (snd (calls node)) c node True True w"

definition monitor_round ::
  "PeerHealthMonitor \<Rightarrow> Coordinator \<Rightarrow> (string \<Rightarrow> probe) \<times> (string \<Rightarrow> (string \<Rightarrow> net) \<times> net) \<Rightarrow>
   PeerHealthTracker \<times> world \<Rightarrow> PeerHealthTracker \<times> world" where
  "monitor_round m c input st =
     (case probeOnce m (fst input) (fst st) of (t, recovered) \<Rightarrow> (t, fold (on_recovered (snd input) c) recovered (snd st)))"

text \<open>The first round comes before the first tick.\<close>

definition PeerHealthMonitor_Run ::
  "PeerHealthMonitor \<Rightarrow> Coordinator \<Rightarrow> (string \<Rightarrow> probe) \<times> (string \<Rightarrow> (string \<Rightarrow> net) \<times> net) \<Rightarrow>
   ((string \<Rightarrow> probe) \<times> (string \<Rightarrow> (string \<Rightarrow> net) \<times> net)) wakeup list \<Rightarrow> PeerHealthTracker \<times> world \<Rightarrow> PeerHealthTracker \<times> world" where
  "PeerHealthMonitor_Run m c first ws st =
     (if Len (mMembership m) \<le> 1 then st else ticker_loop (monitor_round m c) ws (monitor_round m c first st))"

section \<open>Loops are sequences of steps of the cluster\<close>

lemma ticker_loop_steps:
  assumes "\<And>e s. Tick e \<in> set ws \<Longrightarrow> step\<^sup>*\<^sup>* s (body e s)"
  shows "step\<^sup>*\<^sup>* s (ticker_loop body ws s)"
  using assms
proof (induction body ws s rule: ticker_loop.induct)
  case (2 body e ws s)
  then have "step\<^sup>*\<^sup>* s (body e s)" "step\<^sup>*\<^sup>* (body e s) (ticker_loop body ws (body e s))" by auto
  then show ?case by simp
qed simp_all

lemma ticker_loop_stops: "ticker_loop body (ws @ Done_ctx # vs) s = ticker_loop body ws s"
  by (induction body ws s rule: ticker_loop.induct) simp_all

lemma HintWorker_Run_steps:
  assumes "hReplication (hs i) = co" "\<And>nets net j. Tick (nets, net) \<in> set ws \<Longrightarrow> redirects hs (nets j)"
  shows "(sys_step hs)\<^sup>*\<^sup>* w (HintWorker_Run co ws w)"
proof (cases co)
  case (Some c)
  have "(sys_step hs)\<^sup>*\<^sup>* w (processDue (fst e) (snd e) c w)" if "Tick e \<in> set ws" for e w
    using sys_step.hints [of hs "fst e" i c w "snd e"] assms that Some
    by (cases e) (auto simp: ProcessDueHintsOnce_def intro: r_into_rtranclp)
  then have "(sys_step hs)\<^sup>*\<^sup>* w (ticker_loop (\<lambda>nets. processDue (fst nets) (snd nets) c) ws w)" by (rule ticker_loop_steps)
  then show ?thesis by (simp add: HintWorker_Run_def Some)
qed (simp add: HintWorker_Run_def)

lemma HealingWorker_Run_steps:
  assumes "hReplication (hs i) = co"
  shows "(sys_step hs)\<^sup>*\<^sup>* w (HealingWorker_Run co ws w)"
proof (cases co)
  case (Some c)
  have "(sys_step hs)\<^sup>*\<^sup>* w (fst (ScanOnce net c w))" for net w using sys_step.healing [of hs i c w net] assms Some by auto
  then have "(sys_step hs)\<^sup>*\<^sup>* w (ticker_loop (\<lambda>net w. fst (ScanOnce net c w)) ws w)" by (rule ticker_loop_steps)
  then show ?thesis by (simp add: HealingWorker_Run_def Some)
qed (simp add: HealingWorker_Run_def)

lemma monitor_round_steps:
  assumes "hReplication (hs i) = Some c" "\<And>node j. redirects hs (fst (snd input node) j)"
  shows "(sys_step hs)\<^sup>*\<^sup>* (snd st) (snd (monitor_round m c input st))"
proof -
  have "(sys_step hs)\<^sup>*\<^sup>* w (fold (on_recovered (snd input) c) nodes w)" for nodes w
  proof (induction nodes arbitrary: w)
    case (Cons n nodes)
    have "sys_step hs w (on_recovered (snd input) c n w)"
      unfolding on_recovered_def using assms by (intro sys_step.recovered)
    with Cons show ?case by (metis converse_rtranclp_into_rtranclp fold_simps(2))
  qed simp
  then show ?thesis by (simp add: monitor_round_def split: prod.split)
qed

section \<open>What healing keeps\<close>

definition attempted :: "Coordinator \<Rightarrow> world \<Rightarrow> string \<times> string \<times> string \<times> int \<times> HintKind \<Rightarrow> int \<Rightarrow> bool" where
  "attempted c w key n \<longleftrightarrow> (\<exists>h \<in> set (hints_of c w). hkey h = key \<and> hStatus h = ''pending'' \<and> hAttempts h = n)"

text \<open>Versions do not fall, and a pending hint keeps its place and its number of attempts.\<close>

definition kept :: "Coordinator \<Rightarrow> world \<Rightarrow> world \<Rightarrow> bool" where
  "kept c w w' \<longleftrightarrow> (\<forall>i bk v. at_least (wNodes w i) bk v \<longrightarrow> at_least (wNodes w' i) bk v) \<and>
     (\<forall>key n. attempted c w key n \<longrightarrow> attempted c w' key n)"

lemma kept_refl [simp]: "kept c w w"
  by (simp add: kept_def)

lemma kept_trans: "kept c w w' \<Longrightarrow> kept c w' w'' \<Longrightarrow> kept c w w''"
  by (simp add: kept_def)

lemma kept_fold: "(\<And>x w. kept c w (f x w)) \<Longrightarrow> kept c w (fold f xs w)"
  by (induction xs arbitrary: w) (auto intro: kept_trans)

lemma CreateHint_attempts:
  assumes "CreateHint env hint db = (db', r)" "h \<in> set (db_hints db)" "hStatus h = ''pending''"
  shows "\<exists>h' \<in> set (db_hints db'). hkey h' = hkey h \<and> hStatus h' = ''pending'' \<and> hAttempts h' = hAttempts h"
  using assms(1)
proof (cases rule: CreateHint_cases)
  case (merge hint')
  show ?thesis
  proof (cases "hkey h = hkey hint")
    case True
    with assms(2) merge(7) have "merge_hint hint' h \<in> set (db_hints db')" by (auto intro: update_rows_hit)
    then show ?thesis by (rule bexI [rotated]) (simp add: merge_hint_def hkey_def)
  next
    case False
    with assms(2,3) merge show ?thesis by (intro bexI [of _ h]) (auto intro: update_rows_other)
  qed
qed (use assms in auto)

lemma kept_enqueue: "kept c w (fst (enqueueHint net c kind t b k v etag ct md src w))"
proof -
  obtain w' r where E: "enqueueHint net c kind t b k v etag ct md src w = (w', r)" by fastforce
  then have "kept c w w'"
  proof (cases rule: enqueueHint_cases)
    case (created st hint)
    have r: "row_of st = row_of (here c w)" by (rule row_of_objects [OF created(2)])
    have "at_least (wNodes w' i) bk v" if "at_least (wNodes w i) bk v" for i bk v
      using that r created(1) by (auto simp: at_least_def here_def set_here_def set_node_def)
    moreover have "attempted c w' key n" if "attempted c w key n" for key n
      using that CreateHint_attempts [OF created(3)] created(1) by (fastforce simp: attempted_def)
    ultimately show ?thesis by (simp add: kept_def)
  qed simp
  then show ?thesis by (simp add: E)
qed

lemma kept_status: "kept c w (set_here c (fst (SetReplicationStatus env b k status (here c w))) w)"
proof -
  let ?st = "fst (SetReplicationStatus env b k status (here c w))"
  have "okey (r\<lparr>oReplicationStatus := status, oUpdatedAt := db_now (eDb env)\<rparr>) = okey r" for r by (simp add: okey_def)
  note u = row_at_update [of okey "\<lambda>r. r\<lparr>oReplicationStatus := status, oUpdatedAt := db_now (eDb env)\<rparr>", OF this]
  have "at_least ?st bk v" if "at_least (here c w) bk v" for bk v
    using that
    by (auto simp: SetReplicationStatus_def UpdateReplicationStatus_def at_least_def row_of_def obj_at_def u split: prod.split)
  moreover have "db_hints (sDb ?st) = hints_of c w"
    by (simp add: SetReplicationStatus_def UpdateReplicationStatus_def split: prod.split)
  ultimately show ?thesis by (auto simp: kept_def attempted_def here_def set_here_def set_node_def)
qed

lemma kept_heal: "kept c w (fst (healObject net c b k w))"
proof -
  have "kept c w (scheduleReadRepair net c b k winning states w)" for winning states w
    unfolding scheduleReadRepair_def by (rule kept_fold) (simp add: kept_enqueue)
  then show ?thesis
    unfolding healObject_def Let_def by (auto split: sum.split intro: kept_trans [OF _ kept_status])
qed

lemma kept_heal_all: "kept c w (fst (heal_all net c objs (w, n)))"
proof (induction objs arbitrary: w n)
  case (Cons obj objs)
  obtain w' e where H: "healObject net c (oBucketName obj) (oKey obj) w = (w', e)" by fastforce
  then have "kept c w w'" using kept_heal [of c w net "oBucketName obj" "oKey obj"] by simp
  with Cons H show ?case by (cases e) (auto intro: kept_trans)
qed simp

lemma kept_scan: "kept c w (fst (ScanOnce net c w))"
  using kept_heal_all [of c w net] unfolding ScanOnce_def HealPartialObjects_def
  by (auto split: sum.split prod.split) (metis fst_conv)+

section \<open>Recovery\<close>

lemma settled_attempted:
  assumes "settled net c w h" "hAttempts h = 0"
  shows "at_least (wNodes w (hTargetNode h)) (hBucketName h, hKey h) (hVersion h) \<or> attempted c w (hkey h) 1"
  using assms unfolding settled_def attempted_def retried_def by (fastforce simp: hkey_def)

text \<open>The hints after the reset: those for the node are due now, with no attempt counted.\<close>

definition reset_hint :: "time \<Rightarrow> string \<Rightarrow> ReplicationHint \<Rightarrow> ReplicationHint" where
  "reset_hint now node h = (if hTargetNode h = node \<and> hStatus h = ''pending''
     then h\<lparr>hNextAttemptAt := now, hAttempts := 0, hLastError := '''', hStatus := ''pending''\<rparr> else h)"

lemma reset_hint_simps [simp]: "hID (reset_hint now node h) = hID h" "deliverable net c (reset_hint now node h) = deliverable net c h"
  by (auto simp: reset_hint_def deliverable_def)

lemma ResetHints_quiet:
  assumes "db_quiet env"
  shows "db_hints (fst (ResetHintsForTarget env node db)) = map (reset_hint (db_now env) node) (db_hints db)"
  using assms unfolding ResetHintsForTarget_def update_rows_def reset_hint_def db_quiet_def db_fails_def by simp

lemma ListDueHints_batch:
  assumes "db_quiet env"
  shows "\<exists>hs. ListDueHints env now hintBatchSize db = Inr hs \<and> set hs \<subseteq> {h \<in> set (db_hints db). due now h} \<and>
    (int (length (filter (due now) (db_hints db))) \<le> hintBatchSize \<longrightarrow> set hs = {h \<in> set (db_hints db). due now h})"
proof -
  let ?s = "sort_key (\<lambda>h. formatTime (hNextAttemptAt h)) (filter (due now) (db_hints db))"
  have s: "set ?s = {h \<in> set (db_hints db). due now h}" by auto
  have "take (nat hintBatchSize) ?s = ?s" if "int (length (filter (due now) (db_hints db))) \<le> hintBatchSize"
    using that by simp
  moreover have "set (take (nat hintBatchSize) ?s) \<subseteq> set ?s" by (rule set_take_subset)
  ultimately show ?thesis using assms s by (auto simp: ListDueHints_def hintBatchSize_def db_quiet_def db_fails_def)
qed

text \<open>The hints that are due when the round after the reset reads the table.\<close>

definition due_after_reset :: "time \<Rightarrow> time \<Rightarrow> string \<Rightarrow> ReplicationHint list \<Rightarrow> ReplicationHint list" where
  "due_after_reset reset now node hs = filter (due now) (map (reset_hint reset node) hs)"

text \<open>
  C7: a peer that comes back is caught up without waiting for its backoff. When the monitor finds that a peer has recovered, the callback
  resets every hint pending for the peer and runs one round of delivery, of at most fifty hints, and one of healing. After the
  callback, for every hint that was pending for the peer, however long its backoff still was and whatever the network does: the peer
  holds the hinted version or a newer one; or the hint is still pending and has been tried exactly once since the reset; or it
  is still pending with its backoff reset and has not been tried. The last happens only if more than fifty hints of the
  table were due, or if the clock of the round reads as a text smaller than the one of the reset (the table compares times as texts).
  No hint is lost. Assumed are that the node's own database does not fail, and that the hints are ones a coordinator can act on: their targets are
  found under their addresses, their keys are ones that replica requests reach, and their versions are not 0.
\<close>

theorem recovery_retries_hints:
  assumes "cMeta c" "hints_ok (sDb (here c w))" "db_quiet (eDb (my_env net c ''reset''))" "db_quiet (eDb (my_env net c ''due''))"
    "\<forall>h \<in> set (hints_of c w). deliverable (nets (hID h)) c h (wHost w) \<and> db_quiet (eDb (my_env (nets (hID h)) c ''record''))"
    "h \<in> set (hints_of c w)" "hTargetNode h = node" "hStatus h = ''pending''" "calls node = (nets, net)"
  defines "reset \<equiv> db_now (eDb (my_env net c ''reset''))" and "now \<equiv> db_now (eDb (my_env net c ''due''))"
  shows "at_least (wNodes (on_recovered calls c node w) node) (hBucketName h, hKey h) (hVersion h) \<or>
    attempted c (on_recovered calls c node w) (hkey h) 1 \<or>
    attempted c (on_recovered calls c node w) (hkey h) 0 \<and>
      (hintBatchSize < int (length (due_after_reset reset now node (hints_of c w))) \<or> formatTime now < formatTime reset)"
proof -
  let ?e = "eDb (my_env net c ''reset'')" and ?d = "eDb (my_env net c ''due'')"
  let ?db = "fst (ResetHintsForTarget ?e node (sDb (here c w)))"
  let ?w1 = "set_here c ((here c w)\<lparr>sDb := ?db\<rparr>) w" and ?h1 = "reset_hint reset node h"
  let ?late = "hintBatchSize < int (length (due_after_reset reset now node (hints_of c w))) \<or> formatTime now < formatTime reset"
  have hs1: "hints_of c ?w1 = map (reset_hint reset node) (hints_of c w)" using ResetHints_quiet [OF assms(3)] by (simp add: reset_def)
  have n: "length (filter (due now) (hints_of c ?w1)) = length (due_after_reset reset now node (hints_of c w))"
    unfolding hs1 by (simp add: due_after_reset_def)
  obtain hs where hs: "ListDueHints ?d now hintBatchSize (sDb (here c ?w1)) = Inr hs"
    "set hs \<subseteq> {h \<in> set (hints_of c ?w1). due now h}"
    "int (length (due_after_reset reset now node (hints_of c w))) \<le> hintBatchSize \<Longrightarrow> set hs = {h \<in> set (hints_of c ?w1). due now h}"
    using ListDueHints_batch [OF assms(4), of now "sDb (here c ?w1)"] n by auto
  have h1: "?h1 \<in> set (hints_of c ?w1)" "hAttempts ?h1 = 0" "hkey ?h1 = hkey h" "hTargetNode ?h1 = node" "hBucketName ?h1 = hBucketName h"
    "hKey ?h1 = hKey h" "hVersion ?h1 = hVersion h" "hStatus ?h1 = ''pending''" "formatTime reset \<le> formatTime now \<Longrightarrow> due now ?h1"
    using assms(6-8) unfolding hs1 by (auto simp: reset_hint_def due_def hkey_def)
  have "hints_ok (sDb (here c ?w1))"
    using ResetHintsForTarget_ok [OF assms(2) prod.collapse [symmetric]] by simp
  moreover have "\<forall>x \<in> set hs. deliverable (nets (hID x)) c x (wHost ?w1) \<and> db_quiet (eDb (my_env (nets (hID x)) c ''record''))"
    using assms(5) hs(2) unfolding hs1 by auto
  ultimately have P: "\<forall>x \<in> set hs. settled (nets (hID x)) c (processDue nets net c ?w1) x"
    "\<forall>x \<in> set (hints_of c ?w1) - set hs. x \<in> set (hints_of c (processDue nets net c ?w1))"
    using processDue_settles [OF hs(1) [unfolded now_def]] by blast+
  have "at_least (wNodes (processDue nets net c ?w1) node) (hBucketName h, hKey h) (hVersion h) \<or>
      attempted c (processDue nets net c ?w1) (hkey h) 1 \<or> attempted c (processDue nets net c ?w1) (hkey h) 0 \<and> ?late"
  proof (cases "?h1 \<in> set hs")
    case True
    with P(1) have "settled (nets (hID ?h1)) c (processDue nets net c ?w1) ?h1" by blast
    from settled_attempted [OF this h1(2)] show ?thesis unfolding h1(3-7) by blast
  next
    case False
    with P(2) h1(1) have "?h1 \<in> set (hints_of c (processDue nets net c ?w1))" by blast
    then have "attempted c (processDue nets net c ?w1) (hkey h) 0" using h1(2,3,8) unfolding attempted_def by blast
    moreover have ?late
    proof (rule ccontr)
      assume "\<not> ?late"
      then have "?h1 \<in> set hs" using hs(3) h1(1,9) by (simp add: not_less)
      with False show False by blast
    qed
    ultimately show ?thesis by blast
  qed
  with kept_scan [of c "processDue nets net c ?w1" net]
  have "at_least (wNodes (fst (ScanOnce net c (processDue nets net c ?w1))) node) (hBucketName h, hKey h) (hVersion h) \<or>
      attempted c (fst (ScanOnce net c (processDue nets net c ?w1))) (hkey h) 1 \<or>
      attempted c (fst (ScanOnce net c (processDue nets net c ?w1))) (hkey h) 0 \<and> ?late"
    unfolding kept_def by blast
  then show ?thesis using assms(1,9) by (simp add: on_recovered_def OnPeerRecovered_def ProcessDueHintsOnce_def Let_def)
qed

theorem recovery_retries_hints_witness:
  "at_least (wNodes (on_recovered (\<lambda>_. (\<lambda>_. example_net, example_net)) (example_coordinator ''a'') ''b'' due_world) ''b'') (''abc'', ''k'') 3 \<or>
   attempted (example_coordinator ''a'') (on_recovered (\<lambda>_. (\<lambda>_. example_net, example_net)) (example_coordinator ''a'') ''b'' due_world)
     (hkey due_hint) 1"
proof -
  let ?c = "example_coordinator ''a''"
  have h: "due_hint \<in> set (hints_of ?c due_world)"
    "length (due_after_reset (db_now (eDb (my_env example_net ?c ''reset''))) (db_now (eDb (my_env example_net ?c ''due''))) ''b'' (hints_of ?c due_world)) \<le> 1"
    "\<forall>h \<in> set (hints_of ?c due_world). deliverable example_net ?c h (wHost due_world) \<and> db_quiet (eDb (my_env example_net ?c ''record''))"
    using due_world_facts(3) label_env_facts(4) unfolding due_world_facts(1) by (simp_all add: due_after_reset_def)
  have d: "hTargetNode due_hint = ''b''" "hStatus due_hint = ''pending''" "hBucketName due_hint = ''abc''" "hKey due_hint = ''k''" "hVersion due_hint = 3"
    by (simp_all add: due_hint_def)
  have q: "cMeta ?c" "db_quiet (eDb (my_env example_net ?c l))"
    "db_now (eDb (my_env example_net ?c ''reset'')) = db_now (eDb (my_env example_net ?c ''due''))" for l
    using label_env_facts(4) by (simp_all add: example_coordinator_def NewCoordinator_def label_env_def)
  show ?thesis
    using recovery_retries_hints [OF q(1) due_world_facts(2) q(2) q(2) h(3,1) d(1,2), of "\<lambda>_. (\<lambda>_. example_net, example_net)"] q(3) d(3-5) h(2)
    by (auto simp: hintBatchSize_def)
qed

end
