(* ===== verification/Spec2Isabelle.thy ===== *)
theory Spec2Isabelle
  imports Quorum Listing Refinement Startup Schema Background
begin

text \<open>
  \<^bold>\<open>ObjeX\<close> is an S3-compatible object store in Go. A cluster is a fixed list of nodes. Each node keeps metadata in SQLite and
  blobs in files; an object belongs to the replica set that rendezvous hashing gives for its bucket and key, and its first node, the
  primary, coordinates writes and deletes with a write quorum. Reads ask a read quorum and take the newest version. A replica a
  write missed gets a hint, which a worker delivers later. This development models the Go code under
  \<^verbatim>\<open>src/internal\<close> and \<^verbatim>\<open>src/cmd/objex\<close> and proves the properties that make it correct.

  \<^bold>\<open>How the parts interact.\<close> \<^verbatim>\<open>main\<close> builds a node from its configuration. A request passes the request log, the metrics, the
  authentication middleware, the multiplexer and the router, and reaches a handler. The handler serves a peer's
  replica operation, forwards to the primary, calls the replication coordinator, or calls the object service. The coordinator uses
  placement, the object service of its own node and the replicator, whose calls are requests to the front ends of other nodes. The
  object service combines the metadata store with the blob storage. Workers deliver hints and schedule repairs, the health
  monitor restarts delivery for a peer that comes back, and maintenance removes what nothing refers to.

  \<^bold>\<open>Theories and code.\<close> Definitions carry the names of the code, with a suffix where two components use one name
  (\<open>PutObject\<close> of the store, \<open>PutObject_svc\<close> of the service, \<open>PutObject_coord\<close> of the coordinator).

  \<^item> \<^bold>\<open>Foundations.\<close> \<open>Prelude\<close>: the string functions of the Go library, 64-bit wrap-around (\<open>i64\<close>), results, and the interface
    \<open>keyed_store\<close>. \<open>Go_Hash\<close>: MD5, SHA-256 and HMAC on words. \<open>Utf8\<close>: runes. \<open>Streams\<close>: readers as a datatype, with the limit
    reader and the MD5 reader (\<^verbatim>\<open>object/limitreader.go\<close>, \<^verbatim>\<open>hash\<close>). \<open>Validation\<close>, \<open>BlobPath\<close>: bucket names, keys, and the path of a blob.
  \<^item> \<^bold>\<open>Cluster.\<close> \<open>Quorum\<close>, \<open>Cluster\<close> (membership and placement), \<open>PeerHealth\<close> (the reachability tracker and the monitor).
  \<^item> \<^bold>\<open>One node.\<close> \<open>Filesystem\<close> (\<^verbatim>\<open>storage/filesystem\<close>), \<open>Metadata\<close>, \<open>MetaStore\<close>, \<open>Listing\<close>, \<open>MetaMultipart\<close>, \<open>MetaHints\<close>
    (\<^verbatim>\<open>metadata/sqlite\<close>), \<open>Rows\<close> and \<open>Schema\<close> (row encoding, the database file and its migrations), \<open>ObjectService\<close>,
    \<open>ObjectMultipart\<close> (\<^verbatim>\<open>object\<close>), \<open>Jobs\<close> (\<^verbatim>\<open>jobs\<close>). Their properties are in \<open>ObjectProps\<close>, \<open>MultipartProps\<close> and \<open>Refinement\<close>.
  \<^item> \<^bold>\<open>Between nodes.\<close> \<open>Http\<close> (the wire, routing, the replica handlers), \<open>Replicator\<close>, \<open>Coordinator\<close>, \<open>Workers\<close>
    (\<^verbatim>\<open>replication\<close>), with \<open>ReplicatorProps\<close>, \<open>CoordinatorProps\<close>, \<open>ClusterLive\<close> and \<open>HintProps\<close>.
  \<^item> \<^bold>\<open>Front end.\<close> \<open>Auth\<close>, \<open>Verifier\<close> (\<^verbatim>\<open>auth\<close>: signature version 4, header and presigned), \<open>S3Xml\<close> (\<^verbatim>\<open>s3\<close>), \<open>Handler\<close> (\<^verbatim>\<open>api\<close>,
    \<^verbatim>\<open>cluster/proxy.go\<close>), with \<open>AmzDates\<close>, \<open>AuthProps\<close> and \<open>HandlerProps\<close>. \<open>Metrics\<close>: \<^verbatim>\<open>metrics\<close> and the request log.
  \<^item> \<^bold>\<open>The whole.\<close> \<open>Startup\<close> (\<^verbatim>\<open>config\<close>, \<^verbatim>\<open>main.go\<close>), \<open>System\<close> (the cluster as a state machine), \<open>Background\<close> (the ticker loops
    and the recovery of peers).

  \<^bold>\<open>State.\<close> A node (\<open>node_state\<close>) is a file system and a database; the cluster (\<open>world\<close>) maps node IDs to nodes and their
  services, and addresses to node IDs. A table is the list of its decoded rows in insertion order; \<open>row_roundtrip\<close>
  justifies this. A blob is the byte list in its file. Strings are byte lists and times are nanoseconds since 1970. Go's \<^verbatim>\<open>int64\<close> is \<open>int\<close>
  with \<open>i64\<close> wherever a computation can leave the range.

  \<^bold>\<open>Environment.\<close> Every call has an environment: clock, random bytes, free space, and the labels of the system calls and SQL
  statements that fail in it. So the theorems cover every pattern of failures, unless they ask for a healthy environment
  (\<open>healthy\<close>, \<open>db_quiet\<close>). The network (\<open>net\<close>) decides for every call whether it is lost, served with its reply lost, or
  served, how replies are cut into chunks, and in which order concurrent calls take effect. Operations of one
  node are atomic steps: the store holds a single connection, and the file operations of one object are not interleaved
  with those of another request for the same object. A response is its status, header and body, and what the handler wrote after
  them, if it did (\<open>rsSecond\<close>: the error after a forwarded body that broke off); the status 0 stands for a handler that panicked.

  \<^bold>\<open>What is shown.\<close>

  \<^item> \<^bold>\<open>Replication.\<close> Accepted quorums overlap; a read after an acknowledged write returns that write or is refused; an
    acknowledged write is on W replicas and every missed replica has a hint; a delivery round settles or reschedules each due hint,
    with bounded exponential backoff; the hints of a recovered peer are reset and a batch of them is tried at once; a healthy cluster
    replicates to all.
  \<^item> \<^bold>\<open>Placement.\<close> The replica set has the right size and members; adding a node moves objects only to it.
  \<^item> \<^bold>\<open>Object service.\<close> It refines a map from keys to contents; multipart completion concatenates the parts; replica versions
    never fall; maintenance is invisible to readers; paths stay below the storage root; the upload limit holds.
  \<^item> \<^bold>\<open>Metadata.\<close> Every step of the cluster keeps every database consistent; pages of a listing partition it; rows round-trip;
    files of older versions get exactly the columns, keys and indexes the store needs, without loss; the stored object counts
    are right but for two flaws.
  \<^item> \<^bold>\<open>Front end.\<close> Signed and presigned requests verify exactly in their windows; a signature binds the request; every effect is
    authorized; a request is forwarded at most once; the answer to every Range header is exact; an XML response reads as exactly the
    elements it was made of; requests are counted exactly.
  \<^item> \<^bold>\<open>Start-up.\<close> A node that comes up satisfies what the cluster theorems assume of its configuration.
  \<^item> \<^bold>\<open>Flaws.\<close> A few theorems describe behaviour the code does not intend: lost bytes at the upload limit, forged internal
    operations, dates that never expire, multipart objects that never verify, object counts that drift.

  \<^bold>\<open>Interfaces\<close> are locales, interpreted on the model: \<open>keyed_store\<close> by the file maps, \<open>overlapping_quorums\<close> by validated
  configurations, \<open>sender\<close> and \<open>ready_sender\<close> by the replica calls, \<open>node_relation\<close> by the reachability of databases (one proof
  that no request handler, worker or forwarding chain leaves a relation kept by the operations of one node), and
  \<open>simulation\<close> by the object service.

  \<^bold>\<open>Fuel and bounds.\<close> Loops are structural or have a termination proof. The only fuel is the depth of calls from node
  to node in \<open>call_node\<close>; \<open>forward_once\<close> shows that a depth of two gives the result of every larger one, and
  \<open>cluster_wellformed\<close> holds for every depth. The loops of the workers are functions of their sequence of wake-ups, so that a loop
  that is never cancelled is covered by its finite prefixes.

  \<^bold>\<open>Parameters.\<close> Outside code appears as arguments: the tokenizer of \<^verbatim>\<open>encoding/xml\<close>, \<^verbatim>\<open>encoding/json\<close> on configuration and metadata,
  \<^verbatim>\<open>url.Parse\<close> on configured addresses, and the requests an HTTP client sends when it follows a redirect (\<open>nFollow\<close>).
  Hypotheses about them are named, and witnesses instantiate them.

  \<^bold>\<open>Not modelled.\<close> The lifecycle of the HTTP server (listening, timeouts, signals, shutdown), which consists of library calls;
  the Prometheus client beyond the conditions under which its calls panic; the texts of log messages; the location of
  redirects; the file that a readiness probe writes and removes; case mapping of letters outside ASCII; the Go interfaces \<^verbatim>\<open>metadata.Store\<close> and \<^verbatim>\<open>storage.Storage\<close>, of which the concrete implementations are modelled; and the
  tests, scripts and documentation.
\<close>

end
